(* ===== verification/Prelude.thy ===== *)
theory Prelude
  imports Main "HOL-Library.Code_Target_Nat" "HOL-Library.Multiset"
    "HOL-Library.List_Lexorder" "HOL-Library.Char_ord"
begin

text \<open>
  Shared vocabulary of the development.

  \<^item> \<open>msg\<close>: the value of a Go \<open>fmt.Errorf\<close> or \<open>fmt.Sprintf\<close> call, kept as its format string
    and its arguments; \<open>msg_text\<close> renders it where the program looks at the text. An error that the
    Go standard library produces is \<open>StdErr\<close> with a short label: the program only tests it
    against nil or prints it.
  \<^item> \<open>'a res\<close>: a Go result pair \<open>(value, error)\<close> of which one is used, with \<open>and_then\<close> for the
    \<open>if err != nil { return err }\<close> idiom.
  \<^item> \<open>first_some\<close>: a loop that returns from its body; \<open>alookup\<close> and \<open>aput\<close>: a Go map as an
    association list.
\<close>

named_theorems scan_simps "loops that return from their body"
named_theorems amap_simps "association-list maps"

section \<open>Text of integers\<close>

fun show_nat :: "nat \<Rightarrow> string" where
  "show_nat n = (if n < 10 then [char_of (48 + n)]
                 else show_nat (n div 10) @ [char_of (48 + n mod 10)])"

declare show_nat.simps [simp del]

definition show_int :: "int \<Rightarrow> string" where
  "show_int i = (if i < 0 then CHR ''-'' # show_nat (nat (- i)) else show_nat (nat i))"

section \<open>Messages and errors\<close>

datatype msg = Errorf string "msg_arg list" | StdErr string
  and msg_arg = S string | Q string | D int | E msg | L "string list"

text \<open>
  Arguments: \<open>S\<close> for \<open>%s\<close>, \<open>Q\<close> for \<open>%q\<close>, \<open>D\<close> for \<open>%d\<close>, \<open>E\<close> for an error under \<open>%v\<close> or
  \<open>%w\<close>, \<open>L\<close> for a string slice under \<open>%v\<close>. \<open>go_quote\<close> follows \<open>strconv.Quote\<close> on ASCII and
  keeps the other bytes.
\<close>

definition hex_digit :: "nat \<Rightarrow> char" where
  "hex_digit n = (if n < 10 then char_of (48 + n) else char_of (87 + n))"

definition quote_char :: "char \<Rightarrow> string" where
  "quote_char c =
     (if c = CHR ''\"'' \<or> c = CHR 0x5C then [CHR 0x5C, c]
      else if c = CHR 0x0A then [CHR 0x5C, CHR ''n'']
      else if c = CHR 0x0D then [CHR 0x5C, CHR ''r'']
      else if c = CHR 0x09 then [CHR 0x5C, CHR ''t'']
      else if (of_char c :: nat) < 32 \<or> (of_char c :: nat) = 127
        then [CHR 0x5C, CHR ''x'', hex_digit (of_char c div 16), hex_digit (of_char c mod 16)]
      else [c])"

definition go_quote :: "string \<Rightarrow> string" where
  "go_quote s = CHR ''\"'' # concat (map quote_char s) @ [CHR ''\"'']"

fun join_with :: "string \<Rightarrow> string list \<Rightarrow> string" where
  "join_with sep [] = []"
| "join_with sep [x] = x"
| "join_with sep (x # xs) = x @ sep @ join_with sep xs"

fun sprintf :: "string \<Rightarrow> string list \<Rightarrow> string" where
  "sprintf (CHR ''%'' # v # cs) (a # as) =
     (if v = CHR ''%'' then CHR ''%'' # sprintf cs (a # as) else a @ sprintf cs as)"
| "sprintf (c # cs) as = c # sprintf cs as"
| "sprintf [] as = []"

primrec msg_text :: "msg \<Rightarrow> string" and arg_text :: "msg_arg \<Rightarrow> string" where
  "msg_text (Errorf f as) = sprintf f (map arg_text as)"
| "msg_text (StdErr s) = s"
| "arg_text (S s) = s"
| "arg_text (Q s) = go_quote s"
| "arg_text (D i) = show_int i"
| "arg_text (E e) = msg_text e"
| "arg_text (L xs) = ''['' @ join_with '' '' xs @ '']''"

section \<open>Results\<close>

type_synonym 'a res = "msg + 'a"

definition and_then :: "'a res \<Rightarrow> ('a \<Rightarrow> 'b res) \<Rightarrow> 'b res" where
  "and_then r f = (case r of Inl e \<Rightarrow> Inl e | Inr x \<Rightarrow> f x)"

lemma and_then_simps [simp]:
  "and_then (Inl e) f = Inl e"
  "and_then (Inr x) f = f x"
  by (simp_all add: and_then_def)

lemma and_then_Inr_iff:
  "and_then r f = Inr y \<longleftrightarrow> (\<exists>x. r = Inr x \<and> f x = Inr y)"
  by (cases r) auto

text \<open>\<open>fail_if\<close> turns the error of a check into the result of the caller.\<close>

definition fail_if :: "msg option \<Rightarrow> 'a res \<Rightarrow> 'a res" where
  "fail_if e r = (case e of Some m \<Rightarrow> Inl m | None \<Rightarrow> r)"

lemma fail_if_simps [simp]:
  "fail_if (Some m) r = Inl m"
  "fail_if None r = r"
  by (simp_all add: fail_if_def)

lemma fail_if_Inr_iff: "fail_if e r = Inr y \<longleftrightarrow> e = None \<and> r = Inr y"
  by (cases e) auto

text \<open>\<open>err_of\<close> keeps the error of a result, for a caller that only returns the error.\<close>

definition err_of :: "'a res \<Rightarrow> msg option" where
  "err_of r = (case r of Inl e \<Rightarrow> Some e | Inr _ \<Rightarrow> None)"

lemma err_of_simps [simp]:
  "err_of (Inl e) = Some e"
  "err_of (Inr x) = None"
  by (simp_all add: err_of_def)

lemma err_of_None_iff: "err_of r = None \<longleftrightarrow> (\<exists>x. r = Inr x)"
  by (cases r) auto

text \<open>\<open>wrap_err\<close> is \<open>fmt.Errorf("...%w", err)\<close> on an optional error.\<close>

definition wrap_err :: "(msg \<Rightarrow> msg) \<Rightarrow> msg option \<Rightarrow> msg option" where
  "wrap_err f e = map_option f e"

lemma wrap_err_None [simp]: "wrap_err f e = None \<longleftrightarrow> e = None"
  by (simp add: wrap_err_def)

section \<open>Loops that return from their body\<close>

fun first_some :: "('a \<Rightarrow> 'b option) \<Rightarrow> 'a list \<Rightarrow> 'b option" where
  "first_some f [] = None"
| "first_some f (x # xs) = (case f x of Some y \<Rightarrow> Some y | None \<Rightarrow> first_some f xs)"

lemma first_some_None_iff [scan_simps]:
  "first_some f xs = None \<longleftrightarrow> (\<forall>x \<in> set xs. f x = None)"
  by (induction xs) (auto split: option.splits)

lemma first_some_SomeD:
  "first_some f xs = Some y \<Longrightarrow> \<exists>x \<in> set xs. f x = Some y"
  by (induction xs) (auto split: option.splits)

lemma first_some_append:
  "first_some f (xs @ ys) =
     (case first_some f xs of Some y \<Rightarrow> Some y | None \<Rightarrow> first_some f ys)"
  by (induction xs) (auto split: option.splits)

lemma first_some_cong [fundef_cong]:
  "xs = ys \<Longrightarrow> (\<And>x. x \<in> set ys \<Longrightarrow> f x = g x) \<Longrightarrow> first_some f xs = first_some g ys"
  by (induction ys arbitrary: xs) (auto split: option.splits)

text \<open>The sequence \<open>if err := check(); err != nil { return err }\<close> over several checks.\<close>

definition first_err :: "msg option list \<Rightarrow> msg option" where
  "first_err es = first_some (\<lambda>e. e) es"

lemma first_err_simps [simp]:
  "first_err [] = None"
  "first_err (None # es) = first_err es"
  "first_err (Some e # es) = Some e"
  by (simp_all add: first_err_def)

lemma first_err_None_iff: "first_err es = None \<longleftrightarrow> (\<forall>e \<in> set es. e = None)"
  by (simp add: first_err_def scan_simps)

lemma first_err_Cons_None: "first_err (e # es) = None \<longleftrightarrow> e = None \<and> first_err es = None"
  by (simp add: first_err_None_iff)

section \<open>Go maps as association lists\<close>

text \<open>
  A Go map is an association list with distinct keys. \<open>alookup\<close> reads it, \<open>aput\<close> writes it
  (in place if the key is there, else at the end). Go leaves the iteration order open; where the
  program ranges over a map, the model takes the list's order, and only the text of an error
  message can depend on it.
\<close>

definition alookup :: "('k \<times> 'v) list \<Rightarrow> 'k \<Rightarrow> 'v option" where
  "alookup m k = map_of m k"

fun aput :: "'k \<Rightarrow> 'v \<Rightarrow> ('k \<times> 'v) list \<Rightarrow> ('k \<times> 'v) list" where
  "aput k v [] = [(k, v)]"
| "aput k v ((k', v') # m) = (if k = k' then (k, v) # m else (k', v') # aput k v m)"

lemma alookup_Nil [simp]: "alookup [] k = None"
  by (simp add: alookup_def)

lemma alookup_Cons [simp]: "alookup ((k, v) # m) k' = (if k' = k then Some v else alookup m k')"
  by (simp add: alookup_def)

lemma alookup_aput [amap_simps]: "alookup (aput k v m) k' = (if k' = k then Some v else alookup m k')"
  by (induction k v m rule: aput.induct) auto

lemma keys_aput [amap_simps]: "fst ` set (aput k v m) = insert k (fst ` set m)"
  by (induction k v m rule: aput.induct) auto

lemma distinct_aput [amap_simps]:
  "distinct (map fst m) \<Longrightarrow> distinct (map fst (aput k v m))"
  by (induction k v m rule: aput.induct) (auto simp: keys_aput)

lemma alookup_None_iff [amap_simps]: "alookup m k = None \<longleftrightarrow> k \<notin> fst ` set m"
  by (simp add: alookup_def map_of_eq_None_iff)

lemma alookup_SomeD: "alookup m k = Some v \<Longrightarrow> (k, v) \<in> set m"
  by (simp add: alookup_def map_of_SomeD)

lemma alookup_in_set: "distinct (map fst m) \<Longrightarrow> (k, v) \<in> set m \<Longrightarrow> alookup m k = Some v"
  by (simp add: alookup_def)

definition has_key :: "('k \<times> 'v) list \<Rightarrow> 'k \<Rightarrow> bool" where
  "has_key m k = (alookup m k \<noteq> None)"

lemma has_key_iff [amap_simps]: "has_key m k \<longleftrightarrow> k \<in> fst ` set m"
  by (simp add: has_key_def alookup_None_iff)

section \<open>Sorting a slice\<close>

text \<open>
  \<open>sort.Slice\<close> and \<open>sort.Strings\<close> as an insertion sort by the caller's \<open>less\<close>. Go's sort is not
  stable; the program only sorts slices whose elements \<open>less\<close> tells apart, or whose equal
  elements are the same value, and there the sorted slice is unique (locale \<open>key_order\<close>).
\<close>

fun insort_by :: "('a \<Rightarrow> 'a \<Rightarrow> bool) \<Rightarrow> 'a \<Rightarrow> 'a list \<Rightarrow> 'a list" where
  "insort_by lt x [] = [x]"
| "insort_by lt x (y # ys) = (if lt y x then y # insort_by lt x ys else x # y # ys)"

definition sort_slice :: "('a \<Rightarrow> 'a \<Rightarrow> bool) \<Rightarrow> 'a list \<Rightarrow> 'a list" where
  "sort_slice lt xs = foldr (insort_by lt) xs []"

lemma sort_slice_simps [simp]:
  "sort_slice lt [] = []"
  "sort_slice lt (x # xs) = insort_by lt x (sort_slice lt xs)"
  by (simp_all add: sort_slice_def)

lemma mset_insort_by [simp]: "mset (insort_by lt x xs) = add_mset x (mset xs)"
  by (induction xs) auto

lemma mset_sort_slice [simp]: "mset (sort_slice lt xs) = mset xs"
  by (induction xs) auto

lemma set_sort_slice [simp]: "set (sort_slice lt xs) = set xs"
  using mset_sort_slice by (rule mset_eq_setD)

lemma length_sort_slice [simp]: "length (sort_slice lt xs) = length xs"
  using mset_sort_slice by (rule mset_eq_length)

text \<open>
  A three-way comparison that orders the keys satisfying \<open>ok\<close> strictly. Sorting entries with
  distinct such keys gives the same list whatever the order they come in.
\<close>

locale key_order =
  fixes cmp :: "'k \<Rightarrow> 'k \<Rightarrow> int"
    and ok :: "'k \<Rightarrow> bool"
  assumes cmp_eq: "ok a \<Longrightarrow> ok b \<Longrightarrow> cmp a b = 0 \<longleftrightarrow> a = b"
    and cmp_swap: "ok a \<Longrightarrow> ok b \<Longrightarrow> cmp a b < 0 \<longleftrightarrow> 0 < cmp b a"
    and cmp_trans: "ok a \<Longrightarrow> ok b \<Longrightarrow> ok c \<Longrightarrow> cmp a b < 0 \<Longrightarrow> cmp b c < 0 \<Longrightarrow> cmp a c < 0"
begin

lemma insort_sorted:
  assumes "sorted_wrt (\<lambda>x y. cmp (fst x) (fst y) < 0) ys" "fst x \<notin> fst ` set ys"
    and "\<forall>y \<in> insert x (set ys). ok (fst y)"
  shows "sorted_wrt (\<lambda>x y. cmp (fst x) (fst y) < 0) (insort_by (\<lambda>x y. cmp (fst x) (fst y) < 0) x ys)"
  using assms
proof (induction ys)
  case (Cons y ys)
  have ok: "ok (fst x)" "ok (fst y)" "\<forall>z \<in> set ys. ok (fst z)" using Cons.prems(3) by auto
  have set_ins: "set (insort_by lt x zs) = insert x (set zs)" for lt zs
    by (induction zs) auto
  show ?case
  proof (cases "cmp (fst y) (fst x) < 0")
    case True
    with Cons ok show ?thesis by (auto simp: set_ins)
  next
    case False
    have "fst x \<noteq> fst y" using Cons.prems(2) by auto
    then have "cmp (fst y) (fst x) \<noteq> 0" using cmp_eq ok by metis
    with False have "0 < cmp (fst y) (fst x)" by simp
    then have xy: "cmp (fst x) (fst y) < 0" using cmp_swap ok by blast
    moreover have "cmp (fst x) (fst z) < 0" if "z \<in> set ys" for z
      using that Cons.prems(1) ok xy cmp_trans [of "fst x" "fst y" "fst z"] by simp
    ultimately show ?thesis using False Cons.prems(1) by simp
  qed
qed simp

lemma sort_sorted:
  assumes "distinct (map fst xs)" "\<forall>x \<in> set xs. ok (fst x)"
  shows "sorted_wrt (\<lambda>x y. cmp (fst x) (fst y) < 0) (sort_slice (\<lambda>x y. cmp (fst x) (fst y) < 0) xs)"
  using assms by (induction xs) (auto intro!: insort_sorted)

lemma sorted_unique:
  assumes "sorted_wrt (\<lambda>x y. cmp (fst x) (fst y) < 0) xs" "sorted_wrt (\<lambda>x y. cmp (fst x) (fst y) < 0) ys"
    and "mset xs = mset ys" "\<forall>x \<in> set xs. ok (fst x)"
  shows "xs = ys"
  using assms
proof (induction xs arbitrary: ys)
  case (Cons x xs)
  then obtain y ys' where ys: "ys = y # ys'" by (cases ys) auto
  have sets: "set ys = set (x # xs)" using Cons.prems(3) by (metis mset_eq_setD)
  have ok: "\<forall>z \<in> set ys. ok (fst z)" using Cons.prems(4) sets by simp
  have "x = y"
  proof (rule ccontr)
    assume "x \<noteq> y"
    moreover have "y \<in> set (x # xs)" "x \<in> set ys" using sets ys by auto
    ultimately have "cmp (fst x) (fst y) < 0" "cmp (fst y) (fst x) < 0"
      using Cons.prems(1,2) ys by auto
    then show False using cmp_swap [of "fst x" "fst y"] Cons.prems(4) ok ys by auto
  qed
  then show ?case using Cons ys by auto
qed simp

lemma sort_unique:
  assumes "distinct (map fst xs)" "\<forall>x \<in> set xs. ok (fst x)" "mset xs = mset ys"
  shows "sort_slice (\<lambda>x y. cmp (fst x) (fst y) < 0) xs = sort_slice (\<lambda>x y. cmp (fst x) (fst y) < 0) ys"
proof (rule sorted_unique)
  have d: "distinct (map fst ys)" using assms(1,3) by (metis mset_map mset_eq_imp_distinct_iff)
  have s: "set xs = set ys" using assms(3) by (rule mset_eq_setD)
  show "sorted_wrt (\<lambda>x y. cmp (fst x) (fst y) < 0) (sort_slice (\<lambda>x y. cmp (fst x) (fst y) < 0) xs)"
    using assms(1,2) by (rule sort_sorted)
  show "sorted_wrt (\<lambda>x y. cmp (fst x) (fst y) < 0) (sort_slice (\<lambda>x y. cmp (fst x) (fst y) < 0) ys)"
    using d assms(2) s by (intro sort_sorted) auto
qed (use assms in auto)

lemma sort_idem:
  assumes "distinct (map fst xs)" "\<forall>x \<in> set xs. ok (fst x)"
  shows "sort_slice (\<lambda>x y. cmp (fst x) (fst y) < 0) (sort_slice (\<lambda>x y. cmp (fst x) (fst y) < 0) xs)
    = sort_slice (\<lambda>x y. cmp (fst x) (fst y) < 0) xs"
  by (rule sort_unique [symmetric]) (use assms in auto)

end

section \<open>Machine integers\<close>

text \<open>
  Go's \<open>int\<close>, \<open>int64\<close> and \<open>time.Duration\<close> are 64-bit two's complement on the platforms the
  program targets; sums and products wrap.
\<close>

definition wrap64 :: "int \<Rightarrow> int" where
  "wrap64 i = (i + 2 ^ 63) mod 2 ^ 64 - 2 ^ 63"

definition in64 :: "int \<Rightarrow> bool" where
  "in64 i \<longleftrightarrow> - (2 ^ 63) \<le> i \<and> i < 2 ^ 63"

lemma wrap64_id: "in64 i \<Longrightarrow> wrap64 i = i"
  by (simp add: wrap64_def in64_def)

lemma wrap64_in64: "in64 (wrap64 i)"
  unfolding wrap64_def in64_def
  using pos_mod_bound [of "2 ^ 64 :: int" "i + 2 ^ 63"] pos_mod_sign [of "2 ^ 64 :: int" "i + 2 ^ 63"]
  by (simp del: pos_mod_bound pos_mod_sign)

end
