(* ===== verification/Go_Encoding.thy ===== *)
theory Go_Encoding
  imports Go_Text
begin

text \<open>
  What the program uses of \<open>encoding/hex\<close>, \<open>encoding/base64\<close>, \<open>unicode/utf8\<close>, \<open>unicode/utf16\<close>
  and \<open>strings.TrimSpace\<close>, with the round trips the record and anchor formats rest on.
\<close>

section \<open>encoding/hex\<close>

definition hex_val :: "char \<Rightarrow> nat option" where
  "hex_val c =
     (if 48 \<le> code c \<and> code c \<le> 57 then Some (code c - 48)
      else if 97 \<le> code c \<and> code c \<le> 102 then Some (code c - 87)
      else if 65 \<le> code c \<and> code c \<le> 70 then Some (code c - 55)
      else None)"

fun hex_encode :: "string \<Rightarrow> string" where
  "hex_encode [] = []"
| "hex_encode (c # s) = hex_digit (code c div 16) # hex_digit (code c mod 16) # hex_encode s"

fun hex_decode :: "string \<Rightarrow> string option" where
  "hex_decode [] = Some []"
| "hex_decode [c] = None"
| "hex_decode (a # b # s) =
     (case (hex_val a, hex_val b, hex_decode s) of
        (Some x, Some y, Some r) \<Rightarrow> Some (chr (16 * x + y) # r)
      | _ \<Rightarrow> None)"

lemma code_div16 [simp]: "code c div 16 < 16"
  by (rule less_mult_imp_div_less) simp

lemma code_hex_digit: "n < 16 \<Longrightarrow> code (hex_digit n) = (if n < 10 then 48 + n else 87 + n)"
  by (simp add: hex_digit_def)

lemma hex_val_digit: "n < 16 \<Longrightarrow> hex_val (hex_digit n) = Some n"
  by (simp add: hex_val_def code_hex_digit)

lemma hex_decode_encode [simp]: "hex_decode (hex_encode s) = Some s"
proof (induction s)
  case (Cons c s)
  have "code c div 16 < 16" by (rule code_div16)
  with Cons show ?case by (simp add: hex_val_digit)
qed simp

lemma length_hex_encode [simp]: "length (hex_encode s) = 2 * length s"
  by (induction s) auto

lemma hex_encode_inj: "hex_encode s = hex_encode t \<longleftrightarrow> s = t"
  by (metis hex_decode_encode option.inject)

lemma hex_decode_length: "hex_decode s = Some r \<Longrightarrow> length s = 2 * length r"
  by (induction s arbitrary: r rule: hex_decode.induct) (auto split: option.splits)

lemma lower_hex_digit: "n < 16 \<Longrightarrow> lower_char (hex_digit n) = hex_digit n"
  by (simp add: lower_char_def code_hex_digit)

lemma to_lower_hex_encode [simp]: "to_lower (hex_encode s) = hex_encode s"
  by (induction s) (auto simp: to_lower_def lower_hex_digit)

section \<open>encoding/base64\<close>

text \<open>
  \<open>b64_char\<close> and \<open>b64_val\<close> take the alphabet's last two characters: \<open>+/\<close> for the standard
  encoding, \<open>-_\<close> for the URL one. Decoding skips carriage returns and newlines, as Go does;
  \<open>strict\<close> refuses non-zero trailing bits.
\<close>

definition b64_char :: "bool \<Rightarrow> nat \<Rightarrow> char" where
  "b64_char url n =
     (if n < 26 then chr (65 + n)
      else if n < 52 then chr (71 + n)
      else if n < 62 then chr (n - 4)
      else if n = 62 then (if url then CHR ''-'' else CHR ''+'')
      else (if url then CHR ''_'' else CHR ''/''))"

definition b64_val :: "bool \<Rightarrow> char \<Rightarrow> nat option" where
  "b64_val url c =
     (if 65 \<le> code c \<and> code c \<le> 90 then Some (code c - 65)
      else if 97 \<le> code c \<and> code c \<le> 122 then Some (code c - 71)
      else if 48 \<le> code c \<and> code c \<le> 57 then Some (code c + 4)
      else if c = (if url then CHR ''-'' else CHR ''+'') then Some 62
      else if c = (if url then CHR ''_'' else CHR ''/'') then Some 63
      else None)"

fun b64_encode :: "bool \<Rightarrow> bool \<Rightarrow> string \<Rightarrow> string" where
  "b64_encode url pad [] = []"
| "b64_encode url pad [a] =
     [b64_char url (code a div 4), b64_char url (code a mod 4 * 16)]
     @ (if pad then ''=='' else [])"
| "b64_encode url pad [a, b] =
     [b64_char url (code a div 4), b64_char url (code a mod 4 * 16 + code b div 16),
      b64_char url (code b mod 16 * 4)] @ (if pad then ''='' else [])"
| "b64_encode url pad (a # b # c # s) =
     b64_char url (code a div 4) # b64_char url (code a mod 4 * 16 + code b div 16)
     # b64_char url (code b mod 16 * 4 + code c div 64) # b64_char url (code c mod 64)
     # b64_encode url pad s"

text \<open>The last, incomplete quantum: two or three characters carry one or two bytes.\<close>

definition b64_tail1 :: "bool \<Rightarrow> bool \<Rightarrow> char \<Rightarrow> char \<Rightarrow> string option" where
  "b64_tail1 url strict a b =
     (case (b64_val url a, b64_val url b) of
        (Some x, Some y) \<Rightarrow>
          if strict \<and> y mod 16 \<noteq> 0 then None else Some [chr (x * 4 + y div 16)]
      | _ \<Rightarrow> None)"

definition b64_tail2 :: "bool \<Rightarrow> bool \<Rightarrow> char \<Rightarrow> char \<Rightarrow> char \<Rightarrow> string option" where
  "b64_tail2 url strict a b c =
     (case (b64_val url a, b64_val url b, b64_val url c) of
        (Some x, Some y, Some z) \<Rightarrow>
          if strict \<and> z mod 4 \<noteq> 0 then None
          else Some [chr (x * 4 + y div 16), chr (y mod 16 * 16 + z div 4)]
      | _ \<Rightarrow> None)"

fun b64_quanta :: "bool \<Rightarrow> bool \<Rightarrow> bool \<Rightarrow> string \<Rightarrow> string option" where
  "b64_quanta url pad strict [] = Some []"
| "b64_quanta url pad strict [a] = None"
| "b64_quanta url pad strict [a, b] = (if pad then None else b64_tail1 url strict a b)"
| "b64_quanta url pad strict [a, b, c] = (if pad then None else b64_tail2 url strict a b c)"
| "b64_quanta url pad strict (a # b # c # d # s) =
     (if pad \<and> c = CHR ''='' \<and> d = CHR ''='' \<and> s = [] then b64_tail1 url strict a b
      else if pad \<and> d = CHR ''='' \<and> s = [] then b64_tail2 url strict a b c
      else (case (b64_val url a, b64_val url b, b64_val url c, b64_val url d,
                  b64_quanta url pad strict s) of
              (Some w, Some x, Some y, Some z, Some r) \<Rightarrow>
                Some (chr (w * 4 + x div 16) # chr (x mod 16 * 16 + y div 4)
                      # chr (y mod 4 * 64 + z) # r)
            | _ \<Rightarrow> None))"

definition b64_decode :: "bool \<Rightarrow> bool \<Rightarrow> bool \<Rightarrow> string \<Rightarrow> string option" where
  "b64_decode url pad strict s =
     b64_quanta url pad strict (filter (\<lambda>c. c \<noteq> CHR 0x0A \<and> c \<noteq> CHR 0x0D) s)"

abbreviation rawurl_encode :: "string \<Rightarrow> string" where
  "rawurl_encode \<equiv> b64_encode True False"

abbreviation rawurl_decode_strict :: "string \<Rightarrow> string option" where
  "rawurl_decode_strict \<equiv> b64_decode True False True"

abbreviation std_encode :: "string \<Rightarrow> string" where
  "std_encode \<equiv> b64_encode False True"

abbreviation std_decode :: "string \<Rightarrow> string option" where
  "std_decode \<equiv> b64_decode False True False"

lemma code_b64_char:
  "n < 64 \<Longrightarrow> code (b64_char url n) =
     (if n < 26 then 65 + n else if n < 52 then 71 + n else if n < 62 then n - 4
      else if n = 62 then (if url then 45 else 43) else (if url then 95 else 47))"
  by (simp add: b64_char_def chr_def)

lemma char_eq_code: "c = d \<longleftrightarrow> code c = code d"
  by (metis chr_code)

lemma b64_val_char [simp]:
  assumes "n < 64"
  shows "b64_val url (b64_char url n) = Some n"
proof -
  consider "n < 26" | "26 \<le> n" "n < 52" | "52 \<le> n" "n < 62" | "n = 62" | "n = 63"
    using assms by linarith
  then show ?thesis
  proof cases
    case 4
    then show ?thesis by (cases url) (simp_all add: b64_char_def b64_val_def)
  next
    case 5
    then show ?thesis by (cases url) (simp_all add: b64_char_def b64_val_def)
  qed (use assms in \<open>auto simp: b64_val_def code_b64_char\<close>)
qed

lemma b64_char_not_special [simp]:
  assumes "n < 64"
  shows "b64_char url n \<noteq> CHR ''=''" "b64_char url n \<noteq> CHR 0x0A" "b64_char url n \<noteq> CHR 0x0D"
    "b64_char url n \<noteq> CHR ''.''"
  using assms by (auto simp: char_eq_code code_b64_char)

lemma mul_add_less:
  assumes "k < m" "r < (d::nat)"
  shows "k * d + r < m * d"
proof -
  have "k * d + r < Suc k * d" using assms(2) by simp
  also have "Suc k * d \<le> m * d" using assms(1) by (intro mult_le_mono1) simp
  finally show ?thesis .
qed

lemma code_div4: "code c div 4 < 64" and code_div64: "code c div 64 < 4"
  by (rule less_mult_imp_div_less, simp)+

lemma b64_arith [simp]:
  "code a div 4 < 64" "code a mod 4 * 16 < 64" "code a mod 4 * 16 + code b div 16 < 64"
  "code b mod 16 * 4 < 64" "code b mod 16 * 4 + code c div 64 < 64" "code c mod 64 < 64"
proof -
  show "code a mod 4 * 16 + code b div 16 < 64"
    using mul_add_less [of "code a mod 4" 4 "code b div 16" 16] by simp
  show "code b mod 16 * 4 + code c div 64 < 64"
    using mul_add_less [of "code b mod 16" 16 "code c div 64" 4] code_div64 by simp
  have "code a mod 4 < 4" "code b mod 16 < 16" by simp_all
  then show "code a mod 4 * 16 < 64" "code b mod 16 * 4 < 64" by linarith+
qed (simp_all add: code_div4)

lemma b64_joins [simp]:
  "code c div 16 div 16 = 0" "code c div 16 mod 16 = code c div 16"
  "code c div 64 div 4 = 0" "code c div 64 mod 4 = code c div 64"
  by (simp_all add: code_div64)

lemma b64_quanta_encode: "b64_quanta url pad strict (b64_encode url pad s) = Some s"
  by (induction url pad s rule: b64_encode.induct)
     (simp_all add: b64_tail1_def b64_tail2_def)

definition b64_alphabet :: "bool \<Rightarrow> char set" where
  "b64_alphabet url = b64_char url ` {..<64}"

lemma b64_char_in [intro]: "n < 64 \<Longrightarrow> b64_char url n \<in> b64_alphabet url"
  by (auto simp: b64_alphabet_def)

lemma b64_encode_chars:
  "set (b64_encode url pad s) \<subseteq> b64_alphabet url \<union> (if pad then {CHR ''=''} else {})"
proof (induction url pad s rule: b64_encode.induct)
  case (4 url pad a b c s)
  then show ?case by (auto intro!: b64_char_in)
qed (auto intro!: b64_char_in)

lemma b64_alphabet_special:
  "c \<in> b64_alphabet url \<Longrightarrow> c \<noteq> CHR ''='' \<and> c \<noteq> CHR 0x0A \<and> c \<noteq> CHR 0x0D \<and> c \<noteq> CHR ''.''"
  by (auto simp: b64_alphabet_def)

lemma b64_decode_encode [simp]: "b64_decode url pad strict (b64_encode url pad s) = Some s"
proof -
  have "filter (\<lambda>c. c \<noteq> CHR 0x0A \<and> c \<noteq> CHR 0x0D) (b64_encode url pad s) = b64_encode url pad s"
    using b64_encode_chars [of url pad s] b64_alphabet_special [of _ url]
    by (auto simp: filter_id_conv split: if_splits)
  then show ?thesis by (simp add: b64_decode_def b64_quanta_encode)
qed

section \<open>unicode/utf8\<close>

text \<open>
  A rune is a natural number. \<open>decode_rune\<close> is \<open>utf8.DecodeRune\<close>: the rune and its width, or
  U+FFFD with width 1 on an encoding that is not shortest-form UTF-8 of a scalar value.
\<close>

definition rune_error :: nat where
  "rune_error = 65533"

definition is_surrogate :: "nat \<Rightarrow> bool" where
  "is_surrogate r \<longleftrightarrow> 55296 \<le> r \<and> r < 57344"

definition valid_rune :: "nat \<Rightarrow> bool" where
  "valid_rune r \<longleftrightarrow> r < 1114112 \<and> \<not> is_surrogate r"

definition cont_in :: "nat \<Rightarrow> nat \<Rightarrow> char \<Rightarrow> bool" where
  "cont_in lo hi c \<longleftrightarrow> lo \<le> code c \<and> code c \<le> hi"

abbreviation is_cont :: "char \<Rightarrow> bool" where
  "is_cont \<equiv> cont_in 128 191"

definition decode_rune3 :: "nat \<Rightarrow> nat \<Rightarrow> nat \<Rightarrow> string \<Rightarrow> nat \<times> nat" where
  "decode_rune3 n lo hi bs =
     (case bs of
        b1 # b2 # _ \<Rightarrow>
          if cont_in lo hi b1 \<and> is_cont b2
          then (((n - 224) * 64 + (code b1 - 128)) * 64 + (code b2 - 128), 3)
          else (rune_error, 1)
      | _ \<Rightarrow> (rune_error, 1))"

definition decode_rune4 :: "nat \<Rightarrow> nat \<Rightarrow> nat \<Rightarrow> string \<Rightarrow> nat \<times> nat" where
  "decode_rune4 n lo hi bs =
     (case bs of
        b1 # b2 # b3 # _ \<Rightarrow>
          if cont_in lo hi b1 \<and> is_cont b2 \<and> is_cont b3
          then ((((n - 240) * 64 + (code b1 - 128)) * 64 + (code b2 - 128)) * 64 + (code b3 - 128), 4)
          else (rune_error, 1)
      | _ \<Rightarrow> (rune_error, 1))"

fun decode_rune :: "string \<Rightarrow> nat \<times> nat" where
  "decode_rune [] = (rune_error, 0)"
| "decode_rune (b0 # bs) =
     (let n = code b0 in
      if n < 128 then (n, 1)
      else if n < 194 then (rune_error, 1)
      else if n < 224 then
        (case bs of
           b1 # _ \<Rightarrow> if is_cont b1 then ((n - 192) * 64 + (code b1 - 128), 2) else (rune_error, 1)
         | [] \<Rightarrow> (rune_error, 1))
      else if n = 224 then decode_rune3 n 160 191 bs
      else if n = 237 then decode_rune3 n 128 159 bs
      else if n < 240 then decode_rune3 n 128 191 bs
      else if n = 240 then decode_rune4 n 144 191 bs
      else if n < 244 then decode_rune4 n 128 191 bs
      else if n = 244 then decode_rune4 n 128 143 bs
      else (rune_error, 1))"

definition encode_rune :: "nat \<Rightarrow> string" where
  "encode_rune r0 =
     (let r = (if valid_rune r0 then r0 else rune_error) in
      if r < 128 then [chr r]
      else if r < 2048 then [chr (192 + r div 64), chr (128 + r mod 64)]
      else if r < 65536 then
        [chr (224 + r div 4096), chr (128 + r div 64 mod 64), chr (128 + r mod 64)]
      else
        [chr (240 + r div 262144), chr (128 + r div 4096 mod 64),
         chr (128 + r div 64 mod 64), chr (128 + r mod 64)])"

definition encode_runes :: "nat list \<Rightarrow> string" where
  "encode_runes rs = concat (map encode_rune rs)"

lemma encode_runes_simps [simp]:
  "encode_runes [] = []"
  "encode_runes (r # rs) = encode_rune r @ encode_runes rs"
  "encode_runes (rs @ rs') = encode_runes rs @ encode_runes rs'"
  by (simp_all add: encode_runes_def)

lemma decode_rune3_width:
  "0 < snd (decode_rune3 n lo hi bs) \<and> snd (decode_rune3 n lo hi bs) \<le> Suc (length bs)"
  by (simp add: decode_rune3_def split: list.splits)

lemma decode_rune4_width:
  "0 < snd (decode_rune4 n lo hi bs) \<and> snd (decode_rune4 n lo hi bs) \<le> Suc (length bs)"
  by (simp add: decode_rune4_def split: list.splits)

lemma decode_rune_width:
  "0 < snd (decode_rune (c # s)) \<and> snd (decode_rune (c # s)) \<le> Suc (length s)"
proof -
  note w = decode_rune3_width decode_rune4_width
    decode_rune3_width [where bs = "[]", simplified] decode_rune4_width [where bs = "[]", simplified]
    decode_rune3_width [where bs = "b # bs" for b bs, simplified]
    decode_rune4_width [where bs = "b # bs" for b bs, simplified]
  show ?thesis by (cases s) (simp_all add: Let_def w)
qed

declare decode_rune.simps(2) [simp del]

lemma decode_rune_pos [simp]: "0 < snd (decode_rune (c # s))" "snd (decode_rune (c # s)) \<noteq> 0"
  using decode_rune_width [of c s] by simp_all

text \<open>\<open>runes s\<close> is \<open>[]rune(s)\<close>.\<close>

function runes :: "string \<Rightarrow> nat list" where
  "runes [] = []"
| "runes (c # s) = fst (decode_rune (c # s)) # runes (drop (snd (decode_rune (c # s))) (c # s))"
  by pat_completeness auto
termination
  by (relation "measure length") simp_all

declare runes.simps(2) [simp del]

text \<open>The encoding of a scalar value decodes to it, whatever follows.\<close>

lemma decode_encode_2:
  assumes "128 \<le> r" "r < 2048"
  shows "decode_rune (chr (192 + r div 64) # chr (128 + r mod 64) # s) = (r, 2)"
proof -
  have q: "2 \<le> r div 64" "r div 64 < 32"
    using assms div_le_mono [of 128 r 64] by (simp_all add: less_mult_imp_div_less)
  have m: "r mod 64 < 64" by simp
  have c0: "code (chr (192 + r div 64)) = 192 + r div 64" using q by (simp add: code_chr)
  have c1: "code (chr (128 + r mod 64)) = 128 + r mod 64" using m by (simp add: code_chr)
  from q m show ?thesis
    by (simp add: decode_rune.simps Let_def c0 c1 cont_in_def)
qed

lemma decode_encode_3:
  assumes "2048 \<le> r" "r < 65536" "\<not> is_surrogate r"
  shows "decode_rune (chr (224 + r div 4096) # chr (128 + r div 64 mod 64) # chr (128 + r mod 64) # s)
    = (r, 3)"
proof -
  define p where "p = r div 4096"
  define k where "k = r div 64 mod 64"
  define m where "m = r mod 64"
  have b: "p < 16" "k < 64" "m < 64"
    using assms by (simp_all add: p_def k_def m_def less_mult_imp_div_less)
  have "r div 64 = p * 64 + k"
    using div_mult_mod_eq [of "r div 64" 64] by (simp add: p_def k_def div_mult2_eq [symmetric])
  then have r: "r = (p * 64 + k) * 64 + m"
    using div_mult_mod_eq [of r 64] by (simp add: m_def)
  have low: "p = 0 \<Longrightarrow> 32 \<le> k" using assms(1) b r by simp
  have sur: "p = 13 \<Longrightarrow> k < 32" using assms(3) b r by (auto simp: is_surrogate_def)
  have c: "code (chr (224 + p)) = 224 + p" "code (chr (128 + k)) = 128 + k" "code (chr (128 + m)) = 128 + m"
    using b by (simp_all add: code_chr)
  have d: "decode_rune3 (224 + p) lo hi (chr (128 + k) # chr (128 + m) # s) = (r, 3)"
    if "lo \<le> 128 + k" "128 + k \<le> hi" for lo hi
    using that b r by (simp add: decode_rune3_def c cont_in_def)
  have "decode_rune (chr (224 + p) # chr (128 + k) # chr (128 + m) # s) = (r, 3)"
  proof -
    consider "p = 0" | "p = 13" | "p \<noteq> 0" "p \<noteq> 13" by blast
    then show ?thesis
      using d [of 160 191] d [of 128 159] d [of 128 191] b low sur
      by cases (auto simp add: decode_rune.simps Let_def code_chr)
  qed
  then show ?thesis by (simp add: p_def k_def m_def)
qed

lemma decode_encode_4:
  assumes "65536 \<le> r" "r < 1114112"
  shows "decode_rune (chr (240 + r div 262144) # chr (128 + r div 4096 mod 64)
    # chr (128 + r div 64 mod 64) # chr (128 + r mod 64) # s) = (r, 4)"
proof -
  define p where "p = r div 262144"
  define j where "j = r div 4096 mod 64"
  define k where "k = r div 64 mod 64"
  define m where "m = r mod 64"
  have b: "p < 5" "j < 64" "k < 64" "m < 64"
    using assms by (simp_all add: p_def j_def k_def m_def less_mult_imp_div_less)
  have "r div 4096 = p * 64 + j"
    using div_mult_mod_eq [of "r div 4096" 64] by (simp add: p_def j_def div_mult2_eq [symmetric])
  then have "r div 64 = (p * 64 + j) * 64 + k"
    using div_mult_mod_eq [of "r div 64" 64] by (simp add: k_def div_mult2_eq [symmetric])
  then have r: "r = ((p * 64 + j) * 64 + k) * 64 + m"
    using div_mult_mod_eq [of r 64] by (simp add: m_def)
  have low: "p = 0 \<Longrightarrow> 16 \<le> j" using assms(1) b r by simp
  have high: "p = 4 \<Longrightarrow> j < 16" using assms(2) b r by simp
  have c: "code (chr (240 + p)) = 240 + p" "code (chr (128 + j)) = 128 + j"
    "code (chr (128 + k)) = 128 + k" "code (chr (128 + m)) = 128 + m"
    using b by (simp_all add: code_chr)
  have d: "decode_rune4 (240 + p) lo hi (chr (128 + j) # chr (128 + k) # chr (128 + m) # s) = (r, 4)"
    if "lo \<le> 128 + j" "128 + j \<le> hi" for lo hi
    using that b r by (simp add: decode_rune4_def c cont_in_def)
  have "decode_rune (chr (240 + p) # chr (128 + j) # chr (128 + k) # chr (128 + m) # s) = (r, 4)"
  proof -
    consider "p = 0" | "p = 4" | "p \<noteq> 0" "p < 4" using b by linarith
    then show ?thesis
      using d [of 144 191] d [of 128 191] d [of 128 143] b low high
      by cases (auto simp add: decode_rune.simps Let_def code_chr)
  qed
  then show ?thesis by (simp add: p_def j_def k_def m_def)
qed

lemma decode_rune_ascii [simp]: "code c < 128 \<Longrightarrow> decode_rune (c # s) = (code c, 1)"
  by (simp add: decode_rune.simps Let_def)

lemma decode_encode_rune:
  assumes "valid_rune r"
  shows "decode_rune (encode_rune r @ s) = (r, length (encode_rune r))"
proof -
  consider "r < 128" | "128 \<le> r" "r < 2048" | "2048 \<le> r" "r < 65536" | "65536 \<le> r" "r < 1114112"
    using assms unfolding valid_rune_def by linarith
  then show ?thesis
    using assms
    by cases (simp_all add: encode_rune_def Let_def code_chr decode_encode_2 decode_encode_3
        decode_encode_4 valid_rune_def)
qed

lemma encode_rune_not_Nil [simp]: "encode_rune r \<noteq> []"
  by (simp add: encode_rune_def Let_def)

lemma runes_append_rune: "valid_rune r \<Longrightarrow> runes (encode_rune r @ s) = r # runes s"
proof -
  assume r: "valid_rune r"
  obtain c t where e: "encode_rune r @ s = c # t" by (cases "encode_rune r @ s") auto
  then show ?thesis
    using decode_encode_rune [OF r, of s]
    by (simp add: e runes.simps(2)) (metis append_eq_conv_conj e)
qed

lemma runes_encode_runes: "list_all valid_rune rs \<Longrightarrow> runes (encode_runes rs) = rs"
  by (induction rs) (simp_all add: runes_append_rune)

lemma encode_runes_inj:
  "list_all valid_rune rs \<Longrightarrow> list_all valid_rune rs' \<Longrightarrow> encode_runes rs = encode_runes rs' \<Longrightarrow> rs = rs'"
  by (metis runes_encode_runes)

definition valid_utf8 :: "string \<Rightarrow> bool" where
  "valid_utf8 s \<longleftrightarrow> encode_runes (runes s) = s \<and> list_all valid_rune (runes s)"

lemma valid_utf8_encode: "list_all valid_rune rs \<Longrightarrow> valid_utf8 (encode_runes rs)"
  by (simp add: valid_utf8_def runes_encode_runes)

lemma valid_utf8_iff: "valid_utf8 s \<longleftrightarrow> (\<exists>rs. list_all valid_rune rs \<and> s = encode_runes rs)"
  by (metis valid_utf8_def valid_utf8_encode)

section \<open>unicode/utf16\<close>

definition utf16_units :: "nat \<Rightarrow> nat list" where
  "utf16_units r =
     (if r < 65536 then (if is_surrogate r then [rune_error] else [r])
      else if r < 1114112 then [55296 + (r - 65536) div 1024, 56320 + (r - 65536) mod 1024]
      else [rune_error])"

definition utf16_encode :: "nat list \<Rightarrow> nat list" where
  "utf16_encode rs = concat (map utf16_units rs)"

section \<open>strings.TrimSpace\<close>

definition is_space_rune :: "nat \<Rightarrow> bool" where
  "is_space_rune r \<longleftrightarrow>
     (9 \<le> r \<and> r \<le> 13) \<or> r = 32 \<or> r = 133 \<or> r = 160 \<or> r = 5760 \<or> (8192 \<le> r \<and> r \<le> 8202)
     \<or> r = 8232 \<or> r = 8233 \<or> r = 8239 \<or> r = 8287 \<or> r = 12288"

function trim_left :: "string \<Rightarrow> string" where
  "trim_left [] = []"
| "trim_left (c # s) =
     (if is_space_rune (fst (decode_rune (c # s)))
      then trim_left (drop (snd (decode_rune (c # s))) (c # s)) else c # s)"
  by pat_completeness auto
termination
  by (relation "measure length") simp_all

declare trim_left.simps(2) [simp del]

text \<open>
  On the right Go reads runes backwards; a suffix of whitespace runes is the same set of bytes
  either way, so the model drops trailing bytes while what is left ends in a whitespace rune.
\<close>

definition last_rune_space :: "string \<Rightarrow> nat option" where
  "last_rune_space s =
     (let ends = (\<lambda>k. k \<le> length s \<and> decode_rune (drop (length s - k) s) = (fst (decode_rune (drop (length s - k) s)), k)
                    \<and> is_space_rune (fst (decode_rune (drop (length s - k) s))))
      in if ends 1 then Some 1 else if ends 2 then Some 2 else if ends 3 then Some 3 else None)"

function trim_right :: "string \<Rightarrow> string" where
  "trim_right s =
     (if s = [] then []
      else (case last_rune_space s of
              None \<Rightarrow> s
            | Some k \<Rightarrow> trim_right (take (length s - k) s)))"
  by pat_completeness auto
termination
  by (relation "measure length")
     (auto simp: last_rune_space_def Let_def split: if_splits)

declare trim_right.simps [simp del]

definition trim_space :: "string \<Rightarrow> string" where
  "trim_space s = trim_right (trim_left s)"

end
