(* ===== verification/Go_Json.thy ===== *)
theory Go_Json
  imports Go_Encoding
begin

text \<open>
  What the program uses of Go's \<open>encoding/json\<close>.

  \<^item> \<open>lex\<close> splits a document into lexemes; \<open>LBad\<close> ends the list at a lexical error. String lexemes
    hold the unquoted text (invalid UTF-8 and lone surrogates become U+FFFD), number lexemes their
    literal.
  \<^item> \<open>decoder\<close>, \<open>dec_token\<close> and \<open>dec_more\<close> are \<open>json.Decoder\<close> with \<open>UseNumber\<close>: the token reader
    with its state machine for commas and colons.
  \<^item> \<open>parse_json\<close> is the grammar that \<open>json.Unmarshal\<close> checks, to a tree \<open>json\<close> whose objects keep
    the order and the duplicates of the text. A \<open>json.RawMessage\<close> is such a tree.
  \<^item> \<open>dec_string\<close>, \<open>dec_int\<close>, \<open>dec_fields\<close> and their kin are the typed decoding of
    \<open>json.Unmarshal\<close>: they update a Go value and keep the first type error, as Go does.
\<close>

section \<open>Lexemes\<close>

datatype lexeme =
  LBrace | RBrace | LBrack | RBrack | Comma | Colon
  | LStr string | LNum string | LTrue | LFalse | LNull | LBad

definition getu4 :: "string \<Rightarrow> nat option" where
  "getu4 s =
     (case s of
        b # u # h1 # h2 # h3 # h4 # _ \<Rightarrow>
          if b = CHR 0x5C \<and> u = CHR ''u'' then
            (case (hex_val h1, hex_val h2, hex_val h3, hex_val h4) of
               (Some a, Some b, Some c, Some d) \<Rightarrow> Some (((a * 16 + b) * 16 + c) * 16 + d)
             | _ \<Rightarrow> None)
          else None
      | _ \<Rightarrow> None)"

definition utf16_decode :: "nat \<Rightarrow> nat \<Rightarrow> nat option" where
  "utf16_decode r1 r2 =
     (if 55296 \<le> r1 \<and> r1 < 56320 \<and> 56320 \<le> r2 \<and> r2 < 57344
      then Some ((r1 - 55296) * 1024 + (r2 - 56320) + 65536) else None)"

definition simple_escape :: "string \<Rightarrow> nat option" where
  "simple_escape s =
     (case s of [] \<Rightarrow> None
      | c # _ \<Rightarrow>
          if c = CHR ''\"'' \<or> c = CHR 0x5C \<or> c = CHR ''/'' then Some (code c)
          else if c = CHR ''b'' then Some 8 else if c = CHR ''f'' then Some 12
          else if c = CHR ''n'' then Some 10 else if c = CHR ''r'' then Some 13
          else if c = CHR ''t'' then Some 9 else None)"

definition cons_rune :: "nat \<Rightarrow> (nat list \<times> string) option \<Rightarrow> (nat list \<times> string) option" where
  "cons_rune r res = map_option (\<lambda>(rs, t). (r # rs, t)) res"

function lex_str :: "string \<Rightarrow> (nat list \<times> string) option" where
  "lex_str [] = None"
| "lex_str (c # s) =
     (if c = CHR ''\"'' then Some ([], s)
      else if c = CHR 0x5C then
        (case simple_escape s of
           Some r \<Rightarrow> cons_rune r (lex_str (drop 1 s))
         | None \<Rightarrow>
             (case getu4 (c # s) of
                None \<Rightarrow> None
              | Some r1 \<Rightarrow>
                  if is_surrogate r1 then
                    (case Option.bind (getu4 (drop 5 s)) (utf16_decode r1) of
                       Some r \<Rightarrow> cons_rune r (lex_str (drop 11 s))
                     | None \<Rightarrow> cons_rune rune_error (lex_str (drop 5 s)))
                  else cons_rune r1 (lex_str (drop 5 s))))
      else if code c < 32 then None
      else cons_rune (fst (decode_rune (c # s)))
             (lex_str (drop (snd (decode_rune (c # s))) (c # s))))"
  by pat_completeness auto
termination
  by (relation "measure length") simp_all

declare lex_str.simps(2) [simp del]

lemma cons_rune_Some:
  "cons_rune r res = Some (rs, t) \<longleftrightarrow> (\<exists>rs'. rs = r # rs' \<and> res = Some (rs', t))"
  by (cases res) (auto simp: cons_rune_def)

lemma lex_str_step:
  "lex_str (c # s) = Some (rs, t) \<Longrightarrow> t = s \<or> (\<exists>n rs'. lex_str (drop n s) = Some (rs', t))"
  by (subst (asm) lex_str.simps)
     (auto simp: cons_rune_Some drop_Cons' split: if_splits option.splits)

lemma lex_str_shorter: "lex_str s = Some (rs, t) \<Longrightarrow> length t < length s"
proof (induction s arbitrary: rs rule: length_induct)
  case (1 s)
  then obtain c s' where s: "s = c # s'" by (cases s) auto
  consider "t = s'" | n rs' where "lex_str (drop n s') = Some (rs', t)"
    using lex_str_step "1.prems" s by blast
  then show ?case
  proof cases
    case 2
    have "length (drop n s') < length s" by (simp add: s)
    then have "length t < length (drop n s')" using "1.IH" 2 by blast
    then show ?thesis by (simp add: s)
  qed (simp add: s)
qed

definition digits_span :: "string \<Rightarrow> string \<times> string" where
  "digits_span s = (takeWhile is_digit s, dropWhile is_digit s)"

definition lex_frac :: "string \<Rightarrow> (string \<times> string) option" where
  "lex_frac s =
     (case s of
        c # t \<Rightarrow> if c = CHR ''.'' then
                 (let (ds, u) = digits_span t in if ds = [] then None else Some (c # ds, u))
               else Some ([], s)
      | [] \<Rightarrow> Some ([], s))"

definition lex_exp :: "string \<Rightarrow> (string \<times> string) option" where
  "lex_exp s =
     (case s of
        c # t \<Rightarrow>
          if c = CHR ''e'' \<or> c = CHR ''E'' then
            (let sg = (case t of d # _ \<Rightarrow> if d = CHR ''+'' \<or> d = CHR ''-'' then [d] else [] | [] \<Rightarrow> []);
                 (ds, u) = digits_span (drop (length sg) t)
             in if ds = [] then None else Some (c # sg @ ds, u))
          else Some ([], s)
      | [] \<Rightarrow> Some ([], s))"

definition lex_int :: "string \<Rightarrow> (string \<times> string) option" where
  "lex_int s =
     (case s of [] \<Rightarrow> None
      | c # t \<Rightarrow> if c = CHR ''0'' then Some ([c], t)
                else if is_digit c then Some (digits_span s) else None)"

definition lex_num :: "string \<Rightarrow> (string \<times> string) option" where
  "lex_num s =
     (let sg = (case s of c # _ \<Rightarrow> if c = CHR ''-'' then [c] else [] | [] \<Rightarrow> [])
      in Option.bind (lex_int (drop (length sg) s)) (\<lambda>(i, t).
         Option.bind (lex_frac t) (\<lambda>(f, u).
         Option.bind (lex_exp u) (\<lambda>(e, v). Some (sg @ i @ f @ e, v)))))"

lemma digits_span_le: "length (snd (digits_span s)) \<le> length s"
  by (simp add: digits_span_def length_dropWhile_le)

lemma lex_int_shorter: "lex_int s = Some (i, t) \<Longrightarrow> length t < length s"
  by (cases s)
     (auto simp: lex_int_def digits_span_def le_imp_less_Suc length_dropWhile_le split: if_splits)

lemma lex_frac_le: "lex_frac s = Some (i, t) \<Longrightarrow> length t \<le> length s"
  by (cases s)
     (auto simp: lex_frac_def digits_span_def le_SucI length_dropWhile_le split: if_splits)

lemma length_dropWhile_drop: "length (dropWhile P (drop n s)) \<le> length s"
  by (rule order_trans [OF length_dropWhile_le]) simp

lemma lex_exp_le: "lex_exp s = Some (i, t) \<Longrightarrow> length t \<le> length s"
  by (cases s)
     (auto simp: lex_exp_def digits_span_def Let_def le_SucI length_dropWhile_drop split: if_splits)

lemma lex_num_shorter: "lex_num s = Some (l, t) \<Longrightarrow> length t < length s"
  by (auto simp: lex_num_def Let_def bind_eq_Some_conv dest!: lex_int_shorter lex_frac_le lex_exp_le)

definition is_ws :: "char \<Rightarrow> bool" where
  "is_ws c \<longleftrightarrow> c = CHR '' '' \<or> c = CHR 0x09 \<or> c = CHR 0x0A \<or> c = CHR 0x0D"

function lex :: "string \<Rightarrow> lexeme list" where
  "lex [] = []"
| "lex (c # s) =
     (if is_ws c then lex s
      else if c = CHR ''{'' then LBrace # lex s
      else if c = CHR ''}'' then RBrace # lex s
      else if c = CHR ''['' then LBrack # lex s
      else if c = CHR '']'' then RBrack # lex s
      else if c = CHR '','' then Comma # lex s
      else if c = CHR '':'' then Colon # lex s
      else if c = CHR ''\"'' then
        (case lex_str s of None \<Rightarrow> [LBad] | Some (rs, t) \<Rightarrow> LStr (encode_runes rs) # lex t)
      else if c = CHR ''-'' \<or> is_digit c then
        (case lex_num (c # s) of None \<Rightarrow> [LBad] | Some (l, t) \<Rightarrow> LNum l # lex t)
      else if has_prefix (c # s) ''true'' then LTrue # lex (drop 3 s)
      else if has_prefix (c # s) ''false'' then LFalse # lex (drop 4 s)
      else if has_prefix (c # s) ''null'' then LNull # lex (drop 3 s)
      else [LBad])"
  by pat_completeness auto
termination
proof (relation "measure length", simp_all)
  fix c s x2 x y
  assume "lex_str s = Some x2" "(x, y) = x2"
  then show "length y < Suc (length s)" using lex_str_shorter [of s x y] by simp
next
  fix c :: char and s x2 x y
  assume "lex_num (c # s) = Some x2" "(x, y) = x2"
  then show "length y < Suc (length s)" using lex_num_shorter [of "c # s" x y] by simp
qed

declare lex.simps(2) [simp del]

section \<open>The token reader\<close>

datatype tok = TDelim char | TNum string | TStr string | TBool bool | TNull

datatype tok_state =
  TopValue | ArrayStart | ArrayValue | ArrayComma
  | ObjectStart | ObjectKey | ObjectColon | ObjectValue | ObjectComma

record decoder =
  d_toks :: "lexeme list"
  d_state :: tok_state
  d_stack :: "tok_state list"

definition new_decoder :: "string \<Rightarrow> decoder" where
  "new_decoder raw = \<lparr>d_toks = lex raw, d_state = TopValue, d_stack = []\<rparr>"

definition io_EOF :: msg where
  "io_EOF = StdErr ''EOF''"

definition syntax_err :: msg where
  "syntax_err = StdErr ''invalid JSON syntax''"

definition value_allowed :: "tok_state \<Rightarrow> bool" where
  "value_allowed st \<longleftrightarrow> st \<in> {TopValue, ArrayStart, ArrayValue, ObjectValue}"

definition value_end :: "tok_state \<Rightarrow> tok_state" where
  "value_end st =
     (if st = ArrayStart \<or> st = ArrayValue then ArrayComma
      else if st = ObjectValue then ObjectComma else st)"

definition scalar_tok :: "lexeme \<Rightarrow> tok option" where
  "scalar_tok l =
     (case l of LStr s \<Rightarrow> Some (TStr s) | LNum n \<Rightarrow> Some (TNum n) | LTrue \<Rightarrow> Some (TBool True)
      | LFalse \<Rightarrow> Some (TBool False) | LNull \<Rightarrow> Some TNull | _ \<Rightarrow> None)"

definition open_delim :: "char \<Rightarrow> tok_state \<Rightarrow> lexeme list \<Rightarrow> tok_state \<Rightarrow> tok_state list \<Rightarrow> (tok \<times> decoder) res" where
  "open_delim c inner ls st stk =
     (if value_allowed st
      then Inr (TDelim c, \<lparr>d_toks = ls, d_state = inner, d_stack = st # stk\<rparr>) else Inl syntax_err)"

definition close_delim :: "char \<Rightarrow> tok_state set \<Rightarrow> lexeme list \<Rightarrow> tok_state \<Rightarrow> tok_state list \<Rightarrow> (tok \<times> decoder) res" where
  "close_delim c ok ls st stk =
     (if st \<in> ok then
        (case stk of
           [] \<Rightarrow> Inl syntax_err
         | st' # stk' \<Rightarrow> Inr (TDelim c, \<lparr>d_toks = ls, d_state = value_end st', d_stack = stk'\<rparr>))
      else Inl syntax_err)"

fun token_from :: "lexeme list \<Rightarrow> tok_state \<Rightarrow> tok_state list \<Rightarrow> (tok \<times> decoder) res" where
  "token_from [] st stk = Inl io_EOF"
| "token_from (Colon # ls) st stk =
     (if st = ObjectColon then token_from ls ObjectValue stk else Inl syntax_err)"
| "token_from (Comma # ls) st stk =
     (if st = ArrayComma then token_from ls ArrayValue stk
      else if st = ObjectComma then token_from ls ObjectKey stk else Inl syntax_err)"
| "token_from (LBrack # ls) st stk = open_delim (CHR ''['') ArrayStart ls st stk"
| "token_from (LBrace # ls) st stk = open_delim (CHR ''{'') ObjectStart ls st stk"
| "token_from (RBrack # ls) st stk = close_delim (CHR '']'') {ArrayStart, ArrayComma} ls st stk"
| "token_from (RBrace # ls) st stk = close_delim (CHR ''}'') {ObjectStart, ObjectComma} ls st stk"
| "token_from (l # ls) st stk =
     (case scalar_tok l of
        None \<Rightarrow> Inl syntax_err
      | Some t \<Rightarrow>
          if (case t of TStr s \<Rightarrow> True | _ \<Rightarrow> False) \<and> (st = ObjectStart \<or> st = ObjectKey)
          then Inr (t, \<lparr>d_toks = ls, d_state = ObjectColon, d_stack = stk\<rparr>)
          else if value_allowed st
          then Inr (t, \<lparr>d_toks = ls, d_state = value_end st, d_stack = stk\<rparr>)
          else Inl syntax_err)"

definition dec_token :: "decoder \<Rightarrow> (tok \<times> decoder) res" where
  "dec_token d = token_from (d_toks d) (d_state d) (d_stack d)"

definition dec_more :: "decoder \<Rightarrow> bool" where
  "dec_more d \<longleftrightarrow> (case d_toks d of [] \<Rightarrow> False | l # _ \<Rightarrow> l \<noteq> RBrack \<and> l \<noteq> RBrace)"

lemma token_from_shorter:
  "token_from ls st stk = Inr (t, d) \<Longrightarrow> length (d_toks d) < length ls"
proof (induction ls st stk rule: token_from.induct)
qed (auto simp: open_delim_def close_delim_def split: if_splits list.splits option.splits)

lemma dec_token_shorter: "dec_token d = Inr (t, d') \<Longrightarrow> length (d_toks d') < length (d_toks d)"
  by (simp add: dec_token_def token_from_shorter)

end
