(* ===== verification/Go_Unmarshal.thy ===== *)
theory Go_Unmarshal
  imports Go_Json
begin

text \<open>
  \<open>json.Unmarshal\<close>: the grammar (\<open>parse_json\<close>), the raw messages (\<open>obj_map\<close>) and the typed
  decoding. A type error is saved and the decoding goes on, so every decoder returns the updated
  value with the first saved error. Field names match exactly or under Go's simple case folding
  (which also folds the long s to S and the Kelvin sign to K), and a field that occurs twice is
  decoded twice, into the value the first occurrence left.
\<close>

section \<open>Trees\<close>

datatype json =
  JNull | JBool bool | JNum string | JStr string | JArr "json list" | JObj "(string \<times> json) list"

definition max_depth :: nat where
  "max_depth = 10000"

text \<open>
  The first argument is fuel, one element per call; a document needs at most one more call than it
  has lexemes, so \<open>parse_json\<close> passes its own lexemes and one more.
\<close>

fun pvalue :: "lexeme list \<Rightarrow> nat \<Rightarrow> lexeme list \<Rightarrow> (json \<times> lexeme list) option"
  and pmembers :: "lexeme list \<Rightarrow> nat \<Rightarrow> lexeme list \<Rightarrow> ((string \<times> json) list \<times> lexeme list) option"
  and pitems :: "lexeme list \<Rightarrow> nat \<Rightarrow> lexeme list \<Rightarrow> (json list \<times> lexeme list) option"
where
  "pvalue [] d ls = None"
| "pvalue (u # f) d [] = None"
| "pvalue (u # f) d (l # ls) =
     (case l of
        LNull \<Rightarrow> Some (JNull, ls)
      | LTrue \<Rightarrow> Some (JBool True, ls)
      | LFalse \<Rightarrow> Some (JBool False, ls)
      | LNum n \<Rightarrow> Some (JNum n, ls)
      | LStr s \<Rightarrow> Some (JStr s, ls)
      | LBrace \<Rightarrow>
          if d = 0 then None
          else (case ls of
                  RBrace # r \<Rightarrow> Some (JObj [], r)
                | _ \<Rightarrow> map_option (\<lambda>(ms, r). (JObj ms, r)) (pmembers f (d - 1) ls))
      | LBrack \<Rightarrow>
          if d = 0 then None
          else (case ls of
                  RBrack # r \<Rightarrow> Some (JArr [], r)
                | _ \<Rightarrow> map_option (\<lambda>(vs, r). (JArr vs, r)) (pitems f (d - 1) ls))
      | _ \<Rightarrow> None)"
| "pmembers [] d ls = None"
| "pmembers (u # f) d ls =
     (case ls of
        LStr k # Colon # ls1 \<Rightarrow>
          (case pvalue f d ls1 of
             None \<Rightarrow> None
           | Some (v, ls2) \<Rightarrow>
               (case ls2 of
                  RBrace # r \<Rightarrow> Some ([(k, v)], r)
                | Comma # r \<Rightarrow> map_option (\<lambda>(ms, r'). ((k, v) # ms, r')) (pmembers f d r)
                | _ \<Rightarrow> None))
      | _ \<Rightarrow> None)"
| "pitems [] d ls = None"
| "pitems (u # f) d ls =
     (case pvalue f d ls of
        None \<Rightarrow> None
      | Some (v, ls2) \<Rightarrow>
          (case ls2 of
             RBrack # r \<Rightarrow> Some ([v], r)
           | Comma # r \<Rightarrow> map_option (\<lambda>(vs, r'). (v # vs, r')) (pitems f d r)
           | _ \<Rightarrow> None))"

definition parse_json :: "string \<Rightarrow> json res" where
  "parse_json raw =
     (let ls = lex raw in
      case pvalue (LBad # ls) max_depth ls of
        Some (v, []) \<Rightarrow> Inr v
      | _ \<Rightarrow> Inl syntax_err)"

section \<open>Raw objects\<close>

text \<open>
  Decoding into \<open>map[string]json.RawMessage\<close>: the last occurrence of a key wins; \<open>null\<close> gives the
  nil map.
\<close>

definition obj_map :: "(string \<times> json) list \<Rightarrow> (string \<times> json) list" where
  "obj_map ms = fold (\<lambda>(k, v) m. aput k v m) ms []"

definition type_err :: msg where
  "type_err = StdErr ''json: cannot unmarshal value into Go type''"

definition raw_map :: "json \<Rightarrow> (string \<times> json) list option res" where
  "raw_map j =
     (case j of JObj ms \<Rightarrow> Inr (Some (obj_map ms)) | JNull \<Rightarrow> Inr None | _ \<Rightarrow> Inl type_err)"

lemma distinct_fold_aput:
  "distinct (map fst m) \<Longrightarrow> distinct (map fst (fold (\<lambda>(k, v) m. aput k v m) ms m))"
  by (induction ms arbitrary: m) (auto simp: amap_simps)

lemma distinct_obj_map [simp]: "distinct (map fst (obj_map ms))"
  by (simp add: obj_map_def distinct_fold_aput)

lemma keys_fold_aput:
  "fst ` set (fold (\<lambda>(k, v) m. aput k v m) ms m) = fst ` set ms \<union> fst ` set m"
  by (induction ms arbitrary: m) (simp_all add: split_beta keys_aput)

lemma keys_obj_map [simp]: "fst ` set (obj_map ms) = fst ` set ms"
  by (simp add: obj_map_def keys_fold_aput)

section \<open>Typed decoding\<close>

type_synonym 'a decoded = "'a \<times> msg option"

definition keep_first :: "msg option \<Rightarrow> msg option \<Rightarrow> msg option" where
  "keep_first e e' = (case e of Some m \<Rightarrow> Some m | None \<Rightarrow> e')"

lemma keep_first_None [simp]: "keep_first e e' = None \<longleftrightarrow> e = None \<and> e' = None"
  by (simp add: keep_first_def split: option.splits)

definition dec_string :: "json \<Rightarrow> string \<Rightarrow> string decoded" where
  "dec_string j old =
     (case j of JStr s \<Rightarrow> (s, None) | JNull \<Rightarrow> (old, None) | _ \<Rightarrow> (old, Some type_err))"

definition dec_int :: "json \<Rightarrow> int \<Rightarrow> int decoded" where
  "dec_int j old =
     (case j of
        JNum n \<Rightarrow> (case parse_int64 n of Some i \<Rightarrow> (i, None) | None \<Rightarrow> (old, Some type_err))
      | JNull \<Rightarrow> (old, None)
      | _ \<Rightarrow> (old, Some type_err))"

definition dec_bool :: "json \<Rightarrow> bool \<Rightarrow> bool decoded" where
  "dec_bool j old =
     (case j of JBool b \<Rightarrow> (b, None) | JNull \<Rightarrow> (old, None) | _ \<Rightarrow> (old, Some type_err))"

text \<open>Field lookup: an exact name first, then a name equal under case folding.\<close>

definition fold_rune :: "nat \<Rightarrow> nat" where
  "fold_rune r =
     (if 97 \<le> r \<and> r \<le> 122 then r - 32 else if r = 383 then 83 else if r = 8490 then 75 else r)"

definition fold_name :: "string \<Rightarrow> nat list" where
  "fold_name s = map fold_rune (runes s)"

definition field_for :: "string list \<Rightarrow> string \<Rightarrow> string option" where
  "field_for names k =
     (if k \<in> set names then Some k else find (\<lambda>n. fold_name n = fold_name k) names)"

fun dec_members :: "(string \<Rightarrow> json \<Rightarrow> 'a \<Rightarrow> 'a decoded) \<Rightarrow> string list \<Rightarrow> (string \<times> json) list \<Rightarrow> 'a \<Rightarrow> 'a decoded" where
  "dec_members f names [] x = (x, None)"
| "dec_members f names ((k, v) # ms) x =
     (case field_for names k of
        None \<Rightarrow> dec_members f names ms x
      | Some n \<Rightarrow>
          (let (x', e) = f n v x; (x'', e') = dec_members f names ms x'
           in (x'', keep_first e e')))"

definition dec_struct :: "(string \<Rightarrow> json \<Rightarrow> 'a \<Rightarrow> 'a decoded) \<Rightarrow> string list \<Rightarrow> json \<Rightarrow> 'a \<Rightarrow> 'a decoded" where
  "dec_struct f names j x =
     (case j of
        JObj ms \<Rightarrow> dec_members f names ms x
      | JNull \<Rightarrow> (x, None)
      | _ \<Rightarrow> (x, Some type_err))"

text \<open>A pointer field: \<open>null\<close> is nil; anything else allocates and decodes into what is there.\<close>

definition dec_ptr :: "(json \<Rightarrow> 'a \<Rightarrow> 'a decoded) \<Rightarrow> 'a \<Rightarrow> json \<Rightarrow> 'a option \<Rightarrow> 'a option decoded" where
  "dec_ptr f zero j old =
     (case j of
        JNull \<Rightarrow> (None, None)
      | _ \<Rightarrow> (case f j (case old of Some x \<Rightarrow> x | None \<Rightarrow> zero) of (x, e) \<Rightarrow> (Some x, e)))"

text \<open>A slice field: the elements are decoded over the elements the slice already has.\<close>

fun dec_items :: "(json \<Rightarrow> 'a \<Rightarrow> 'a decoded) \<Rightarrow> 'a \<Rightarrow> json list \<Rightarrow> 'a list \<Rightarrow> 'a list decoded" where
  "dec_items f zero [] old = ([], None)"
| "dec_items f zero (j # js) old =
     (let (x, e) = f j (case old of [] \<Rightarrow> zero | y # _ \<Rightarrow> y);
          (xs, e') = dec_items f zero js (tl old)
      in (x # xs, keep_first e e'))"

definition dec_slice :: "(json \<Rightarrow> 'a \<Rightarrow> 'a decoded) \<Rightarrow> 'a \<Rightarrow> json \<Rightarrow> 'a list \<Rightarrow> 'a list decoded" where
  "dec_slice f zero j old =
     (case j of
        JArr js \<Rightarrow> dec_items f zero js old
      | JNull \<Rightarrow> ([], None)
      | _ \<Rightarrow> (old, Some type_err))"

text \<open>A map field: entries are added to the map that is there, each from the zero value.\<close>

fun dec_entries :: "(json \<Rightarrow> 'a \<Rightarrow> 'a decoded) \<Rightarrow> 'a \<Rightarrow> (string \<times> json) list \<Rightarrow> (string \<times> 'a) list \<Rightarrow> (string \<times> 'a) list decoded" where
  "dec_entries f zero [] m = (m, None)"
| "dec_entries f zero ((k, v) # ms) m =
     (let (x, e) = f v zero; (m', e') = dec_entries f zero ms (aput k x m)
      in (m', keep_first e e'))"

definition dec_map :: "(json \<Rightarrow> 'a \<Rightarrow> 'a decoded) \<Rightarrow> 'a \<Rightarrow> json \<Rightarrow> (string \<times> 'a) list \<Rightarrow> (string \<times> 'a) list decoded" where
  "dec_map f zero j old =
     (case j of
        JObj ms \<Rightarrow> dec_entries f zero ms old
      | JNull \<Rightarrow> ([], None)
      | _ \<Rightarrow> (old, Some type_err))"

section \<open>float64 and any\<close>

text \<open>
  A number decoded into \<open>any\<close> is a \<open>float64\<close>, or a \<open>json.Number\<close> under \<open>UseNumber\<close>. \<open>VFloat\<close>
  keeps the literal; \<open>float64_of\<close> is the nearest binary64 value, ties to even, as \<open>(m, q)\<close> for
  \<open>m * 2 ^ q\<close>, and None where the literal overflows.
\<close>

fun bit_len :: "nat \<Rightarrow> nat" where
  "bit_len n = (if n = 0 then 0 else Suc (bit_len (n div 2)))"

declare bit_len.simps [simp del]

definition round_half_even :: "nat \<Rightarrow> nat \<Rightarrow> nat" where
  "round_half_even a b =
     (let q = a div b; r = a mod b
      in if 2 * r < b then q else if b < 2 * r then Suc q else if even q then q else Suc q)"

definition lit_parts :: "string \<Rightarrow> bool \<times> nat \<times> int" where
  "lit_parts s =
     (let neg = has_prefix s ''-'';
          (ip, r1) = digits_span (if neg then tl s else s);
          (fp, r2) = (case r1 of c # t \<Rightarrow> if c = CHR ''.'' then digits_span t else ([], r1) | [] \<Rightarrow> ([], []));
          e = (case r2 of [] \<Rightarrow> 0
               | _ # t \<Rightarrow> (case t of [] \<Rightarrow> 0
                   | c # u \<Rightarrow> if c = CHR ''-'' then - int (digits_val 0 u)
                             else if c = CHR ''+'' then int (digits_val 0 u) else int (digits_val 0 t)))
      in (neg, digits_val 0 (ip @ fp), e - int (length fp)))"

definition scale2 :: "nat \<Rightarrow> nat \<Rightarrow> int \<Rightarrow> nat" where
  "scale2 num den q =
     (if 0 \<le> q then round_half_even num (den * 2 ^ nat q) else round_half_even (num * 2 ^ nat (- q)) den)"

definition float64_of :: "string \<Rightarrow> (int \<times> int) option" where
  "float64_of s =
     (let (neg, m, e) = lit_parts s;
          num = m * 10 ^ nat e; den = 10 ^ nat (- e)
      in if m = 0 then Some (0, 0)
         else
           (let k = int (bit_len num) - int (bit_len den);
                small = (if 0 \<le> k then num < den * 2 ^ nat k else num * 2 ^ nat (- k) < den);
                q = max (if small then k - 53 else k - 52) (- 1074);
                r = scale2 num den q
            in if 971 < q \<or> (q = 971 \<and> r = 2 ^ 53) then None
               else Some (if neg then - int r else int r, q)))"

text \<open>\<open>i := int64(t); float64(i) == t\<close>: the integer, where the float is one and fits.\<close>

definition float_as_int :: "string \<Rightarrow> int option" where
  "float_as_int s =
     (case float64_of s of
        None \<Rightarrow> None
      | Some (m, q) \<Rightarrow>
          if 0 \<le> q then (if in64 (m * 2 ^ nat q) then Some (m * 2 ^ nat q) else None)
          else if m mod 2 ^ nat (- q) = 0 \<and> in64 (m div 2 ^ nat (- q))
          then Some (m div 2 ^ nat (- q)) else None)"

datatype goval =
  VNil | VBool bool | VString string | VInt int | VFloat string | VNumber string
  | VSlice "goval list" | VMap "(string \<times> goval) list"

fun any_of :: "bool \<Rightarrow> json \<Rightarrow> goval decoded"
  and any_items :: "bool \<Rightarrow> json list \<Rightarrow> goval list decoded"
  and any_entries :: "bool \<Rightarrow> (string \<times> json) list \<Rightarrow> (string \<times> goval) list \<Rightarrow> (string \<times> goval) list decoded"
where
  "any_of un JNull = (VNil, None)"
| "any_of un (JBool b) = (VBool b, None)"
| "any_of un (JStr s) = (VString s, None)"
| "any_of un (JNum n) =
     (if un then (VNumber n, None)
      else if float64_of n = None then (VNil, Some type_err) else (VFloat n, None))"
| "any_of un (JArr js) = (let (vs, e) = any_items un js in (VSlice vs, e))"
| "any_of un (JObj ms) = (let (m, e) = any_entries un ms [] in (VMap m, e))"
| "any_items un [] = ([], None)"
| "any_items un (j # js) =
     (let (v, e) = any_of un j; (vs, e') = any_items un js in (v # vs, keep_first e e'))"
| "any_entries un [] m = (m, None)"
| "any_entries un ((k, j) # ms) m =
     (let (v, e) = any_of un j; (m', e') = any_entries un ms (aput k v m)
      in (m', keep_first e e'))"

definition dec_any :: "bool \<Rightarrow> json \<Rightarrow> goval \<Rightarrow> goval decoded" where
  "dec_any un j old = any_of un j"

text \<open>\<open>json.Unmarshal\<close> into a Go value: a syntax error leaves the value alone.\<close>

definition unmarshal :: "(json \<Rightarrow> 'a \<Rightarrow> 'a decoded) \<Rightarrow> string \<Rightarrow> 'a \<Rightarrow> 'a decoded" where
  "unmarshal f raw x =
     (case parse_json raw of Inl e \<Rightarrow> (x, Some e) | Inr j \<Rightarrow> f j x)"

end
