(* ===== verification/Canonical.thy ===== *)
theory Canonical
  imports Go_Unmarshal
begin

text \<open>
  \<open>checker/internal/ael/canonical.go\<close>: the restricted JCS form. \<open>cvalue\<close> is what
  \<open>parseJSONValue\<close> returns (nil, bool, string, int64, []any, jsonObject); a Go map is an association
  list with distinct keys. The parser reads tokens from a \<open>decoder\<close>; its first argument is fuel,
  one element per nested call, and \<open>Canonicalize\<close> passes one more than the document has lexemes,
  which \<open>Canonicalize_never_out_of_fuel\<close> shows is enough. \<open>writeCanonical\<close> has the cases for the
  values the parser returns; its cases for int, float64 and map[string]any are not reachable from
  \<open>Canonicalize\<close>, the only caller.
\<close>

definition maxSafeInteger :: int where
  "maxSafeInteger = 2 ^ 53 - 1"

section \<open>Values and integers\<close>

datatype cvalue =
  CNull | CBool bool | CInt int | CStr string | CArr "cvalue list" | CObj "(string \<times> cvalue) list"

definition parseCanonicalInteger :: "string \<Rightarrow> int res" where
  "parseCanonicalInteger s =
     (if s = [] then Inl (Errorf ''empty number'' [])
      else if \<exists>c \<in> set s. c \<in> {CHR ''.'', CHR ''e'', CHR ''E'', CHR ''+''}
        then Inl (Errorf ''non-integer number %q'' [Q s])
      else if s = ''-0'' then Inl (Errorf ''negative zero is non-canonical'' [])
      else
        (let neg = has_prefix s ''-''; body = (if neg then tl s else s) in
         if neg \<and> body = [] then Inl (Errorf ''invalid number %q'' [Q s])
         else if length body > 1 \<and> hd body = CHR ''0''
           then Inl (Errorf ''leading zero in number %q'' [Q s])
         else if \<exists>c \<in> set body. \<not> is_digit c then Inl (Errorf ''invalid integer %q'' [Q s])
         else (case parse_int64 s of
                 None \<Rightarrow> Inl (StdErr ''strconv.ParseInt: value out of range'')
               | Some n \<Rightarrow>
                   if n < - maxSafeInteger \<or> n > maxSafeInteger
                   then Inl (Errorf ''integer %q outside safe range'' [Q s])
                   else Inr n)))"

section \<open>Parsing\<close>

definition out_of_fuel :: msg where
  "out_of_fuel = StdErr ''out of fuel''"

function parseJSONValue :: "lexeme list \<Rightarrow> decoder \<Rightarrow> (cvalue \<times> decoder) res"
  and parseTokenValue :: "lexeme list \<Rightarrow> decoder \<Rightarrow> tok \<Rightarrow> (cvalue \<times> decoder) res"
  and parseMembers :: "lexeme list \<Rightarrow> decoder \<Rightarrow> (string \<times> cvalue) list \<Rightarrow> ((string \<times> cvalue) list \<times> decoder) res"
  and parseItems :: "lexeme list \<Rightarrow> decoder \<Rightarrow> cvalue list \<Rightarrow> (cvalue list \<times> decoder) res"
where
  "parseJSONValue fu d =
     (case dec_token d of Inl e \<Rightarrow> Inl e | Inr (t, d') \<Rightarrow> parseTokenValue fu d' t)"
| "parseTokenValue fu d t =
     (case t of
        TDelim c \<Rightarrow>
          if c = CHR ''{'' then
            (case parseMembers fu d [] of
               Inl e \<Rightarrow> Inl e
             | Inr (obj, d') \<Rightarrow>
                 (case dec_token d' of
                    Inl e \<Rightarrow> Inl e
                  | Inr (end_tok, d'') \<Rightarrow>
                      if end_tok \<noteq> TDelim (CHR ''}'') then Inl (Errorf ''object closed by %v'' [])
                      else Inr (CObj obj, d'')))
          else if c = CHR ''['' then
            (case parseItems fu d [] of
               Inl e \<Rightarrow> Inl e
             | Inr (arr, d') \<Rightarrow>
                 (case dec_token d' of
                    Inl e \<Rightarrow> Inl e
                  | Inr (end_tok, d'') \<Rightarrow>
                      if end_tok \<noteq> TDelim (CHR '']'') then Inl (Errorf ''array closed by %v'' [])
                      else Inr (CArr arr, d'')))
          else Inl (Errorf ''unexpected delimiter %q'' [Q [c]])
      | TNum s \<Rightarrow> (case parseCanonicalInteger s of Inl e \<Rightarrow> Inl e | Inr n \<Rightarrow> Inr (CInt n, d))
      | TStr s \<Rightarrow> Inr (CStr s, d)
      | TBool b \<Rightarrow> Inr (CBool b, d)
      | TNull \<Rightarrow> Inr (CNull, d))"
| "parseMembers [] d obj = Inl out_of_fuel"
| "parseMembers (u # fu) d obj =
     (if \<not> dec_more d then Inr (obj, d)
      else (case dec_token d of
              Inl e \<Rightarrow> Inl e
            | Inr (TStr key, d') \<Rightarrow>
                if has_key obj key then Inl (Errorf ''duplicate object key %q'' [Q key])
                else (case parseJSONValue fu d' of
                        Inl e \<Rightarrow> Inl e
                      | Inr (val, d'') \<Rightarrow> parseMembers fu d'' (aput key val obj))
            | Inr _ \<Rightarrow> Inl (Errorf ''object key is %T, not string'' [])))"
| "parseItems [] d arr = Inl out_of_fuel"
| "parseItems (u # fu) d arr =
     (if \<not> dec_more d then Inr (arr, d)
      else (case parseJSONValue fu d of
              Inl e \<Rightarrow> Inl e
            | Inr (val, d') \<Rightarrow> parseItems fu d' (arr @ [val])))"
  by pat_completeness auto
termination
  by (relation "measure (\<lambda>x. case x of
        Inl (Inl (fu, _)) \<Rightarrow> 3 * length fu + 2 | Inl (Inr (fu, _, _)) \<Rightarrow> 3 * length fu + 1
      | Inr (Inl (fu, _, _)) \<Rightarrow> 3 * length fu | Inr (Inr (fu, _, _)) \<Rightarrow> 3 * length fu)") auto

declare parseJSONValue.simps [simp del] parseTokenValue.simps [simp del]

section \<open>Writing\<close>

text \<open>\<open>compareUTF16\<close>: lexicographic on the UTF-16 code units.\<close>

fun compare_units :: "nat list \<Rightarrow> nat list \<Rightarrow> int" where
  "compare_units [] [] = 0"
| "compare_units [] (b # bs) = -1"
| "compare_units (a # as) [] = 1"
| "compare_units (a # as) (b # bs) = (if a < b then -1 else if a > b then 1 else compare_units as bs)"

definition compareUTF16 :: "string \<Rightarrow> string \<Rightarrow> int" where
  "compareUTF16 a b = compare_units (utf16_encode (runes a)) (utf16_encode (runes b))"

text \<open>The text that stands for one ASCII byte in a JSON string.\<close>

definition escape_byte :: "char \<Rightarrow> string" where
  "escape_byte c =
     (if 32 \<le> code c \<and> c \<noteq> CHR 0x5C \<and> c \<noteq> CHR ''\"'' then [c]
      else if c = CHR 0x5C \<or> c = CHR ''\"'' then [CHR 0x5C, c]
      else if c = CHR 0x08 then [CHR 0x5C, CHR ''b'']
      else if c = CHR 0x0C then [CHR 0x5C, CHR ''f'']
      else if c = CHR 0x0A then [CHR 0x5C, CHR ''n'']
      else if c = CHR 0x0D then [CHR 0x5C, CHR ''r'']
      else if c = CHR 0x09 then [CHR 0x5C, CHR ''t'']
      else CHR 0x5C # ''u00'' @ [hex_digit (code c div 16), hex_digit (code c mod 16)])"

function write_body :: "string \<Rightarrow> string" where
  "write_body [] = []"
| "write_body (c # s) =
     (if code c < 128 then escape_byte c @ write_body s
      else if decode_rune (c # s) = (rune_error, 1) then CHR 0x5C # ''ufffd'' @ write_body s
      else take (snd (decode_rune (c # s))) (c # s)
           @ write_body (drop (snd (decode_rune (c # s))) (c # s)))"
  by pat_completeness auto
termination
  by (relation "measure length") auto

declare write_body.simps(2) [simp del]

definition writeJSONString :: "string \<Rightarrow> string" where
  "writeJSONString s = CHR ''\"'' # write_body s @ ''\"''"

text \<open>
  The members arrive with their values already written; the object writer sorts them by key and
  puts the separators, stopping at the first value that could not be written.
\<close>

fun write_members :: "bool \<Rightarrow> (string \<times> string res) list \<Rightarrow> string res" where
  "write_members first [] = Inr []"
| "write_members first ((k, r) # ms) =
     and_then r (\<lambda>v. and_then (write_members False ms) (\<lambda>t.
       Inr ((if first then [] else '','') @ writeJSONString k @ '':'' @ v @ t)))"

definition writeCanonicalObject :: "(string \<times> string res) list \<Rightarrow> string res" where
  "writeCanonicalObject ms =
     and_then (write_members True (sort_slice (\<lambda>x y. compareUTF16 (fst x) (fst y) < 0) ms))
       (\<lambda>t. Inr (''{'' @ t @ ''}''))"

fun write_items :: "bool \<Rightarrow> string res list \<Rightarrow> string res" where
  "write_items first [] = Inr []"
| "write_items first (r # rs) =
     and_then r (\<lambda>v. and_then (write_items False rs) (\<lambda>t.
       Inr ((if first then [] else '','') @ v @ t)))"

fun writeCanonical :: "cvalue \<Rightarrow> string res" where
  "writeCanonical CNull = Inr ''null''"
| "writeCanonical (CBool b) = Inr (if b then ''true'' else ''false'')"
| "writeCanonical (CStr s) = Inr (writeJSONString s)"
| "writeCanonical (CInt n) =
     (if n < - maxSafeInteger \<or> n > maxSafeInteger
      then Inl (Errorf ''integer %d outside safe range'' [D n]) else Inr (show_int n))"
| "writeCanonical (CArr vs) =
     and_then (write_items True (map writeCanonical vs)) (\<lambda>t. Inr (''['' @ t @ '']''))"
| "writeCanonical (CObj ms) = writeCanonicalObject (map (\<lambda>(k, v). (k, writeCanonical v)) ms)"

definition parseDocument :: "string \<Rightarrow> cvalue res" where
  "parseDocument raw =
     (let d = new_decoder raw in
      case parseJSONValue (LBad # d_toks d) d of
        Inl e \<Rightarrow> Inl e
      | Inr (v, d') \<Rightarrow>
          if dec_more d' then Inl (Errorf ''trailing JSON data'' [])
          else (case dec_token d' of
                  Inl e \<Rightarrow> if e = io_EOF then Inr v else Inl e
                | Inr _ \<Rightarrow> Inl (Errorf ''trailing JSON token %v'' [])))"

definition Canonicalize :: "string \<Rightarrow> string res" where
  "Canonicalize raw = and_then (parseDocument raw) writeCanonical"

definition IsCanonical :: "string \<Rightarrow> bool" where
  "IsCanonical raw \<longleftrightarrow> (case Canonicalize raw of Inl _ \<Rightarrow> False | Inr canon \<Rightarrow> raw = canon)"

end
