(* ===== verification/Canonical_Facts.thy ===== *)
theory Canonical_Facts
  imports Canonical
begin

text \<open>
  What \<open>canonical.go\<close> promises: \<open>Canonicalize\<close> always decides, its output is a fixed point of it,
  parses back to the same value with the members sorted, does not depend on the order of the members,
  and integers have one spelling. The lemmas go through the lexemes of a canonical text
  (\<open>vtoks\<close>): \<open>lex_render\<close> reads them off the text, \<open>parse_vtoks\<close> rebuilds the value.
\<close>

section \<open>The order of the keys\<close>

lemma compare_units_eq: "compare_units as bs = 0 \<longleftrightarrow> as = bs"
  by (induction as bs rule: compare_units.induct) auto

lemma compare_units_swap: "compare_units bs as = - compare_units as bs"
  by (induction as bs rule: compare_units.induct) simp_all

lemma compare_units_trans:
  "compare_units as bs < 0 \<Longrightarrow> compare_units bs cs < 0 \<Longrightarrow> compare_units as cs < 0"
proof (induction as arbitrary: bs cs)
  case Nil
  then show ?case by (cases bs; cases cs) simp_all
next
  case (Cons a as)
  obtain b bs' where bs: "bs = b # bs'" using Cons.prems(1) by (cases bs) simp_all
  obtain c cs' where cs: "cs = c # cs'" using Cons.prems(2) bs by (cases cs) simp_all
  show ?case using Cons.IH [of bs' cs'] Cons.prems unfolding bs cs
    by (simp split: if_split_asm)
qed

lemma utf16_units_prefix:
  assumes "valid_rune r" "valid_rune r'" "utf16_units r @ x = utf16_units r' @ y"
  shows "r = r' \<and> x = y"
proof -
  have hi: "(n - 65536) div 1024 < 1024" if "n < 1114112" for n :: nat
    using that by (simp add: less_mult_imp_div_less)
  have eq: "a = b" if "a div 1024 = b div 1024" "a mod 1024 = b mod 1024" for a b :: nat
    using that div_mult_mod_eq [of a 1024] div_mult_mod_eq [of b 1024] by linarith
  show ?thesis
  proof (cases "r < 65536")
    case True
    show ?thesis
    proof (cases "r' < 65536")
      case False
      have h: "(r' - 65536) div 1024 < 1024" using assms(2) hi by (simp add: valid_rune_def)
      have "r = 55296 + (r' - 65536) div 1024"
        using True False assms by (auto simp: utf16_units_def valid_rune_def)
      then show ?thesis using h assms(1) by (auto simp: valid_rune_def is_surrogate_def)
    qed (use True assms in \<open>auto simp: utf16_units_def valid_rune_def\<close>)
  next
    case False
    show ?thesis
    proof (cases "r' < 65536")
      case True
      have h: "(r - 65536) div 1024 < 1024" using assms(1) hi by (simp add: valid_rune_def)
      have "r' = 55296 + (r - 65536) div 1024"
        using True False assms by (auto simp: utf16_units_def valid_rune_def)
      then show ?thesis using h assms(2) by (auto simp: valid_rune_def is_surrogate_def)
    next
      case False': False
      have "(r - 65536) div 1024 = (r' - 65536) div 1024" "(r - 65536) mod 1024 = (r' - 65536) mod 1024" "x = y"
        using False False' assms by (auto simp: utf16_units_def valid_rune_def)
      then have "r - 65536 = r' - 65536" using eq by blast
      with \<open>x = y\<close> False False' show ?thesis by simp
    qed
  qed
qed

lemma utf16_units_not_Nil: "utf16_units r \<noteq> []"
  by (simp add: utf16_units_def)

lemma utf16_encode_inj:
  "list_all valid_rune rs \<Longrightarrow> list_all valid_rune rs' \<Longrightarrow> utf16_encode rs = utf16_encode rs' \<Longrightarrow> rs = rs'"
proof (induction rs arbitrary: rs')
  case Nil
  then show ?case by (cases rs') (simp_all add: utf16_encode_def utf16_units_not_Nil)
next
  case (Cons r rs)
  obtain r' rs2 where rs': "rs' = r' # rs2"
    using Cons.prems(3) by (cases rs') (simp_all add: utf16_encode_def utf16_units_not_Nil)
  have "r = r' \<and> utf16_encode rs = utf16_encode rs2"
    using Cons.prems unfolding rs' by (intro utf16_units_prefix) (simp_all add: utf16_encode_def)
  then show ?case using Cons.IH Cons.prems unfolding rs' by simp
qed

lemma compareUTF16_eq:
  assumes "valid_utf8 a" "valid_utf8 b" "compareUTF16 a b = 0"
  shows "a = b"
proof -
  have "runes a = runes b"
    using assms by (simp add: utf16_encode_inj compareUTF16_def compare_units_eq valid_utf8_def)
  then show ?thesis using assms(1,2) by (metis valid_utf8_def)
qed

interpretation utf16_keys: key_order compareUTF16 valid_utf8
proof
  show "compareUTF16 a b = 0 \<longleftrightarrow> a = b" if "valid_utf8 a" "valid_utf8 b" for a b
    using compareUTF16_eq [OF that] by (auto simp: compareUTF16_def compare_units_eq)
  show "compareUTF16 a b < 0 \<longleftrightarrow> 0 < compareUTF16 b a" for a b
    using compare_units_swap [of "utf16_encode (runes b)" "utf16_encode (runes a)"]
    by (simp add: compareUTF16_def)
  show "compareUTF16 a b < 0 \<Longrightarrow> compareUTF16 b c < 0 \<Longrightarrow> compareUTF16 a c < 0" for a b c
    unfolding compareUTF16_def by (rule compare_units_trans)
qed

section \<open>Well-formed values and their sorted form\<close>

fun good :: "cvalue \<Rightarrow> bool" where
  "good (CInt n) \<longleftrightarrow> - maxSafeInteger \<le> n \<and> n \<le> maxSafeInteger"
| "good (CStr s) \<longleftrightarrow> valid_utf8 s"
| "good (CArr vs) \<longleftrightarrow> list_all good vs"
| "good (CObj ms) \<longleftrightarrow> distinct (map fst ms) \<and> list_all (\<lambda>(k, v). valid_utf8 k \<and> good v) ms"
| "good CNull \<longleftrightarrow> True"
| "good (CBool b) \<longleftrightarrow> True"

abbreviation sort_members :: "(string \<times> 'a) list \<Rightarrow> (string \<times> 'a) list" where
  "sort_members \<equiv> sort_slice (\<lambda>x y. compareUTF16 (fst x) (fst y) < 0)"

fun sortv :: "cvalue \<Rightarrow> cvalue" where
  "sortv (CArr vs) = CArr (map sortv vs)"
| "sortv (CObj ms) = CObj (sort_members (map (\<lambda>(k, v). (k, sortv v)) ms))"
| "sortv v = v"

fun seps :: "string list \<Rightarrow> string" where
  "seps [] = []"
| "seps [x] = x"
| "seps (x # xs) = x @ '','' @ seps xs"

fun render :: "cvalue \<Rightarrow> string" where
  "render CNull = ''null''"
| "render (CBool b) = (if b then ''true'' else ''false'')"
| "render (CStr s) = writeJSONString s"
| "render (CInt n) = show_int n"
| "render (CArr vs) = ''['' @ seps (map render vs) @ '']''"
| "render (CObj ms) = ''{'' @ seps (map (\<lambda>(k, v). writeJSONString k @ '':'' @ render v) ms) @ ''}''"

lemma insort_by_map:
  "(\<And>x y. lt (f x) (f y) = lt' x y) \<Longrightarrow> insort_by lt (f x) (map f xs) = map f (insort_by lt' x xs)"
  by (induction xs) auto

lemma sort_slice_map:
  "(\<And>x y. lt (f x) (f y) = lt' x y) \<Longrightarrow> sort_slice lt (map f xs) = map f (sort_slice lt' xs)"
  by (induction xs) (auto simp: insort_by_map)

lemma sort_members_map:
  "sort_members (map (\<lambda>(k, v). (k, f v)) ms) = map (\<lambda>(k, v). (k, f v)) (sort_members ms)"
  by (rule sort_slice_map) auto

lemma write_items_Inr:
  "write_items first (map (\<lambda>v. Inr (f v)) vs)
     = Inr ((if first \<or> vs = [] then [] else '','') @ seps (map f vs))"
proof (induction vs arbitrary: first)
  case (Cons v vs)
  show ?case using Cons.IH [of False] by (cases vs) simp_all
qed simp

lemma write_members_Inr:
  "write_members first (map (\<lambda>(k, v). (k, Inr (f v))) ms)
     = Inr ((if first \<or> ms = [] then [] else '','') @ seps (map (\<lambda>(k, v). writeJSONString k @ '':'' @ f v) ms))"
proof (induction ms arbitrary: first)
  case (Cons m ms)
  show ?case using Cons.IH [of False] by (cases m; cases ms) simp_all
qed simp

lemma writeCanonical_render: "good v \<Longrightarrow> writeCanonical v = Inr (render (sortv v))"
proof (induction v rule: good.induct)
  case (3 vs)
  then have "map writeCanonical vs = map (\<lambda>v. Inr (render (sortv v))) vs"
    by (simp add: list_all_iff)
  then show ?case by (simp only: writeCanonical.simps write_items_Inr) (simp add: o_def)
next
  case (4 ms)
  then have "map (\<lambda>(k, v). (k, writeCanonical v)) ms = map (\<lambda>(k, v). (k, Inr (render (sortv v)))) ms"
    by (auto simp: list_all_iff)
  then have "writeCanonical (CObj ms) = writeCanonicalObject (map (\<lambda>(k, v). (k, Inr (render (sortv v)))) ms)"
    by (simp only: writeCanonical.simps)
  then show ?case
    by (simp add: writeCanonicalObject_def sort_members_map write_members_Inr)
       (simp add: split_def o_def)
qed auto

lemma distinct_keys_sort: "distinct (map f (sort_slice lt xs)) = distinct (map f xs)"
  by (rule mset_eq_imp_distinct_iff) simp

lemma good_sortv: "good v \<Longrightarrow> good (sortv v)"
proof (induction v rule: good.induct)
  case (4 ms)
  have "map fst (map (\<lambda>(k, v). (k, sortv v)) ms) = map fst ms" by auto
  then have d: "distinct (map fst (sort_members (map (\<lambda>(k, v). (k, sortv v)) ms)))"
    using 4 by (simp only: distinct_keys_sort good.simps)
  show ?case using 4 d by (auto simp: list_all_iff)
qed (auto simp: list_all_iff)

lemma sortv_idem: "good v \<Longrightarrow> sortv (sortv v) = sortv v"
proof (induction v rule: good.induct)
  case (4 ms)
  have "map (\<lambda>(k, v). (k, sortv v)) (map (\<lambda>(k, v). (k, sortv v)) (sort_members ms))
      = map (\<lambda>(k, v). (k, sortv v)) (sort_members ms)"
    using 4 by (auto simp: list_all_iff)
  moreover have "sort_members (sort_members ms) = sort_members ms"
    using 4 by (intro utf16_keys.sort_idem) (auto simp: list_all_iff)
  ultimately show ?case by (simp only: sortv.simps sort_members_map)
qed (auto simp: list_all_iff)

section \<open>Lexing a canonical text\<close>

lemma code_escape: "hex_val (hex_digit (code c div 16)) = Some (code c div 16)"
  "hex_val (hex_digit (code c mod 16)) = Some (code c mod 16)" "hex_val (CHR ''0'') = Some 0"
  using code_div16 [of c] by (simp_all add: hex_val_digit) (simp add: hex_val_def)

lemma lex_str_escape_byte:
  assumes "code c < 128"
  shows "lex_str (escape_byte c @ s) = cons_rune (code c) (lex_str s)"
proof -
  consider "32 \<le> code c" "c \<noteq> CHR 0x5C" "c \<noteq> CHR 0x22" | "c = CHR 0x5C" | "c = CHR 0x22"
    | "c = CHR 0x08" | "c = CHR 0x0C" | "c = CHR 0x0A" | "c = CHR 0x0D" | "c = CHR 0x09"
    | "code c < 32" "c \<noteq> CHR 0x5C" "c \<noteq> CHR 0x22" "c \<noteq> CHR 0x08" "c \<noteq> CHR 0x0C"
      "c \<noteq> CHR 0x0A" "c \<noteq> CHR 0x0D" "c \<noteq> CHR 0x09"
    by (metis not_le)
  then show ?thesis
  proof cases
    case 1
    then show ?thesis using assms by (simp add: escape_byte_def lex_str.simps(2))
  next
    case 9
    have g: "getu4 (CHR 0x5C # CHR ''u'' # CHR ''0'' # CHR ''0'' # hex_digit (code c div 16)
        # hex_digit (code c mod 16) # s) = Some (code c)"
      using 9(1) div_mult_mod_eq [of "code c" 16]
      by (simp add: getu4_def code_escape)
    have sur: "\<not> is_surrogate (code c)" using 9(1) by (simp add: is_surrogate_def)
    have sim: "simple_escape (CHR ''u'' # t) = None" for t by (simp add: simple_escape_def)
    have e: "escape_byte c @ s = CHR 0x5C # CHR ''u'' # CHR ''0'' # CHR ''0''
        # hex_digit (code c div 16) # hex_digit (code c mod 16) # s"
      using 9 by (simp add: escape_byte_def)
    show ?thesis unfolding e by (subst lex_str.simps(2)) (simp add: sim g sur)
  qed (simp_all add: escape_byte_def lex_str.simps(2) simple_escape_def)
qed

lemma encode_rune_ascii: "r < 128 \<Longrightarrow> encode_rune r = [chr r]"
  by (simp add: encode_rune_def valid_rune_def is_surrogate_def)

lemma encode_rune_hd:
  assumes "valid_rune r" "128 \<le> r"
  obtains c t where "encode_rune r = c # t" "128 \<le> code c"
proof -
  have "r div 262144 < 16" "r < 65536 \<Longrightarrow> r div 4096 < 16" "r < 2048 \<Longrightarrow> r div 64 < 32"
    using assms by (simp_all add: valid_rune_def less_mult_imp_div_less)
  then show ?thesis using assms that
    by (cases "encode_rune r") (auto simp: encode_rune_def Let_def code_chr split: if_splits)
qed

lemma write_body_rune:
  assumes "valid_rune r"
  shows "write_body (encode_rune r @ s)
    = (if r < 128 then escape_byte (chr r) else encode_rune r) @ write_body s"
proof (cases "r < 128")
  case True
  then show ?thesis by (simp add: encode_rune_ascii write_body.simps(2) code_chr)
next
  case False
  then obtain c t where ct: "encode_rune r = c # t" "128 \<le> code c"
    using encode_rune_hd [OF assms] by auto
  have d: "decode_rune (c # t @ s) = (r, Suc (length t))"
    using decode_encode_rune [OF assms, of s] ct by simp
  have n: "(r, Suc (length t)) \<noteq> (rune_error, 1)"
  proof
    assume "(r, Suc (length t)) = (rune_error, 1)"
    then have "length (encode_rune rune_error) = 1" using ct by simp
    then show False by (simp add: encode_rune_def valid_rune_def rune_error_def is_surrogate_def)
  qed
  show ?thesis using False ct n by (simp add: write_body.simps(2) d)
qed

lemma lex_str_rune:
  assumes "valid_rune r"
  shows "lex_str ((if r < 128 then escape_byte (chr r) else encode_rune r) @ s) = cons_rune r (lex_str s)"
proof (cases "r < 128")
  case True
  then show ?thesis by (simp add: lex_str_escape_byte code_chr)
next
  case False
  then obtain c t where ct: "encode_rune r = c # t" "128 \<le> code c"
    using encode_rune_hd [OF assms] by auto
  have d: "decode_rune (c # t @ s) = (r, Suc (length t))"
    using decode_encode_rune [OF assms, of s] ct by simp
  have "c \<noteq> CHR 0x22" "c \<noteq> CHR 0x5C" using ct(2) by auto
  then show ?thesis using False ct by (simp add: lex_str.simps(2) d)
qed

lemma lex_str_write_body:
  assumes "list_all valid_rune rs"
  shows "lex_str (write_body (encode_runes rs) @ CHR 0x22 # s) = Some (rs, s)"
  using assms
proof (induction rs)
  case Nil
  show ?case by (simp add: lex_str.simps(2))
next
  case (Cons r rs)
  then show ?case
    using lex_str_rune [of r "write_body (encode_runes rs) @ CHR 0x22 # s"]
    by (simp add: write_body_rune cons_rune_def)
qed

lemma lex_writeJSONString:
  assumes "valid_utf8 k"
  shows "lex (writeJSONString k @ s) = LStr k # lex s"
proof -
  have "lex_str (write_body k @ CHR 0x22 # s) = Some (runes k, s)"
    using lex_str_write_body [of "runes k" s] assms by (simp add: valid_utf8_def)
  then show ?thesis using assms
    by (simp add: writeJSONString_def lex.simps(2) is_ws_def valid_utf8_def)
qed

text \<open>What may follow a value in a canonical text.\<close>

definition follows :: "string \<Rightarrow> bool" where
  "follows s \<longleftrightarrow> (case s of [] \<Rightarrow> True | c # _ \<Rightarrow> c \<in> {CHR '','', CHR '']'', CHR ''}''} \<or> is_ws c)"

lemma follows_simps [simp]: "follows []" "follows (CHR '','' # s)" "follows (CHR '']'' # s)" "follows (CHR ''}'' # s)"
  by (simp_all add: follows_def)

lemma digits_span_app:
  assumes "list_all is_digit ds" "follows s"
  shows "digits_span (ds @ s) = (ds, s)"
proof -
  have "takeWhile is_digit s = []" "dropWhile is_digit s = s"
    using assms(2) by (cases s; auto simp: follows_def is_digit_def is_ws_def)+
  then show ?thesis using assms(1)
    by (simp add: digits_span_def takeWhile_append2 dropWhile_append2 list_all_iff)
qed

lemma lex_int_show_nat:
  assumes "follows s"
  shows "lex_int (show_nat n @ s) = Some (show_nat n, s)"
proof (cases "n = 0")
  case True
  then show ?thesis by (simp add: lex_int_def show_nat.simps char_of_def bit_0)
next
  case False
  obtain c t where ct: "show_nat n = c # t" by (cases "show_nat n") auto
  have "c \<noteq> CHR ''0''" using show_nat_hd [of n] False ct by simp
  moreover have "is_digit c" using hd_show_nat_digit [of n] ct by simp
  ultimately show ?thesis
    using digits_span_app [OF show_nat_digits assms, of n] ct by (simp add: lex_int_def)
qed

lemma lex_num_show_int:
  assumes "follows s"
  shows "lex_num (show_int n @ s) = Some (show_int n, s)"
proof -
  have f: "lex_frac s = Some ([], s)" "lex_exp s = Some ([], s)"
    using assms by (cases s; auto simp: lex_frac_def lex_exp_def follows_def is_ws_def)+
  obtain c t where ct: "show_nat (nat n) = c # t" by (cases "show_nat (nat n)") auto
  have "c \<noteq> CHR ''-''" using hd_show_nat_digit [of "nat n"] ct by auto
  then show ?thesis
    using lex_int_show_nat [OF assms, of "nat n"] lex_int_show_nat [OF assms, of "nat (- n)"] ct f
    by (simp add: lex_num_def show_int_def)
qed

lemma lex_show_int:
  assumes "follows s"
  shows "lex (show_int n @ s) = LNum (show_int n) # lex s"
proof -
  obtain c t where ct: "show_int n = c # t" "c = CHR ''-'' \<or> is_digit c"
  proof (cases "n < 0")
    case False
    then show ?thesis using that hd_show_nat_digit [of "nat n"]
      by (cases "show_nat (nat n)") (auto simp: show_int_def)
  qed (use that in \<open>auto simp: show_int_def\<close>)
  then have "\<not> is_ws c \<and> c \<notin> {CHR ''{'', CHR ''}'', CHR ''['', CHR '']'', CHR '','', CHR '':'', CHR 0x22}"
    by (auto simp: is_ws_def is_digit_def)
  then show ?thesis using ct lex_num_show_int [OF assms, of n] by (simp add: lex.simps(2))
qed

fun tsep :: "lexeme list list \<Rightarrow> lexeme list" where
  "tsep [] = []"
| "tsep [x] = x"
| "tsep (x # xs) = x @ Comma # tsep xs"

fun vtoks :: "cvalue \<Rightarrow> lexeme list" where
  "vtoks CNull = [LNull]"
| "vtoks (CBool b) = [if b then LTrue else LFalse]"
| "vtoks (CStr s) = [LStr s]"
| "vtoks (CInt n) = [LNum (show_int n)]"
| "vtoks (CArr vs) = LBrack # tsep (map vtoks vs) @ [RBrack]"
| "vtoks (CObj ms) = LBrace # tsep (map (\<lambda>(k, v). LStr k # Colon # vtoks v) ms) @ [RBrace]"

lemma lex_punct [simp]:
  "lex (CHR '','' # s) = Comma # lex s" "lex (CHR '':'' # s) = Colon # lex s"
  "lex (CHR ''['' # s) = LBrack # lex s" "lex (CHR '']'' # s) = RBrack # lex s"
  "lex (CHR ''{'' # s) = LBrace # lex s" "lex (CHR ''}'' # s) = RBrace # lex s"
  by (simp_all add: lex.simps(2) is_ws_def)

lemma lex_seps:
  assumes "\<And>x t. x \<in> set xs \<Longrightarrow> follows t \<Longrightarrow> lex (f x @ t) = g x @ lex t" "follows s"
  shows "lex (seps (map f xs) @ s) = tsep (map g xs) @ lex s"
  using assms
proof (induction xs)
  case (Cons x xs)
  show ?case
  proof (cases xs)
    case Nil
    then show ?thesis using Cons.prems by simp
  next
    case (Cons y ys)
    have "lex (seps (map f xs) @ s) = tsep (map g xs) @ lex s"
      using Cons.IH Cons.prems by simp
    then show ?thesis using Cons Cons.prems(1) [of x "CHR '','' # seps (map f xs) @ s"] by simp
  qed
qed simp

lemma lex_render: "good v \<Longrightarrow> follows s \<Longrightarrow> lex (render v @ s) = vtoks v @ lex s"
proof (induction v arbitrary: s rule: good.induct)
  case (3 vs)
  then have "lex (seps (map render vs) @ CHR '']'' # s) = tsep (map vtoks vs) @ lex (CHR '']'' # s)"
    by (intro lex_seps) (auto simp: list_all_iff)
  then show ?case by simp
next
  case (4 ms)
  have "lex ((case m of (k, v) \<Rightarrow> writeJSONString k @ '':'' @ render v) @ t)
      = (case m of (k, v) \<Rightarrow> LStr k # Colon # vtoks v) @ lex t" if "m \<in> set ms" "follows t" for m t
  proof (cases m)
    case (Pair k v)
    have "valid_utf8 k" "good v" using "4.prems"(1) that(1) Pair by (auto simp: list_all_iff)
    then show ?thesis using "4.IH" [OF that(1)] Pair that(2) by (simp add: lex_writeJSONString)
  qed
  then have "lex (seps (map (\<lambda>(k, v). writeJSONString k @ '':'' @ render v) ms) @ CHR ''}'' # s)
     = tsep (map (\<lambda>(k, v). LStr k # Colon # vtoks v) ms) @ lex (CHR ''}'' # s)"
    by (intro lex_seps) auto
  then show ?case by simp
next
  case (1 n)
  then show ?case by (simp add: lex_show_int)
next
  case (2 k)
  then show ?case by (simp add: lex_writeJSONString)
next
  case 5
  then show ?case by (simp add: lex.simps(2) is_ws_def is_digit_def has_prefix_def)
next
  case (6 b)
  then show ?case by (simp add: lex.simps(2) is_ws_def is_digit_def has_prefix_def)
qed

section \<open>Integers have one spelling\<close>

lemma show_int_digits:
  "\<exists>ds. show_int n = (if n < 0 then CHR ''-'' # ds else ds) \<and> list_all is_digit ds \<and> ds \<noteq> []
     \<and> (hd ds = CHR ''0'' \<longrightarrow> n = 0 \<and> ds = ''0'')"
  using show_nat_digits [of "nat n"] show_nat_digits [of "nat (- n)"] show_nat_hd [of "nat n"]
    show_nat_hd [of "nat (- n)"]
  by (auto simp: show_int_def) (simp add: show_nat.simps char_of_def bit_0)+

lemma digit_plain: "is_digit c \<Longrightarrow> c \<notin> {CHR ''.'', CHR ''e'', CHR ''E'', CHR ''+'', CHR ''-''}"
  by (auto simp: is_digit_def)

lemma parse_show_int:
  assumes "- maxSafeInteger \<le> n" "n \<le> maxSafeInteger"
  shows "parseCanonicalInteger (show_int n) = Inr n"
proof -
  obtain ds where ds: "show_int n = (if n < 0 then CHR ''-'' # ds else ds)" "list_all is_digit ds"
    "ds \<noteq> []" "hd ds = CHR ''0'' \<longrightarrow> n = 0 \<and> ds = ''0''"
    using show_int_digits by blast
  have plain: "\<not> (\<exists>c \<in> set (show_int n). c \<in> {CHR ''.'', CHR ''e'', CHR ''E'', CHR ''+''})"
    using ds(1,2) digit_plain by (auto simp: list_all_iff)
  have in64: "in64 n" using assms by (simp add: in64_def maxSafeInteger_def)
  have nz: "show_int n \<noteq> ''-0''" using ds by (cases "n < 0") (auto simp: list_all_iff is_digit_def)
  have body: "(if n < 0 then tl (show_int n) else show_int n) = ds"
    "has_prefix (show_int n) ''-'' = (n < 0)"
    using ds by (cases ds; auto simp: has_prefix_def is_digit_def)+
  have nn: "show_int n \<noteq> []" using ds by auto
  have lz: "\<not> (length ds > 1 \<and> hd ds = CHR ''0'')" using ds(4) by auto
  have dg: "\<not> (\<exists>c \<in> set ds. \<not> is_digit c)" using ds(2) by (auto simp: list_all_iff)
  show ?thesis
    unfolding parseCanonicalInteger_def Let_def body
    by (simp only: nn plain nz lz dg ds(3) if_False simp_thms)
       (use assms parse_int64_show [OF in64] in simp)
qed

lemma digits_val_leading:
  assumes "list_all is_digit ds" "ds \<noteq> []" "length ds > 1 \<longrightarrow> hd ds \<noteq> CHR ''0''"
  shows "show_nat (digits_val 0 ds) = ds"
  using assms
proof (induction ds rule: rev_induct)
  case (snoc c ds)
  have c: "is_digit c" using snoc.prems(1) by simp
  then have k: "code c - 48 < 10" "char_of (48 + (code c - 48)) = c" by (auto simp: is_digit_def)
  show ?case
  proof (cases "ds = []")
    case True
    then show ?thesis using k by (simp add: show_nat.simps)
  next
    case False
    have h: "hd ds \<noteq> CHR ''0''" using snoc.prems(3) False by (cases ds) auto
    have IH: "show_nat (digits_val 0 ds) = ds" using snoc False h by simp
    have pos: "digits_val 0 ds \<noteq> 0" using IH h show_nat_hd by metis
    have "digits_val 0 (ds @ [c]) = digits_val 0 ds * 10 + (code c - 48)"
      by (simp add: digits_val_append)
    moreover have "show_nat (m * 10 + k) = show_nat m @ [char_of (48 + k)]" if "m \<noteq> 0" "k < 10" for m k
      using that by (subst show_nat.simps) simp
    ultimately show ?thesis using IH pos k by simp
  qed
qed simp

lemma parse_int64_Some:
  assumes "parse_int64 s = Some n" "s = (if neg then CHR ''-'' # ds else ds)" "list_all is_digit ds" "ds \<noteq> []"
  shows "n = (if neg then - int (digits_val 0 ds) else int (digits_val 0 ds))"
proof -
  obtain d t where "ds = d # t" "is_digit d" using assms(3,4) by (cases ds) auto
  then show ?thesis using assms digit_plain [of d]
    by (auto simp: parse_int64_def split: if_splits)
qed

lemma parse_int_spelling:
  assumes "parseCanonicalInteger s = Inr n"
  shows "s = show_int n \<and> - maxSafeInteger \<le> n \<and> n \<le> maxSafeInteger"
proof -
  define neg where "neg = has_prefix s ''-''"
  define ds where "ds = (if neg then tl s else s)"
  have f: "s \<noteq> []" "s \<noteq> ''-0''" "\<not> (neg \<and> ds = [])" "\<not> (length ds > 1 \<and> hd ds = CHR ''0'')"
    "list_all is_digit ds" "parse_int64 s = Some n" "- maxSafeInteger \<le> n \<and> n \<le> maxSafeInteger"
    using assms unfolding parseCanonicalInteger_def neg_def ds_def
    by (auto simp: Let_def list_all_iff split: if_splits option.splits)
  have s: "s = (if neg then CHR ''-'' # ds else ds)"
    using f(1) by (cases s) (auto simp: ds_def neg_def has_prefix_def)
  have "ds \<noteq> []" using f(1,3) s by auto
  have n: "n = (if neg then - int (digits_val 0 ds) else int (digits_val 0 ds))"
    using parse_int64_Some [OF f(6) s f(5) \<open>ds \<noteq> []\<close>] .
  have sh: "show_nat (digits_val 0 ds) = ds"
    using digits_val_leading [OF f(5) \<open>ds \<noteq> []\<close>] f(4) by blast
  have "show_nat 0 = ''0''" by (simp add: show_nat.simps char_of_def bit_0)
  then have "neg \<longrightarrow> digits_val 0 ds \<noteq> 0"
    using sh f(2) s by metis
  then show ?thesis using n sh s f(7) by (auto simp: show_int_def)
qed

section \<open>Parsing a canonical text\<close>

lemma tsep_Cons: "tsep (x # xs) = x @ concat (map (\<lambda>y. Comma # y) xs)"
  by (induction xs arbitrary: x) auto

lemma vtoks_Cons: "\<exists>l ls. vtoks v = l # ls \<and> l \<notin> {RBrack, RBrace, Comma, Colon}"
  by (cases v) auto

lemma dec_more_simps [simp]:
  "dec_more \<lparr>d_toks = vtoks v @ ls, d_state = st, d_stack = stk\<rparr>"
  "dec_more \<lparr>d_toks = Comma # ls, d_state = st, d_stack = stk\<rparr>"
  "dec_more \<lparr>d_toks = LStr k # ls, d_state = st, d_stack = stk\<rparr>"
  "\<not> dec_more \<lparr>d_toks = RBrack # ls, d_state = st, d_stack = stk\<rparr>"
  "\<not> dec_more \<lparr>d_toks = RBrace # ls, d_state = st, d_stack = stk\<rparr>"
  using vtoks_Cons [of v] by (auto simp: dec_more_def)

lemma dec_token_simps [simp]:
  "dec_token \<lparr>d_toks = Comma # ls, d_state = ArrayComma, d_stack = stk\<rparr>
     = dec_token \<lparr>d_toks = ls, d_state = ArrayValue, d_stack = stk\<rparr>"
  "dec_token \<lparr>d_toks = Comma # ls, d_state = ObjectComma, d_stack = stk\<rparr>
     = dec_token \<lparr>d_toks = ls, d_state = ObjectKey, d_stack = stk\<rparr>"
  "dec_token \<lparr>d_toks = Colon # ls, d_state = ObjectColon, d_stack = stk\<rparr>
     = dec_token \<lparr>d_toks = ls, d_state = ObjectValue, d_stack = stk\<rparr>"
  by (simp_all add: dec_token_def)

lemma parse_skip [simp]:
  "parseJSONValue fu \<lparr>d_toks = Comma # ls, d_state = ArrayComma, d_stack = stk\<rparr>
     = parseJSONValue fu \<lparr>d_toks = ls, d_state = ArrayValue, d_stack = stk\<rparr>"
  "parseJSONValue fu \<lparr>d_toks = Colon # ls, d_state = ObjectColon, d_stack = stk\<rparr>
     = parseJSONValue fu \<lparr>d_toks = ls, d_state = ObjectValue, d_stack = stk\<rparr>"
  by (simp_all add: parseJSONValue.simps)

text \<open>\<open>parses v\<close>: with enough fuel, the lexemes of \<open>v\<close> parse to \<open>v\<close> and leave what follows.\<close>

definition parses :: "cvalue \<Rightarrow> bool" where
  "parses v \<longleftrightarrow> (\<forall>fu st stk ls. value_allowed st \<longrightarrow> length (vtoks v) < length fu \<longrightarrow>
     parseJSONValue fu \<lparr>d_toks = vtoks v @ ls, d_state = st, d_stack = stk\<rparr>
       = Inr (v, \<lparr>d_toks = ls, d_state = value_end st, d_stack = stk\<rparr>))"

lemma value_states [simp]:
  "value_allowed TopValue" "value_allowed ArrayStart" "value_allowed ArrayValue" "value_allowed ObjectValue"
  "value_end ArrayStart = ArrayComma" "value_end ArrayValue = ArrayComma"
  "value_end ObjectValue = ObjectComma" "value_end TopValue = TopValue"
  by (simp_all add: value_allowed_def value_end_def)

lemma parses_rest_items:
  assumes "\<forall>v \<in> set vs. parses v" "length (concat (map (\<lambda>v. Comma # vtoks v) vs)) < length fu"
  shows "parseItems fu \<lparr>d_toks = concat (map (\<lambda>v. Comma # vtoks v) vs) @ RBrack # ls, d_state = ArrayComma, d_stack = stk\<rparr> arr
     = Inr (arr @ vs, \<lparr>d_toks = RBrack # ls, d_state = ArrayComma, d_stack = stk\<rparr>)"
  using assms
proof (induction vs arbitrary: fu arr)
  case Nil
  then obtain u f where "fu = u # f" by (cases fu) auto
  then show ?case by simp
next
  case (Cons v vs)
  then obtain u f where fu: "fu = u # f" by (cases fu) auto
  have "parses v" using Cons.prems by simp
  moreover have "length (vtoks v) < length f" using Cons.prems fu by simp
  ultimately show ?case using Cons fu by (simp add: parses_def)
qed

lemma parses_items:
  assumes "\<forall>v \<in> set vs. parses v" "length (tsep (map vtoks vs)) + 1 < length fu"
  shows "\<exists>st. parseItems fu \<lparr>d_toks = tsep (map vtoks vs) @ RBrack # ls, d_state = ArrayStart, d_stack = stk\<rparr> []
     = Inr (vs, \<lparr>d_toks = RBrack # ls, d_state = st, d_stack = stk\<rparr>) \<and> st \<in> {ArrayStart, ArrayComma}"
proof -
  obtain u f where fu: "fu = u # f" using assms(2) by (cases fu) auto
  show ?thesis
  proof (cases vs)
    case (Cons v vs')
    have t: "tsep (map vtoks vs) = vtoks v @ concat (map (\<lambda>v. Comma # vtoks v) vs')"
      by (simp add: Cons tsep_Cons o_def del: map_concat concat_map_singleton)
    have "parses v" "length (vtoks v) < length f" using assms Cons fu t by auto
    then have "parseJSONValue f \<lparr>d_toks = vtoks v @ concat (map (\<lambda>v. Comma # vtoks v) vs') @ RBrack # ls,
        d_state = ArrayStart, d_stack = stk\<rparr>
      = Inr (v, \<lparr>d_toks = concat (map (\<lambda>v. Comma # vtoks v) vs') @ RBrack # ls, d_state = ArrayComma, d_stack = stk\<rparr>)"
      by (simp add: parses_def)
    moreover have "length (concat (map (\<lambda>v. Comma # vtoks v) vs')) < length f" using assms(2) fu t by simp
    ultimately show ?thesis using assms(1) Cons
      unfolding t fu by (simp add: parses_rest_items)
  qed (simp add: fu)
qed

lemma dec_token_key [simp]:
  "st \<in> {ObjectStart, ObjectKey} \<Longrightarrow> dec_token \<lparr>d_toks = LStr k # ls, d_state = st, d_stack = stk\<rparr>
     = Inr (TStr k, \<lparr>d_toks = ls, d_state = ObjectColon, d_stack = stk\<rparr>)"
  by (auto simp: dec_token_def scalar_tok_def)

lemma aput_fresh: "k \<notin> fst ` set m \<Longrightarrow> aput k v m = m @ [(k, v)]"
  by (induction k v m rule: aput.induct) auto

abbreviation mtoks :: "string \<times> cvalue \<Rightarrow> lexeme list" where
  "mtoks m \<equiv> (case m of (k, v) \<Rightarrow> LStr k # Colon # vtoks v)"

lemma parses_rest_members:
  assumes "\<forall>m \<in> set ms. parses (snd m)" "length (concat (map (\<lambda>m. Comma # mtoks m) ms)) < length fu"
    "distinct (map fst (obj @ ms))"
  shows "parseMembers fu \<lparr>d_toks = concat (map (\<lambda>m. Comma # mtoks m) ms) @ RBrace # ls, d_state = ObjectComma, d_stack = stk\<rparr> obj
     = Inr (obj @ ms, \<lparr>d_toks = RBrace # ls, d_state = ObjectComma, d_stack = stk\<rparr>)"
  using assms
proof (induction ms arbitrary: fu obj)
  case Nil
  then obtain u f where "fu = u # f" by (cases fu) auto
  then show ?case by simp
next
  case (Cons m ms)
  then obtain u f where fu: "fu = u # f" by (cases fu) auto
  obtain k v where m: "m = (k, v)" by (cases m)
  have "parses v" "length (vtoks v) < length f" using Cons.prems fu m by auto
  moreover have "\<not> has_key obj k" "k \<notin> fst ` set obj" using Cons.prems(3) m by (auto simp: has_key_iff)
  moreover have "parseMembers f \<lparr>d_toks = concat (map (\<lambda>m. Comma # mtoks m) ms) @ RBrace # ls,
      d_state = ObjectComma, d_stack = stk\<rparr> (obj @ [(k, v)])
    = Inr ((obj @ [(k, v)]) @ ms, \<lparr>d_toks = RBrace # ls, d_state = ObjectComma, d_stack = stk\<rparr>)"
    using Cons.prems fu m by (intro Cons.IH) auto
  ultimately show ?case by (simp add: parses_def fu m aput_fresh)
qed

lemma parses_members:
  assumes "\<forall>m \<in> set ms. parses (snd m)" "length (tsep (map mtoks ms)) + 1 < length fu" "distinct (map fst ms)"
  shows "\<exists>st. parseMembers fu \<lparr>d_toks = tsep (map mtoks ms) @ RBrace # ls, d_state = ObjectStart, d_stack = stk\<rparr> []
     = Inr (ms, \<lparr>d_toks = RBrace # ls, d_state = st, d_stack = stk\<rparr>) \<and> st \<in> {ObjectStart, ObjectComma}"
proof -
  obtain u f where fu: "fu = u # f" using assms(2) by (cases fu) auto
  show ?thesis
  proof (cases ms)
    case (Cons m ms')
    obtain k v where m: "m = (k, v)" by (cases m)
    have t: "tsep (map mtoks ms) = LStr k # Colon # vtoks v @ concat (map (\<lambda>m. Comma # mtoks m) ms')"
      by (simp add: Cons m tsep_Cons o_def)
    have "parses v" "length (vtoks v) < length f" using assms Cons fu t m by auto
    moreover have "parseMembers f \<lparr>d_toks = concat (map (\<lambda>m. Comma # mtoks m) ms') @ RBrace # ls,
        d_state = ObjectComma, d_stack = stk\<rparr> [(k, v)]
      = Inr ([(k, v)] @ ms', \<lparr>d_toks = RBrace # ls, d_state = ObjectComma, d_stack = stk\<rparr>)"
      using assms Cons fu t m by (intro parses_rest_members) auto
    ultimately show ?thesis
      unfolding t fu by (simp add: parses_def has_key_def Cons m)
  qed (simp add: fu)
qed

lemma dec_token_open [simp]:
  "value_allowed st \<Longrightarrow> dec_token \<lparr>d_toks = LBrack # ls, d_state = st, d_stack = stk\<rparr>
     = Inr (TDelim (CHR ''[''), \<lparr>d_toks = ls, d_state = ArrayStart, d_stack = st # stk\<rparr>)"
  "value_allowed st \<Longrightarrow> dec_token \<lparr>d_toks = LBrace # ls, d_state = st, d_stack = stk\<rparr>
     = Inr (TDelim (CHR ''{''), \<lparr>d_toks = ls, d_state = ObjectStart, d_stack = st # stk\<rparr>)"
  by (simp_all add: dec_token_def open_delim_def)

lemma dec_token_close [simp]:
  "s \<in> {ArrayStart, ArrayComma} \<Longrightarrow> dec_token \<lparr>d_toks = RBrack # ls, d_state = s, d_stack = st # stk\<rparr>
     = Inr (TDelim (CHR '']''), \<lparr>d_toks = ls, d_state = value_end st, d_stack = stk\<rparr>)"
  "s \<in> {ObjectStart, ObjectComma} \<Longrightarrow> dec_token \<lparr>d_toks = RBrace # ls, d_state = s, d_stack = st # stk\<rparr>
     = Inr (TDelim (CHR ''}''), \<lparr>d_toks = ls, d_state = value_end st, d_stack = stk\<rparr>)"
  by (simp_all add: dec_token_def close_delim_def)

lemma parse_vtoks: "good v \<Longrightarrow> parses v"
proof (induction v rule: good.induct)
  case (3 vs)
  then have ps: "\<forall>v \<in> set vs. parses v" by (auto simp: list_all_iff)
  show ?case unfolding parses_def
  proof (intro allI impI)
    fix fu :: "lexeme list" and st stk ls
    assume st: "value_allowed st" and fu: "length (vtoks (CArr vs)) < length fu"
    obtain s where "parseItems fu \<lparr>d_toks = tsep (map vtoks vs) @ RBrack # ls, d_state = ArrayStart, d_stack = st # stk\<rparr> []
        = Inr (vs, \<lparr>d_toks = RBrack # ls, d_state = s, d_stack = st # stk\<rparr>)" "s \<in> {ArrayStart, ArrayComma}"
      using parses_items [OF ps, of fu ls "st # stk"] fu by auto
    then show "parseJSONValue fu \<lparr>d_toks = vtoks (CArr vs) @ ls, d_state = st, d_stack = stk\<rparr>
        = Inr (CArr vs, \<lparr>d_toks = ls, d_state = value_end st, d_stack = stk\<rparr>)"
      using st by (simp add: parseJSONValue.simps parseTokenValue.simps)
  qed
next
  case (4 ms)
  then have ps: "\<forall>m \<in> set ms. parses (snd m)" "distinct (map fst ms)" by (auto simp: list_all_iff)
  show ?case unfolding parses_def
  proof (intro allI impI)
    fix fu :: "lexeme list" and st stk ls
    assume st: "value_allowed st" and fu: "length (vtoks (CObj ms)) < length fu"
    obtain s where "parseMembers fu \<lparr>d_toks = tsep (map mtoks ms) @ RBrace # ls, d_state = ObjectStart, d_stack = st # stk\<rparr> []
        = Inr (ms, \<lparr>d_toks = RBrace # ls, d_state = s, d_stack = st # stk\<rparr>)" "s \<in> {ObjectStart, ObjectComma}"
      using parses_members [OF ps(1) _ ps(2), of fu ls "st # stk"] fu by auto
    then show "parseJSONValue fu \<lparr>d_toks = vtoks (CObj ms) @ ls, d_state = st, d_stack = stk\<rparr>
        = Inr (CObj ms, \<lparr>d_toks = ls, d_state = value_end st, d_stack = stk\<rparr>)"
      using st by (simp add: parseJSONValue.simps parseTokenValue.simps)
  qed
qed (auto simp: parses_def parseJSONValue.simps parseTokenValue.simps dec_token_def scalar_tok_def
      parse_show_int value_allowed_def)

section \<open>What the parser returns\<close>

text \<open>String lexemes hold UTF-8, whatever the document's bytes.\<close>

definition toks_ok :: "lexeme list \<Rightarrow> bool" where
  "toks_ok ls \<longleftrightarrow> (\<forall>s. LStr s \<in> set ls \<longrightarrow> valid_utf8 s)"

lemma toks_ok_simps [simp]:
  "toks_ok []" "toks_ok (l # ls) \<longleftrightarrow> (\<forall>s. l = LStr s \<longrightarrow> valid_utf8 s) \<and> toks_ok ls"
  by (auto simp: toks_ok_def)

lemma valid_utf8_encode_runes [simp]: "valid_utf8 (encode_runes rs)"
proof -
  have "valid_rune rune_error" by (simp add: valid_rune_def rune_error_def is_surrogate_def)
  then have "encode_rune r = encode_rune (if valid_rune r then r else rune_error)" for r
    by (simp add: encode_rune_def)
  then have "encode_runes rs = encode_runes (map (\<lambda>r. if valid_rune r then r else rune_error) rs)"
    by (induction rs) simp_all
  moreover have "list_all valid_rune (map (\<lambda>r. if valid_rune r then r else rune_error) rs)"
    using \<open>valid_rune rune_error\<close> by (auto simp: list_all_iff)
  ultimately show ?thesis using valid_utf8_encode by metis
qed

lemma toks_ok_lex: "toks_ok (lex s)"
proof (induction s rule: length_induct)
  case (1 s)
  show ?case
  proof (cases s)
    case (Cons c t)
    have IH: "length u \<le> length t \<Longrightarrow> toks_ok (lex u)" for u using "1.IH" Cons by simp
    have str: "lex_str t = Some (rs, u) \<Longrightarrow> toks_ok (lex u)" for rs u
      using lex_str_shorter [of t rs u] IH by simp
    have num: "lex_num (c # t) = Some (l, u) \<Longrightarrow> toks_ok (lex u)" for l u
      using lex_num_shorter [of "c # t" l u] IH by simp
    show ?thesis unfolding Cons
      by (subst lex.simps(2)) (simp add: IH str num split: option.split)
  qed simp
qed

lemma token_from_ok:
  "token_from ls st stk = Inr (t, d) \<Longrightarrow> toks_ok ls \<Longrightarrow>
     toks_ok (d_toks d) \<and> (\<forall>s. t = TStr s \<longrightarrow> valid_utf8 s)"
  by (induction ls st stk rule: token_from.induct)
     (auto simp: open_delim_def close_delim_def scalar_tok_def split: if_splits list.splits option.splits)

lemma dec_token_ok:
  "dec_token d = Inr (t, d') \<Longrightarrow> toks_ok (d_toks d) \<Longrightarrow>
     toks_ok (d_toks d') \<and> (\<forall>s. t = TStr s \<longrightarrow> valid_utf8 s)"
  by (simp add: dec_token_def token_from_ok)

lemma parser_good:
  shows "parseJSONValue fu d = Inr (v, d') \<Longrightarrow> toks_ok (d_toks d) \<Longrightarrow> good v \<and> toks_ok (d_toks d')"
    and "parseTokenValue fu d t = Inr (v, d') \<Longrightarrow> toks_ok (d_toks d) \<Longrightarrow> (\<forall>s. t = TStr s \<longrightarrow> valid_utf8 s)
      \<Longrightarrow> good v \<and> toks_ok (d_toks d')"
    and "parseMembers fu d obj = Inr (ms, d') \<Longrightarrow> toks_ok (d_toks d) \<Longrightarrow> good (CObj obj)
      \<Longrightarrow> good (CObj ms) \<and> toks_ok (d_toks d')"
    and "parseItems fu d arr = Inr (vs, d') \<Longrightarrow> toks_ok (d_toks d) \<Longrightarrow> good (CArr arr)
      \<Longrightarrow> good (CArr vs) \<and> toks_ok (d_toks d')"
proof (induction fu d and fu d t and fu d obj and fu d arr arbitrary: v d' and v d' and ms d' and vs d'
    rule: parseJSONValue_parseTokenValue_parseMembers_parseItems.induct)
  case (1 fu d)
  from "1.prems" obtain t d1 where t: "dec_token d = Inr (t, d1)" "parseTokenValue fu d1 t = Inr (v, d')"
    by (auto simp: parseJSONValue.simps split: sum.splits)
  show ?case using "1.IH" [of "(t, d1)" t d1 v d'] t dec_token_ok [OF t(1) "1.prems"(2)] by simp
next
  case (2 fu d t)
  show ?case
  proof (cases t)
    case (TDelim c)
    consider (obj) obj d1 where "c = CHR ''{''" "parseMembers fu d [] = Inr (obj, d1)" "v = CObj obj"
        "\<exists>t'. dec_token d1 = Inr (t', d')"
      | (arr) arr d1 where "c = CHR ''[''" "parseItems fu d [] = Inr (arr, d1)" "v = CArr arr"
        "\<exists>t'. dec_token d1 = Inr (t', d')"
      using "2.prems"(1) TDelim by (auto simp: parseTokenValue.simps split: if_splits sum.splits)
    then show ?thesis
    proof cases
      case obj
      then show ?thesis using "2.IH"(1) [OF TDelim obj(1,2)] "2.prems"(2) dec_token_ok by auto
    next
      case arr
      then show ?thesis using "2.IH"(2) [OF TDelim _ arr(1,2)] "2.prems"(2) dec_token_ok by auto
    qed
  next
    case (TNum s)
    then show ?thesis using "2.prems" parse_int_spelling
      by (auto simp: parseTokenValue.simps split: sum.splits)
  qed (use "2.prems" in \<open>auto simp: parseTokenValue.simps\<close>)
next
  case (4 u fu d obj)
  show ?case
  proof (cases "dec_more d")
    case True
    then obtain key d1 val d2 where s: "dec_token d = Inr (TStr key, d1)" "\<not> has_key obj key"
      "parseJSONValue fu d1 = Inr (val, d2)" "parseMembers fu d2 (aput key val obj) = Inr (ms, d')"
      using "4.prems"(1) by (auto split: sum.splits tok.splits if_splits)
    have k: "valid_utf8 key" "toks_ok (d_toks d1)" using dec_token_ok [OF s(1) "4.prems"(2)] by auto
    have v: "good val" "toks_ok (d_toks d2)" using "4.IH"(1) True s k(2) by auto
    have "good (CObj (aput key val obj))"
      using "4.prems"(3) k(1) v(1) s(2) by (simp add: has_key_iff aput_fresh)
    then show ?thesis using "4.IH"(2) True s v(2) by auto
  qed (use "4.prems" in auto)
next
  case (6 u fu d arr)
  show ?case
  proof (cases "dec_more d")
    case True
    then obtain val d1 where s: "parseJSONValue fu d = Inr (val, d1)" "parseItems fu d1 (arr @ [val]) = Inr (vs, d')"
      using "6.prems"(1) by (auto split: sum.splits)
    have v: "good val" "toks_ok (d_toks d1)" using "6.IH"(1) True s "6.prems"(2) by auto
    then show ?thesis using "6.IH"(2) True s "6.prems"(3) by auto
  qed (use "6.prems" in auto)
qed simp_all

lemma parseDocument_good: "parseDocument raw = Inr v \<Longrightarrow> good v"
  using parser_good(1) [of "LBad # lex raw" "new_decoder raw" v] toks_ok_lex [of raw]
  by (fastforce simp: parseDocument_def new_decoder_def Let_def split: sum.splits if_splits)

section \<open>Fuel\<close>

lemma errorf_not_fuel [simp]: "Errorf f as \<noteq> out_of_fuel" "out_of_fuel \<noteq> Errorf f as"
  by (simp_all add: out_of_fuel_def)

lemma token_not_fuel: "token_from ls st stk \<noteq> Inl out_of_fuel"
  by (induction ls st stk rule: token_from.induct)
     (auto simp: open_delim_def close_delim_def out_of_fuel_def syntax_err_def io_EOF_def
       split: list.splits option.splits)

lemma dec_token_not_fuel [simp]: "dec_token d \<noteq> Inl out_of_fuel"
  by (simp add: dec_token_def token_not_fuel)

lemma integer_not_fuel [simp]: "parseCanonicalInteger s \<noteq> Inl out_of_fuel"
  by (auto simp: parseCanonicalInteger_def out_of_fuel_def Let_def split: option.splits)

lemma parser_fuel:
  shows "length (d_toks d) \<le> length fu \<Longrightarrow> parseJSONValue fu d \<noteq> Inl out_of_fuel
      \<and> (\<forall>v d'. parseJSONValue fu d = Inr (v, d') \<longrightarrow> length (d_toks d') < length (d_toks d))"
    and "length (d_toks d) < length fu \<Longrightarrow> parseTokenValue fu d t \<noteq> Inl out_of_fuel
      \<and> (\<forall>v d'. parseTokenValue fu d t = Inr (v, d') \<longrightarrow> length (d_toks d') \<le> length (d_toks d))"
    and "length (d_toks d) < length fu \<Longrightarrow> parseMembers fu d obj \<noteq> Inl out_of_fuel
      \<and> (\<forall>ms d'. parseMembers fu d obj = Inr (ms, d') \<longrightarrow> length (d_toks d') \<le> length (d_toks d))"
    and "length (d_toks d) < length fu \<Longrightarrow> parseItems fu d arr \<noteq> Inl out_of_fuel
      \<and> (\<forall>vs d'. parseItems fu d arr = Inr (vs, d') \<longrightarrow> length (d_toks d') \<le> length (d_toks d))"
proof (induction fu d and fu d t and fu d obj and fu d arr
    rule: parseJSONValue_parseTokenValue_parseMembers_parseItems.induct)
  case (1 fu d)
  show ?case
  proof (cases "dec_token d")
    case (Inr p)
    obtain t d1 where p: "p = (t, d1)" by (cases p)
    have "length (d_toks d1) < length (d_toks d)" using dec_token_shorter Inr p by simp
    then show ?thesis using "1.IH" [OF Inr p [symmetric]] "1.prems" Inr p
      by (auto simp: parseJSONValue.simps)
  qed (auto simp: parseJSONValue.simps)
next
  case (2 fu d t)
  show ?case
  proof (cases t)
    case (TDelim c)
    consider "c = CHR ''{''" | "c \<noteq> CHR ''{''" "c = CHR ''[''" | "c \<noteq> CHR ''{''" "c \<noteq> CHR ''[''" by blast
    then show ?thesis
    proof cases
      case 1
      then show ?thesis using "2.IH"(1) [OF TDelim 1] "2.prems" TDelim
        by (auto simp: parseTokenValue.simps split: sum.splits if_splits dest!: dec_token_shorter)
    next
      case 2
      then show ?thesis using "2.IH"(2) [OF TDelim 2] "2.prems" TDelim
        by (auto simp: parseTokenValue.simps split: sum.splits if_splits dest!: dec_token_shorter)
    qed (simp add: TDelim parseTokenValue.simps out_of_fuel_def)
  qed (auto simp: parseTokenValue.simps split: sum.splits)
next
  case (4 u fu d obj)
  show ?case
  proof (cases "dec_more d")
    case True
    show ?thesis
    proof (cases "dec_token d")
      case (Inr p)
      obtain t d1 where p: "p = (t, d1)" by (cases p)
      have sh: "length (d_toks d1) < length (d_toks d)" using dec_token_shorter Inr p by simp
      show ?thesis
      proof (cases "\<exists>key. t = TStr key \<and> \<not> has_key obj key")
        case True
        then obtain key where key: "t = TStr key" "\<not> has_key obj key" by blast
        have IH: "parseJSONValue fu d1 \<noteq> Inl out_of_fuel
          \<and> (\<forall>v d'. parseJSONValue fu d1 = Inr (v, d') \<longrightarrow> length (d_toks d') < length (d_toks d1))"
          using "4.IH"(1) \<open>dec_more d\<close> "4.prems" Inr p key sh by simp
        show ?thesis
        proof (cases "parseJSONValue fu d1")
          case (Inr q)
          obtain v d2 where q: "q = (v, d2)" by (cases q)
          have sh2: "length (d_toks d2) < length (d_toks d1)" using IH Inr q by simp
          have "parseMembers fu d2 (aput key v obj) \<noteq> Inl out_of_fuel
            \<and> (\<forall>ms d'. parseMembers fu d2 (aput key v obj) = Inr (ms, d') \<longrightarrow> length (d_toks d') \<le> length (d_toks d2))"
            using "4.IH"(2) \<open>dec_more d\<close> "4.prems" \<open>dec_token d = Inr p\<close> p key Inr q sh sh2 by simp
          then show ?thesis using \<open>dec_more d\<close> \<open>dec_token d = Inr p\<close> p key Inr q sh sh2 by auto
        qed (use \<open>dec_more d\<close> \<open>dec_token d = Inr p\<close> p key IH in auto)
      qed (use \<open>dec_more d\<close> Inr p in \<open>auto simp: out_of_fuel_def split: tok.splits\<close>)
    qed (use True in auto)
  qed simp
next
  case (6 u fu d arr)
  show ?case
  proof (cases "dec_more d")
    case True
    have IH: "parseJSONValue fu d \<noteq> Inl out_of_fuel
      \<and> (\<forall>v d'. parseJSONValue fu d = Inr (v, d') \<longrightarrow> length (d_toks d') < length (d_toks d))"
      using "6.IH"(1) True "6.prems" by simp
    show ?thesis
    proof (cases "parseJSONValue fu d")
      case (Inr p)
      obtain v d1 where p: "p = (v, d1)" by (cases p)
      have "length (d_toks d1) < length (d_toks d)" using IH Inr p by simp
      then show ?thesis using "6.IH"(2) [OF _ Inr p [symmetric]] True "6.prems" Inr p by fastforce
    qed (use True IH in auto)
  qed simp
qed simp_all

section \<open>Properties\<close>

lemma parseDocument_render:
  assumes "good v"
  shows "parseDocument (render v) = Inr v"
proof -
  have l: "lex (render v) = vtoks v" using lex_render [OF assms, of "[]"] by simp
  have "parseJSONValue (LBad # vtoks v) \<lparr>d_toks = vtoks v @ [], d_state = TopValue, d_stack = []\<rparr>
      = Inr (v, \<lparr>d_toks = [], d_state = TopValue, d_stack = []\<rparr>)"
    using parse_vtoks [OF assms, unfolded parses_def, rule_format, of TopValue "LBad # vtoks v" "[]" "[]"]
    by simp
  then show ?thesis
    by (simp add: parseDocument_def new_decoder_def l dec_more_def dec_token_def)
qed

lemma Canonicalize_Inr:
  "Canonicalize raw = Inr w \<longleftrightarrow> (\<exists>v. parseDocument raw = Inr v \<and> good v \<and> w = render (sortv v))"
  using parseDocument_good
  by (auto simp: Canonicalize_def and_then_Inr_iff writeCanonical_render)

text \<open>The canonical form is a fixed point of \<open>Canonicalize\<close>: a document that
  \<open>Canonicalize\<close> writes is \<open>IsCanonical\<close>, and canonicalizing it again changes nothing.\<close>
lemma Canonicalize_idempotent:
  assumes "Canonicalize raw = Inr w"
  shows "Canonicalize w = Inr w \<and> IsCanonical w"
proof -
  obtain v where v: "parseDocument raw = Inr v" "good v" "w = render (sortv v)"
    using assms Canonicalize_Inr by auto
  have "Canonicalize w = Inr w"
    using v parseDocument_render [OF good_sortv [OF v(2)]] good_sortv [OF v(2)] sortv_idem [OF v(2)]
    by (auto simp: Canonicalize_Inr)
  then show ?thesis by (simp add: IsCanonical_def)
qed

text \<open>C26: canonicalization keeps the content. The canonical text parses to the parsed document
  with the members of every object sorted by UTF-16 code units, so two documents have one canonical
  form exactly when their values are equal up to the order of members.\<close>
theorem Canonicalize_faithful:
  assumes "Canonicalize raw = Inr w" "Canonicalize raw' = Inr w'"
  shows "(\<exists>v. parseDocument raw = Inr v \<and> parseDocument w = Inr (sortv v))
    \<and> (w = w' \<longleftrightarrow> (\<exists>v v'. parseDocument raw = Inr v \<and> parseDocument raw' = Inr v' \<and> sortv v = sortv v'))"
proof -
  obtain v where v: "parseDocument raw = Inr v" "good v" "w = render (sortv v)"
    using assms(1) Canonicalize_Inr by auto
  obtain v' where v': "parseDocument raw' = Inr v'" "good v'" "w' = render (sortv v')"
    using assms(2) Canonicalize_Inr by auto
  have p: "parseDocument w = Inr (sortv v)" "parseDocument w' = Inr (sortv v')"
    using v v' by (simp_all add: parseDocument_render good_sortv)
  then have "w = w' \<longleftrightarrow> sortv v = sortv v'" using v(3) v'(3) by (metis sum.inject(2))
  then show ?thesis using v v' p by auto
qed

theorem Canonicalize_faithful_witness:
  "\<exists>v v'. parseDocument ''{\"b\":0,\"a\":1}'' = Inr v \<and> parseDocument ''{\"a\":1, \"b\":0}'' = Inr v' \<and> sortv v = sortv v'"
proof -
  have "Canonicalize ''{\"b\":0,\"a\":1}'' = Inr ''{\"a\":1,\"b\":0}''"
    "Canonicalize ''{\"a\":1, \"b\":0}'' = Inr ''{\"a\":1,\"b\":0}''"
    by code_simp+
  from Canonicalize_faithful [OF this] show ?thesis by blast
qed

text \<open>The writer does not see the order in which an object holds its members, as Go's map
  iteration is unordered: any two member lists with the same entries give the same text.\<close>
lemma writeCanonical_order_insensitive:
  assumes "good (CObj ms)" "mset ms = mset ms'"
  shows "writeCanonical (CObj ms) = writeCanonical (CObj ms')"
proof -
  let ?w = "\<lambda>ms. map (\<lambda>(k, v). (k, writeCanonical v)) ms"
  have "map fst (?w ms) = map fst ms" by auto
  then have "distinct (map fst (?w ms))" using assms(1) by (simp only: good.simps)
  moreover have "\<forall>x \<in> set (?w ms). valid_utf8 (fst x)" using assms(1) by (auto simp: list_all_iff)
  moreover have "mset (?w ms) = mset (?w ms')" using assms(2) by simp
  ultimately have "sort_members (?w ms) = sort_members (?w ms')" by (rule utf16_keys.sort_unique)
  then show ?thesis by (simp add: writeCanonicalObject_def)
qed

text \<open>A number of a document is accepted exactly when it is the decimal spelling of an
  integer of the safe range, so an accepted integer has one spelling.\<close>
lemma parseCanonicalInteger_spec:
  "parseCanonicalInteger s = Inr n \<longleftrightarrow> s = show_int n \<and> - (2 ^ 53 - 1) \<le> n \<and> n \<le> 2 ^ 53 - 1"
  using parse_int_spelling [of s n] parse_show_int [of n] by (auto simp: maxSafeInteger_def)

text \<open>C36: \<open>Canonicalize\<close> decides every document: the fuel of its recursion, one
  more than the document has lexemes, never runs out.\<close>
theorem Canonicalize_never_out_of_fuel:
  "Canonicalize raw \<noteq> Inl out_of_fuel"
proof -
  have "parseJSONValue (LBad # d_toks (new_decoder raw)) (new_decoder raw) \<noteq> Inl out_of_fuel"
    using parser_fuel(1) [of "new_decoder raw" "LBad # d_toks (new_decoder raw)"] by simp
  then have "parseDocument raw \<noteq> Inl out_of_fuel"
    by (auto simp: parseDocument_def Let_def split: sum.splits)
  then show ?thesis
    using parseDocument_good [of raw]
    by (cases "parseDocument raw") (auto simp: Canonicalize_def writeCanonical_render)
qed

end
