(* ===== verification/Policy.thy ===== *)
theory Policy
  imports Canonical_Facts
begin

text \<open>
  \<open>checker/internal/ael/policy.go\<close>: a policy document is a list of rules, evaluated first match
  first over the inputs of a decision. The cryptographic functions of the Go standard library are
  the record \<open>crypto\<close>, an argument of every definition that uses them. A Go value of type
  \<open>any\<close> is a \<open>goval\<close>; decoding with \<open>UseNumber\<close> gives \<open>VNumber\<close>, without it \<open>VFloat\<close>.
\<close>

record crypto =
  sha256 :: "string \<Rightarrow> string"
  ed25519_verify :: "string \<Rightarrow> string \<Rightarrow> string \<Rightarrow> bool"

definition sha256_hex :: "crypto \<Rightarrow> string \<Rightarrow> string" where
  "sha256_hex cr raw = hex_encode (sha256 cr raw)"

section \<open>Documents\<close>

record PolicyWhen =
  pw_Field :: string
  pw_Op :: string
  pw_Value :: goval

record PolicyRule =
  pr_When :: PolicyWhen
  pr_Verdict :: string

record PolicyDoc =
  pd_V :: int
  pd_Rules :: "PolicyRule list"
  pd_Default :: string
  pd_Hash :: string

text \<open>\<open>set_field\<close> stores a decoded field in its struct.\<close>

definition set_field :: "('a \<Rightarrow> 'b) \<Rightarrow> 'a decoded \<Rightarrow> 'b decoded" where
  "set_field f d = (f (fst d), snd d)"

lemma set_field_simps [simp]: "snd (set_field f d) = snd d" "fst (set_field f d) = f (fst d)"
  by (simp_all add: set_field_def)

definition zero_PolicyWhen :: PolicyWhen where
  "zero_PolicyWhen = \<lparr>pw_Field = [], pw_Op = [], pw_Value = VNil\<rparr>"

definition zero_PolicyRule :: PolicyRule where
  "zero_PolicyRule = \<lparr>pr_When = zero_PolicyWhen, pr_Verdict = []\<rparr>"

definition zero_PolicyDoc :: PolicyDoc where
  "zero_PolicyDoc = \<lparr>pd_V = 0, pd_Rules = [], pd_Default = [], pd_Hash = []\<rparr>"

definition dec_PolicyWhen :: "json \<Rightarrow> PolicyWhen \<Rightarrow> PolicyWhen decoded" where
  "dec_PolicyWhen = dec_struct
     (\<lambda>n j w. if n = ''field'' then set_field (\<lambda>x. w\<lparr>pw_Field := x\<rparr>) (dec_string j (pw_Field w))
        else if n = ''op'' then set_field (\<lambda>x. w\<lparr>pw_Op := x\<rparr>) (dec_string j (pw_Op w))
        else set_field (\<lambda>x. w\<lparr>pw_Value := x\<rparr>) (dec_any True j (pw_Value w)))
     [''field'', ''op'', ''value'']"

definition dec_PolicyRule :: "json \<Rightarrow> PolicyRule \<Rightarrow> PolicyRule decoded" where
  "dec_PolicyRule = dec_struct
     (\<lambda>n j r. if n = ''when'' then set_field (\<lambda>x. r\<lparr>pr_When := x\<rparr>) (dec_PolicyWhen j (pr_When r))
        else set_field (\<lambda>x. r\<lparr>pr_Verdict := x\<rparr>) (dec_string j (pr_Verdict r)))
     [''when'', ''verdict'']"

definition dec_PolicyDoc :: "json \<Rightarrow> PolicyDoc \<Rightarrow> PolicyDoc decoded" where
  "dec_PolicyDoc = dec_struct
     (\<lambda>n j d. if n = ''v'' then set_field (\<lambda>x. d\<lparr>pd_V := x\<rparr>) (dec_int j (pd_V d))
        else if n = ''rules'' then
          set_field (\<lambda>x. d\<lparr>pd_Rules := x\<rparr>) (dec_slice dec_PolicyRule zero_PolicyRule j (pd_Rules d))
        else set_field (\<lambda>x. d\<lparr>pd_Default := x\<rparr>) (dec_string j (pd_Default d)))
     [''v'', ''rules'', ''default'']"

definition ParsePolicy :: "crypto \<Rightarrow> string \<Rightarrow> PolicyDoc res" where
  "ParsePolicy cr raw =
     (case Canonicalize raw of
        Inl e \<Rightarrow> Inl (Errorf ''policy canonicalize: %w'' [E e])
      | Inr canon \<Rightarrow>
          if canon \<noteq> raw then Inl (Errorf ''policy is not canonical'' [])
          else (case unmarshal dec_PolicyDoc raw zero_PolicyDoc of
                  (doc, Some e) \<Rightarrow> Inl e
                | (doc, None) \<Rightarrow> Inr (doc\<lparr>pd_Hash := sha256_hex cr raw\<rparr>)))"

section \<open>Evaluation\<close>

text \<open>
  A float64 that is no int64 has no integer value; Go leaves the conversion of a value outside the
  int64 range to the platform, and the model takes it to differ from the value.
\<close>

definition asInt :: "goval \<Rightarrow> int option" where
  "asInt v =
     (case v of
        VInt i \<Rightarrow> Some i
      | VFloat s \<Rightarrow> float_as_int s
      | VNumber s \<Rightarrow> (case parseCanonicalInteger s of Inl _ \<Rightarrow> None | Inr i \<Rightarrow> Some i)
      | _ \<Rightarrow> None)"

definition scalarEqual :: "goval \<Rightarrow> goval \<Rightarrow> bool" where
  "scalarEqual a b =
     (case (asInt a, asInt b) of
        (Some ai, Some bi) \<Rightarrow> ai = bi
      | _ \<Rightarrow>
          (case a of
             VString av \<Rightarrow> (case b of VString bv \<Rightarrow> av = bv | _ \<Rightarrow> False)
           | VBool av \<Rightarrow> (case b of VBool bv \<Rightarrow> av = bv | _ \<Rightarrow> False)
           | _ \<Rightarrow> False))"

definition matchWhen :: "PolicyWhen \<Rightarrow> (string \<times> goval) list \<Rightarrow> bool res" where
  "matchWhen w inputs =
     (case alookup inputs (pw_Field w) of
        None \<Rightarrow> Inr False
      | Some got \<Rightarrow>
          if pw_Op w = ''gte'' \<or> pw_Op w = ''lt'' then
            (case asInt got of
               None \<Rightarrow> Inr False
             | Some gi \<Rightarrow>
                 (case asInt (pw_Value w) of
                    None \<Rightarrow> Inl (Errorf ''%s value for %s is not an integer'' [S (pw_Op w), S (pw_Field w)])
                  | Some wi \<Rightarrow> if pw_Op w = ''gte'' then Inr (gi \<ge> wi) else Inr (gi < wi)))
          else if pw_Op w = ''eq'' then Inr (scalarEqual got (pw_Value w))
          else if pw_Op w = ''in'' then
            (case pw_Value w of
               VSlice arr \<Rightarrow> Inr (\<exists>item \<in> set arr. scalarEqual got item)
             | _ \<Rightarrow> Inl (Errorf ''in value for %s is not an array'' [S (pw_Field w)]))
          else Inl (Errorf ''unsupported policy op %q'' [Q (pw_Op w)]))"

fun eval_rules :: "PolicyRule list \<Rightarrow> string \<Rightarrow> (string \<times> goval) list \<Rightarrow> string res" where
  "eval_rules [] dflt inputs = Inr dflt"
| "eval_rules (r # rs) dflt inputs =
     (case matchWhen (pr_When r) inputs of
        Inl e \<Rightarrow> Inl e
      | Inr ok \<Rightarrow> if ok then Inr (pr_Verdict r) else eval_rules rs dflt inputs)"

definition Eval :: "PolicyDoc \<Rightarrow> (string \<times> goval) list \<Rightarrow> string res" where
  "Eval p inputs = eval_rules (pd_Rules p) (pd_Default p) inputs"

section \<open>Integers of canonical documents under float64\<close>

lemma bit_len_bounds: "0 < n \<Longrightarrow> 2 ^ (bit_len n - 1) \<le> n \<and> n < 2 ^ bit_len n \<and> 0 < bit_len n"
proof (induction n rule: bit_len.induct)
  case (1 n)
  show ?case
  proof (cases "n = 1")
    case True
    then show ?thesis by (simp add: bit_len.simps)
  next
    case False
    with 1 have IH: "2 ^ (bit_len (n div 2) - 1) \<le> n div 2" "n div 2 < 2 ^ bit_len (n div 2)" "0 < bit_len (n div 2)"
      by auto
    have b: "bit_len n = Suc (bit_len (n div 2))" using "1.prems" by (subst bit_len.simps) simp
    have "2 * 2 ^ (bit_len (n div 2) - 1) = (2::nat) ^ bit_len (n div 2)"
      using IH(3) by (cases "bit_len (n div 2)") simp_all
    then have "2 ^ bit_len (n div 2) \<le> n" "n < 2 * 2 ^ bit_len (n div 2)" using IH by linarith+
    then show ?thesis using b by simp
  qed
qed

lemma bit_len_le: "0 < m \<Longrightarrow> m < 2 ^ 53 \<Longrightarrow> bit_len m \<le> 53"
proof -
  assume m: "0 < m" "m < 2 ^ 53"
  have "(2::nat) ^ (bit_len m - 1) < 2 ^ 53" using bit_len_bounds [OF m(1)] m(2) by linarith
  then have "bit_len m - 1 < 53" by (rule power_less_imp_less_exp [rotated]) simp
  then show ?thesis by simp
qed

lemma round_half_even_1 [simp]: "round_half_even a (Suc 0) = a"
  by (simp add: round_half_even_def)

lemma lit_parts_show_int: "lit_parts (show_int n) = (n < 0, nat \<bar>n\<bar>, 0)"
proof -
  have sp: "digits_span (show_nat m) = (show_nat m, [])" for m
    using digits_span_app [OF show_nat_digits [of m], of "[]"] by simp
  obtain c t where ct: "show_nat (nat n) = c # t" by (cases "show_nat (nat n)") auto
  have "c \<noteq> CHR ''-''" using hd_show_nat_digit [of "nat n"] ct by auto
  then have "has_prefix (show_int n) ''-'' = (n < 0)" using ct by (simp add: show_int_def has_prefix_def)
  then show ?thesis
    by (auto simp: lit_parts_def Let_def show_int_def sp digits_val_show_nat)
qed

lemma float64_of_show_int:
  assumes "n \<noteq> 0" "\<bar>n\<bar> < 2 ^ 53"
  shows "\<exists>e. float64_of (show_int n) = Some (n * 2 ^ e, - int e)"
proof -
  define m where "m = nat \<bar>n\<bar>"
  have m: "0 < m" "m < 2 ^ 53" using assms by (auto simp: m_def)
  define b where "b = bit_len m"
  have b: "b \<le> 53" "0 < b" "2 ^ (b - 1) \<le> m" using bit_len_le [OF m] bit_len_bounds [OF m(1)] by (simp_all add: b_def)
  have b1: "bit_len (Suc 0) = 1" by (simp add: bit_len.simps)
  have k: "nat (int b - 1) = b - 1" "0 \<le> int b - 1" using b(2) by simp_all
  have q: "int b - 53 = - int (53 - b)" using b(1) by simp
  have "scale2 m (Suc 0) (- int (53 - b)) = m * 2 ^ (53 - b)"
    by (cases "b = 53") (use b(1) in \<open>simp_all add: scale2_def nat_diff_distrib'\<close>)
  then have r: "scale2 m (Suc 0) (int b - 53) = m * 2 ^ (53 - b)" by (simp only: q)
  have "float64_of (show_int n) = Some (if n < 0 then - int (m * 2 ^ (53 - b)) else int (m * 2 ^ (53 - b)), - int (53 - b))"
    unfolding float64_of_def lit_parts_show_int m_def [symmetric] Let_def split
    using m(1) b(1,3) k by (simp add: b1 r b_def [symmetric])
  moreover have "(if n < 0 then - int m else int m) = n" by (simp add: m_def)
  ultimately show ?thesis by (intro exI [of _ "53 - b"]) (auto split: if_splits)
qed

lemma float_as_int_show_int:
  assumes "\<bar>n\<bar> < 2 ^ 53"
  shows "float_as_int (show_int n) = Some n"
proof (cases "n = 0")
  case True
  then show ?thesis
    by (simp add: float_as_int_def float64_of_def lit_parts_show_int in64_def)
next
  case False
  then obtain e where e: "float64_of (show_int n) = Some (n * 2 ^ e, - int e)"
    using float64_of_show_int assms by blast
  have "in64 n" using assms by (auto simp: in64_def)
  then show ?thesis using e by (auto simp: float_as_int_def)
qed

text \<open>Decoding the inputs of a decision without \<open>UseNumber\<close>, through float64, loses nothing: an
  integer of a canonical payload compares as the same integer as in the policy document, which is
  decoded with \<open>UseNumber\<close>.\<close>
lemma asInt_float_exact:
  assumes "parseCanonicalInteger s = Inr n"
  shows "asInt (VFloat s) = Some n \<and> asInt (VNumber s) = Some n \<and> scalarEqual (VFloat s) (VNumber s)"
proof -
  have "s = show_int n" "\<bar>n\<bar> < 2 ^ 53"
    using parse_int_spelling [OF assms] by (auto simp: maxSafeInteger_def)
  then show ?thesis using assms float_as_int_show_int [of n] by (simp add: asInt_def scalarEqual_def)
qed

section \<open>Properties\<close>

lemma eval_rules_Inr:
  "eval_rules rs dflt inputs = Inr v \<longleftrightarrow>
     (\<exists>pre r post. rs = pre @ r # post \<and> (\<forall>q \<in> set pre. matchWhen (pr_When q) inputs = Inr False)
        \<and> matchWhen (pr_When r) inputs = Inr True \<and> v = pr_Verdict r)
     \<or> (\<forall>q \<in> set rs. matchWhen (pr_When q) inputs = Inr False) \<and> v = dflt" (is "?l = (?m \<or> ?n)")
proof (induction rs)
  case (Cons r rs)
  show ?case
  proof (cases "matchWhen (pr_When r) inputs")
    case (Inr ok)
    show ?thesis
    proof (cases ok)
      case True
      show ?thesis using True Inr by (force simp: Cons_eq_append_conv)
    next
      case False
      have "(\<exists>pre r' post. r # rs = pre @ r' # post \<and> (\<forall>q \<in> set pre. matchWhen (pr_When q) inputs = Inr False)
          \<and> matchWhen (pr_When r') inputs = Inr True \<and> v = pr_Verdict r')
        \<longleftrightarrow> (\<exists>pre r' post. rs = pre @ r' # post \<and> (\<forall>q \<in> set pre. matchWhen (pr_When q) inputs = Inr False)
          \<and> matchWhen (pr_When r') inputs = Inr True \<and> v = pr_Verdict r')" (is "?a = ?b")
      proof
        assume ?a
        then show ?b using False Inr by (fastforce simp: Cons_eq_append_conv)
      next
        assume ?b
        then obtain pre r' post where "rs = pre @ r' # post" "\<forall>q \<in> set pre. matchWhen (pr_When q) inputs = Inr False"
          "matchWhen (pr_When r') inputs = Inr True" "v = pr_Verdict r'" by blast
        then have "r # rs = (r # pre) @ r' # post" "\<forall>q \<in> set (r # pre). matchWhen (pr_When q) inputs = Inr False"
          using False Inr by auto
        then show ?a using \<open>matchWhen (pr_When r') inputs = Inr True\<close> \<open>v = pr_Verdict r'\<close> by blast
      qed
      then show ?thesis using Cons False Inr by simp
    qed
  next
    case (Inl e)
    then show ?thesis by (force simp: Cons_eq_append_conv)
  qed
qed auto

text \<open>C37: a policy evaluates to the verdict of its first matching rule, and to its default exactly
  when no rule matches; a rule that errs before any match makes the evaluation err.\<close>
theorem Eval_first_match:
  "Eval p inputs = Inr v \<longleftrightarrow>
     (\<exists>pre r post. pd_Rules p = pre @ r # post \<and> (\<forall>q \<in> set pre. matchWhen (pr_When q) inputs = Inr False)
        \<and> matchWhen (pr_When r) inputs = Inr True \<and> v = pr_Verdict r)
     \<or> ((\<forall>q \<in> set (pd_Rules p). matchWhen (pr_When q) inputs = Inr False) \<and> v = pd_Default p)"
  unfolding Eval_def eval_rules_Inr by simp

theorem Eval_first_match_witness:
  "Eval \<lparr>pd_V = 1, pd_Rules = [\<lparr>pr_When = \<lparr>pw_Field = ''n'', pw_Op = ''gte'', pw_Value = VNumber ''5''\<rparr>, pr_Verdict = ''block''\<rparr>],
      pd_Default = ''allow'', pd_Hash = []\<rparr> [(''n'', VFloat ''3'')] = Inr ''allow''"
proof -
  have "matchWhen \<lparr>pw_Field = ''n'', pw_Op = ''gte'', pw_Value = VNumber ''5''\<rparr> [(''n'', VFloat ''3'')] = Inr False"
    by code_simp
  then show ?thesis by (intro Eval_first_match [THEN iffD2]) simp
qed

end
