(* ===== verification/Result.thy ===== *)
theory Result
  imports Policy
begin

text \<open>
  \<open>checker/internal/ael/result.go\<close>: outcomes of checks, the result of a run and its rendering. The
  status constants are strings in Go; \<open>ZeroStatus\<close> is the empty one, the status of a check that is
  not in the map. Messages and notes stay structured.
\<close>

datatype OutcomeStatus = Pass | Fail | UV | ZeroStatus

definition status_text :: "OutcomeStatus \<Rightarrow> string" where
  "status_text s = (case s of Pass \<Rightarrow> ''PASS'' | Fail \<Rightarrow> ''FAIL'' | UV \<Rightarrow> ''UV'' | ZeroStatus \<Rightarrow> [])"

record Outcome =
  Status :: OutcomeStatus
  Message :: msg

abbreviation outcome :: "OutcomeStatus \<Rightarrow> msg \<Rightarrow> Outcome" where
  "outcome s m \<equiv> \<lparr>Status = s, Message = m\<rparr>"

definition plain :: "string \<Rightarrow> msg" where
  "plain s = Errorf s []"

definition zero_Outcome :: Outcome where
  "zero_Outcome = outcome ZeroStatus (plain [])"

type_synonym checks = "(string \<times> Outcome) list"

definition check :: "checks \<Rightarrow> string \<Rightarrow> Outcome" where
  "check cs cid = (case alookup cs cid of Some out \<Rightarrow> out | None \<Rightarrow> zero_Outcome)"

record Result =
  res_Run :: string
  res_Grade :: int
  res_Ungraded :: bool
  res_R :: string
  res_Checks :: checks
  res_Coverage :: string
  res_Custody :: string
  res_Anchor :: string
  res_Retention :: string
  res_Open :: bool
  res_OpenStatus :: string
  res_Notes :: "msg list"

record Report =
  rep_Runs :: "Result list"

definition GradeString :: "Result \<Rightarrow> string" where
  "GradeString r =
     (if res_Ungraded r then ''Ungraded'' else msg_text (Errorf ''AEL-%d'' [D (res_Grade r)]))"

definition RLabel :: "Result \<Rightarrow> string" where
  "RLabel r =
     (if res_R r = ''+R'' then ''+R'' else if res_R r = ''fail'' then ''R-fail'' else ''R-pending'')"

definition emptyAsUnknown :: "string \<Rightarrow> string" where
  "emptyAsUnknown s = (if s = [] then ''unknown'' else s)"

definition GradeLine :: "Result \<Rightarrow> string" where
  "GradeLine r =
     msg_text (Errorf ''run %s: %s %s (coverage: %s; custody: %s; anchor: %s; retention: %s)''
       [S (emptyAsUnknown (res_Run r)), S (GradeString r), S (RLabel r), S (emptyAsUnknown (res_Coverage r)),
        S (emptyAsUnknown (res_Custody r)), S (emptyAsUnknown (res_Anchor r)), S (emptyAsUnknown (res_Retention r))])"

section \<open>The order of the checks\<close>

definition check_order_table :: "(string \<times> int) list" where
  "check_order_table =
     [(''a'', 1), (''b'', 2), (''c'', 3), (''d'', 4), (''e'', 5), (''w'', 6), (''f'', 7), (''g'', 8),
      (''h'', 9), (''i'', 10), (''j'', 11), (''k'', 12), (''l'', 13), (''m'', 14), (''n'', 15),
      (''o'', 16), (''p'', 17), (''q'', 18), (''u'', 19), (''r'', 20), (''s'', 21), (''t'', 22),
      (''v'', 23), (''R'', 24)]"

definition checkOrder :: "string \<Rightarrow> int" where
  "checkOrder cid = (case alookup check_order_table cid of Some n \<Rightarrow> n | None \<Rightarrow> 1000)"

definition CheckIDs :: "checks \<Rightarrow> string list" where
  "CheckIDs cs = map fst (sort_slice (\<lambda>x y. checkOrder (fst x) - checkOrder (fst y) < 0) cs)"

lemma distinct_orders: "distinct (map snd check_order_table)"
  by code_simp

lemma check_order_table_inj:
  assumes "(a, n) \<in> set check_order_table" "(b, n) \<in> set check_order_table"
  shows "a = b"
proof -
  have "inj_on snd (set check_order_table)" using distinct_orders by (simp only: distinct_map)
  from inj_onD [OF this _ assms] have "(a, n) = (b, n)" by simp
  then show ?thesis by simp
qed

lemma checkOrder_inj:
  assumes "checkOrder a = checkOrder b" "checkOrder a \<noteq> 1000"
  shows "a = b"
proof -
  obtain n where n: "alookup check_order_table a = Some n" "alookup check_order_table b = Some n"
    using assms by (auto simp: checkOrder_def split: option.splits)
  then show ?thesis using check_order_table_inj alookup_SomeD by metis
qed

text \<open>The ids the checker uses are told apart by \<open>checkOrder\<close>, so \<open>sort.Slice\<close> has one result.\<close>

interpretation check_ids: key_order "\<lambda>a b. checkOrder a - checkOrder b" "\<lambda>cid. checkOrder cid \<noteq> 1000"
  by unfold_locales (auto dest: checkOrder_inj)

text \<open>The report lists each check of a run once, in the order of the specification's table,
  whatever the order in which the map yields them.\<close>
lemma CheckIDs_sorted:
  assumes "distinct (map fst cs)" "\<forall>cid \<in> fst ` set cs. checkOrder cid \<noteq> 1000"
  shows "sorted_wrt (\<lambda>a b. checkOrder a < checkOrder b) (CheckIDs cs)
    \<and> mset (CheckIDs cs) = mset (map fst cs)
    \<and> (\<forall>cs'. mset cs' = mset cs \<longrightarrow> CheckIDs cs' = CheckIDs cs)"
proof (intro conjI allI impI)
  have ok: "\<forall>x \<in> set cs. checkOrder (fst x) \<noteq> 1000" using assms(2) by auto
  show "sorted_wrt (\<lambda>a b. checkOrder a < checkOrder b) (CheckIDs cs)"
    using check_ids.sort_sorted [OF assms(1) ok] by (simp add: CheckIDs_def sorted_wrt_map)
  show "mset (CheckIDs cs) = mset (map fst cs)" by (simp add: CheckIDs_def)
  show "CheckIDs cs' = CheckIDs cs" if "mset cs' = mset cs" for cs'
    using check_ids.sort_unique [OF assms(1) ok that [symmetric]] by (simp add: CheckIDs_def)
qed

theorem CheckIDs_sorted_witness:
  "sorted_wrt (\<lambda>a b. checkOrder a < checkOrder b)
     (CheckIDs [(''R'', zero_Outcome), (''u'', zero_Outcome), (''r'', zero_Outcome)])"
proof (rule CheckIDs_sorted [THEN conjunct1])
  show "distinct (map fst [(''R'', zero_Outcome), (''u'', zero_Outcome), (''r'', zero_Outcome)])" by simp
  show "\<forall>cid \<in> fst ` set [(''R'', zero_Outcome), (''u'', zero_Outcome), (''r'', zero_Outcome)]. checkOrder cid \<noteq> 1000"
    by code_simp
qed

end
