(* ===== verification/Go_Time.thy ===== *)
theory Go_Time
  imports Go_Text
begin

text \<open>
  What the program uses of Go's \<open>time\<close>: \<open>time.Parse(time.RFC3339, s)\<close> as an instant in
  nanoseconds since 1970-01-01T00:00:00Z, comparison of instants, and \<open>Sub\<close> with its saturation to
  a 64-bit \<open>Duration\<close>. The parser follows Go's: the hour may have one digit, a fraction may follow
  the seconds with a point or a comma, an offset may reach 24:60.
\<close>

section \<open>Dates\<close>

definition is_leap :: "int \<Rightarrow> bool" where
  "is_leap y \<longleftrightarrow> y mod 4 = 0 \<and> (y mod 100 \<noteq> 0 \<or> y mod 400 = 0)"

definition days_in :: "int \<Rightarrow> int \<Rightarrow> int" where
  "days_in m y =
     (if m = 2 then (if is_leap y then 29 else 28)
      else if m \<in> {4, 6, 9, 11} then 30 else 31)"

definition days_before_month :: "int \<Rightarrow> int \<Rightarrow> int" where
  "days_before_month m y = sum_list (map (\<lambda>k. days_in k y) [1..m - 1])"

text \<open>Days from 1970-01-01 in the proleptic Gregorian calendar.\<close>

definition civil_days :: "int \<Rightarrow> int \<Rightarrow> int \<Rightarrow> int" where
  "civil_days y m d =
     (let p = y - 1
      in 365 * p + p div 4 - p div 100 + p div 400 + days_before_month m y + (d - 1) - 719162)"

section \<open>RFC 3339\<close>

definition digit :: "char \<Rightarrow> int" where
  "digit c = int (code c) - 48"

text \<open>\<open>getnum(s, fixed)\<close>: two digits, or one unless \<open>fixed\<close>.\<close>

definition getnum :: "string \<Rightarrow> bool \<Rightarrow> (int \<times> string) option" where
  "getnum s fixed =
     (case s of
        [] \<Rightarrow> None
      | a # t \<Rightarrow>
          if \<not> is_digit a then None
          else (case t of
                  b # u \<Rightarrow> if is_digit b then Some (digit a * 10 + digit b, u)
                          else if fixed then None else Some (digit a, t)
                | [] \<Rightarrow> if fixed then None else Some (digit a, t)))"

definition skip :: "char \<Rightarrow> string \<Rightarrow> string option" where
  "skip c s = (case s of d # t \<Rightarrow> if d = c then Some t else None | [] \<Rightarrow> None)"

definition get_year :: "string \<Rightarrow> (int \<times> string) option" where
  "get_year s =
     (case s of
        a # b # c # d # t \<Rightarrow>
          if is_digit a \<and> is_digit b \<and> is_digit c \<and> is_digit d
          then Some (((digit a * 10 + digit b) * 10 + digit c) * 10 + digit d, t) else None
      | _ \<Rightarrow> None)"

text \<open>The optional fraction, in nanoseconds; digits past the ninth are dropped.\<close>

definition get_fraction :: "string \<Rightarrow> int \<times> string" where
  "get_fraction s =
     (case s of
        p # d # t \<Rightarrow>
          if (p = CHR ''.'' \<or> p = CHR '','') \<and> is_digit d then
            (let ds = takeWhile is_digit (d # t); kept = take 9 ds
             in (int (digits_val 0 kept) * 10 ^ (9 - length kept), dropWhile is_digit (d # t)))
          else (0, s)
      | _ \<Rightarrow> (0, s))"

text \<open>The zone: \<open>Z\<close>, or a signed \<open>hh:mm\<close>; the offset in seconds.\<close>

definition get_zone :: "string \<Rightarrow> (int \<times> string) option" where
  "get_zone s =
     (case s of
        [] \<Rightarrow> None
      | z # t \<Rightarrow>
          if z = CHR ''Z'' then Some (0, t)
          else (case t of
                  h1 # h2 # c # m1 # m2 # u \<Rightarrow>
                    if c = CHR '':'' then
                      (case (getnum [h1, h2] True, getnum [m1, m2] True) of
                         (Some (h, _), Some (m, _)) \<Rightarrow>
                           if h > 24 \<or> m > 60 then None
                           else if z = CHR ''+'' then Some ((h * 60 + m) * 60, u)
                           else if z = CHR ''-'' then Some (- ((h * 60 + m) * 60), u)
                           else None
                       | _ \<Rightarrow> None)
                    else None
                | _ \<Rightarrow> None))"

type_synonym instant = int

definition parse_rfc3339 :: "string \<Rightarrow> instant option" where
  "parse_rfc3339 s =
     Option.bind (get_year s) (\<lambda>(y, s).
     Option.bind (skip (CHR ''-'') s) (\<lambda>s.
     Option.bind (getnum s True) (\<lambda>(mo, s).
     if mo < 1 \<or> 12 < mo then None else
     Option.bind (skip (CHR ''-'') s) (\<lambda>s.
     Option.bind (getnum s True) (\<lambda>(d, s).
     Option.bind (skip (CHR ''T'') s) (\<lambda>s.
     Option.bind (getnum s False) (\<lambda>(h, s).
     if 24 \<le> h then None else
     Option.bind (skip (CHR '':'') s) (\<lambda>s.
     Option.bind (getnum s True) (\<lambda>(mi, s).
     if 60 \<le> mi then None else
     Option.bind (skip (CHR '':'') s) (\<lambda>s.
     Option.bind (getnum s True) (\<lambda>(se, s).
     if 60 \<le> se then None else
     (case get_fraction s of (ns, s) \<Rightarrow>
     Option.bind (get_zone s) (\<lambda>(off, s).
     if s \<noteq> [] \<or> d < 1 \<or> days_in mo y < d then None
     else Some ((civil_days y mo d * 86400 + h * 3600 + mi * 60 + se - off) * 1000000000 + ns))))))))))))))"

section \<open>Durations\<close>

definition max_duration :: int where
  "max_duration = 2 ^ 63 - 1"

definition second :: int where
  "second = 1000000000"

text \<open>\<open>t.Sub(u)\<close> saturates.\<close>

definition time_sub :: "instant \<Rightarrow> instant \<Rightarrow> int" where
  "time_sub t u = max (- (2 ^ 63)) (min max_duration (t - u))"

lemma time_sub_in64: "in64 (time_sub t u)"
  by (simp add: time_sub_def in64_def max_duration_def)

lemma time_sub_le_iff: "l < max_duration \<Longrightarrow> - (2 ^ 63) \<le> l \<Longrightarrow> time_sub t u \<le> l \<longleftrightarrow> t - u \<le> l"
  by (auto simp: time_sub_def max_duration_def)

end
