(* ===== verification/Schema.thy ===== *)
theory Schema
  imports Result Go_Time
begin

text \<open>
  \<open>checker/internal/ael/schema.go\<close>: the closed schemas of signed payloads and the structural limits
  of the manifest. A function that Go gives a \<open>[]byte\<close> or a \<open>json.RawMessage\<close> takes \<open>json res\<close>, the
  result of parsing it: \<open>parse_json raw\<close> for bytes, \<open>Inr j\<close> for a raw message.
\<close>

definition maxManifestBytes :: nat where "maxManifestBytes = 1048576"
definition maxManifestArrayItems :: nat where "maxManifestArrayItems = 1024"
definition maxManifestStringBytes :: nat where "maxManifestStringBytes = 16384"
definition maxManifestObjectFields :: nat where "maxManifestObjectFields = 128"
definition maxManifestNestingDepth :: nat where "maxManifestNestingDepth = 16"
definition maxDecisionInputFields :: nat where "maxDecisionInputFields = 64"
definition ArtifactFormatVersion :: int where "ArtifactFormatVersion = 1"
definition SpecificationVersion :: string where "SpecificationVersion = ''0.1''"

type_synonym fields = "(string \<times> json) list"

section \<open>Paths\<close>

text \<open>\<open>path.Clean\<close> on the elements of a slash-separated path, innermost last element first.\<close>

fun clean_parts :: "bool \<Rightarrow> string list \<Rightarrow> string list \<Rightarrow> string list" where
  "clean_parts rooted [] acc = rev acc"
| "clean_parts rooted (p # ps) acc =
     (if p = [] \<or> p = ''.'' then clean_parts rooted ps acc
      else if p = ''..'' then
        (case acc of
           q # acc' \<Rightarrow> if q = ''..'' then clean_parts rooted ps (p # acc) else clean_parts rooted ps acc'
         | [] \<Rightarrow> clean_parts rooted ps (if rooted then [] else [p]))
      else clean_parts rooted ps (p # acc))"

definition path_Clean :: "string \<Rightarrow> string" where
  "path_Clean s =
     (if s = [] then ''.''
      else
        (let rooted = has_prefix s ''/'';
             out = (if rooted then ''/'' else []) @ join_with ''/'' (clean_parts rooted (split_on (CHR ''/'') s) [])
         in if out = [] then ''.'' else out))"

definition validateArtifactPath :: "string \<Rightarrow> msg option" where
  "validateArtifactPath value =
     (let e = Errorf ''must be a clean non-empty relative path'' [] in
      if value = [] \<or> CHR 0x5C \<in> set value \<or> has_prefix value ''/'' \<or> path_Clean value \<noteq> value
      then Some e
      else first_some (\<lambda>part. if part = [] \<or> part = ''.'' \<or> part = ''..'' then Some e else None)
             (split_on (CHR ''/'') value))"

section \<open>Fields of an object\<close>

definition objectFields :: "json res \<Rightarrow> string \<Rightarrow> fields res" where
  "objectFields raw name =
     (case and_then raw raw_map of
        Inr (Some obj) \<Rightarrow> Inr obj
      | _ \<Rightarrow> Inl (Errorf ''%s must be an object'' [S name]))"

definition closedObjectFields :: "json res \<Rightarrow> string \<Rightarrow> string list \<Rightarrow> fields res" where
  "closedObjectFields raw name known =
     and_then (objectFields raw name) (\<lambda>obj.
       fail_if (first_some (\<lambda>(field, _).
           if field \<in> set known then None else Some (Errorf ''%s has unknown key %q'' [S name, Q field])) obj)
         (Inr obj))"

definition arrayFields :: "json res \<Rightarrow> string \<Rightarrow> json list res" where
  "arrayFields raw name =
     (case raw of
        Inr (JArr js) \<Rightarrow> Inr js
      | _ \<Rightarrow> Inl (Errorf ''%s must be an array'' [S name]))"

definition isJSONNull :: "json \<Rightarrow> bool" where
  "isJSONNull j \<longleftrightarrow> j = JNull"

definition isJSONObject :: "json \<Rightarrow> bool" where
  "isJSONObject j \<longleftrightarrow> (case j of JObj _ \<Rightarrow> True | _ \<Rightarrow> False)"

definition validateStringArray :: "json res \<Rightarrow> string \<Rightarrow> nat \<Rightarrow> msg option" where
  "validateStringArray raw name minimum =
     (let bad = Some (if minimum > 0 then Errorf ''%s must be a non-empty array'' [S name]
                      else Errorf ''%s must be an array'' [S name])
      in case arrayFields raw name of
           Inl _ \<Rightarrow> bad
         | Inr values \<Rightarrow>
             if length values < minimum then bad
             else first_some (\<lambda>i.
               if isJSONNull (values ! i) \<or> snd (dec_string (values ! i) []) \<noteq> None
               then Some (Errorf ''%s[%d] must be a string'' [S name, D (int i)]) else None)
               [0..<length values])"

text \<open>\<open>obj[field]\<close>: an absent key gives an empty raw message, which no decoder accepts.\<close>

definition raw_field :: "fields \<Rightarrow> string \<Rightarrow> json res" where
  "raw_field obj field = (case alookup obj field of Some j \<Rightarrow> Inr j | None \<Rightarrow> Inl syntax_err)"

definition requireField :: "fields \<Rightarrow> string \<Rightarrow> msg option" where
  "requireField obj field =
     (if has_key obj field then None
      else Some (Errorf ''missing required top-level key %q'' [Q field]))"

definition requiredString :: "fields \<Rightarrow> string \<Rightarrow> bool \<Rightarrow> string res" where
  "requiredString obj field nonEmpty =
     (case alookup obj field of
        None \<Rightarrow> Inl (Errorf ''missing required top-level key %q'' [Q field])
      | Some raw \<Rightarrow>
          (let (value, e) = dec_string raw [] in
           if isJSONNull raw \<or> e \<noteq> None \<or> (nonEmpty \<and> value = [])
           then (if nonEmpty then Inl (Errorf ''%s must be a non-empty string'' [S field])
                 else Inl (Errorf ''%s must be a string'' [S field]))
           else Inr value))"

definition is_sha256_hex :: "string \<Rightarrow> bool" where
  "is_sha256_hex s \<longleftrightarrow>
     length s = 64 \<and> list_all (\<lambda>c. is_digit c \<or> (97 \<le> code c \<and> code c \<le> 102)) s"

definition requiredSHA256Hex :: "fields \<Rightarrow> string \<Rightarrow> msg option" where
  "requiredSHA256Hex obj field =
     (let e = Some (Errorf ''%s must be a lowercase sha-256 hex string'' [S field]) in
      case requiredString obj field False of
        Inl _ \<Rightarrow> e
      | Inr value \<Rightarrow> if is_sha256_hex value then None else e)"

definition requiredRFC3339 :: "fields \<Rightarrow> string \<Rightarrow> msg option" where
  "requiredRFC3339 obj field =
     (case requiredString obj field False of
        Inl e \<Rightarrow> Some e
      | Inr value \<Rightarrow>
          if parse_rfc3339 value = None then Some (Errorf ''%s must be RFC3339 date-time'' [S field]) else None)"

definition validateEnumRaw :: "json res \<Rightarrow> string \<Rightarrow> string list \<Rightarrow> msg option" where
  "validateEnumRaw raw field allowed =
     (let e = Some (Errorf ''%s must be one of %s'' [S field, S (join_with '', '' allowed)]) in
      case raw of
        Inl _ \<Rightarrow> e
      | Inr j \<Rightarrow>
          (case dec_string j [] of
             (value, Some _) \<Rightarrow> e
           | (value, None) \<Rightarrow> if value \<in> set allowed then None else e))"

text \<open>Decoding into a \<open>json.Number\<close>: a number, or a string that spells one.\<close>

definition dec_number :: "json \<Rightarrow> string res" where
  "dec_number j =
     (case j of
        JNum n \<Rightarrow> Inr n
      | JStr s \<Rightarrow> if lex_num s = Some (s, []) then Inr s else Inl type_err
      | JNull \<Rightarrow> Inr []
      | _ \<Rightarrow> Inl type_err)"

definition number_Int64 :: "string \<Rightarrow> int res" where
  "number_Int64 n =
     (case parse_int64 n of Some i \<Rightarrow> Inr i | None \<Rightarrow> Inl (StdErr ''strconv.ParseInt: parsing''))"

definition integerField :: "json res \<Rightarrow> string \<Rightarrow> int res" where
  "integerField raw field =
     and_then (and_then raw raw_map) (\<lambda>obj.
       case Option.bind obj (\<lambda>m. alookup m field) of
         None \<Rightarrow> Inl (Errorf ''missing field'' [])
       | Some value \<Rightarrow>
           if isJSONNull value then Inl (Errorf ''null field'' [])
           else and_then (dec_number value) number_Int64)"

definition validateExactIntegerField :: "json res \<Rightarrow> string \<Rightarrow> int \<Rightarrow> msg option" where
  "validateExactIntegerField raw field want =
     (case integerField raw field of
        Inr got \<Rightarrow> if got = want then None else Some (Errorf ''%s must be %d'' [S field, D want])
      | Inl _ \<Rightarrow> Some (Errorf ''%s must be %d'' [S field, D want]))"

definition validateMinimumIntegerField :: "json res \<Rightarrow> string \<Rightarrow> int \<Rightarrow> msg option" where
  "validateMinimumIntegerField raw field minimum =
     (case integerField raw field of
        Inr got \<Rightarrow> if got < minimum then Some (Errorf ''%s must be an integer >= %d'' [S field, D minimum]) else None
      | Inl _ \<Rightarrow> Some (Errorf ''%s must be an integer >= %d'' [S field, D minimum]))"

definition validateIntegerRangeField :: "json res \<Rightarrow> string \<Rightarrow> int \<Rightarrow> int \<Rightarrow> msg option" where
  "validateIntegerRangeField raw field minimum maximum =
     (let e = Some (Errorf ''%s must be an integer between %d and %d'' [S field, D minimum, D maximum]) in
      case integerField raw field of
        Inr got \<Rightarrow> if got < minimum \<or> got > maximum then e else None
      | Inl _ \<Rightarrow> e)"

definition validateObjectSchema :: "json res \<Rightarrow> string list \<Rightarrow> string list \<Rightarrow> msg option" where
  "validateObjectSchema raw known required =
     (case and_then raw raw_map of
        Inl e \<Rightarrow> Some e
      | Inr m \<Rightarrow>
          (let obj = (case m of Some ms \<Rightarrow> ms | None \<Rightarrow> []) in
           first_err
             [first_some (requireField obj) required,
              first_some (\<lambda>(key, val).
                if key \<notin> set known then Some (Errorf ''unknown top-level key %q'' [Q key])
                else if key = ''ext'' \<and> \<not> isJSONObject val then Some (Errorf ''ext must be an object'' [])
                else None) obj]))"

definition validateNestedObjectSchema :: "json res \<Rightarrow> string \<Rightarrow> string list \<Rightarrow> string list \<Rightarrow> msg option" where
  "validateNestedObjectSchema raw field known required =
     (case and_then raw raw_map of
        Inl e \<Rightarrow> Some e
      | Inr m \<Rightarrow>
          (case Option.bind m (\<lambda>obj. alookup obj field) of
             None \<Rightarrow> None
           | Some val \<Rightarrow>
               if \<not> isJSONObject val then Some (Errorf ''%s must be an object'' [S field])
               else wrap_err (\<lambda>e. Errorf ''%s: %w'' [S field, E e]) (validateObjectSchema (Inr val) known required)))"

section \<open>Record payloads\<close>

definition validateEventSchema :: "json res \<Rightarrow> msg option" where
  "validateEventSchema raw =
     (case closedObjectFields raw ''event'' [''class'', ''id'', ''dir''] of
        Inl e \<Rightarrow> Some e
      | Inr obj \<Rightarrow>
          first_err
            [first_some (requireField obj) [''class'', ''id'', ''dir''],
             err_of (requiredString obj ''class'' False),
             err_of (requiredString obj ''id'' False),
             validateEnumRaw (raw_field obj ''dir'') ''event.dir'' [''out'', ''in'', ''internal'']])"

definition validateDecisionInputValue :: "json \<Rightarrow> msg option" where
  "validateDecisionInputValue raw =
     (let bad = Some (Errorf ''must be a string, integer, or boolean'' []) in
      case any_of True raw of
        (value, Some e) \<Rightarrow> Some e
      | (value, None) \<Rightarrow>
          (case value of
             VString _ \<Rightarrow> None
           | VBool _ \<Rightarrow> None
           | VNumber n \<Rightarrow> (case number_Int64 n of Inr _ \<Rightarrow> None | Inl _ \<Rightarrow> bad)
           | _ \<Rightarrow> bad))"

definition validateDecisionSchema :: "json res \<Rightarrow> msg option" where
  "validateDecisionSchema raw =
     (case closedObjectFields raw ''decision'' [''policy'', ''request_fp'', ''inputs'', ''verdict''] of
        Inl e \<Rightarrow> Some e
      | Inr obj \<Rightarrow>
          first_err
            [first_some (requireField obj) [''policy'', ''request_fp'', ''inputs'', ''verdict''],
             requiredSHA256Hex obj ''policy'',
             err_of (requiredString obj ''request_fp'' False),
             (case objectFields (raw_field obj ''inputs'') ''decision.inputs'' of
                Inl e \<Rightarrow> Some e
              | Inr inputs \<Rightarrow>
                  if length inputs > maxDecisionInputFields
                  then Some (Errorf ''decision.inputs has more than %d members'' [D (int maxDecisionInputFields)])
                  else first_some (\<lambda>(key, value).
                    wrap_err (\<lambda>e. Errorf ''decision.inputs.%s: %w'' [S key, E e]) (validateDecisionInputValue value)) inputs),
             validateEnumRaw (raw_field obj ''verdict'') ''decision.verdict'' [''allow'', ''block'', ''defer'']])"

text \<open>The keys each record type requires and the keys it allows beyond the common ones.\<close>

definition record_type_fields :: "string \<Rightarrow> (string list \<times> string list) res" where
  "record_type_fields typ =
     (if typ = ''open'' then Inr ([''hmax'', ''htol''], [''hmax'', ''htol'', ''cp_nonce''])
      else if typ = ''activity'' then Inr ([''event''], [''event'', ''decision''])
      else if typ = ''heartbeat'' then Inr ([], [])
      else if typ = ''close'' then Inr ([''count'', ''head''], [''count'', ''head''])
      else Inl (Errorf ''unknown record type %q'' [Q typ]))"

definition common_record_fields :: "string list" where
  "common_record_fields = [''v'', ''type'', ''run'', ''recorder'', ''key'', ''seq'', ''prev'', ''ts'']"

definition validateRecordPayloadSchema :: "string \<Rightarrow> string \<Rightarrow> msg option" where
  "validateRecordPayloadSchema bytes typ =
     (let raw = parse_json bytes in
      case objectFields raw ''record payload'' of
        Inl e \<Rightarrow> Some e
      | Inr obj \<Rightarrow>
          first_err
            [first_some (requireField obj) common_record_fields,
             (case requiredString obj ''type'' False of
                Inl e \<Rightarrow> Some e
              | Inr actualType \<Rightarrow>
                  if actualType \<noteq> typ
                  then Some (Errorf ''record type %q does not match parsed type %q'' [Q actualType, Q typ]) else None),
             (case record_type_fields typ of
                Inl e \<Rightarrow> Some e
              | Inr (needed, extra) \<Rightarrow>
                  first_err
                    [first_some (requireField obj) needed,
                     first_some (\<lambda>(field, _).
                       if field \<in> set (common_record_fields @ ''ext'' # extra) then None
                       else Some (Errorf ''unknown top-level key %q'' [Q field])) obj]),
             validateExactIntegerField raw ''v'' 1,
             err_of (requiredString obj ''run'' True),
             err_of (requiredString obj ''recorder'' True),
             requiredSHA256Hex obj ''key'',
             validateMinimumIntegerField raw ''seq'' 0,
             requiredSHA256Hex obj ''prev'',
             requiredRFC3339 obj ''ts'',
             (case alookup obj ''ext'' of
                None \<Rightarrow> None
              | Some value \<Rightarrow> wrap_err (\<lambda>e. Errorf ''ext: %w'' [E e]) (err_of (objectFields (Inr value) ''ext''))),
             (if typ = ''open'' then
                first_err
                  [first_some (\<lambda>field. validateMinimumIntegerField raw field 0) [''hmax'', ''htol''],
                   (if has_key obj ''cp_nonce'' then err_of (requiredString obj ''cp_nonce'' False) else None)]
              else if typ = ''close'' then
                first_err [validateMinimumIntegerField raw ''count'' 2, requiredSHA256Hex obj ''head'']
              else None),
             (if typ = ''activity'' then
                first_err
                  [validateEventSchema (raw_field obj ''event''),
                   (case alookup obj ''decision'' of None \<Rightarrow> None | Some decision \<Rightarrow> validateDecisionSchema (Inr decision))]
              else None)])"

section \<open>The manifest\<close>

definition validateManifestRecorder :: "json \<Rightarrow> msg option" where
  "validateManifestRecorder raw =
     (case objectFields (Inr raw) ''recorder'' of
        Inl e \<Rightarrow> Some e
      | Inr obj \<Rightarrow>
          first_err
            [first_some (\<lambda>field. err_of (requiredString obj field False)) [''id'', ''run'', ''file''],
             (case requiredString obj ''file'' False of
                Inl e \<Rightarrow> Some e
              | Inr file \<Rightarrow> wrap_err (\<lambda>e. Errorf ''file %w'' [E e]) (validateArtifactPath file)),
             (if has_key obj ''key'' then err_of (requiredString obj ''key'' False) else None)])"

definition validateCorrespondenceSchema :: "json \<Rightarrow> msg option" where
  "validateCorrespondenceSchema raw =
     (case objectFields (Inr raw) ''correspondence'' of
        Inl e \<Rightarrow> Some e
      | Inr obj \<Rightarrow>
          first_err
            [first_some (requireField obj) [''classes'', ''match''],
             validateStringArray (raw_field obj ''classes'') ''classes'' 0,
             validateEnumRaw (raw_field obj ''match'') ''match'' [''id'']])"

definition validateAnchorDeclSchema :: "json \<Rightarrow> msg option" where
  "validateAnchorDeclSchema raw =
     (case objectFields (Inr raw) ''anchor'' of
        Inl e \<Rightarrow> Some e
      | Inr obj \<Rightarrow>
          first_err
            [first_some (requireField obj) [''log'', ''log_key'', ''file''],
             err_of (requiredString obj ''log'' False),
             requiredSHA256Hex obj ''log_key'',
             (case requiredString obj ''file'' False of
                Inl e \<Rightarrow> Some e
              | Inr file \<Rightarrow> wrap_err (\<lambda>e. Errorf ''file %w'' [E e]) (validateArtifactPath file))])"

definition validateCounterpartyDeclSchema :: "json \<Rightarrow> msg option" where
  "validateCounterpartyDeclSchema raw =
     (case objectFields (Inr raw) ''counterparty'' of
        Inl e \<Rightarrow> Some e
      | Inr obj \<Rightarrow>
          first_err
            [first_some (requireField obj) [''file'', ''flows'', ''key''],
             (case requiredString obj ''file'' False of
                Inl e \<Rightarrow> Some e
              | Inr file \<Rightarrow> wrap_err (\<lambda>e. Errorf ''file %w'' [E e]) (validateArtifactPath file)),
             validateStringArray (raw_field obj ''flows'') ''flows'' 0,
             requiredSHA256Hex obj ''key''])"

text \<open>
  \<open>validateManifestResourceLimits\<close> walks the tokens with a stack of open containers, innermost
  first. Each token is a strictly shorter rest of the document, so the loop ends.
\<close>

record container =
  ct_object :: bool
  ct_count :: nat
  ct_expectKey :: bool

definition string_limit :: msg where
  "string_limit = Errorf ''manifest string exceeds maximum size of %d bytes'' [D (int maxManifestStringBytes)]"

text \<open>What a token does to the stack: an error, or the stack for the next token.\<close>

definition limits_close :: "char \<Rightarrow> container list \<Rightarrow> container list res" where
  "limits_close delim stack =
     (case stack of
        [] \<Rightarrow> Inl (Errorf ''invalid JSON container close'' [])
      | frame # rest \<Rightarrow>
          if (delim = CHR ''}'' \<and> \<not> ct_object frame) \<or> (delim = CHR '']'' \<and> ct_object frame)
          then Inl (Errorf ''invalid JSON container close'' []) else Inr rest)"

definition limits_key :: "tok \<Rightarrow> container \<Rightarrow> container list \<Rightarrow> container list res" where
  "limits_key tok frame rest =
     (case tok of
        TStr key \<Rightarrow>
          if length key > maxManifestStringBytes then Inl string_limit
          else if ct_count frame + 1 > maxManifestObjectFields
            then Inl (Errorf ''manifest object has more than %d members'' [D (int maxManifestObjectFields)])
          else Inr (frame\<lparr>ct_count := ct_count frame + 1, ct_expectKey := False\<rparr> # rest)
      | _ \<Rightarrow> Inl (Errorf ''object key is %T, not string'' []))"

definition limits_parent :: "container list \<Rightarrow> container list res" where
  "limits_parent stack =
     (case stack of
        [] \<Rightarrow> Inr []
      | parent # rest \<Rightarrow>
          if ct_object parent then Inr (parent\<lparr>ct_expectKey := True\<rparr> # rest)
          else if ct_count parent + 1 > maxManifestArrayItems
            then Inl (Errorf ''manifest array has more than %d items'' [D (int maxManifestArrayItems)])
          else Inr (parent\<lparr>ct_count := ct_count parent + 1\<rparr> # rest))"

definition limits_value :: "tok \<Rightarrow> container list \<Rightarrow> container list res" where
  "limits_value tok stack =
     and_then (limits_parent stack) (\<lambda>stack.
       case tok of
         TStr s \<Rightarrow> if length s > maxManifestStringBytes then Inl string_limit else Inr stack
       | TDelim delim \<Rightarrow>
           if delim \<noteq> CHR ''{'' \<and> delim \<noteq> CHR ''['' then Inl (Errorf ''unexpected JSON delimiter %q'' [Q [delim]])
           else if length stack \<ge> maxManifestNestingDepth
             then Inl (Errorf ''manifest exceeds maximum nesting depth of %d'' [D (int maxManifestNestingDepth)])
           else Inr (\<lparr>ct_object = (delim = CHR ''{''), ct_count = 0, ct_expectKey = (delim = CHR ''{'')\<rparr> # stack)
       | _ \<Rightarrow> Inr stack)"

definition limits_step :: "tok \<Rightarrow> container list \<Rightarrow> container list res" where
  "limits_step tok stack =
     (if tok = TDelim (CHR ''}'') then limits_close (CHR ''}'') stack
      else if tok = TDelim (CHR '']'') then limits_close (CHR '']'') stack
      else (case stack of
              frame # rest \<Rightarrow>
                if ct_object frame \<and> ct_expectKey frame then limits_key tok frame rest else limits_value tok stack
            | [] \<Rightarrow> limits_value tok stack))"

function limits_loop :: "decoder \<Rightarrow> container list \<Rightarrow> msg option" where
  "limits_loop dec stack =
     (case dec_token dec of
        Inl e \<Rightarrow>
          if e = io_EOF
          then (if stack \<noteq> [] then Some (Errorf ''unterminated JSON container'' []) else None)
          else Some e
      | Inr (tok, dec') \<Rightarrow>
          (case limits_step tok stack of Inl e \<Rightarrow> Some e | Inr stack' \<Rightarrow> limits_loop dec' stack'))"
  by pat_completeness auto
termination
  by (relation "measure (\<lambda>(dec, stack). length (d_toks dec))") (auto dest!: dec_token_shorter)

declare limits_loop.simps [simp del]

definition validateManifestResourceLimits :: "string \<Rightarrow> msg option" where
  "validateManifestResourceLimits raw =
     (if length raw > maxManifestBytes
      then Some (Errorf ''manifest exceeds maximum size of %d bytes'' [D (int maxManifestBytes)])
      else limits_loop (new_decoder raw) [])"

definition validateRetention :: "json \<Rightarrow> msg option" where
  "validateRetention retention =
     (case objectFields (Inr retention) ''retention'' of
        Inl e \<Rightarrow> Some e
      | Inr obj \<Rightarrow>
          first_err
            [(if has_key obj ''period_days''
              then wrap_err (\<lambda>e. Errorf ''retention: %w'' [E e]) (validateMinimumIntegerField (Inr retention) ''period_days'' 0)
              else None),
             (if has_key obj ''custody''
              then wrap_err (\<lambda>e. Errorf ''retention: %w'' [E e]) (err_of (requiredString obj ''custody'' False))
              else None)])"

definition if_present :: "fields \<Rightarrow> string \<Rightarrow> (json \<Rightarrow> msg option) \<Rightarrow> msg option" where
  "if_present obj field f = (case alookup obj field of Some j \<Rightarrow> f j | None \<Rightarrow> None)"

definition validateManifestSchema :: "string \<Rightarrow> msg option" where
  "validateManifestSchema bytes =
     first_err
       [validateManifestResourceLimits bytes,
        (let raw = parse_json bytes in
         case objectFields raw ''manifest'' of
           Inl e \<Rightarrow> Some e
         | Inr obj \<Rightarrow>
             first_err
               [first_some (requireField obj) [''ael_format'', ''runs'', ''recorders''],
                validateExactIntegerField raw ''ael_format'' ArtifactFormatVersion,
                validateStringArray (raw_field obj ''runs'') ''runs'' 1,
                (case arrayFields (raw_field obj ''recorders'') ''recorders'' of
                   Inl _ \<Rightarrow> Some (Errorf ''recorders must be a non-empty array'' [])
                 | Inr recorders \<Rightarrow>
                     if recorders = [] then Some (Errorf ''recorders must be a non-empty array'' [])
                     else first_some (\<lambda>i. wrap_err (\<lambda>e. Errorf ''recorders[%d]: %w'' [D (int i), E e])
                            (validateManifestRecorder (recorders ! i))) [0..<length recorders]),
                if_present obj ''claimed_rung'' (\<lambda>_. validateIntegerRangeField raw ''claimed_rung'' 0 4),
                if_present obj ''retention'' validateRetention,
                if_present obj ''coverage'' (\<lambda>j. validateEnumRaw (Inr j) ''coverage''
                  [''declared-only'', ''partial'', ''mediated-only'', ''enforced-total'']),
                if_present obj ''custody'' (\<lambda>j. validateEnumRaw (Inr j) ''custody''
                  [''same-process'', ''same-host'', ''same-operator'', ''independent'']),
                if_present obj ''correspondence'' validateCorrespondenceSchema,
                if_present obj ''anchor'' validateAnchorDeclSchema,
                if_present obj ''counterparty'' validateCounterpartyDeclSchema])]"

section \<open>Anchors and counterparty statements\<close>

record signedTreeHead =
  sth_Log :: string
  sth_Root :: string
  sth_Size :: int

definition dec_signedTreeHead :: "json \<Rightarrow> signedTreeHead \<Rightarrow> signedTreeHead decoded" where
  "dec_signedTreeHead = dec_struct
     (\<lambda>n j h. if n = ''log'' then set_field (\<lambda>x. h\<lparr>sth_Log := x\<rparr>) (dec_string j (sth_Log h))
        else if n = ''root'' then set_field (\<lambda>x. h\<lparr>sth_Root := x\<rparr>) (dec_string j (sth_Root h))
        else set_field (\<lambda>x. h\<lparr>sth_Size := x\<rparr>) (dec_int j (sth_Size h)))
     [''log'', ''root'', ''size'']"

definition parseSignedTreeHead :: "string \<Rightarrow> signedTreeHead res" where
  "parseSignedTreeHead bytes =
     fail_if (validateObjectSchema (parse_json bytes) [''log'', ''root'', ''size'', ''ext''] [''log'', ''root'', ''size''])
       (case unmarshal dec_signedTreeHead bytes \<lparr>sth_Log = [], sth_Root = [], sth_Size = 0\<rparr> of
          (head, Some e) \<Rightarrow> Inl e
        | (head, None) \<Rightarrow> Inr head)"

definition validateTreeHeadObjectSchema :: "json \<Rightarrow> msg option" where
  "validateTreeHeadObjectSchema raw =
     validateObjectSchema (Inr raw) [''size'', ''root'', ''sig'', ''signed'', ''ext''] [''size'', ''root'', ''sig'', ''signed'']"

record anchor_root =
  ar_TreeHead :: "json option"
  ar_Entries :: "json list"

definition dec_raw :: "json \<Rightarrow> json \<Rightarrow> json decoded" where
  "dec_raw j old = (j, None)"

definition dec_anchor_root :: "json \<Rightarrow> anchor_root \<Rightarrow> anchor_root decoded" where
  "dec_anchor_root = dec_struct
     (\<lambda>n j r. if n = ''tree_head'' then (r\<lparr>ar_TreeHead := Some j\<rparr>, None)
        else set_field (\<lambda>x. r\<lparr>ar_Entries := x\<rparr>) (dec_slice dec_raw JNull j (ar_Entries r)))
     [''tree_head'', ''entries'']"

definition validateAnchorSchemas :: "string \<Rightarrow> msg option" where
  "validateAnchorSchemas bytes =
     (case unmarshal dec_anchor_root bytes \<lparr>ar_TreeHead = None, ar_Entries = []\<rparr> of
        (root, Some e) \<Rightarrow> Some e
      | (root, None) \<Rightarrow>
          (case ar_TreeHead root of
             None \<Rightarrow> Some (Errorf ''tree_head is absent'' [])
           | Some th \<Rightarrow>
               first_err
                 [wrap_err (\<lambda>e. Errorf ''tree_head: %w'' [E e]) (validateTreeHeadObjectSchema th),
                  first_some (\<lambda>i. wrap_err (\<lambda>e. Errorf ''entries[%d]: %w'' [D (int i), E e])
                     (validateObjectSchema (Inr (ar_Entries root ! i))
                       [''recorder'', ''run'', ''seq'', ''leaf'', ''index'', ''proof'', ''ext'']
                       [''recorder'', ''run'', ''seq'', ''leaf'', ''index'', ''proof'']))
                    [0..<length (ar_Entries root)]]))"

text \<open>A statement says what it received, or that it received nothing, and not both.\<close>

definition validateCounterpartyReceiptChoice :: "string \<Rightarrow> msg option" where
  "validateCounterpartyReceiptChoice bytes =
     (let one = Some (Errorf ''must contain exactly one of received or none:true'' []) in
      case and_then (parse_json bytes) raw_map of
        Inl e \<Rightarrow> Some e
      | Inr m \<Rightarrow>
          (let obj = (case m of Some ms \<Rightarrow> ms | None \<Rightarrow> []) in
           case (alookup obj ''received'', alookup obj ''none'') of
             (Some _, Some _) \<Rightarrow> one
           | (Some rawReceived, None) \<Rightarrow>
               (case dec_struct (\<lambda>n j x. dec_string j x) [''event_id''] rawReceived [] of
                  (EventID, Some e) \<Rightarrow> Some (Errorf ''received: %w'' [E e])
                | (EventID, None) \<Rightarrow>
                    if EventID = [] then Some (Errorf ''received.event_id must be non-empty'' []) else None)
           | (None, Some rawNone) \<Rightarrow>
               (case dec_bool rawNone False of
                  (none, Some e) \<Rightarrow> Some (Errorf ''none: %w'' [E e])
                | (none, None) \<Rightarrow> if none then None else Some (Errorf ''none must be true'' []))
           | (None, None) \<Rightarrow> one))"

definition decodeStdBase64Field :: "string \<Rightarrow> string \<Rightarrow> string res" where
  "decodeStdBase64Field name value =
     (case std_decode value of
        None \<Rightarrow> Inl (Errorf ''decode %s: %w'' [S name, E (StdErr ''illegal base64 data'')])
      | Some raw \<Rightarrow>
          if std_encode raw \<noteq> trim_space value then Inl (Errorf ''%s is not canonical base64'' [S name])
          else Inr raw)"

end
