(* ===== verification/Records.thy ===== *)
theory Records
  imports Schema
begin

text \<open>
  \<open>checker/internal/ael/record.go\<close>: one line of a recorder log, base64url payload and signature
  joined by a point. \<open>ParseRecordLine\<close> keeps every failure in the record; \<open>Verify\<close> climbs the ladder
  signature, canonical form, closed schema and stops at the first rung that fails. The published
  keys are a map from the lowercase fingerprint to the key.
\<close>

section \<open>Payloads\<close>

record Event =
  ev_Class :: string
  ev_ID :: string
  ev_Dir :: string

record Decision =
  de_Policy :: string
  de_RequestFP :: string
  de_Inputs :: "(string \<times> goval) list"
  de_Verdict :: string

record Payload =
  pl_V :: int
  pl_Type :: string
  pl_Run :: string
  pl_Recorder :: string
  pl_Key :: string
  pl_Seq :: int
  pl_Prev :: string
  pl_TS :: string
  pl_HMax :: int
  pl_HTol :: int
  pl_CPNonce :: string
  pl_Event :: "Event option"
  pl_Decision :: "Decision option"
  pl_Count :: int
  pl_Head :: string

definition zero_Event :: Event where
  "zero_Event = \<lparr>ev_Class = [], ev_ID = [], ev_Dir = []\<rparr>"

definition zero_Decision :: Decision where
  "zero_Decision = \<lparr>de_Policy = [], de_RequestFP = [], de_Inputs = [], de_Verdict = []\<rparr>"

definition zero_Payload :: Payload where
  "zero_Payload = \<lparr>pl_V = 0, pl_Type = [], pl_Run = [], pl_Recorder = [], pl_Key = [], pl_Seq = 0, pl_Prev = [],
     pl_TS = [], pl_HMax = 0, pl_HTol = 0, pl_CPNonce = [], pl_Event = None, pl_Decision = None, pl_Count = 0,
     pl_Head = []\<rparr>"

definition dec_Event :: "json \<Rightarrow> Event \<Rightarrow> Event decoded" where
  "dec_Event = dec_struct
     (\<lambda>n j e. if n = ''class'' then set_field (\<lambda>x. e\<lparr>ev_Class := x\<rparr>) (dec_string j (ev_Class e))
        else if n = ''id'' then set_field (\<lambda>x. e\<lparr>ev_ID := x\<rparr>) (dec_string j (ev_ID e))
        else set_field (\<lambda>x. e\<lparr>ev_Dir := x\<rparr>) (dec_string j (ev_Dir e)))
     [''class'', ''id'', ''dir'']"

definition dec_Decision :: "json \<Rightarrow> Decision \<Rightarrow> Decision decoded" where
  "dec_Decision = dec_struct
     (\<lambda>n j d. if n = ''policy'' then set_field (\<lambda>x. d\<lparr>de_Policy := x\<rparr>) (dec_string j (de_Policy d))
        else if n = ''request_fp'' then set_field (\<lambda>x. d\<lparr>de_RequestFP := x\<rparr>) (dec_string j (de_RequestFP d))
        else if n = ''inputs'' then set_field (\<lambda>x. d\<lparr>de_Inputs := x\<rparr>) (dec_map (dec_any False) VNil j (de_Inputs d))
        else set_field (\<lambda>x. d\<lparr>de_Verdict := x\<rparr>) (dec_string j (de_Verdict d)))
     [''policy'', ''request_fp'', ''inputs'', ''verdict'']"

definition payload_field :: "string \<Rightarrow> json \<Rightarrow> Payload \<Rightarrow> Payload decoded" where
  "payload_field n j p =
     (if n = ''v'' then set_field (\<lambda>x. p\<lparr>pl_V := x\<rparr>) (dec_int j (pl_V p))
      else if n = ''type'' then set_field (\<lambda>x. p\<lparr>pl_Type := x\<rparr>) (dec_string j (pl_Type p))
      else if n = ''run'' then set_field (\<lambda>x. p\<lparr>pl_Run := x\<rparr>) (dec_string j (pl_Run p))
      else if n = ''recorder'' then set_field (\<lambda>x. p\<lparr>pl_Recorder := x\<rparr>) (dec_string j (pl_Recorder p))
      else if n = ''key'' then set_field (\<lambda>x. p\<lparr>pl_Key := x\<rparr>) (dec_string j (pl_Key p))
      else if n = ''seq'' then set_field (\<lambda>x. p\<lparr>pl_Seq := x\<rparr>) (dec_int j (pl_Seq p))
      else if n = ''prev'' then set_field (\<lambda>x. p\<lparr>pl_Prev := x\<rparr>) (dec_string j (pl_Prev p))
      else if n = ''ts'' then set_field (\<lambda>x. p\<lparr>pl_TS := x\<rparr>) (dec_string j (pl_TS p))
      else if n = ''hmax'' then set_field (\<lambda>x. p\<lparr>pl_HMax := x\<rparr>) (dec_int j (pl_HMax p))
      else if n = ''htol'' then set_field (\<lambda>x. p\<lparr>pl_HTol := x\<rparr>) (dec_int j (pl_HTol p))
      else if n = ''cp_nonce'' then set_field (\<lambda>x. p\<lparr>pl_CPNonce := x\<rparr>) (dec_string j (pl_CPNonce p))
      else if n = ''event'' then set_field (\<lambda>x. p\<lparr>pl_Event := x\<rparr>) (dec_ptr dec_Event zero_Event j (pl_Event p))
      else if n = ''decision'' then
        set_field (\<lambda>x. p\<lparr>pl_Decision := x\<rparr>) (dec_ptr dec_Decision zero_Decision j (pl_Decision p))
      else if n = ''count'' then set_field (\<lambda>x. p\<lparr>pl_Count := x\<rparr>) (dec_int j (pl_Count p))
      else set_field (\<lambda>x. p\<lparr>pl_Head := x\<rparr>) (dec_string j (pl_Head p)))"

definition dec_Payload :: "json \<Rightarrow> Payload \<Rightarrow> Payload decoded" where
  "dec_Payload = dec_struct payload_field
     [''v'', ''type'', ''run'', ''recorder'', ''key'', ''seq'', ''prev'', ''ts'', ''hmax'', ''htol'', ''cp_nonce'',
      ''event'', ''decision'', ''count'', ''head'']"

definition Time :: "Payload \<Rightarrow> instant option" where
  "Time p = parse_rfc3339 (pl_TS p)"

section \<open>Lines\<close>

record Record =
  rec_Line :: string
  rec_File :: string
  rec_LineNo :: int
  rec_PayloadRaw :: string
  rec_Signature :: string
  rec_Payload :: Payload
  rec_LineErr :: "msg option"
  rec_ParseErr :: "msg option"
  rec_CanonicalErr :: "msg option"
  rec_CanonicalOK :: bool
  rec_SchemaErr :: "msg option"
  rec_SchemaOK :: bool
  rec_SignatureOK :: bool
  rec_SignatureUV :: bool
  rec_SignatureErr :: "msg option"
  rec_Hash :: string

definition new_Record :: "string \<Rightarrow> string \<Rightarrow> int \<Rightarrow> Record" where
  "new_Record line file lineNo =
     \<lparr>rec_Line = line, rec_File = file, rec_LineNo = lineNo, rec_PayloadRaw = [], rec_Signature = [],
      rec_Payload = zero_Payload, rec_LineErr = None, rec_ParseErr = None, rec_CanonicalErr = None,
      rec_CanonicalOK = False, rec_SchemaErr = None, rec_SchemaOK = False, rec_SignatureOK = False,
      rec_SignatureUV = False, rec_SignatureErr = None, rec_Hash = []\<rparr>"

definition compact_char :: "char \<Rightarrow> bool" where
  "compact_char c \<longleftrightarrow>
     (65 \<le> code c \<and> code c \<le> 90) \<or> (97 \<le> code c \<and> code c \<le> 122) \<or> is_digit c \<or> c = CHR ''_'' \<or> c = CHR ''-''"

definition compactLineRE :: "string \<Rightarrow> bool" where
  "compactLineRE line \<longleftrightarrow>
     (case split_on (CHR ''.'') line of
        [p, s] \<Rightarrow> p \<noteq> [] \<and> s \<noteq> [] \<and> list_all compact_char p \<and> list_all compact_char s
      | _ \<Rightarrow> False)"

definition decodeCompactBase64 :: "string \<Rightarrow> string res" where
  "decodeCompactBase64 s =
     (case rawurl_decode_strict s of
        None \<Rightarrow> Inl (StdErr ''illegal base64 data'')
      | Some raw \<Rightarrow>
          if rawurl_encode raw \<noteq> s then Inl (Errorf ''non-canonical base64url segment'' []) else Inr raw)"

definition ParseRecordLine :: "crypto \<Rightarrow> string \<Rightarrow> string \<Rightarrow> int \<Rightarrow> Record" where
  "ParseRecordLine cr line file lineNo =
     (let rec = new_Record line file lineNo in
      if \<not> compactLineRE line then rec\<lparr>rec_LineErr := Some (Errorf ''malformed compact record line'' [])\<rparr>
      else
        (let parts = split_on (CHR ''.'') line in
         case decodeCompactBase64 (parts ! 0) of
           Inl err \<Rightarrow> rec\<lparr>rec_LineErr := Some (Errorf ''decode payload: %w'' [E err])\<rparr>
         | Inr payload \<Rightarrow>
             (case decodeCompactBase64 (parts ! 1) of
                Inl err \<Rightarrow> rec\<lparr>rec_LineErr := Some (Errorf ''decode signature: %w'' [E err])\<rparr>
              | Inr sig \<Rightarrow>
                  (case unmarshal dec_Payload payload zero_Payload of
                     (pl, err) \<Rightarrow>
                       rec\<lparr>rec_PayloadRaw := payload, rec_Signature := sig, rec_Hash := sha256_hex cr payload,
                           rec_Payload := pl, rec_ParseErr := err\<rparr>))))"

definition firstErr :: "msg option list \<Rightarrow> msg option" where
  "firstErr errs = first_err errs"

type_synonym keys = "(string \<times> string) list"

definition SignatureSize :: nat where "SignatureSize = 64"
definition PublicKeySize :: nat where "PublicKeySize = 32"

text \<open>The rungs above the signature: canonical bytes, then the closed schema.\<close>

definition verify_form :: "Record \<Rightarrow> Record" where
  "verify_form r =
     (case Canonicalize (rec_PayloadRaw r) of
        Inl err \<Rightarrow> r\<lparr>rec_CanonicalErr := Some err\<rparr>
      | Inr canon \<Rightarrow>
          if canon \<noteq> rec_PayloadRaw r
          then r\<lparr>rec_CanonicalErr := Some (Errorf ''payload is not canonical'' [])\<rparr>
          else
            (let r = r\<lparr>rec_CanonicalOK := True\<rparr> in
             case validateRecordPayloadSchema (rec_PayloadRaw r) (pl_Type (rec_Payload r)) of
               Some err \<Rightarrow> r\<lparr>rec_SchemaErr := Some err\<rparr>
             | None \<Rightarrow> r\<lparr>rec_SchemaOK := True\<rparr>))"

definition Verify :: "crypto \<Rightarrow> keys \<Rightarrow> Record \<Rightarrow> Record" where
  "Verify cr ks r =
     (if rec_LineErr r \<noteq> None \<or> rec_ParseErr r \<noteq> None
      then r\<lparr>rec_SignatureErr := firstErr [rec_LineErr r, rec_ParseErr r]\<rparr>
      else
        (case alookup ks (to_lower (pl_Key (rec_Payload r))) of
           None \<Rightarrow> r\<lparr>rec_SignatureUV := True,
                     rec_SignatureErr := Some (Errorf ''missing published key %s'' [S (pl_Key (rec_Payload r))])\<rparr>
         | Some pub \<Rightarrow>
             if length (rec_Signature r) \<noteq> SignatureSize
             then r\<lparr>rec_SignatureErr := Some (Errorf ''signature length %d'' [D (int (length (rec_Signature r)))])\<rparr>
             else if \<not> ed25519_verify cr pub (rec_PayloadRaw r) (rec_Signature r)
             then r\<lparr>rec_SignatureErr := Some (Errorf ''signature verification failed'' [])\<rparr>
             else verify_form (r\<lparr>rec_SignatureOK := True\<rparr>)))"

section \<open>Lemmas: the ladder\<close>

lemma verify_form_simps [simp]:
  "rec_SignatureOK (verify_form r) = rec_SignatureOK r" "rec_SignatureUV (verify_form r) = rec_SignatureUV r"
  "rec_SignatureErr (verify_form r) = rec_SignatureErr r" "rec_LineErr (verify_form r) = rec_LineErr r"
  "rec_ParseErr (verify_form r) = rec_ParseErr r" "rec_Payload (verify_form r) = rec_Payload r"
  "rec_PayloadRaw (verify_form r) = rec_PayloadRaw r" "rec_Hash (verify_form r) = rec_Hash r"
  "rec_Signature (verify_form r) = rec_Signature r" "rec_Line (verify_form r) = rec_Line r"
  "rec_File (verify_form r) = rec_File r" "rec_LineNo (verify_form r) = rec_LineNo r"
  by (simp_all add: verify_form_def Let_def split: sum.splits option.splits)

lemma verify_form_CanonicalOK:
  "rec_CanonicalOK (verify_form r) \<longleftrightarrow> rec_CanonicalOK r \<or> IsCanonical (rec_PayloadRaw r)"
  by (auto simp: verify_form_def IsCanonical_def Let_def split: sum.splits option.splits)

lemma verify_form_SchemaOK:
  "rec_SchemaOK (verify_form r) \<longleftrightarrow> rec_SchemaOK r \<or>
     IsCanonical (rec_PayloadRaw r) \<and> validateRecordPayloadSchema (rec_PayloadRaw r) (pl_Type (rec_Payload r)) = None"
  by (auto simp: verify_form_def IsCanonical_def Let_def split: sum.splits option.splits)

lemma Verify_simps [simp]:
  "rec_LineErr (Verify cr ks r) = rec_LineErr r" "rec_ParseErr (Verify cr ks r) = rec_ParseErr r"
  "rec_Payload (Verify cr ks r) = rec_Payload r" "rec_PayloadRaw (Verify cr ks r) = rec_PayloadRaw r"
  "rec_Hash (Verify cr ks r) = rec_Hash r" "rec_Signature (Verify cr ks r) = rec_Signature r"
  "rec_Line (Verify cr ks r) = rec_Line r" "rec_File (Verify cr ks r) = rec_File r"
  "rec_LineNo (Verify cr ks r) = rec_LineNo r"
  by (simp_all add: Verify_def split: option.splits)

text \<open>A record before \<open>Verify\<close>: no rung climbed.\<close>

definition unverified :: "Record \<Rightarrow> bool" where
  "unverified r \<longleftrightarrow> \<not> rec_SignatureOK r \<and> \<not> rec_SignatureUV r \<and> \<not> rec_CanonicalOK r \<and> \<not> rec_SchemaOK r
     \<and> rec_SignatureErr r = None"

lemma new_Record_unverified [simp]: "unverified (new_Record line file n)"
  by (simp add: unverified_def new_Record_def)

lemma unverified_update [simp]:
  "unverified (r\<lparr>rec_LineErr := x\<rparr>) = unverified r"
  "unverified (r\<lparr>rec_PayloadRaw := p, rec_Signature := s, rec_Hash := h, rec_Payload := pl, rec_ParseErr := e\<rparr>)
     = unverified r"
  by (simp_all add: unverified_def)

lemma ParseRecordLine_unverified [simp]: "unverified (ParseRecordLine cr line file n)"
  by (simp add: ParseRecordLine_def Let_def split: sum.split prod.split)

lemma ParseRecordLine_hash:
  "rec_LineErr (ParseRecordLine cr line file n) = None \<Longrightarrow>
     rec_Hash (ParseRecordLine cr line file n) = sha256_hex cr (rec_PayloadRaw (ParseRecordLine cr line file n))"
  by (auto simp: ParseRecordLine_def Let_def new_Record_def split: sum.splits prod.splits if_splits)

text \<open>\<open>signed_by cr ks r\<close>: the signature of \<open>r\<close> verifies under the published key it names.\<close>

definition signed_by :: "crypto \<Rightarrow> keys \<Rightarrow> Record \<Rightarrow> bool" where
  "signed_by cr ks r \<longleftrightarrow> rec_LineErr r = None \<and> rec_ParseErr r = None \<and>
     (\<exists>pub. alookup ks (to_lower (pl_Key (rec_Payload r))) = Some pub \<and> length (rec_Signature r) = SignatureSize
        \<and> ed25519_verify cr pub (rec_PayloadRaw r) (rec_Signature r))"

lemma Verify_SignatureOK: "unverified r \<Longrightarrow> rec_SignatureOK (Verify cr ks r) \<longleftrightarrow> signed_by cr ks r"
  by (auto simp: Verify_def unverified_def signed_by_def split: option.splits)

lemma Verify_SignatureUV:
  "unverified r \<Longrightarrow> rec_SignatureUV (Verify cr ks r) \<longleftrightarrow>
     rec_LineErr r = None \<and> rec_ParseErr r = None \<and> alookup ks (to_lower (pl_Key (rec_Payload r))) = None"
  by (auto simp: Verify_def unverified_def split: option.splits)

lemma Verify_CanonicalOK:
  "unverified r \<Longrightarrow> rec_CanonicalOK (Verify cr ks r) \<longleftrightarrow> signed_by cr ks r \<and> IsCanonical (rec_PayloadRaw r)"
  by (auto simp: Verify_def unverified_def signed_by_def verify_form_CanonicalOK split: option.splits)

lemma Verify_SchemaOK:
  "unverified r \<Longrightarrow> rec_SchemaOK (Verify cr ks r) \<longleftrightarrow> signed_by cr ks r \<and> IsCanonical (rec_PayloadRaw r)
     \<and> validateRecordPayloadSchema (rec_PayloadRaw r) (pl_Type (rec_Payload r)) = None"
  by (auto simp: Verify_def unverified_def signed_by_def verify_form_SchemaOK split: option.splits)

section \<open>Lemmas: the line format\<close>

lemma compact_char_code:
  "compact_char c \<longleftrightarrow> (65 \<le> code c \<and> code c \<le> 90) \<or> (97 \<le> code c \<and> code c \<le> 122)
     \<or> (48 \<le> code c \<and> code c \<le> 57) \<or> code c = 95 \<or> code c = 45"
  unfolding compact_char_def is_digit_def char_eq_code [of c "CHR ''_''"] char_eq_code [of c "CHR ''-''"]
  by simp

lemma b64_alphabet_compact: "c \<in> b64_alphabet True \<Longrightarrow> compact_char c"
  by (auto simp: b64_alphabet_def compact_char_code code_b64_char split: if_splits)

lemma rawurl_encode_compact: "list_all compact_char (rawurl_encode s)" "CHR ''.'' \<notin> set (rawurl_encode s)"
  using b64_encode_chars [of True False s] b64_alphabet_compact b64_alphabet_special
  by (auto simp: list_all_iff)

lemma rawurl_encode_Nil [simp]: "rawurl_encode s = [] \<longleftrightarrow> s = []"
  by (metis b64_decode_encode b64_encode.simps(1) option.inject)

lemma decodeCompactBase64_encode: "decodeCompactBase64 (rawurl_encode s) = Inr s"
  by (simp add: decodeCompactBase64_def)

lemma decodeCompactBase64_Inr: "decodeCompactBase64 t = Inr s \<Longrightarrow> t = rawurl_encode s"
  by (auto simp: decodeCompactBase64_def split: option.splits if_splits)

definition record_line :: "string \<Rightarrow> string \<Rightarrow> string" where
  "record_line payload sig = rawurl_encode payload @ CHR ''.'' # rawurl_encode sig"

lemma split_record_line: "split_on (CHR ''.'') (record_line p s) = [rawurl_encode p, rawurl_encode s]"
  by (simp add: record_line_def split_on_sep_append split_on_no_sep rawurl_encode_compact)

lemma compactLineRE_parts:
  "compactLineRE line \<Longrightarrow> \<exists>p s. split_on (CHR ''.'') line = [p, s] \<and> line = p @ CHR ''.'' # s \<and> p \<noteq> [] \<and> s \<noteq> []"
  using join_split_on [of "CHR ''.''" line]
  by (auto simp: compactLineRE_def split: list.splits)

section \<open>Properties\<close>

text \<open>C20: the verification ladder. After parsing and verifying a line, the signature flag says
  exactly that the stored bytes verify under the published key the payload names, the canonical flag
  adds that the bytes are canonical, the schema flag that they also meet the closed schema of
  their type; unable-to-verify means exactly that a parsed line names no published key, and never holds
  together with any of the three.\<close>
theorem Verify_ladder:
  "let r = ParseRecordLine cr line file n; v = Verify cr ks r in
    (rec_SignatureOK v \<longleftrightarrow> signed_by cr ks r)
    \<and> (rec_CanonicalOK v \<longleftrightarrow> rec_SignatureOK v \<and> IsCanonical (rec_PayloadRaw r))
    \<and> (rec_SchemaOK v \<longleftrightarrow> rec_CanonicalOK v
         \<and> validateRecordPayloadSchema (rec_PayloadRaw r) (pl_Type (rec_Payload r)) = None)
    \<and> (rec_SignatureUV v \<longleftrightarrow> rec_LineErr r = None \<and> rec_ParseErr r = None
         \<and> alookup ks (to_lower (pl_Key (rec_Payload r))) = None)
    \<and> \<not> (rec_SignatureUV v \<and> rec_SignatureOK v)"
  unfolding Let_def
  by (auto simp: Verify_SignatureOK Verify_SignatureUV Verify_CanonicalOK Verify_SchemaOK signed_by_def)

text \<open>C33: a line and its payload and signature bytes determine each other. A line that parses is
  the unpadded base64url of its payload and signature joined by a point, so no second spelling of
  the same bytes is accepted; and every such line of non-empty bytes parses back to them.\<close>
theorem ParseRecordLine_roundtrip:
  "let r = ParseRecordLine cr line file n in
    (rec_LineErr r = None \<longleftrightarrow> (\<exists>p s. p \<noteq> [] \<and> s \<noteq> [] \<and> line = record_line p s))
    \<and> (\<forall>p s. p \<noteq> [] \<and> s \<noteq> [] \<and> line = record_line p s \<longrightarrow>
         rec_PayloadRaw r = p \<and> rec_Signature r = s \<and> rec_Hash r = sha256_hex cr p)"
proof -
  let ?r = "ParseRecordLine cr line file n"
  have parse: "rec_LineErr ?r = None \<and> rec_PayloadRaw ?r = p \<and> rec_Signature ?r = s \<and> rec_Hash ?r = sha256_hex cr p"
    if "p \<noteq> []" "s \<noteq> []" "line = record_line p s" for p s
    using that
    by (simp add: ParseRecordLine_def Let_def compactLineRE_def split_record_line rawurl_encode_compact
        decodeCompactBase64_encode new_Record_def split: prod.split)
  have "\<exists>p s. p \<noteq> [] \<and> s \<noteq> [] \<and> line = record_line p s" if ok: "rec_LineErr ?r = None"
  proof -
    have re: "compactLineRE line" using ok by (auto simp: ParseRecordLine_def Let_def split: if_splits)
    then obtain a b where ab: "split_on (CHR ''.'') line = [a, b]" "line = a @ CHR ''.'' # b" "a \<noteq> []" "b \<noteq> []"
      using compactLineRE_parts by blast
    obtain p where p: "decodeCompactBase64 a = Inr p"
      using ok re ab by (auto simp: ParseRecordLine_def Let_def split: sum.splits)
    obtain s where s: "decodeCompactBase64 b = Inr s"
      using ok re ab p by (auto simp: ParseRecordLine_def Let_def split: sum.splits)
    have "a = rawurl_encode p" "b = rawurl_encode s" using p s decodeCompactBase64_Inr by auto
    then show ?thesis using ab by (auto simp: record_line_def)
  qed
  then show ?thesis using parse by (metis (no_types, lifting))
qed

text \<open>Stand-ins for the cryptographic functions, for concrete instances of the properties.\<close>

definition toy_crypto :: crypto where
  "toy_crypto = \<lparr>sha256 = (\<lambda>s. rev s), ed25519_verify = (\<lambda>pub m sig. take 1 pub = take 1 sig)\<rparr>"

theorem ParseRecordLine_roundtrip_witness:
  "rec_PayloadRaw (ParseRecordLine toy_crypto (record_line ''{}'' ''sig'') ''a.jsonl'' 1) = ''{}''"
  using ParseRecordLine_roundtrip [of toy_crypto "record_line ''{}'' ''sig''" "''a.jsonl''" 1]
  unfolding Let_def by blast

end
