(* ===== verification/Artifact.thy ===== *)
theory Artifact
  imports Records
begin

text \<open>
  \<open>checker/internal/ael/artifact.go\<close>: the artifact, its loader and the view of one run. The file
  system is an argument: \<open>artifact_fs\<close> holds what \<open>os.OpenRoot(dir)\<close>, its \<open>Open\<close> and \<open>os.ReadDir\<close> return
  while the artifact is loaded. A file is its bytes and the error that ends reading, if any.
\<close>

section \<open>Files\<close>

record os_file =
  f_data :: string
  f_err :: "msg option"

record dirent =
  e_name :: string
  e_isdir :: bool
  e_file :: "os_file res"

record artifact_fs =
  fs_root :: "msg option"
  fs_open :: "string \<Rightarrow> os_file res"
  fs_policy :: "dirent list res"
  fs_keys :: "dirent list res"

definition os_ErrNotExist :: msg where
  "os_ErrNotExist = StdErr ''file does not exist''"

text \<open>\<open>errors.Is\<close>: the error itself or one it wraps with \<open>%w\<close>.\<close>

primrec errors_Is :: "msg \<Rightarrow> msg \<Rightarrow> bool" and arg_Is :: "msg_arg \<Rightarrow> msg \<Rightarrow> bool" where
  "errors_Is (Errorf f as) e \<longleftrightarrow>
     Errorf f as = e \<or> (str_contains f ''%w'' \<and> list_ex (\<lambda>b. b) (map (\<lambda>a. arg_Is a e) as))"
| "errors_Is (StdErr s) e \<longleftrightarrow> StdErr s = e"
| "arg_Is (S s) e \<longleftrightarrow> False"
| "arg_Is (Q s) e \<longleftrightarrow> False"
| "arg_Is (D i) e \<longleftrightarrow> False"
| "arg_Is (E m) e \<longleftrightarrow> errors_Is m e"
| "arg_Is (L xs) e \<longleftrightarrow> False"

text \<open>\<open>os.ReadFile\<close>, and \<open>io.ReadAll\<close> of the first \<open>n\<close> bytes.\<close>

definition read_all :: "os_file \<Rightarrow> string res" where
  "read_all f = fail_if (f_err f) (Inr (f_data f))"

definition read_limited :: "nat \<Rightarrow> os_file \<Rightarrow> string res" where
  "read_limited n f = (if n \<le> length (f_data f) then Inr (take n (f_data f)) else read_all f)"

text \<open>
  \<open>bufio.Scanner\<close> with \<open>ScanLines\<close>: the lines before the first one that does not fit the 64 KiB
  buffer, each without its line end and one carriage return before it, and the error.
\<close>

definition max_scan_token :: nat where
  "max_scan_token = 65536"

definition drop_cr :: "string \<Rightarrow> string" where
  "drop_cr s = trim_suffix s [CHR 0x0D]"

fun scan_parts :: "string list \<Rightarrow> string list \<times> msg option" where
  "scan_parts [] = ([], None)"
| "scan_parts [p] =
     (if max_scan_token \<le> length p then ([], Some (StdErr ''bufio.Scanner: token too long''))
      else (if p = [] then [] else [drop_cr p], None))"
| "scan_parts (p # ps) =
     (if max_scan_token \<le> length p then ([], Some (StdErr ''bufio.Scanner: token too long''))
      else (let (ls, e) = scan_parts ps in (drop_cr p # ls, e)))"

definition scan_lines :: "os_file \<Rightarrow> string list \<times> msg option" where
  "scan_lines f =
     (let (ls, e) = scan_parts (split_on (CHR 0x0A) (f_data f)) in (ls, keep_first e (f_err f)))"

definition maxAnchorBytes :: nat where
  "maxAnchorBytes = 16777216"

definition openArtifactFile :: "artifact_fs \<Rightarrow> string \<Rightarrow> os_file res" where
  "openArtifactFile fs rel =
     fail_if (validateArtifactPath rel)
     (fail_if (wrap_err (\<lambda>e. Errorf ''open artifact root: %w'' [E e]) (fs_root fs))
       (case fs_open fs rel of
          Inl err \<Rightarrow> Inl (Errorf ''open artifact file: %w'' [E err])
        | Inr f \<Rightarrow> Inr f))"

definition readBoundedArtifactFile :: "artifact_fs \<Rightarrow> string \<Rightarrow> nat \<Rightarrow> string res" where
  "readBoundedArtifactFile fs rel limit =
     and_then (openArtifactFile fs rel) (\<lambda>f.
     and_then (read_limited (limit + 1) f) (\<lambda>raw.
       if length raw > limit then Inl (Errorf ''file exceeds maximum size of %d bytes'' [D (int limit)])
       else Inr raw))"

section \<open>The manifest\<close>

record ManifestRecorder =
  mr_ID :: string
  mr_Run :: string
  mr_Key :: string
  mr_File :: string

record Retention =
  rt_PeriodDays :: int
  rt_Custody :: string

record Correspondence =
  co_Classes :: "string list"
  co_Match :: string

record AnchorDecl =
  ad_Log :: string
  ad_LogKey :: string
  ad_File :: string

record CounterpartyDecl =
  cd_File :: string
  cd_Flows :: "string list"
  cd_Key :: string

record Manifest =
  man_AELFormat :: int
  man_Runs :: "string list"
  man_Recorders :: "ManifestRecorder list"
  man_ClaimedRung :: int
  man_Coverage :: string
  man_Custody :: string
  man_Retention :: Retention
  man_Correspondence :: "Correspondence option"
  man_Anchor :: "AnchorDecl option"
  man_Counterparty :: "CounterpartyDecl option"

definition zero_ManifestRecorder :: ManifestRecorder where
  "zero_ManifestRecorder = \<lparr>mr_ID = [], mr_Run = [], mr_Key = [], mr_File = []\<rparr>"

definition zero_Manifest :: Manifest where
  "zero_Manifest = \<lparr>man_AELFormat = 0, man_Runs = [], man_Recorders = [], man_ClaimedRung = 0, man_Coverage = [],
     man_Custody = [], man_Retention = \<lparr>rt_PeriodDays = 0, rt_Custody = []\<rparr>, man_Correspondence = None,
     man_Anchor = None, man_Counterparty = None\<rparr>"

definition dec_ManifestRecorder :: "json \<Rightarrow> ManifestRecorder \<Rightarrow> ManifestRecorder decoded" where
  "dec_ManifestRecorder = dec_struct
     (\<lambda>n j r. if n = ''id'' then set_field (\<lambda>x. r\<lparr>mr_ID := x\<rparr>) (dec_string j (mr_ID r))
        else if n = ''run'' then set_field (\<lambda>x. r\<lparr>mr_Run := x\<rparr>) (dec_string j (mr_Run r))
        else if n = ''key'' then set_field (\<lambda>x. r\<lparr>mr_Key := x\<rparr>) (dec_string j (mr_Key r))
        else set_field (\<lambda>x. r\<lparr>mr_File := x\<rparr>) (dec_string j (mr_File r)))
     [''id'', ''run'', ''key'', ''file'']"

definition dec_Retention :: "json \<Rightarrow> Retention \<Rightarrow> Retention decoded" where
  "dec_Retention = dec_struct
     (\<lambda>n j r. if n = ''period_days'' then set_field (\<lambda>x. r\<lparr>rt_PeriodDays := x\<rparr>) (dec_int j (rt_PeriodDays r))
        else set_field (\<lambda>x. r\<lparr>rt_Custody := x\<rparr>) (dec_string j (rt_Custody r)))
     [''period_days'', ''custody'']"

definition dec_Correspondence :: "json \<Rightarrow> Correspondence \<Rightarrow> Correspondence decoded" where
  "dec_Correspondence = dec_struct
     (\<lambda>n j c. if n = ''classes'' then set_field (\<lambda>x. c\<lparr>co_Classes := x\<rparr>) (dec_slice dec_string [] j (co_Classes c))
        else set_field (\<lambda>x. c\<lparr>co_Match := x\<rparr>) (dec_string j (co_Match c)))
     [''classes'', ''match'']"

definition dec_AnchorDecl :: "json \<Rightarrow> AnchorDecl \<Rightarrow> AnchorDecl decoded" where
  "dec_AnchorDecl = dec_struct
     (\<lambda>n j a. if n = ''log'' then set_field (\<lambda>x. a\<lparr>ad_Log := x\<rparr>) (dec_string j (ad_Log a))
        else if n = ''log_key'' then set_field (\<lambda>x. a\<lparr>ad_LogKey := x\<rparr>) (dec_string j (ad_LogKey a))
        else set_field (\<lambda>x. a\<lparr>ad_File := x\<rparr>) (dec_string j (ad_File a)))
     [''log'', ''log_key'', ''file'']"

definition dec_CounterpartyDecl :: "json \<Rightarrow> CounterpartyDecl \<Rightarrow> CounterpartyDecl decoded" where
  "dec_CounterpartyDecl = dec_struct
     (\<lambda>n j c. if n = ''file'' then set_field (\<lambda>x. c\<lparr>cd_File := x\<rparr>) (dec_string j (cd_File c))
        else if n = ''flows'' then set_field (\<lambda>x. c\<lparr>cd_Flows := x\<rparr>) (dec_slice dec_string [] j (cd_Flows c))
        else set_field (\<lambda>x. c\<lparr>cd_Key := x\<rparr>) (dec_string j (cd_Key c)))
     [''file'', ''flows'', ''key'']"

definition dec_Manifest :: "json \<Rightarrow> Manifest \<Rightarrow> Manifest decoded" where
  "dec_Manifest = dec_struct
     (\<lambda>n j m.
        if n = ''ael_format'' then set_field (\<lambda>x. m\<lparr>man_AELFormat := x\<rparr>) (dec_int j (man_AELFormat m))
        else if n = ''runs'' then set_field (\<lambda>x. m\<lparr>man_Runs := x\<rparr>) (dec_slice dec_string [] j (man_Runs m))
        else if n = ''recorders'' then set_field (\<lambda>x. m\<lparr>man_Recorders := x\<rparr>)
          (dec_slice dec_ManifestRecorder zero_ManifestRecorder j (man_Recorders m))
        else if n = ''claimed_rung'' then set_field (\<lambda>x. m\<lparr>man_ClaimedRung := x\<rparr>) (dec_int j (man_ClaimedRung m))
        else if n = ''coverage'' then set_field (\<lambda>x. m\<lparr>man_Coverage := x\<rparr>) (dec_string j (man_Coverage m))
        else if n = ''custody'' then set_field (\<lambda>x. m\<lparr>man_Custody := x\<rparr>) (dec_string j (man_Custody m))
        else if n = ''retention'' then set_field (\<lambda>x. m\<lparr>man_Retention := x\<rparr>) (dec_Retention j (man_Retention m))
        else if n = ''correspondence'' then set_field (\<lambda>x. m\<lparr>man_Correspondence := x\<rparr>)
          (dec_ptr dec_Correspondence \<lparr>co_Classes = [], co_Match = []\<rparr> j (man_Correspondence m))
        else if n = ''anchor'' then set_field (\<lambda>x. m\<lparr>man_Anchor := x\<rparr>)
          (dec_ptr dec_AnchorDecl \<lparr>ad_Log = [], ad_LogKey = [], ad_File = []\<rparr> j (man_Anchor m))
        else set_field (\<lambda>x. m\<lparr>man_Counterparty := x\<rparr>)
          (dec_ptr dec_CounterpartyDecl \<lparr>cd_File = [], cd_Flows = [], cd_Key = []\<rparr> j (man_Counterparty m)))
     [''ael_format'', ''runs'', ''recorders'', ''claimed_rung'', ''coverage'', ''custody'', ''retention'',
      ''correspondence'', ''anchor'', ''counterparty'']"

section \<open>Anchors\<close>

record TreeHead =
  th_Size :: int
  th_Root :: string
  th_Sig :: string
  th_Signed :: string

record AnchorEntry =
  ae_Recorder :: string
  ae_Run :: string
  ae_Seq :: int
  ae_Leaf :: string
  ae_Index :: int
  ae_Proof :: "string list"

record Anchors =
  an_Log :: string
  an_TreeHead :: TreeHead
  an_Entries :: "AnchorEntry list"

definition zero_AnchorEntry :: AnchorEntry where
  "zero_AnchorEntry = \<lparr>ae_Recorder = [], ae_Run = [], ae_Seq = 0, ae_Leaf = [], ae_Index = 0, ae_Proof = []\<rparr>"

definition zero_Anchors :: Anchors where
  "zero_Anchors = \<lparr>an_Log = [], an_TreeHead = \<lparr>th_Size = 0, th_Root = [], th_Sig = [], th_Signed = []\<rparr>, an_Entries = []\<rparr>"

definition dec_TreeHead :: "json \<Rightarrow> TreeHead \<Rightarrow> TreeHead decoded" where
  "dec_TreeHead = dec_struct
     (\<lambda>n j t. if n = ''size'' then set_field (\<lambda>x. t\<lparr>th_Size := x\<rparr>) (dec_int j (th_Size t))
        else if n = ''root'' then set_field (\<lambda>x. t\<lparr>th_Root := x\<rparr>) (dec_string j (th_Root t))
        else if n = ''sig'' then set_field (\<lambda>x. t\<lparr>th_Sig := x\<rparr>) (dec_string j (th_Sig t))
        else set_field (\<lambda>x. t\<lparr>th_Signed := x\<rparr>) (dec_string j (th_Signed t)))
     [''size'', ''root'', ''sig'', ''signed'']"

definition dec_AnchorEntry :: "json \<Rightarrow> AnchorEntry \<Rightarrow> AnchorEntry decoded" where
  "dec_AnchorEntry = dec_struct
     (\<lambda>n j a. if n = ''recorder'' then set_field (\<lambda>x. a\<lparr>ae_Recorder := x\<rparr>) (dec_string j (ae_Recorder a))
        else if n = ''run'' then set_field (\<lambda>x. a\<lparr>ae_Run := x\<rparr>) (dec_string j (ae_Run a))
        else if n = ''seq'' then set_field (\<lambda>x. a\<lparr>ae_Seq := x\<rparr>) (dec_int j (ae_Seq a))
        else if n = ''leaf'' then set_field (\<lambda>x. a\<lparr>ae_Leaf := x\<rparr>) (dec_string j (ae_Leaf a))
        else if n = ''index'' then set_field (\<lambda>x. a\<lparr>ae_Index := x\<rparr>) (dec_int j (ae_Index a))
        else set_field (\<lambda>x. a\<lparr>ae_Proof := x\<rparr>) (dec_slice dec_string [] j (ae_Proof a)))
     [''recorder'', ''run'', ''seq'', ''leaf'', ''index'', ''proof'']"

definition dec_Anchors :: "json \<Rightarrow> Anchors \<Rightarrow> Anchors decoded" where
  "dec_Anchors = dec_struct
     (\<lambda>n j a. if n = ''log'' then set_field (\<lambda>x. a\<lparr>an_Log := x\<rparr>) (dec_string j (an_Log a))
        else if n = ''tree_head'' then set_field (\<lambda>x. a\<lparr>an_TreeHead := x\<rparr>) (dec_TreeHead j (an_TreeHead a))
        else set_field (\<lambda>x. a\<lparr>an_Entries := x\<rparr>) (dec_slice dec_AnchorEntry zero_AnchorEntry j (an_Entries a)))
     [''log'', ''tree_head'', ''entries'']"

section \<open>Counterparty statements\<close>

record CounterpartyPayload =
  cp_V :: int
  cp_Type :: string
  cp_Run :: string
  cp_Flow :: string
  cp_Nonce :: string
  cp_Received :: "(string \<times> string) list"
  cp_None :: bool

record CounterpartyStatement =
  cs_Line :: string
  cs_File :: string
  cs_LineNo :: int
  cs_PayloadRaw :: string
  cs_Signature :: string
  cs_Payload :: CounterpartyPayload
  cs_LineErr :: "msg option"
  cs_ParseErr :: "msg option"
  cs_CanonicalErr :: "msg option"
  cs_CanonicalOK :: bool
  cs_SchemaErr :: "msg option"
  cs_SchemaOK :: bool
  cs_SignatureOK :: bool
  cs_SignatureUV :: bool
  cs_SignatureErr :: "msg option"

definition zero_CounterpartyPayload :: CounterpartyPayload where
  "zero_CounterpartyPayload = \<lparr>cp_V = 0, cp_Type = [], cp_Run = [], cp_Flow = [], cp_Nonce = [], cp_Received = [],
     cp_None = False\<rparr>"

definition dec_CounterpartyPayload :: "json \<Rightarrow> CounterpartyPayload \<Rightarrow> CounterpartyPayload decoded" where
  "dec_CounterpartyPayload = dec_struct
     (\<lambda>n j p. if n = ''v'' then set_field (\<lambda>x. p\<lparr>cp_V := x\<rparr>) (dec_int j (cp_V p))
        else if n = ''type'' then set_field (\<lambda>x. p\<lparr>cp_Type := x\<rparr>) (dec_string j (cp_Type p))
        else if n = ''run'' then set_field (\<lambda>x. p\<lparr>cp_Run := x\<rparr>) (dec_string j (cp_Run p))
        else if n = ''flow'' then set_field (\<lambda>x. p\<lparr>cp_Flow := x\<rparr>) (dec_string j (cp_Flow p))
        else if n = ''nonce'' then set_field (\<lambda>x. p\<lparr>cp_Nonce := x\<rparr>) (dec_string j (cp_Nonce p))
        else if n = ''received'' then
          set_field (\<lambda>x. p\<lparr>cp_Received := x\<rparr>) (dec_map dec_string [] j (cp_Received p))
        else set_field (\<lambda>x. p\<lparr>cp_None := x\<rparr>) (dec_bool j (cp_None p)))
     [''v'', ''type'', ''run'', ''flow'', ''nonce'', ''received'', ''none'']"

definition parseCounterpartyLine :: "string \<Rightarrow> string \<Rightarrow> int \<Rightarrow> CounterpartyStatement" where
  "parseCounterpartyLine line file lineNo =
     (let stmt = \<lparr>cs_Line = line, cs_File = file, cs_LineNo = lineNo, cs_PayloadRaw = [], cs_Signature = [],
            cs_Payload = zero_CounterpartyPayload, cs_LineErr = None, cs_ParseErr = None, cs_CanonicalErr = None,
            cs_CanonicalOK = False, cs_SchemaErr = None, cs_SchemaOK = False, cs_SignatureOK = False,
            cs_SignatureUV = False, cs_SignatureErr = None\<rparr> in
      if \<not> compactLineRE line
      then stmt\<lparr>cs_LineErr := Some (Errorf ''malformed compact counterparty line'' [])\<rparr>
      else
        (let parts = split_on (CHR ''.'') line in
         case decodeCompactBase64 (parts ! 0) of
           Inl err \<Rightarrow> stmt\<lparr>cs_LineErr := Some (Errorf ''decode payload: %w'' [E err])\<rparr>
         | Inr payload \<Rightarrow>
             (case decodeCompactBase64 (parts ! 1) of
                Inl err \<Rightarrow> stmt\<lparr>cs_LineErr := Some (Errorf ''decode signature: %w'' [E err])\<rparr>
              | Inr sig \<Rightarrow>
                  (case unmarshal dec_CounterpartyPayload payload zero_CounterpartyPayload of
                     (pl, err) \<Rightarrow>
                       stmt\<lparr>cs_PayloadRaw := payload, cs_Signature := sig, cs_Payload := pl, cs_ParseErr := err\<rparr>))))"

definition counterparty_form :: "CounterpartyStatement \<Rightarrow> CounterpartyStatement" where
  "counterparty_form s =
     (case Canonicalize (cs_PayloadRaw s) of
        Inl err \<Rightarrow> s\<lparr>cs_CanonicalErr := Some err\<rparr>
      | Inr canon \<Rightarrow>
          if canon \<noteq> cs_PayloadRaw s
          then s\<lparr>cs_CanonicalErr := Some (Errorf ''counterparty payload is not canonical'' [])\<rparr>
          else
            (let s = s\<lparr>cs_CanonicalOK := True\<rparr> in
             case validateObjectSchema (parse_json (cs_PayloadRaw s))
                    [''v'', ''type'', ''run'', ''flow'', ''nonce'', ''received'', ''none'', ''ext'']
                    [''v'', ''type'', ''run'', ''flow'', ''nonce''] of
               Some err \<Rightarrow> s\<lparr>cs_SchemaErr := Some err\<rparr>
             | None \<Rightarrow> s\<lparr>cs_SchemaOK := True\<rparr>))"

definition Verify_counterparty :: "crypto \<Rightarrow> keys \<Rightarrow> string \<Rightarrow> CounterpartyStatement \<Rightarrow> CounterpartyStatement" where
  "Verify_counterparty cr ks fp s =
     (if cs_LineErr s \<noteq> None \<or> cs_ParseErr s \<noteq> None
      then s\<lparr>cs_SignatureErr := firstErr [cs_LineErr s, cs_ParseErr s]\<rparr>
      else
        (case alookup ks (to_lower fp) of
           None \<Rightarrow> s\<lparr>cs_SignatureUV := True,
                     cs_SignatureErr := Some (Errorf ''missing published counterparty key %s'' [S fp])\<rparr>
         | Some pub \<Rightarrow>
             if length (cs_Signature s) \<noteq> SignatureSize
             then s\<lparr>cs_SignatureErr := Some (Errorf ''signature length %d'' [D (int (length (cs_Signature s)))])\<rparr>
             else if \<not> ed25519_verify cr pub (cs_PayloadRaw s) (cs_Signature s)
             then s\<lparr>cs_SignatureErr := Some (Errorf ''counterparty signature verification failed'' [])\<rparr>
             else counterparty_form (s\<lparr>cs_SignatureOK := True\<rparr>)))"

section \<open>Artifacts\<close>

record RecorderLog =
  log_ID :: string
  log_Run :: string
  log_Key :: string
  log_File :: string
  log_Records :: "Record list"

record Artifact =
  art_ManifestRaw :: string
  art_Manifest :: Manifest
  art_Keys :: keys
  art_RecorderLogs :: "RecorderLog list"
  art_Anchors :: "Anchors option"
  art_AnchorsRaw :: string
  art_AnchorsErr :: "msg option"
  art_Counterparty :: "CounterpartyStatement list"
  art_CounterpartyMissing :: bool
  art_CounterpartyErr :: "msg option"
  art_Policies :: "(string \<times> PolicyDoc) list"
  art_PolicyRaw :: "(string \<times> string) list"
  art_PolicyLoadErrs :: "(string \<times> msg) list"

definition new_Artifact :: "keys \<Rightarrow> string \<Rightarrow> Manifest \<Rightarrow> Artifact" where
  "new_Artifact ks raw m =
     \<lparr>art_ManifestRaw = raw, art_Manifest = m, art_Keys = ks, art_RecorderLogs = [], art_Anchors = None,
      art_AnchorsRaw = [], art_AnchorsErr = None, art_Counterparty = [], art_CounterpartyMissing = False,
      art_CounterpartyErr = None, art_Policies = [], art_PolicyRaw = [], art_PolicyLoadErrs = []\<rparr>"

text \<open>One entry of the keys directory: a key file that is not what its name says is skipped.\<close>

definition load_key :: "crypto \<Rightarrow> dirent \<Rightarrow> (string \<times> string) option" where
  "load_key cr entry =
     (if e_isdir entry \<or> \<not> has_suffix (e_name entry) ''.pub'' then None
      else
        (case and_then (e_file entry) read_all of
           Inl _ \<Rightarrow> None
         | Inr raw \<Rightarrow>
             (case std_decode (trim_space raw) of
                None \<Rightarrow> None
              | Some decoded \<Rightarrow>
                  if length decoded \<noteq> PublicKeySize then None
                  else
                    (let fp = sha256_hex cr decoded; nameFP = trim_suffix (e_name entry) ''.pub'' in
                     if to_lower nameFP \<noteq> fp then None else Some (fp, decoded)))))"

definition loadKeys :: "crypto \<Rightarrow> artifact_fs \<Rightarrow> keys res" where
  "loadKeys cr fs =
     (case fs_keys fs of
        Inl err \<Rightarrow> if err = os_ErrNotExist then Inr [] else Inl (Errorf ''read keys dir: %w'' [E err])
      | Inr entries \<Rightarrow>
          Inr (fold (\<lambda>entry ks. case load_key cr entry of Some (fp, pub) \<Rightarrow> aput fp pub ks | None \<Rightarrow> ks) entries []))"

text \<open>The non-empty lines with their numbers, which count the empty ones too.\<close>

fun numbered_lines :: "int \<Rightarrow> string list \<Rightarrow> (int \<times> string) list" where
  "numbered_lines n [] = []"
| "numbered_lines n (l # ls) =
     (let line = trim_right_cr l in
      (if line = [] then [] else [(n, line)]) @ numbered_lines (n + 1) ls)"

definition loadRecorderLog :: "crypto \<Rightarrow> artifact_fs \<Rightarrow> ManifestRecorder \<Rightarrow> RecorderLog res" where
  "loadRecorderLog cr fs rec =
     (case openArtifactFile fs (mr_File rec) of
        Inl err \<Rightarrow> Inl (Errorf ''unsafe recorder file path %q: %w'' [Q (mr_File rec), E err])
      | Inr f \<Rightarrow>
          (case scan_lines f of
             (ls, Some err) \<Rightarrow> Inl (Errorf ''scan recorder %s: %w'' [S (mr_File rec), E err])
           | (ls, None) \<Rightarrow>
               Inr \<lparr>log_ID = mr_ID rec, log_Run = mr_Run rec, log_Key = to_lower (mr_Key rec), log_File = mr_File rec,
                 log_Records = map (\<lambda>(n, line). ParseRecordLine cr line (mr_File rec) n) (numbered_lines 1 ls)\<rparr>))"

definition verify_log :: "crypto \<Rightarrow> keys \<Rightarrow> RecorderLog \<Rightarrow> RecorderLog" where
  "verify_log cr ks log = log\<lparr>log_Records := map (Verify cr ks) (log_Records log)\<rparr>"

fun load_logs :: "crypto \<Rightarrow> artifact_fs \<Rightarrow> keys \<Rightarrow> ManifestRecorder list \<Rightarrow> RecorderLog list res" where
  "load_logs cr fs ks [] = Inr []"
| "load_logs cr fs ks (rec # recs) =
     and_then (loadRecorderLog cr fs rec) (\<lambda>log.
     and_then (load_logs cr fs ks recs) (\<lambda>logs. Inr (verify_log cr ks log # logs)))"

definition load_policy :: "crypto \<Rightarrow> dirent \<Rightarrow> Artifact \<Rightarrow> Artifact" where
  "load_policy cr entry a =
     (if e_isdir entry \<or> \<not> has_suffix (e_name entry) ''.json'' then a
      else
        (let name = trim_suffix (e_name entry) ''.json'' in
         case and_then (e_file entry) read_all of
           Inl err \<Rightarrow> a\<lparr>art_PolicyLoadErrs := aput name err (art_PolicyLoadErrs a)\<rparr>
         | Inr raw \<Rightarrow>
             (let a = a\<lparr>art_PolicyRaw := aput name raw (art_PolicyRaw a)\<rparr> in
              case ParsePolicy cr raw of
                Inl err \<Rightarrow> a\<lparr>art_PolicyLoadErrs := aput name err (art_PolicyLoadErrs a)\<rparr>
              | Inr pol \<Rightarrow> a\<lparr>art_Policies := aput name pol (art_Policies a)\<rparr>)))"

definition loadPolicies :: "crypto \<Rightarrow> artifact_fs \<Rightarrow> Artifact \<Rightarrow> Artifact res" where
  "loadPolicies cr fs a =
     (case fs_policy fs of
        Inl err \<Rightarrow> if err = os_ErrNotExist then Inr a else Inl (Errorf ''read policy dir: %w'' [E err])
      | Inr entries \<Rightarrow> Inr (fold (load_policy cr) (sort_slice (\<lambda>x y. e_name x < e_name y) entries) a))"

definition loadAnchors :: "artifact_fs \<Rightarrow> Artifact \<Rightarrow> Artifact" where
  "loadAnchors fs a =
     (case man_Anchor (art_Manifest a) of
        None \<Rightarrow> a
      | Some decl \<Rightarrow>
          (case readBoundedArtifactFile fs (ad_File decl) maxAnchorBytes of
             Inl err \<Rightarrow>
               if errors_Is err os_ErrNotExist then a
               else a\<lparr>art_AnchorsErr := Some (Errorf ''read anchors: %w'' [E err])\<rparr>
           | Inr raw \<Rightarrow>
               (let a = a\<lparr>art_AnchorsRaw := raw\<rparr> in
                case Canonicalize raw of
                  Inl err \<Rightarrow> a\<lparr>art_AnchorsErr := Some (Errorf ''anchors canonicalize: %w'' [E err])\<rparr>
                | Inr canon \<Rightarrow>
                    if canon \<noteq> raw then a\<lparr>art_AnchorsErr := Some (Errorf ''anchors.json is not canonical'' [])\<rparr>
                    else
                      (case unmarshal dec_Anchors raw zero_Anchors of
                         (anchors, Some err) \<Rightarrow> a\<lparr>art_AnchorsErr := Some err\<rparr>
                       | (anchors, None) \<Rightarrow> a\<lparr>art_Anchors := Some anchors\<rparr>))))"

definition loadCounterparty :: "crypto \<Rightarrow> artifact_fs \<Rightarrow> Artifact \<Rightarrow> Artifact" where
  "loadCounterparty cr fs a =
     (case man_Counterparty (art_Manifest a) of
        None \<Rightarrow> a
      | Some decl \<Rightarrow>
          (case openArtifactFile fs (cd_File decl) of
             Inl err \<Rightarrow>
               if errors_Is err os_ErrNotExist then a\<lparr>art_CounterpartyMissing := True\<rparr>
               else a\<lparr>art_CounterpartyErr := Some err\<rparr>
           | Inr f \<Rightarrow>
               (let (ls, err) = scan_lines f in
                a\<lparr>art_Counterparty := map (\<lambda>(n, line).
                    Verify_counterparty cr (art_Keys a) (to_lower (cd_Key decl)) (parseCounterpartyLine line (cd_File decl) n))
                    (numbered_lines 1 ls),
                  art_CounterpartyErr := wrap_err (\<lambda>e. Errorf ''scan counterparty %s: %w'' [S (cd_File decl), E e]) err\<rparr>)))"

text \<open>The manifest: limits, canonical form, decoding, format, schema, in this order.\<close>

definition loadManifest :: "string \<Rightarrow> Manifest res" where
  "loadManifest raw =
     fail_if (wrap_err (\<lambda>e. Errorf ''manifest limits: %w'' [E e]) (validateManifestResourceLimits raw))
       (let canonErr = (case Canonicalize raw of
              Inl err \<Rightarrow> Some err
            | Inr canon \<Rightarrow> if canon = raw then None else Some (Errorf ''manifest.json is not canonical'' []));
            (m, decErr) = unmarshal dec_Manifest raw zero_Manifest
        in fail_if (wrap_err (\<lambda>e. Errorf ''manifest: %w'' [E e]) (keep_first decErr canonErr))
             (if man_AELFormat m \<noteq> ArtifactFormatVersion
              then Inl (Errorf ''manifest: unsupported ael_format %d; this checker implements ael_format %d''
                     [D (man_AELFormat m), D ArtifactFormatVersion])
              else fail_if (wrap_err (\<lambda>e. Errorf ''manifest schema: %w'' [E e]) (validateManifestSchema raw)) (Inr m)))"

definition LoadArtifact :: "crypto \<Rightarrow> artifact_fs \<Rightarrow> Artifact res" where
  "LoadArtifact cr fs =
     and_then (loadKeys cr fs) (\<lambda>ks.
       case readBoundedArtifactFile fs ''manifest.json'' maxManifestBytes of
         Inl err \<Rightarrow> Inl (Errorf ''read manifest: %w'' [E err])
       | Inr raw \<Rightarrow>
           and_then (loadManifest raw) (\<lambda>m.
           and_then (load_logs cr fs ks (man_Recorders m)) (\<lambda>logs.
           and_then (loadPolicies cr fs ((new_Artifact ks raw m)\<lparr>art_RecorderLogs := logs\<rparr>)) (\<lambda>a.
             Inr (loadCounterparty cr fs (loadAnchors fs a))))))"

definition AllRecords :: "Artifact \<Rightarrow> Record list" where
  "AllRecords a = concat (map log_Records (art_RecorderLogs a))"

definition ForRun :: "Artifact \<Rightarrow> string \<Rightarrow> Artifact" where
  "ForRun a run =
     a\<lparr>art_Manifest := (art_Manifest a)\<lparr>man_Runs := [run]\<rparr>,
       art_RecorderLogs := filter (\<lambda>log. log_Run log = run) (art_RecorderLogs a),
       art_Anchors := map_option (\<lambda>an. an\<lparr>an_Entries := filter (\<lambda>entry. ae_Run entry = run) (an_Entries an)\<rparr>)
         (art_Anchors a)\<rparr>"

end
