(* ===== verification/Merkle.thy ===== *)
theory Merkle
  imports Records
begin

text \<open>
  The Merkle tree of the anchors: the verifier of \<open>checker/internal/ael/checks.go\<close>
  (\<open>merkleRootFromProof\<close> and what it calls) and the generator of \<open>checker/cmd/aelgen/main.go\<close>
  (\<open>merkleRoot\<close>, \<open>merkleProof\<close>). The recursions go through \<open>largestPowerOfTwoLessThan\<close>, whose loop
  shifts a 64-bit integer and does not end above \<open>2 ^ 62\<close>; so these functions are
  \<open>partial_function (option)\<close>, None for a call that does not return.
  \<open>tree_root\<close> and \<open>path_root\<close> are the total functions they compute below that bound.
\<close>

section \<open>The program\<close>

definition decodeHex32 :: "string \<Rightarrow> string res" where
  "decodeHex32 s =
     (case hex_decode (to_lower s) of
        None \<Rightarrow> Inl (StdErr ''encoding/hex: invalid input'')
      | Some raw \<Rightarrow>
          if length raw \<noteq> 32 then Inl (Errorf ''got %d bytes, want %d'' [D (int (length raw)), D 32]) else Inr raw)"

definition merkleLeaf :: "crypto \<Rightarrow> string \<Rightarrow> string" where
  "merkleLeaf cr raw = sha256 cr (chr 0 # raw)"

definition merkleLeafHex :: "crypto \<Rightarrow> string \<Rightarrow> string" where
  "merkleLeafHex cr raw = sha256_hex cr (chr 0 # raw)"

definition node_preimage :: "string \<Rightarrow> string \<Rightarrow> string" where
  "node_preimage left right = chr 1 # left @ right"

definition merkleNode :: "crypto \<Rightarrow> string \<Rightarrow> string \<Rightarrow> string" where
  "merkleNode cr left right = sha256 cr (node_preimage left right)"

definition shl1 :: "int \<Rightarrow> int" where
  "shl1 p = wrap64 (2 * p)"

partial_function (option) power_loop :: "int \<Rightarrow> int \<Rightarrow> int option" where
  "power_loop n p = (if shl1 p < n then power_loop n (shl1 p) else Some p)"

definition largestPowerOfTwoLessThan :: "int \<Rightarrow> int option" where
  "largestPowerOfTwoLessThan n = power_loop n 1"

text \<open>The sibling a proof provides at one level, or the error that it is missing.\<close>

definition sibling :: "string list \<Rightarrow> nat \<Rightarrow> string \<Rightarrow> string res" where
  "sibling proof used side =
     (if length proof \<le> used then Inl (Errorf ''proof is missing %s sibling'' [S side]) else Inr (proof ! used))"

partial_function (option) merkleRootFromProofAt ::
  "crypto \<Rightarrow> string \<Rightarrow> int \<Rightarrow> int \<Rightarrow> string list \<Rightarrow> (string \<times> nat) res option" where
  "merkleRootFromProofAt cr leaf index sz proof =
     (if sz = 1 then Some (Inr (leaf, 0))
      else Option.bind (largestPowerOfTwoLessThan sz) (\<lambda>split.
        if index < split then
          Option.bind (merkleRootFromProofAt cr leaf index split proof) (\<lambda>r.
            Some (and_then r (\<lambda>(left, used). and_then (sibling proof used ''right'') (\<lambda>s.
              Inr (merkleNode cr left s, used + 1)))))
        else
          Option.bind (merkleRootFromProofAt cr leaf (index - split) (sz - split) proof) (\<lambda>r.
            Some (and_then r (\<lambda>(right, used). and_then (sibling proof used ''left'') (\<lambda>s.
              Inr (merkleNode cr s right, used + 1)))))))"

definition merkleRootFromProof ::
  "crypto \<Rightarrow> string \<Rightarrow> int \<Rightarrow> int \<Rightarrow> string list \<Rightarrow> string res option" where
  "merkleRootFromProof cr leaf index sz proof =
     (if sz \<le> 0 then Some (Inl (Errorf ''tree size must be positive'' []))
      else if index < 0 \<or> index \<ge> sz
        then Some (Inl (Errorf ''index %d outside tree size %d'' [D index, D sz]))
      else Option.bind (merkleRootFromProofAt cr leaf index sz proof) (\<lambda>r.
        Some (and_then r (\<lambda>(root, used).
          if used \<noteq> length proof
          then Inl (Errorf ''proof has %d extra nodes'' [D (int (length proof) - int used)])
          else Inr root))))"

partial_function (option) merkleRoot :: "crypto \<Rightarrow> string list \<Rightarrow> string option" where
  "merkleRoot cr leaves =
     (if leaves = [] then Some (sha256 cr [])
      else if length leaves = 1 then Some (leaves ! 0)
      else Option.bind (largestPowerOfTwoLessThan (int (length leaves))) (\<lambda>split.
        Option.bind (merkleRoot cr (take (nat split) leaves)) (\<lambda>l.
        Option.bind (merkleRoot cr (drop (nat split) leaves)) (\<lambda>r. Some (merkleNode cr l r)))))"

partial_function (option) merkleProof :: "crypto \<Rightarrow> string list \<Rightarrow> int \<Rightarrow> string list option" where
  "merkleProof cr leaves index =
     (if length leaves \<le> 1 then Some []
      else Option.bind (largestPowerOfTwoLessThan (int (length leaves))) (\<lambda>split.
        if index < split then
          Option.bind (merkleProof cr (take (nat split) leaves) index) (\<lambda>p.
          Option.bind (merkleRoot cr (drop (nat split) leaves)) (\<lambda>r. Some (p @ [r])))
        else
          Option.bind (merkleProof cr (drop (nat split) leaves) (index - split)) (\<lambda>p.
          Option.bind (merkleRoot cr (take (nat split) leaves)) (\<lambda>r. Some (p @ [r])))))"

section \<open>The split point\<close>

definition split_of :: "nat \<Rightarrow> nat" where
  "split_of n = 2 ^ (bit_len (n - 1) - 1)"

lemma split_of_bounds:
  assumes "2 \<le> n"
  shows "0 < split_of n" "split_of n < n" "n \<le> 2 * split_of n"
proof -
  have b: "2 ^ (bit_len (n - 1) - 1) \<le> n - 1" "n - 1 < 2 ^ bit_len (n - 1)" "0 < bit_len (n - 1)"
    using bit_len_bounds [of "n - 1"] assms by simp_all
  have "(2::nat) ^ bit_len (n - 1) = 2 * split_of n"
    using b(3) by (cases "bit_len (n - 1)") (simp_all add: split_of_def)
  moreover have "Suc (n - 1) = n" using assms by simp
  ultimately show "0 < split_of n" "split_of n < n" "n \<le> 2 * split_of n"
    using b(1,2) unfolding split_of_def by (simp, linarith+)
qed

lemma shl1_power: "j < 62 \<Longrightarrow> shl1 (2 ^ j) = 2 ^ Suc j"
proof -
  assume "j < 62"
  then have "(2::int) ^ Suc j \<le> 2 ^ 62" by (intro power_increasing) simp_all
  then have "(2::int) ^ Suc j < 2 ^ 63" by (rule le_less_trans) simp
  moreover have "- (2 ^ 63) \<le> (2::int) ^ Suc j" by (rule order_trans [of _ 0]) simp_all
  ultimately have "in64 (2 ^ Suc j)" by (simp only: in64_def simp_thms)
  then show ?thesis by (simp add: shl1_def wrap64_id)
qed

lemma power_loop_reaches:
  assumes "2 ^ K < n" "n \<le> 2 ^ Suc K" "K < 62" "j \<le> K"
  shows "power_loop n (2 ^ j) = Some (2 ^ K)"
  using assms(4)
proof (induction "K - j" arbitrary: j)
  case 0
  then have "j = K" by simp
  then show ?case using assms by (subst power_loop.simps) (simp add: shl1_power)
next
  case (Suc d)
  then have j: "Suc j \<le> K" "d = K - Suc j" by simp_all
  have "(2::int) ^ Suc j \<le> 2 ^ K" using j by (intro power_increasing) simp_all
  then have "shl1 (2 ^ j) < n" using assms j by (simp add: shl1_power)
  moreover have "power_loop n (2 ^ Suc j) = Some (2 ^ K)" using Suc j by blast
  ultimately show ?case using assms(3) j by (subst power_loop.simps) (simp add: shl1_power)
qed

lemma largestPowerOfTwo_split:
  assumes "2 \<le> n" "n \<le> 2 ^ 62"
  shows "largestPowerOfTwoLessThan (int n) = Some (int (split_of n))"
proof -
  define K where "K = bit_len (n - 1) - 1"
  have s: "split_of n = 2 ^ K" by (simp add: split_of_def K_def)
  have b: "2 ^ K < n" "n \<le> 2 * 2 ^ K" using split_of_bounds [OF assms(1)] s by simp_all
  have "(2::nat) ^ K < 2 ^ 62" using b(1) assms(2) by linarith
  then have K: "K < 62" by (rule power_less_imp_less_exp [rotated]) simp
  have bi: "(2::int) ^ K < int n" "int n \<le> 2 ^ Suc K"
    using b by (metis of_nat_less_iff of_nat_numeral of_nat_power, metis (mono_tags) of_nat_le_iff of_nat_mult of_nat_numeral of_nat_power power_Suc)
  have "power_loop (int n) (2 ^ 0) = Some (2 ^ K)" by (rule power_loop_reaches [OF bi K]) simp
  then show ?thesis by (simp add: largestPowerOfTwoLessThan_def s)
qed

text \<open>The loop of \<open>largestPowerOfTwoLessThan\<close> ends with a power of two strictly below \<open>n\<close>
  and at least half of it for every \<open>n\<close> from 2 to \<open>2 ^ 62\<close>.\<close>
lemma largestPowerOfTwoLessThan_correct:
  assumes "2 \<le> n" "n \<le> 2 ^ 62"
  shows "\<exists>k. largestPowerOfTwoLessThan n = Some (2 ^ k) \<and> 2 ^ k < n \<and> n \<le> 2 * 2 ^ k"
proof -
  define m where "m = nat n"
  have m: "n = int m" "2 \<le> m" using assms by (simp_all add: m_def)
  have "int m \<le> int (2 ^ 62)" using assms m(1) by simp
  then have m2: "m \<le> 2 ^ 62" by (simp only: of_nat_le_iff)
  have "int m \<le> int (2 * split_of m)" using split_of_bounds(3) [OF m(2)] by (simp only: of_nat_le_iff)
  then show ?thesis
    using largestPowerOfTwo_split [OF m(2) m2] split_of_bounds(2) [OF m(2)] m(1)
    by (intro exI [of _ "bit_len (m - 1) - 1"]) (auto simp: split_of_def)
qed

text \<open>Above \<open>2 ^ 62\<close> the shift overflows to the least integer and then to zero.\<close>

lemma power_loop_overflow:
  assumes "power_loop n p = Some q"
  shows "\<not> (2 ^ 62 < n \<and> (p = 0 \<or> p = - (2 ^ 63) \<or> (\<exists>j \<le> 62. p = 2 ^ j)))"
proof (rule power_loop.raw_induct [OF _ assms])
  fix f n p q
  assume IH: "\<And>n p q. f n p = Some q \<Longrightarrow> \<not> (2 ^ 62 < n \<and> (p = 0 \<or> p = - (2 ^ 63) \<or> (\<exists>j \<le> 62. p = 2 ^ j)))"
    and step: "(if shl1 p < n then f n (shl1 p) else Some p) = Some (q::int)"
  show "\<not> (2 ^ 62 < n \<and> (p = 0 \<or> p = - (2 ^ 63) \<or> (\<exists>j \<le> 62. p = 2 ^ j)))"
  proof
    assume a: "2 ^ 62 < n \<and> (p = 0 \<or> p = - (2 ^ 63) \<or> (\<exists>j \<le> 62. p = 2 ^ j))"
    have "shl1 p < n \<and> (shl1 p = 0 \<or> shl1 p = - (2 ^ 63) \<or> (\<exists>j \<le> 62. shl1 p = 2 ^ j))"
    proof -
      consider "p = 0 \<or> p = - (2 ^ 63)" | "p = 2 ^ 62" | j where "j < 62" "p = 2 ^ j"
        using a by (metis le_less)
      then show ?thesis
      proof cases
        case 3
        have "(2::int) ^ Suc j \<le> 2 ^ 62" using 3(1) by (intro power_increasing) simp_all
        then show ?thesis using 3 a by (auto simp: shl1_power intro: exI [of _ "Suc j"])
      qed (use a in \<open>auto simp: shl1_def wrap64_def\<close>)
    qed
    then show False using step IH [of n "shl1 p" q] a by auto
  qed
qed

text \<open>For \<open>n\<close> above \<open>2 ^ 62\<close> the loop of \<open>largestPowerOfTwoLessThan\<close> does not end.\<close>
lemma largestPowerOfTwoLessThan_diverges:
  assumes "2 ^ 62 < n"
  shows "largestPowerOfTwoLessThan n = None"
proof (rule ccontr)
  assume "largestPowerOfTwoLessThan n \<noteq> None"
  then obtain q where "power_loop n 1 = Some q" by (auto simp: largestPowerOfTwoLessThan_def)
  from power_loop_overflow [OF this] show False using assms by (auto dest: spec [of _ 0])
qed

theorem largestPowerOfTwoLessThan_diverges_witness: "largestPowerOfTwoLessThan (2 ^ 62 + 1) = None"
  by (rule largestPowerOfTwoLessThan_diverges) simp

section \<open>The functions they compute\<close>

lemma split_of_pos [simp]: "0 < split_of n"
  by (simp add: split_of_def)

lemma split_of_less: "2 \<le> n \<Longrightarrow> split_of n < n"
  by (rule split_of_bounds(2))

lemma split_of_diff_less: "2 \<le> n \<Longrightarrow> n - split_of n < n"
  by simp

function tree_root :: "crypto \<Rightarrow> string list \<Rightarrow> string" where
  "tree_root cr ls =
     (if ls = [] then sha256 cr []
      else if length ls = 1 then ls ! 0
      else merkleNode cr (tree_root cr (take (split_of (length ls)) ls)) (tree_root cr (drop (split_of (length ls)) ls)))"
  by pat_completeness auto
termination
  by (relation "measure (\<lambda>(cr, ls). length ls)") (auto simp: split_of_less neq_Nil_conv)

function path_root :: "crypto \<Rightarrow> string \<Rightarrow> nat \<Rightarrow> nat \<Rightarrow> string list \<Rightarrow> (string \<times> nat) res" where
  "path_root cr leaf i n proof =
     (if n \<le> 1 then Inr (leaf, 0)
      else if i < split_of n then
        and_then (path_root cr leaf i (split_of n) proof) (\<lambda>(left, used).
          and_then (sibling proof used ''right'') (\<lambda>s. Inr (merkleNode cr left s, used + 1)))
      else
        and_then (path_root cr leaf (i - split_of n) (n - split_of n) proof) (\<lambda>(right, used).
          and_then (sibling proof used ''left'') (\<lambda>s. Inr (merkleNode cr s right, used + 1))))"
  by pat_completeness auto
termination
  by (relation "measure (\<lambda>(cr, leaf, i, n, proof). n)") (auto simp: split_of_less split_of_diff_less)

function tree_proof :: "crypto \<Rightarrow> string list \<Rightarrow> nat \<Rightarrow> string list" where
  "tree_proof cr ls i =
     (if length ls \<le> 1 then []
      else if i < split_of (length ls)
        then tree_proof cr (take (split_of (length ls)) ls) i @ [tree_root cr (drop (split_of (length ls)) ls)]
      else tree_proof cr (drop (split_of (length ls)) ls) (i - split_of (length ls))
        @ [tree_root cr (take (split_of (length ls)) ls)])"
  by pat_completeness auto
termination
  by (relation "measure (\<lambda>(cr, ls, i). length ls)") (auto simp: split_of_less split_of_diff_less)

declare tree_root.simps [simp del] path_root.simps [simp del] tree_proof.simps [simp del]

lemma tree_root_split:
  "2 \<le> length ls \<Longrightarrow> tree_root cr ls
     = merkleNode cr (tree_root cr (take (split_of (length ls)) ls)) (tree_root cr (drop (split_of (length ls)) ls))"
  by (subst tree_root.simps) auto

lemma tree_root_single [simp]: "tree_root cr [x] = x"
  by (simp add: tree_root.simps)

lemma tree_proof_cases:
  "length ls \<le> 1 \<Longrightarrow> tree_proof cr ls i = []"
  "2 \<le> length ls \<Longrightarrow> i < split_of (length ls) \<Longrightarrow> tree_proof cr ls i
     = tree_proof cr (take (split_of (length ls)) ls) i @ [tree_root cr (drop (split_of (length ls)) ls)]"
  "2 \<le> length ls \<Longrightarrow> \<not> i < split_of (length ls) \<Longrightarrow> tree_proof cr ls i
     = tree_proof cr (drop (split_of (length ls)) ls) (i - split_of (length ls))
       @ [tree_root cr (take (split_of (length ls)) ls)]"
  by (subst tree_proof.simps; simp)+

lemma path_root_cases:
  "n \<le> 1 \<Longrightarrow> path_root cr leaf i n proof = Inr (leaf, 0)"
  "2 \<le> n \<Longrightarrow> i < split_of n \<Longrightarrow> path_root cr leaf i n proof
     = and_then (path_root cr leaf i (split_of n) proof) (\<lambda>(left, used).
          and_then (sibling proof used ''right'') (\<lambda>s. Inr (merkleNode cr left s, used + 1)))"
  "2 \<le> n \<Longrightarrow> \<not> i < split_of n \<Longrightarrow> path_root cr leaf i n proof
     = and_then (path_root cr leaf (i - split_of n) (n - split_of n) proof) (\<lambda>(right, used).
          and_then (sibling proof used ''left'') (\<lambda>s. Inr (merkleNode cr s right, used + 1)))"
  by (subst path_root.simps; simp)+

lemma merkleRoot_eq: "length ls \<le> 2 ^ 62 \<Longrightarrow> merkleRoot cr ls = Some (tree_root cr ls)"
proof (induction cr ls rule: tree_root.induct)
  case (1 cr ls)
  show ?case
  proof (cases "length ls \<le> 1")
    case True
    then show ?thesis by (subst merkleRoot.simps, subst tree_root.simps) (cases ls; auto)
  next
    case False
    then have two: "2 \<le> length ls" "ls \<noteq> []" "length ls \<noteq> 1" by auto
    note sp = largestPowerOfTwo_split [OF two(1) "1.prems"]
    have "length (take (split_of (length ls)) ls) \<le> 2 ^ 62" "length (drop (split_of (length ls)) ls) \<le> 2 ^ 62"
      using "1.prems" by auto
    then show ?thesis using "1.IH" two sp
      by (subst merkleRoot.simps, subst tree_root.simps) simp
  qed
qed

lemma merkleProof_eq:
  "length ls \<le> 2 ^ 62 \<Longrightarrow> merkleProof cr ls (int i) = Some (tree_proof cr ls i)"
proof (induction cr ls i rule: tree_proof.induct)
  case (1 cr ls i)
  show ?case
  proof (cases "length ls \<le> 1")
    case True
    then show ?thesis by (subst merkleProof.simps, subst tree_proof.simps) simp
  next
    case False
    then have two: "2 \<le> length ls" by simp
    note sp = largestPowerOfTwo_split [OF two "1.prems"]
    have l: "length (take (split_of (length ls)) ls) \<le> 2 ^ 62" "length (drop (split_of (length ls)) ls) \<le> 2 ^ 62"
      using "1.prems" by auto
    show ?thesis
    proof (cases "i < split_of (length ls)")
      case True
      then show ?thesis using "1.IH"(1) [OF False True l(1)] merkleRoot_eq [OF l(2)] False sp
        by (subst merkleProof.simps, subst tree_proof.simps) simp
    next
      case no: False
      have "merkleProof cr (drop (split_of (length ls)) ls) (int i - int (split_of (length ls)))
          = Some (tree_proof cr (drop (split_of (length ls)) ls) (i - split_of (length ls)))"
        using "1.IH"(2) [OF False no l(2)] no by (simp add: of_nat_diff)
      then show ?thesis using merkleRoot_eq [OF l(1)] False no sp
        by (subst merkleProof.simps, subst tree_proof.simps) simp
    qed
  qed
qed

lemma merkleRootFromProofAt_eq:
  "1 \<le> n \<Longrightarrow> n \<le> 2 ^ 62 \<Longrightarrow>
     merkleRootFromProofAt cr leaf (int i) (int n) proof = Some (path_root cr leaf i n proof)"
proof (induction cr leaf i n "proof" rule: path_root.induct)
  case (1 cr leaf i n "proof")
  show ?case
  proof (cases "n \<le> 1")
    case True
    then show ?thesis using "1.prems" by (subst merkleRootFromProofAt.simps, subst path_root.simps) simp
  next
    case False
    then have two: "2 \<le> n" by simp
    note sp = largestPowerOfTwo_split [OF two "1.prems"(2)]
    have l: "1 \<le> split_of n" "split_of n \<le> 2 ^ 62" "1 \<le> n - split_of n" "n - split_of n \<le> 2 ^ 62"
      using split_of_bounds [OF two] "1.prems"(2) by auto
    show ?thesis
    proof (cases "i < split_of n")
      case True
      then show ?thesis using "1.IH"(1) [OF False True l(1,2)] False sp
        by (subst merkleRootFromProofAt.simps, subst path_root.simps) simp
    next
      case no: False
      have "merkleRootFromProofAt cr leaf (int i - int (split_of n)) (int n - int (split_of n)) proof
          = Some (path_root cr leaf (i - split_of n) (n - split_of n) proof)"
        using "1.IH"(2) [OF False no l(3,4)] no split_of_bounds [OF two] by (simp add: of_nat_diff)
      then show ?thesis using False no sp
        by (subst merkleRootFromProofAt.simps, subst path_root.simps) simp
    qed
  qed
qed

lemma path_root_used:
  "path_root cr leaf i n proof = Inr (r, used) \<Longrightarrow> used \<le> length proof"
  by (subst (asm) path_root.simps)
     (auto simp: and_then_Inr_iff sibling_def split: if_splits)

section \<open>Completeness\<close>

lemma path_root_step:
  assumes "path_root cr leaf i n proof = Inr (r, used)" "2 \<le> n"
  obtains (left) l u s where "i < split_of n" "path_root cr leaf i (split_of n) proof = Inr (l, u)"
      "u < length proof" "s = proof ! u" "r = merkleNode cr l s" "used = u + 1"
    | (right) l u s where "\<not> i < split_of n" "path_root cr leaf (i - split_of n) (n - split_of n) proof = Inr (l, u)"
      "u < length proof" "s = proof ! u" "r = merkleNode cr s l" "used = u + 1"
  using assms
  by (cases "i < split_of n") (auto simp: path_root_cases and_then_Inr_iff sibling_def split: if_splits)

lemma path_root_append:
  "path_root cr leaf i n proof = Inr (r, used) \<Longrightarrow> path_root cr leaf i n (proof @ rest) = Inr (r, used)"
proof (induction n arbitrary: i r used rule: less_induct)
  case (less n)
  show ?case
  proof (cases "n \<le> 1")
    case True
    then show ?thesis using less.prems by (simp add: path_root_cases)
  next
    case False
    then have two: "2 \<le> n" by simp
    from less.prems two show ?thesis
    proof (cases rule: path_root_step)
      case (left l u s)
      then show ?thesis using less.IH [OF split_of_less [OF two] left(2)] two
        by (simp add: path_root_cases sibling_def nth_append)
    next
      case (right l u s)
      then show ?thesis using less.IH [OF split_of_diff_less [OF two] right(2)] two
        by (simp add: path_root_cases sibling_def nth_append)
    qed
  qed
qed

lemma path_root_complete:
  "i < length ls \<Longrightarrow>
     path_root cr (ls ! i) i (length ls) (tree_proof cr ls i) = Inr (tree_root cr ls, length (tree_proof cr ls i))"
proof (induction "length ls" arbitrary: ls i rule: less_induct)
  case less
  show ?case
  proof (cases "length ls \<le> 1")
    case True
    with less.prems obtain x where "ls = [x]" by (cases ls) auto
    then show ?thesis using less.prems by (simp add: path_root_cases tree_proof_cases)
  next
    case False
    then have two: "2 \<le> length ls" by simp
    let ?k = "split_of (length ls)"
    have k: "?k < length ls" using split_of_less two by simp
    show ?thesis
    proof (cases "i < ?k")
      case True
      have "path_root cr (ls ! i) i ?k (tree_proof cr (take ?k ls) i)
          = Inr (tree_root cr (take ?k ls), length (tree_proof cr (take ?k ls) i))"
        using less.hyps [of "take ?k ls" i] True k by simp
      from path_root_append [OF this] show ?thesis using True two
        by (simp add: path_root_cases tree_proof_cases tree_root_split sibling_def)
    next
      case no: False
      have "path_root cr (ls ! i) (i - ?k) (length ls - ?k) (tree_proof cr (drop ?k ls) (i - ?k))
          = Inr (tree_root cr (drop ?k ls), length (tree_proof cr (drop ?k ls) (i - ?k)))"
        using less.hyps [of "drop ?k ls" "i - ?k"] no k less.prems split_of_diff_less [OF two] by (simp add: diff_less_mono)
      from path_root_append [OF this] show ?thesis using no two
        by (simp add: path_root_cases tree_proof_cases tree_root_split sibling_def)
    qed
  qed
qed

section \<open>Soundness\<close>

text \<open>
  The preimages of the inner nodes: of the tree, and of the path that a proof climbs. Soundness asks
  that SHA-256 tells these finitely many strings apart, and that its values have 32 bytes.
\<close>

definition hash_width :: "crypto \<Rightarrow> bool" where
  "hash_width cr \<longleftrightarrow> (\<forall>s. length (sha256 cr s) = 32)"

function tree_preimages :: "crypto \<Rightarrow> string list \<Rightarrow> string set" where
  "tree_preimages cr ls =
     (if length ls \<le> 1 then {}
      else (let a = take (split_of (length ls)) ls; b = drop (split_of (length ls)) ls
            in insert (node_preimage (tree_root cr a) (tree_root cr b)) (tree_preimages cr a \<union> tree_preimages cr b)))"
  by pat_completeness auto
termination
  by (relation "measure (\<lambda>(cr, ls). length ls)") (auto simp: split_of_less split_of_diff_less)

function path_preimages :: "crypto \<Rightarrow> string \<Rightarrow> nat \<Rightarrow> nat \<Rightarrow> string list \<Rightarrow> string set" where
  "path_preimages cr leaf i n proof =
     (if n \<le> 1 then {}
      else if i < split_of n then
        (case path_root cr leaf i (split_of n) proof of
           Inr (l, u) \<Rightarrow> insert (node_preimage l (proof ! u)) (path_preimages cr leaf i (split_of n) proof)
         | Inl _ \<Rightarrow> {})
      else
        (case path_root cr leaf (i - split_of n) (n - split_of n) proof of
           Inr (l, u) \<Rightarrow> insert (node_preimage (proof ! u) l) (path_preimages cr leaf (i - split_of n) (n - split_of n) proof)
         | Inl _ \<Rightarrow> {}))"
  by pat_completeness auto
termination
  by (relation "measure (\<lambda>(cr, leaf, i, n, proof). n)") (auto simp: split_of_less split_of_diff_less)

declare tree_preimages.simps [simp del] path_preimages.simps [simp del]

lemma tree_preimages_split:
  "2 \<le> length ls \<Longrightarrow> tree_preimages cr ls
     = insert (node_preimage (tree_root cr (take (split_of (length ls)) ls)) (tree_root cr (drop (split_of (length ls)) ls)))
         (tree_preimages cr (take (split_of (length ls)) ls) \<union> tree_preimages cr (drop (split_of (length ls)) ls))"
  by (subst tree_preimages.simps) (simp add: Let_def)

lemma tree_root_length:
  assumes "hash_width cr" "\<forall>l \<in> set ls. length l = 32"
  shows "length (tree_root cr ls) = 32"
proof (cases "length ls \<le> 1")
  case True
  then show ?thesis using assms by (cases ls) (auto simp: tree_root.simps hash_width_def)
next
  case False
  then show ?thesis using assms by (simp add: tree_root_split merkleNode_def hash_width_def)
qed

lemma path_root_length:
  assumes "hash_width cr" "length leaf = 32" "path_root cr leaf i n proof = Inr (r, u)"
  shows "length r = 32"
proof (cases "n \<le> 1")
  case True
  then show ?thesis using assms by (simp add: path_root_cases)
next
  case False
  then have "2 \<le> n" by simp
  from assms(3) this show ?thesis
    by (cases rule: path_root_step) (use assms(1) in \<open>simp_all add: merkleNode_def hash_width_def\<close>)
qed

lemma node_preimage_inj:
  "length a = length c \<Longrightarrow> node_preimage a b = node_preimage c d \<longleftrightarrow> a = c \<and> b = d"
  by (simp add: node_preimage_def)

lemma path_root_sound:
  assumes "hash_width cr" "length leaf = 32" "\<forall>l \<in> set ls. length l = 32" "i < length ls"
    and "path_root cr leaf i (length ls) proof = Inr (tree_root cr ls, used)"
    and "\<forall>p \<in> set proof. length p = 32"
    and "inj_on (sha256 cr) (tree_preimages cr ls \<union> path_preimages cr leaf i (length ls) proof)"
  shows "leaf = ls ! i \<and> take used proof = tree_proof cr ls i"
  using assms(3-5,7)
proof (induction "length ls" arbitrary: ls i used rule: less_induct)
  case less
  show ?case
  proof (cases "length ls \<le> 1")
    case True
    with less.prems(2) obtain x where "ls = [x]" by (cases ls) auto
    then show ?thesis using less.prems by (simp add: path_root_cases tree_proof_cases)
  next
    case False
    then have two: "2 \<le> length ls" by simp
    let ?k = "split_of (length ls)"
    let ?a = "take ?k ls" and ?b = "drop ?k ls"
    have k: "?k < length ls" "length ls - ?k < length ls" using split_of_less [OF two] split_of_diff_less [OF two] by simp_all
    have w: "\<forall>l \<in> set ?a. length l = 32" "\<forall>l \<in> set ?b. length l = 32"
      using less.prems(1) by (auto dest: in_set_takeD in_set_dropD)
    have wr: "length (tree_root cr ?a) = 32" "length (tree_root cr ?b) = 32"
      using tree_root_length [OF assms(1)] w by simp_all
    have pre: "node_preimage (tree_root cr ?a) (tree_root cr ?b) \<in> tree_preimages cr ls"
      using two by (simp add: tree_preimages_split)
    from less.prems(3) two show ?thesis
    proof (cases rule: path_root_step)
      case (left l u s)
      have p: "path_preimages cr leaf i (length ls) proof
          = insert (node_preimage l s) (path_preimages cr leaf i ?k proof)"
        using left two by (subst path_preimages.simps) simp
      have "sha256 cr (node_preimage (tree_root cr ?a) (tree_root cr ?b)) = sha256 cr (node_preimage l s)"
        using left(5) two by (simp add: tree_root_split merkleNode_def)
      from inj_onD [OF less.prems(4) this] have "node_preimage (tree_root cr ?a) (tree_root cr ?b) = node_preimage l s"
        using pre p by simp
      moreover have "length l = 32" using path_root_length [OF assms(1,2) left(2)] .
      ultimately have eq: "l = tree_root cr ?a" "s = tree_root cr ?b"
        using wr by (simp_all add: node_preimage_inj)
      have inj: "inj_on (sha256 cr) (tree_preimages cr ?a \<union> path_preimages cr leaf i (length ?a) proof)"
        by (rule inj_on_subset [OF less.prems(4)]) (use k two p in \<open>auto simp: tree_preimages_split\<close>)
      have "leaf = ?a ! i \<and> take u proof = tree_proof cr ?a i"
        using less.hyps [of ?a i u] left(1,2) w(1) k inj eq by simp
      then show ?thesis using left two eq by (simp add: tree_proof_cases take_Suc_conv_app_nth)
    next
      case (right l u s)
      have p: "path_preimages cr leaf i (length ls) proof
          = insert (node_preimage s l) (path_preimages cr leaf (i - ?k) (length ls - ?k) proof)"
        using right two by (subst path_preimages.simps) simp
      have "sha256 cr (node_preimage (tree_root cr ?a) (tree_root cr ?b)) = sha256 cr (node_preimage s l)"
        using right(5) two by (simp add: tree_root_split merkleNode_def)
      from inj_onD [OF less.prems(4) this] have "node_preimage (tree_root cr ?a) (tree_root cr ?b) = node_preimage s l"
        using pre p by simp
      moreover have "length s = 32" using right(3,4) assms(6) by simp
      ultimately have eq: "s = tree_root cr ?a" "l = tree_root cr ?b"
        using wr by (simp_all add: node_preimage_inj)
      have inj: "inj_on (sha256 cr) (tree_preimages cr ?b \<union> path_preimages cr leaf (i - ?k) (length ?b) proof)"
        by (rule inj_on_subset [OF less.prems(4)]) (use two p in \<open>auto simp: tree_preimages_split\<close>)
      have i: "i - ?k < length ?b" using less.prems(2) right(1) by simp
      have "leaf = ?b ! (i - ?k) \<and> take u proof = tree_proof cr ?b (i - ?k)"
        using less.hyps [of ?b "i - ?k" u] right(2) w(2) k(2) inj eq i by simp
      moreover have "?b ! (i - ?k) = ls ! i" using right(1) k(1) less.prems(2) by simp
      ultimately show ?thesis using right two eq by (simp add: tree_proof_cases take_Suc_conv_app_nth)
    qed
  qed
qed

section \<open>The proof scheme\<close>

text \<open>
  What the anchor checks need of inclusion proofs, as an interface: \<open>root\<close> of the logged leaves,
  \<open>prove\<close> for one index, \<open>climb\<close> from a leaf and a proof to a root. \<open>distinct_hashes ls l i p\<close> stands
  for the absence of hash collisions among what is hashed for this tree and this path.
\<close>

locale inclusion_proofs =
  fixes root :: "'h list \<Rightarrow> 'r"
    and prove :: "'h list \<Rightarrow> nat \<Rightarrow> 'p"
    and climb :: "'h \<Rightarrow> nat \<Rightarrow> nat \<Rightarrow> 'p \<Rightarrow> 'r option"
    and wf :: "'h list \<Rightarrow> bool"
    and wf_path :: "'h \<Rightarrow> 'p \<Rightarrow> bool"
    and distinct_hashes :: "'h list \<Rightarrow> 'h \<Rightarrow> nat \<Rightarrow> 'p \<Rightarrow> bool"
  assumes complete: "i < length ls \<Longrightarrow> wf ls \<Longrightarrow> climb (ls ! i) i (length ls) (prove ls i) = Some (root ls)"
    and sound: "i < length ls \<Longrightarrow> wf ls \<Longrightarrow> wf_path l p \<Longrightarrow> distinct_hashes ls l i p
      \<Longrightarrow> climb l i (length ls) p = Some (root ls) \<Longrightarrow> l = ls ! i \<and> p = prove ls i"
begin

lemma accepts_iff:
  assumes "i < length ls" "wf ls" "wf_path l p" "distinct_hashes ls l i p"
  shows "climb l i (length ls) p = Some (root ls) \<longleftrightarrow> l = ls ! i \<and> p = prove ls i"
  using complete [OF assms(1,2)] sound [OF assms] by auto

lemma no_substitute:
  assumes "i < length ls" "wf ls" "wf_path l p" "distinct_hashes ls l i p" "l \<noteq> ls ! i"
  shows "climb l i (length ls) p \<noteq> Some (root ls)"
  using accepts_iff [OF assms(1-4)] assms(5) by simp

end

text \<open>The checker's verifier as a total function of the root it accepts.\<close>

definition climb_root :: "crypto \<Rightarrow> string \<Rightarrow> nat \<Rightarrow> nat \<Rightarrow> string list \<Rightarrow> string option" where
  "climb_root cr leaf i n proof =
     (case merkleRootFromProof cr leaf (int i) (int n) proof of Some (Inr r) \<Rightarrow> Some r | _ \<Rightarrow> None)"

definition wf_leaves :: "crypto \<Rightarrow> string list \<Rightarrow> bool" where
  "wf_leaves cr ls \<longleftrightarrow> hash_width cr \<and> length ls \<le> 2 ^ 62 \<and> (\<forall>l \<in> set ls. length l = 32)"

definition wf_proof :: "string \<Rightarrow> string list \<Rightarrow> bool" where
  "wf_proof leaf proof \<longleftrightarrow> length leaf = 32 \<and> (\<forall>p \<in> set proof. length p = 32)"

definition no_collision :: "crypto \<Rightarrow> string list \<Rightarrow> string \<Rightarrow> nat \<Rightarrow> string list \<Rightarrow> bool" where
  "no_collision cr ls leaf i proof \<longleftrightarrow>
     inj_on (sha256 cr) (tree_preimages cr ls \<union> path_preimages cr leaf i (length ls) proof)"

lemma merkleRootFromProof_eq:
  assumes "i < n" "n \<le> 2 ^ 62"
  shows "merkleRootFromProof cr leaf (int i) (int n) proof = Some (Inr r)
    \<longleftrightarrow> path_root cr leaf i n proof = Inr (r, length proof)"
proof -
  have "1 \<le> n" using assms by simp
  from merkleRootFromProofAt_eq [OF this assms(2), of cr leaf i "proof"] show ?thesis
    using assms(1) by (auto simp: merkleRootFromProof_def and_then_Inr_iff)
qed

lemma climb_root_iff:
  "i < n \<Longrightarrow> n \<le> 2 ^ 62 \<Longrightarrow> climb_root cr leaf i n proof = Some r
     \<longleftrightarrow> path_root cr leaf i n proof = Inr (r, length proof)"
  by (auto simp: climb_root_def simp flip: merkleRootFromProof_eq split: option.splits sum.splits)

interpretation merkle: inclusion_proofs "tree_root cr" "tree_proof cr" "climb_root cr" "wf_leaves cr" wf_proof
  "no_collision cr" for cr
proof
  show "climb_root cr (ls ! i) i (length ls) (tree_proof cr ls i) = Some (tree_root cr ls)"
    if "i < length ls" "wf_leaves cr ls" for i ls
    using that path_root_complete [of i ls cr] by (simp add: climb_root_iff wf_leaves_def)
  show "l = ls ! i \<and> p = tree_proof cr ls i"
    if "i < length ls" "wf_leaves cr ls" "wf_proof l p" "no_collision cr ls l i p"
      "climb_root cr l i (length ls) p = Some (tree_root cr ls)" for i ls l p
    using that path_root_sound [of cr l ls i p "length p"]
    by (simp add: climb_root_iff wf_leaves_def wf_proof_def no_collision_def)
qed

text \<open>C32: the generator's proofs are accepted. For every tree of at most \<open>2 ^ 62\<close> leaves the
  generator returns a root and a proof for each index, and the checker's verifier recomputes that root
  from the leaf, its index, the tree size and the proof.\<close>
theorem merkle_complete:
  assumes "i < length ls" "length ls \<le> 2 ^ 62"
  shows "\<exists>root proof. merkleRoot cr ls = Some root \<and> merkleProof cr ls (int i) = Some proof
    \<and> merkleRootFromProof cr (ls ! i) (int i) (int (length ls)) proof = Some (Inr root)"
  using merkleRoot_eq [OF assms(2), of cr] merkleProof_eq [OF assms(2), of cr i]
    path_root_complete [OF assms(1), of cr] merkleRootFromProof_eq [OF assms]
  by auto

theorem merkle_complete_witness:
  "\<exists>root proof. merkleRoot toy_crypto [''a'', ''b'', ''c''] = Some root
    \<and> merkleProof toy_crypto [''a'', ''b'', ''c''] 2 = Some proof
    \<and> merkleRootFromProof toy_crypto ''c'' 2 3 proof = Some (Inr root)"
  using merkle_complete [of 2 "[''a'', ''b'', ''c'']" toy_crypto] by simp

text \<open>C12: inclusion is binding. Against the root of a list of 32-byte leaves, the verifier
  accepts at index \<open>i\<close> exactly the leaf logged there with exactly its proof, unless two of the
  strings hashed for this tree and this path collide: no other record can be passed off as anchored.\<close>
theorem merkle_binding:
  assumes "hash_width cr" "i < length ls" "length ls \<le> 2 ^ 62" "\<forall>l \<in> set ls. length l = 32"
    and "length leaf = 32" "\<forall>p \<in> set proof. length p = 32"
    and "inj_on (sha256 cr) (tree_preimages cr ls \<union> path_preimages cr leaf i (length ls) proof)"
  shows "merkleRootFromProof cr leaf (int i) (int (length ls)) proof = Some (Inr (tree_root cr ls))
    \<longleftrightarrow> leaf = ls ! i \<and> merkleProof cr ls (int i) = Some proof"
proof -
  have "climb_root cr leaf i (length ls) proof = Some (tree_root cr ls) \<longleftrightarrow> leaf = ls ! i \<and> proof = tree_proof cr ls i"
    using assms by (intro merkle.accepts_iff) (simp_all add: wf_leaves_def wf_proof_def no_collision_def)
  then show ?thesis
    using assms(2,3) merkleProof_eq [OF assms(3), of cr i]
    by (auto simp: climb_root_iff merkleRootFromProof_eq)
qed

definition wide_crypto :: crypto where
  "wide_crypto = \<lparr>sha256 = (\<lambda>s. take 32 (tl s @ replicate 32 (chr 0))), ed25519_verify = (\<lambda>pub m sig. True)\<rparr>"

theorem merkle_binding_witness:
  "merkleRootFromProof wide_crypto (replicate 32 (CHR ''b'')) 0 2 [replicate 32 (CHR ''c'')]
     \<noteq> Some (Inr (tree_root wide_crypto [replicate 32 (CHR ''a''), replicate 32 (CHR ''c'')]))"
proof -
  let ?a = "replicate 32 (CHR ''a'')" and ?b = "replicate 32 (CHR ''b'')" and ?c = "replicate 32 (CHR ''c'')"
  have s: "split_of (Suc (Suc 0)) = 1" by (simp add: split_of_def bit_len.simps)
  have t: "tree_preimages wide_crypto [?a, ?c] = {node_preimage ?a ?c}"
    by (simp add: tree_preimages.simps [of _ "[_, _]"] tree_preimages.simps [of _ "[_]"] s)
  have p: "path_preimages wide_crypto ?b 0 2 [?c] = {node_preimage ?b ?c}"
    unfolding numeral_2_eq_2
    by (subst path_preimages.simps, simp add: s path_root_cases)
       (subst path_preimages.simps, simp)
  have "sha256 wide_crypto (node_preimage ?a ?c) \<noteq> sha256 wide_crypto (node_preimage ?b ?c)"
    by (simp add: wide_crypto_def node_preimage_def)
  then have "inj_on (sha256 wide_crypto) (tree_preimages wide_crypto [?a, ?c] \<union> path_preimages wide_crypto ?b 0 2 [?c])"
    unfolding t p by (auto simp: inj_on_def)
  moreover have "hash_width wide_crypto" by (auto simp: hash_width_def wide_crypto_def min_def)
  ultimately have "merkleRootFromProof wide_crypto ?b (int 0) (int (length [?a, ?c])) [?c]
      = Some (Inr (tree_root wide_crypto [?a, ?c])) \<longleftrightarrow> ?b = [?a, ?c] ! 0 \<and> merkleProof wide_crypto [?a, ?c] (int 0) = Some [?c]"
    by (intro merkle_binding) (simp_all, simp add: numeral_2_eq_2)
  then show ?thesis by simp
qed

end
