(* ===== verification/Checks.thy ===== *)
theory Checks
  imports Artifact Merkle
begin

text \<open>
  The single-recorder checks of \<open>checker/internal/ael/checks.go\<close>: authenticity (a, b, c, w), order
  and links (d, e), and the liveness rung (f to j). A check takes the view of one run. A loop that
  returns from its body is \<open>first_some\<close>; \<open>or_pass\<close> gives the outcome after the loop. In
  a message, an instant is shown by the record's timestamp text and a duration by its nanoseconds.
\<close>

definition zeroPrev :: string where
  "zeroPrev = replicate 64 (CHR ''0'')"

definition recordMsg :: "Record \<Rightarrow> msg option \<Rightarrow> msg" where
  "recordMsg rec err =
     (case err of
        None \<Rightarrow> Errorf ''%s:%d'' [S (rec_File rec), D (rec_LineNo rec)]
      | Some e \<Rightarrow> Errorf ''%s:%d: %v'' [S (rec_File rec), D (rec_LineNo rec), E e])"

definition counterpartyMsg :: "CounterpartyStatement \<Rightarrow> msg option \<Rightarrow> msg" where
  "counterpartyMsg stmt err =
     (case err of
        None \<Rightarrow> Errorf ''%s:%d'' [S (cs_File stmt), D (cs_LineNo stmt)]
      | Some e \<Rightarrow> Errorf ''%s:%d: %v'' [S (cs_File stmt), D (cs_LineNo stmt), E e])"

definition or_pass :: "Outcome option \<Rightarrow> Outcome \<Rightarrow> Outcome" where
  "or_pass early after = (case early of Some out \<Rightarrow> out | None \<Rightarrow> after)"

abbreviation fail_rec :: "Record \<Rightarrow> string \<Rightarrow> msg_arg list \<Rightarrow> Outcome option" where
  "fail_rec rec f as \<equiv> Some (outcome Fail (recordMsg rec (Some (Errorf f as))))"

text \<open>A record that did not parse fails the check that needs its payload.\<close>

definition parse_failure :: "Record \<Rightarrow> Outcome option" where
  "parse_failure rec =
     (if rec_ParseErr rec \<noteq> None \<or> rec_LineErr rec \<noteq> None
      then Some (outcome Fail (recordMsg rec (firstErr [rec_LineErr rec, rec_ParseErr rec]))) else None)"

definition then_check :: "Outcome option \<Rightarrow> Outcome option \<Rightarrow> Outcome option" where
  "then_check o1 o2 = (case o1 of Some x \<Rightarrow> Some x | None \<Rightarrow> o2)"

section \<open>AEL-0: authentic, canonical, closed\<close>

definition signature_failure :: "Record \<Rightarrow> Outcome option" where
  "signature_failure rec =
     (if rec_SignatureUV rec then None
      else if \<not> rec_SignatureOK rec then Some (outcome Fail (recordMsg rec (rec_SignatureErr rec)))
      else None)"

definition checkSignatures :: "Artifact \<Rightarrow> Outcome" where
  "checkSignatures art =
     (let records = AllRecords art in
      if records = [] then outcome Fail (plain ''no records'')
      else or_pass
        (first_some signature_failure records)
        (if \<exists>rec \<in> set records. rec_SignatureUV rec
         then outcome UV (plain ''one or more published keys are missing'')
         else outcome Pass (plain ''all signatures verify over stored payload bytes'')))"

definition checkCanonicalPayloads :: "Artifact \<Rightarrow> Outcome" where
  "checkCanonicalPayloads art =
     (let skipped = (\<lambda>rec. rec_SignatureUV rec \<or> \<not> rec_SignatureOK rec) in
      or_pass
        (first_some (\<lambda>rec.
           if skipped rec then None
           else if \<not> rec_CanonicalOK rec then Some (outcome Fail (recordMsg rec (rec_CanonicalErr rec)))
           else None) (AllRecords art))
        (if \<exists>rec \<in> set (AllRecords art). skipped rec
         then outcome UV (plain ''canonicality is checked only after signature verification'')
         else outcome Pass (plain ''all verified payloads are canonical'')))"

definition checkClosedSchemas :: "Artifact \<Rightarrow> Outcome" where
  "checkClosedSchemas art =
     (let skip_rec = (\<lambda>rec. rec_SignatureUV rec \<or> \<not> rec_SignatureOK rec \<or> \<not> rec_CanonicalOK rec);
          skip_stmt = (\<lambda>stmt. cs_SignatureUV stmt \<or> \<not> cs_SignatureOK stmt \<or> \<not> cs_CanonicalOK stmt)
      in or_pass
        (then_check
          (first_some (\<lambda>rec.
             if skip_rec rec then None
             else if \<not> rec_SchemaOK rec then Some (outcome Fail (recordMsg rec (rec_SchemaErr rec)))
             else None) (AllRecords art))
        (then_check
          (if art_Anchors art \<noteq> None
           then map_option (outcome Fail) (validateAnchorSchemas (art_AnchorsRaw art)) else None)
          (first_some (\<lambda>stmt.
             if skip_stmt stmt then None
             else if \<not> cs_SchemaOK stmt then Some (outcome Fail (counterpartyMsg stmt (cs_SchemaErr stmt)))
             else None) (art_Counterparty art))))
        (if (\<exists>rec \<in> set (AllRecords art). skip_rec rec) \<or> (\<exists>stmt \<in> set (art_Counterparty art). skip_stmt stmt)
         then outcome UV (plain ''closed-schema check requires verified canonical signed payloads'')
         else outcome Pass (plain
           ''verified closed-schema objects satisfy required keys and have no unknown top-level keys outside ext'')))"

definition checkByteflipDuty :: "Outcome \<Rightarrow> Outcome" where
  "checkByteflipDuty sig =
     (if Status sig = Pass
      then outcome UV (plain
        ''no byte-level modification was constructed for this artifact; corpus fixtures demonstrate rejection'')
      else sig)"

section \<open>AEL-0: order and links\<close>

definition order_at :: "RecorderLog \<Rightarrow> nat \<Rightarrow> Outcome option" where
  "order_at log i =
     (let rec = log_Records log ! i; p = rec_Payload rec in
      then_check (parse_failure rec)
        (if pl_V p \<noteq> 1 then fail_rec rec ''v=%d, want 1'' [D (pl_V p)]
         else if pl_Recorder p \<noteq> log_ID log
           then fail_rec rec ''recorder=%q, want %q'' [Q (pl_Recorder p), Q (log_ID log)]
         else if pl_Run p \<noteq> log_Run log then fail_rec rec ''run=%q, want %q'' [Q (pl_Run p), Q (log_Run log)]
         else if i = 0 then (if pl_Seq p \<noteq> 0 then fail_rec rec ''first seq=%d, want 0'' [D (pl_Seq p)] else None)
         else
           (let prev = log_Records log ! (i - 1) in
            if pl_Seq p \<le> pl_Seq (rec_Payload prev)
            then fail_rec rec ''seq=%d does not advance from previous seq=%d'' [D (pl_Seq p), D (pl_Seq (rec_Payload prev))]
            else None)))"

definition no_records :: "RecorderLog \<Rightarrow> Outcome option" where
  "no_records log =
     (if log_Records log = [] then Some (outcome Fail (Errorf ''%s has no records'' [S (log_ID log)])) else None)"

definition checkSequenceOrder :: "Artifact \<Rightarrow> Outcome" where
  "checkSequenceOrder art =
     (if art_RecorderLogs art = []
      then outcome UV (plain ''no recorder logs are available for sequence-order verification'')
      else or_pass
        (first_some (\<lambda>log. then_check (no_records log) (first_some (order_at log) [0..<length (log_Records log)]))
           (art_RecorderLogs art))
        (outcome Pass (plain ''record sequence order strictly increases from seq 0'')))"

definition link_at :: "RecorderLog \<Rightarrow> nat \<Rightarrow> Outcome option" where
  "link_at log i =
     (let rec = log_Records log ! i; p = rec_Payload rec in
      then_check (parse_failure rec)
        (if i = 0 then (if pl_Prev p \<noteq> zeroPrev then fail_rec rec ''first prev is not zero hash'' [] else None)
         else
           (let prev = log_Records log ! (i - 1) in
            if pl_Prev p \<noteq> rec_Hash prev then fail_rec rec ''prev=%s, want %s'' [S (pl_Prev p), S (rec_Hash prev)]
            else None)))"

definition checkPredecessorLinks :: "Artifact \<Rightarrow> Outcome" where
  "checkPredecessorLinks art =
     (if art_RecorderLogs art = []
      then outcome UV (plain ''no recorder logs are available for predecessor-link verification'')
      else or_pass
        (first_some (\<lambda>log. then_check (no_records log) (first_some (link_at log) [0..<length (log_Records log)]))
           (art_RecorderLogs art))
        (outcome Pass (plain ''each record links to the preceding presented record'')))"

section \<open>AEL-1: liveness and completeness of one log\<close>

definition checkOpen :: "Artifact \<Rightarrow> Outcome" where
  "checkOpen art =
     or_pass
       (first_some (\<lambda>log.
          let op = log_Records log ! 0; p = rec_Payload op in
          if log_Records log = [] then Some (outcome Fail (Errorf ''%s has no open'' [S (log_ID log)]))
          else if pl_Type p \<noteq> ''open'' \<or> pl_Seq p \<noteq> 0 then fail_rec op ''first record is not open seq 0'' []
          else if pl_HMax p \<le> 0 then fail_rec op ''hmax=%d caps at AEL-0'' [D (pl_HMax p)]
          else None) (art_RecorderLogs art))
       (outcome Pass (plain ''each recorder opens with hmax>0''))"

definition checkContiguous :: "Artifact \<Rightarrow> Outcome" where
  "checkContiguous art =
     or_pass
       (first_some (\<lambda>log. first_some (\<lambda>i.
          let rec = log_Records log ! i in
          then_check (parse_failure rec)
            (if pl_Seq (rec_Payload rec) \<noteq> int i
             then fail_rec rec ''seq=%d, want %d'' [D (pl_Seq (rec_Payload rec)), D (int i)] else None))
          [0..<length (log_Records log)]) (art_RecorderLogs art))
       (outcome Pass (plain ''sequence numbers are contiguous''))"

text \<open>\<open>time.Duration(hmax+htol) * time.Second\<close>: both operations wrap at 64 bits.\<close>

definition heartbeat_limit :: "int \<Rightarrow> int \<Rightarrow> int" where
  "heartbeat_limit hmax htol = wrap64 (wrap64 (hmax + htol) * second)"

definition spacing_at :: "RecorderLog \<Rightarrow> int \<Rightarrow> nat \<Rightarrow> Outcome option" where
  "spacing_at log limit i =
     (let prev = log_Records log ! (i - 1); cur = log_Records log ! i in
      case Time (rec_Payload prev) of
        None \<Rightarrow> Some (outcome Fail (recordMsg prev (Some (StdErr ''parsing time''))))
      | Some prevTS \<Rightarrow>
          (case Time (rec_Payload cur) of
             None \<Rightarrow> Some (outcome Fail (recordMsg cur (Some (StdErr ''parsing time''))))
           | Some curTS \<Rightarrow>
               if curTS < prevTS
               then fail_rec cur ''non-monotonic timestamp %s before previous %s''
                      [S (pl_TS (rec_Payload cur)), S (pl_TS (rec_Payload prev))]
               else if time_sub curTS prevTS > limit
               then fail_rec cur ''gap %s exceeds %s'' [D (time_sub curTS prevTS), D limit]
               else None))"

definition checkHeartbeatLog :: "RecorderLog \<Rightarrow> Outcome" where
  "checkHeartbeatLog log =
     (if log_Records log = [] then outcome Fail (Errorf ''%s has no records'' [S (log_ID log)])
      else
        (let first = log_Records log ! 0; hmax = pl_HMax (rec_Payload first); htol = pl_HTol (rec_Payload first) in
         if hmax \<le> 0 then outcome Pass (Errorf ''%s hmax=%d; heartbeats unused'' [S (log_ID log), D hmax])
         else
           or_pass (first_some (spacing_at log (heartbeat_limit hmax htol)) [1..<length (log_Records log)])
             (if \<exists>rec \<in> set (tl (log_Records log)). pl_Type (rec_Payload rec) = ''heartbeat''
              then outcome Pass (plain ''signed heartbeat records are present and record spacing is within hmax+htol'')
              else outcome Fail (recordMsg first
                (Some (Errorf ''hmax=%d requires at least one signed heartbeat record'' [D hmax]))))))"

definition not_pass :: "Outcome \<Rightarrow> Outcome option" where
  "not_pass out = (if Status out \<noteq> Pass then Some out else None)"

definition checkHeartbeat :: "Artifact \<Rightarrow> Outcome" where
  "checkHeartbeat art =
     or_pass (first_some (\<lambda>log. not_pass (checkHeartbeatLog log)) (art_RecorderLogs art))
       (outcome Pass (plain ''signed heartbeats are present when enabled and record spacing is within hmax+htol''))"

definition close_failure :: "RecorderLog \<Rightarrow> Outcome option" where
  "close_failure log =
     (let n = length (log_Records log) in
      if n = 0 then Some (outcome Fail (Errorf ''%s has no records'' [S (log_ID log)]))
      else
        (let closeRec = log_Records log ! (n - 1); count = pl_Count (rec_Payload closeRec) in
         if pl_Type (rec_Payload closeRec) \<noteq> ''close''
         then Some (outcome Fail (Errorf ''%s has no close'' [S (log_ID log)]))
         else then_check
           (first_some (\<lambda>i.
              if pl_Type (rec_Payload (log_Records log ! i)) = ''close''
              then fail_rec (log_Records log ! i) ''close is not final record'' [] else None) [0..<n - 1])
           (if count \<noteq> int n then fail_rec closeRec ''close.count=%d, records present=%d'' [D count, D (int n)]
            else if count < 2 then fail_rec closeRec ''close.count=%d, want at least 2'' [D count]
            else
              (let head = rec_Hash (log_Records log ! nat (count - 2)) in
               if pl_Head (rec_Payload closeRec) \<noteq> head
               then fail_rec closeRec ''close.head=%s, want %s'' [S (pl_Head (rec_Payload closeRec)), S head]
               else None))))"

definition checkCloseCount :: "Artifact \<Rightarrow> Outcome" where
  "checkCloseCount art =
     or_pass (first_some close_failure (art_RecorderLogs art))
       (outcome Pass (plain ''close commits to count and previous head''))"

definition checkOpenEnd :: "Artifact \<Rightarrow> Outcome" where
  "checkOpenEnd art =
     or_pass
       (first_some (\<lambda>log.
          if log_Records log = [] then None
          else if pl_HMax (rec_Payload (log_Records log ! 0)) > 0
               \<and> pl_Type (rec_Payload (log_Records log ! (length (log_Records log) - 1))) \<noteq> ''close''
          then Some (outcome Fail (Errorf ''%s OPEN/ABNORMAL-END: no close record'' [S (log_ID log)]))
          else None) (art_RecorderLogs art))
       (outcome Pass (plain ''closed or not claiming AEL-1 liveness''))"

text \<open>\<open>recorderAEL1\<close>: one log against the whole AEL-1 contract.\<close>

definition ael1_at :: "RecorderLog \<Rightarrow> nat \<Rightarrow> Outcome option" where
  "ael1_at log i =
     (let rec = log_Records log ! i; p = rec_Payload rec in
      if rec_SignatureUV rec then Some (outcome UV (recordMsg rec (rec_SignatureErr rec)))
      else if \<not> rec_SignatureOK rec \<or> \<not> rec_CanonicalOK rec
        then Some (outcome Fail (recordMsg rec (firstErr [rec_SignatureErr rec, rec_CanonicalErr rec])))
      else if pl_Seq p \<noteq> int i then fail_rec rec ''seq=%d, want %d'' [D (pl_Seq p), D (int i)]
      else if i = 0 then
        (if pl_Type p \<noteq> ''open'' \<or> pl_Prev p \<noteq> zeroPrev \<or> pl_HMax p \<le> 0
         then fail_rec rec ''invalid AEL-1 open'' [] else None)
      else if pl_Prev p \<noteq> rec_Hash (log_Records log ! (i - 1))
        then fail_rec rec ''prev=%s, want %s'' [S (pl_Prev p), S (rec_Hash (log_Records log ! (i - 1)))]
      else None)"

definition recorderAEL1 :: "RecorderLog \<Rightarrow> Outcome" where
  "recorderAEL1 log =
     (let n = length (log_Records log) in
      if n = 0 then outcome Fail (plain ''no records'')
      else or_pass
        (then_check (first_some (ael1_at log) [0..<n])
        (then_check (not_pass (checkHeartbeatLog log))
          (let closeRec = log_Records log ! (n - 1); count = pl_Count (rec_Payload closeRec) in
           if pl_Type (rec_Payload closeRec) \<noteq> ''close'' \<or> count \<noteq> int n
           then fail_rec closeRec ''invalid close count'' []
           else if count < 2 \<or> pl_Head (rec_Payload closeRec) \<noteq> rec_Hash (log_Records log ! nat (count - 2))
           then fail_rec closeRec ''invalid close head'' []
           else None)))
        (outcome Pass (plain [])))"

section \<open>What passing means\<close>

lemma or_pass_Pass:
  "(\<And>out. early = Some out \<Longrightarrow> Status out \<noteq> Pass) \<Longrightarrow> Status (or_pass early after) = Pass \<longleftrightarrow> early = None \<and> Status after = Pass"
  by (cases early) (auto simp: or_pass_def)

lemma then_check_None [scan_simps]: "then_check a b = None \<longleftrightarrow> a = None \<and> b = None"
  by (simp add: then_check_def split: option.splits)

lemma then_check_simps [simp]: "then_check None b = b" "then_check (Some x) b = Some x"
  by (simp_all add: then_check_def)

lemma then_check_SomeD: "then_check a b = Some x \<Longrightarrow> a = Some x \<or> b = Some x"
  by (simp add: then_check_def split: option.splits)

lemma not_pass_None [scan_simps]: "not_pass out = None \<longleftrightarrow> Status out = Pass"
  by (simp add: not_pass_def)

lemma not_pass_SomeD: "not_pass out = Some x \<Longrightarrow> Status x \<noteq> Pass"
  by (auto simp: not_pass_def split: if_splits)

lemma parse_failure_None [scan_simps]: "parse_failure r = None \<longleftrightarrow> rec_ParseErr r = None \<and> rec_LineErr r = None"
  by (simp add: parse_failure_def)

text \<open>\<open>fails o\<close>: an early return of a check, if there is one, is not PASS.\<close>

definition fails :: "Outcome option \<Rightarrow> bool" where
  "fails early \<longleftrightarrow> (\<forall>out. early = Some out \<longrightarrow> Status out \<noteq> Pass)"

named_theorems fails_intros "early returns are not PASS"

lemma fails_simps [fails_intros]:
  "fails None" "Status x \<noteq> Pass \<Longrightarrow> fails (Some x)"
  by (simp_all add: fails_def)

lemma fails_then [fails_intros]: "fails a \<Longrightarrow> fails b \<Longrightarrow> fails (then_check a b)"
  by (auto simp: fails_def dest: then_check_SomeD)

lemma fails_if [fails_intros]: "(c \<Longrightarrow> fails a) \<Longrightarrow> (\<not> c \<Longrightarrow> fails b) \<Longrightarrow> fails (if c then a else b)"
  by simp

lemma fails_first_some [fails_intros]: "(\<And>x. fails (f x)) \<Longrightarrow> fails (first_some f xs)"
  by (auto simp: fails_def dest!: first_some_SomeD)

lemma fails_not_pass [fails_intros]: "fails (not_pass out)"
  by (auto simp: fails_def dest: not_pass_SomeD)

lemma fails_parse_failure [fails_intros]: "fails (parse_failure r)"
  by (simp add: fails_def parse_failure_def)

lemma fails_map [fails_intros]: "fails (map_option (outcome Fail) m)"
  by (auto simp: fails_def)

lemma or_pass_fails:
  "fails early \<Longrightarrow> Status (or_pass early after) = Pass \<longleftrightarrow> early = None \<and> Status after = Pass"
  unfolding fails_def by (rule or_pass_Pass) auto

text \<open>The conditions each check establishes, on one log.\<close>

definition parsed :: "Record \<Rightarrow> bool" where
  "parsed r \<longleftrightarrow> rec_ParseErr r = None \<and> rec_LineErr r = None"

definition ordered_at :: "RecorderLog \<Rightarrow> nat \<Rightarrow> bool" where
  "ordered_at log i \<longleftrightarrow>
     (let r = log_Records log ! i; p = rec_Payload r in
      parsed r \<and> pl_V p = 1 \<and> pl_Recorder p = log_ID log \<and> pl_Run p = log_Run log
      \<and> (if i = 0 then pl_Seq p = 0 else pl_Seq (rec_Payload (log_Records log ! (i - 1))) < pl_Seq p))"

definition linked_at :: "RecorderLog \<Rightarrow> nat \<Rightarrow> bool" where
  "linked_at log i \<longleftrightarrow> parsed (log_Records log ! i) \<and>
     pl_Prev (rec_Payload (log_Records log ! i)) = (if i = 0 then zeroPrev else rec_Hash (log_Records log ! (i - 1)))"

text \<open>\<open>every P log\<close>: the log has records and \<open>P\<close> holds at each position.\<close>

definition every :: "(RecorderLog \<Rightarrow> nat \<Rightarrow> bool) \<Rightarrow> RecorderLog \<Rightarrow> bool" where
  "every P log \<longleftrightarrow> log_Records log \<noteq> [] \<and> (\<forall>i < length (log_Records log). P log i)"

lemma order_at_None [scan_simps]: "order_at log i = None \<longleftrightarrow> ordered_at log i"
  by (auto simp: order_at_def ordered_at_def Let_def scan_simps parsed_def)

lemma link_at_None [scan_simps]: "link_at log i = None \<longleftrightarrow> linked_at log i"
  by (auto simp: link_at_def linked_at_def Let_def scan_simps parsed_def)

lemma scan_range [scan_simps]: "(\<forall>i \<in> {0..<n::nat}. P i) \<longleftrightarrow> (\<forall>i < n. P i)"
  by auto

lemma no_records_None [scan_simps]: "no_records log = None \<longleftrightarrow> log_Records log \<noteq> []"
  by (simp add: no_records_def)

lemma fails_no_records [fails_intros]: "fails (no_records log)"
  by (simp add: no_records_def fails_def)

lemma fails_order_at [fails_intros]: "fails (order_at log i)"
  unfolding order_at_def Let_def by (intro fails_intros) simp_all

lemma fails_link_at [fails_intros]: "fails (link_at log i)"
  unfolding link_at_def Let_def by (intro fails_intros) simp_all

lemma checkSequenceOrder_Pass:
  "Status (checkSequenceOrder art) = Pass \<longleftrightarrow>
     art_RecorderLogs art \<noteq> [] \<and> (\<forall>log \<in> set (art_RecorderLogs art). every ordered_at log)"
  by (simp add: checkSequenceOrder_def or_pass_fails fails_intros scan_simps every_def)

lemma checkPredecessorLinks_Pass:
  "Status (checkPredecessorLinks art) = Pass \<longleftrightarrow>
     art_RecorderLogs art \<noteq> [] \<and> (\<forall>log \<in> set (art_RecorderLogs art). every linked_at log)"
  by (simp add: checkPredecessorLinks_def or_pass_fails fails_intros scan_simps every_def)

end
