(* ===== verification/Checks_Facts.thy ===== *)
theory Checks_Facts
  imports Checks
begin

text \<open>
  What the single-recorder checks establish. The collection \<open>pass_simps\<close> turns a passing check into
  a statement about every log of the view. The theorems are about tampering: what a
  presented log cannot hide once checks d, e, g and i pass, and what check h bounds.
\<close>

named_theorems pass_simps "a check passes exactly when"

declare checkSequenceOrder_Pass [pass_simps] checkPredecessorLinks_Pass [pass_simps]

section \<open>Authenticity\<close>

definition authentic :: "Record \<Rightarrow> bool" where
  "authentic r \<longleftrightarrow> \<not> rec_SignatureUV r \<and> rec_SignatureOK r"

definition authentic_stmt :: "CounterpartyStatement \<Rightarrow> bool" where
  "authentic_stmt s \<longleftrightarrow> \<not> cs_SignatureUV s \<and> cs_SignatureOK s \<and> cs_CanonicalOK s \<and> cs_SchemaOK s"

lemma signature_failure_None [scan_simps]:
  "signature_failure r = None \<longleftrightarrow> rec_SignatureUV r \<or> rec_SignatureOK r"
  by (simp add: signature_failure_def)

lemma signature_failure_Fail: "signature_failure r = Some out \<Longrightarrow> Status out = Fail"
  by (auto simp: signature_failure_def split: if_splits)

lemma fails_signature_failure [fails_intros]: "fails (signature_failure r)"
  by (auto simp: fails_def dest: signature_failure_Fail)

lemma checkSignatures_Pass [pass_simps]:
  "Status (checkSignatures art) = Pass \<longleftrightarrow> AllRecords art \<noteq> [] \<and> (\<forall>r \<in> set (AllRecords art). authentic r)"
  by (auto simp: checkSignatures_def Let_def or_pass_fails fails_intros scan_simps authentic_def)

lemma checkSignatures_UV:
  "Status (checkSignatures art) = UV \<longleftrightarrow> AllRecords art \<noteq> []
     \<and> (\<forall>r \<in> set (AllRecords art). rec_SignatureUV r \<or> rec_SignatureOK r)
     \<and> (\<exists>r \<in> set (AllRecords art). rec_SignatureUV r)"
proof (cases "first_some signature_failure (AllRecords art)")
  case None
  then have "\<forall>r \<in> set (AllRecords art). rec_SignatureUV r \<or> rec_SignatureOK r" by (simp add: scan_simps)
  then show ?thesis using None by (auto simp: checkSignatures_def Let_def or_pass_def)
next
  case (Some out)
  then obtain r where r: "r \<in> set (AllRecords art)" "signature_failure r = Some out"
    using first_some_SomeD by metis
  then have "\<not> (rec_SignatureUV r \<or> rec_SignatureOK r)" "Status out = Fail"
    using signature_failure_None [of r] signature_failure_Fail by auto
  then show ?thesis using Some r(1) by (auto simp: checkSignatures_def Let_def or_pass_def)
qed

lemma checkCanonicalPayloads_Pass [pass_simps]:
  "Status (checkCanonicalPayloads art) = Pass \<longleftrightarrow> (\<forall>r \<in> set (AllRecords art). authentic r \<and> rec_CanonicalOK r)"
  by (auto simp: checkCanonicalPayloads_def Let_def or_pass_fails fails_intros scan_simps authentic_def)

lemma checkClosedSchemas_Pass [pass_simps]:
  "Status (checkClosedSchemas art) = Pass \<longleftrightarrow>
     (\<forall>r \<in> set (AllRecords art). authentic r \<and> rec_CanonicalOK r \<and> rec_SchemaOK r)
     \<and> (art_Anchors art = None \<or> validateAnchorSchemas (art_AnchorsRaw art) = None)
     \<and> (\<forall>s \<in> set (art_Counterparty art). authentic_stmt s)"
  by (auto simp: checkClosedSchemas_def Let_def or_pass_fails fails_intros scan_simps authentic_def authentic_stmt_def)

section \<open>Liveness\<close>

abbreviation payload_at :: "RecorderLog \<Rightarrow> nat \<Rightarrow> Payload" where
  "payload_at log i \<equiv> rec_Payload (log_Records log ! i)"

definition opened :: "RecorderLog \<Rightarrow> bool" where
  "opened log \<longleftrightarrow> log_Records log \<noteq> [] \<and> pl_Type (payload_at log 0) = ''open'' \<and> pl_Seq (payload_at log 0) = 0
     \<and> 0 < pl_HMax (payload_at log 0)"

definition numbered_at :: "RecorderLog \<Rightarrow> nat \<Rightarrow> bool" where
  "numbered_at log i \<longleftrightarrow> parsed (log_Records log ! i) \<and> pl_Seq (payload_at log i) = int i"

text \<open>The record at \<open>i\<close> has a timestamp not before its predecessor's, and within the limit of it.\<close>

definition spaced_at :: "RecorderLog \<Rightarrow> int \<Rightarrow> nat \<Rightarrow> bool" where
  "spaced_at log limit i \<longleftrightarrow>
     (case (Time (payload_at log (i - 1)), Time (payload_at log i)) of
        (Some t, Some u) \<Rightarrow> t \<le> u \<and> time_sub u t \<le> limit
      | _ \<Rightarrow> False)"

definition beating :: "RecorderLog \<Rightarrow> bool" where
  "beating log \<longleftrightarrow> log_Records log \<noteq> [] \<and>
     (pl_HMax (payload_at log 0) \<le> 0 \<or>
      (\<forall>i. 1 \<le> i \<and> i < length (log_Records log) \<longrightarrow>
         spaced_at log (heartbeat_limit (pl_HMax (payload_at log 0)) (pl_HTol (payload_at log 0))) i)
      \<and> (\<exists>r \<in> set (tl (log_Records log)). pl_Type (rec_Payload r) = ''heartbeat''))"

definition closed_log :: "RecorderLog \<Rightarrow> bool" where
  "closed_log log \<longleftrightarrow>
     (let n = length (log_Records log) in
      2 \<le> n \<and> pl_Type (payload_at log (n - 1)) = ''close'' \<and> pl_Count (payload_at log (n - 1)) = int n
      \<and> pl_Head (payload_at log (n - 1)) = rec_Hash (log_Records log ! (n - 2)))"

definition close_only_last :: "RecorderLog \<Rightarrow> bool" where
  "close_only_last log \<longleftrightarrow> (\<forall>i < length (log_Records log) - 1. pl_Type (payload_at log i) \<noteq> ''close'')"

lemma checkOpen_Pass [pass_simps]:
  "Status (checkOpen art) = Pass \<longleftrightarrow> (\<forall>log \<in> set (art_RecorderLogs art). opened log)"
  by (auto simp: checkOpen_def or_pass_fails fails_intros scan_simps Let_def opened_def)

lemma checkContiguous_Pass [pass_simps]:
  "Status (checkContiguous art) = Pass \<longleftrightarrow>
     (\<forall>log \<in> set (art_RecorderLogs art). \<forall>i < length (log_Records log). numbered_at log i)"
  by (auto simp: checkContiguous_def or_pass_fails fails_intros scan_simps Let_def numbered_at_def parsed_def)

lemma spacing_at_None [scan_simps]: "spacing_at log limit i = None \<longleftrightarrow> spaced_at log limit i"
  by (auto simp: spacing_at_def spaced_at_def Let_def split: option.splits)

lemma fails_spacing_at [fails_intros]: "fails (spacing_at log limit i)"
  by (simp add: fails_def spacing_at_def Let_def split: option.splits)

lemma checkHeartbeatLog_Pass [pass_simps]:
  "Status (checkHeartbeatLog log) = Pass \<longleftrightarrow> beating log"
proof -
  have "(\<forall>i \<in> {Suc 0..<n}. P i) \<longleftrightarrow> (\<forall>i. Suc 0 \<le> i \<and> i < n \<longrightarrow> P i)" for P and n :: nat
    by auto
  then show ?thesis
    by (auto simp: checkHeartbeatLog_def Let_def or_pass_fails fails_intros scan_simps beating_def)
qed

lemma checkHeartbeat_Pass [pass_simps]:
  "Status (checkHeartbeat art) = Pass \<longleftrightarrow> (\<forall>log \<in> set (art_RecorderLogs art). beating log)"
  by (simp add: checkHeartbeat_def or_pass_fails fails_intros scan_simps pass_simps)

lemma close_failure_None [scan_simps]:
  "close_failure log = None \<longleftrightarrow> closed_log log \<and> close_only_last log"
proof (cases "2 \<le> length (log_Records log)")
  case True
  then have "nat (int (length (log_Records log)) - 2) = length (log_Records log) - 2" by simp
  with True show ?thesis
    by (auto simp: close_failure_def Let_def scan_simps closed_log_def close_only_last_def)
next
  case False
  then show ?thesis
    by (auto simp: close_failure_def Let_def scan_simps closed_log_def then_check_def)
qed

lemma fails_close_failure [fails_intros]: "fails (close_failure log)"
  unfolding close_failure_def Let_def by (intro fails_intros) simp_all

lemma checkCloseCount_Pass [pass_simps]:
  "Status (checkCloseCount art) = Pass \<longleftrightarrow>
     (\<forall>log \<in> set (art_RecorderLogs art). closed_log log \<and> close_only_last log)"
  by (simp add: checkCloseCount_def or_pass_fails fails_intros scan_simps)

section \<open>The AEL-1 contract of one recorder\<close>

lemma ael1_at_None [scan_simps]:
  "ael1_at log i = None \<longleftrightarrow>
     authentic (log_Records log ! i) \<and> rec_CanonicalOK (log_Records log ! i) \<and> pl_Seq (payload_at log i) = int i
     \<and> (if i = 0 then pl_Type (payload_at log 0) = ''open'' \<and> pl_Prev (payload_at log 0) = zeroPrev \<and> 0 < pl_HMax (payload_at log 0)
        else pl_Prev (payload_at log i) = rec_Hash (log_Records log ! (i - 1)))"
  by (auto simp: ael1_at_def Let_def authentic_def)

lemma fails_ael1_at [fails_intros]: "fails (ael1_at log i)"
  unfolding ael1_at_def Let_def by (intro fails_intros) simp_all

lemma recorderAEL1_None:
  "Status (recorderAEL1 log) = Pass \<longleftrightarrow> log_Records log \<noteq> []
     \<and> (\<forall>i < length (log_Records log). ael1_at log i = None) \<and> beating log \<and> closed_log log"
proof (cases "2 \<le> length (log_Records log)")
  case True
  then have "nat (int (length (log_Records log)) - 2) = length (log_Records log) - 2" "log_Records log \<noteq> []"
    by auto
  with True show ?thesis
    by (auto simp: recorderAEL1_def Let_def or_pass_fails fails_intros scan_simps pass_simps closed_log_def)
next
  case False
  then show ?thesis
    by (auto simp: recorderAEL1_def Let_def or_pass_fails fails_intros scan_simps pass_simps closed_log_def)
qed

text \<open>C18: on records that parse, \<open>recorderAEL1\<close> passes one log exactly when it is signed,
  canonical, linked, contiguous from an open with a positive hmax, beating within the limit, and
  ended by a close that commits to the count and the head: the checks a, b, e, f, g, h and i of a view
  that holds this log alone, except that it does not look for an earlier close.\<close>
theorem recorderAEL1_contract:
  assumes "\<forall>r \<in> set (log_Records log). parsed r" "art_RecorderLogs art = [log]"
  shows "Status (recorderAEL1 log) = Pass \<and> close_only_last log \<longleftrightarrow>
    Status (checkSignatures art) = Pass \<and> Status (checkCanonicalPayloads art) = Pass
    \<and> Status (checkPredecessorLinks art) = Pass \<and> Status (checkOpen art) = Pass \<and> Status (checkContiguous art) = Pass
    \<and> Status (checkHeartbeat art) = Pass \<and> Status (checkCloseCount art) = Pass"
proof -
  let ?n = "length (log_Records log)"
  have all: "AllRecords art = log_Records log" using assms(2) by (simp add: AllRecords_def)
  have parsed: "\<And>i. i < ?n \<Longrightarrow> parsed (log_Records log ! i)" using assms(1) by simp
  have nth: "(\<forall>r \<in> set (log_Records log). P r) \<longleftrightarrow> (\<forall>i < ?n. P (log_Records log ! i))" for P
    by (simp add: all_set_conv_all_nth)
  have "(\<forall>i < ?n. ael1_at log i = None) \<and> log_Records log \<noteq> [] \<longleftrightarrow>
      (\<forall>i < ?n. authentic (log_Records log ! i)) \<and> (\<forall>i < ?n. rec_CanonicalOK (log_Records log ! i))
      \<and> every linked_at log \<and> opened log \<and> (\<forall>i < ?n. numbered_at log i)" (is "?l \<longleftrightarrow> ?r")
  proof
    assume ?l
    then have l: "\<And>i. i < ?n \<Longrightarrow> ael1_at log i = None" "0 < ?n" by auto
    show ?r
      using l(1) [OF l(2)] l parsed
      by (auto simp: ael1_at_None every_def linked_at_def opened_def numbered_at_def)
  next
    assume r: ?r
    then show ?l using parsed
      by (auto simp: ael1_at_None every_def linked_at_def opened_def numbered_at_def)
  qed
  then show ?thesis
    unfolding recorderAEL1_None pass_simps all nth using assms(2) by (auto simp: opened_def)
qed

end
