(* ===== verification/Checks_Multi.thy ===== *)
theory Checks_Multi
  imports Checks_Facts
begin

text \<open>
  The checks of \<open>checker/internal/ael/checks.go\<close> that need more than one recorder's log: the second
  recorder (k, l, m), the anchor log (n, o, p, q, u), the counterparty (r, s, t, v) and the
  replay of decisions (R). A Go set \<open>map[string]bool\<close> is the list of its keys.
\<close>

section \<open>The run of a view\<close>

definition artifactRun :: "Artifact \<Rightarrow> string" where
  "artifactRun art =
     (case man_Runs (art_Manifest art) of
        run # _ \<Rightarrow> run
      | [] \<Rightarrow> (case art_RecorderLogs art of log # _ \<Rightarrow> log_Run log | [] \<Rightarrow> []))"

definition logsForArtifactRun :: "Artifact \<Rightarrow> RecorderLog list" where
  "logsForArtifactRun art =
     (let run = artifactRun art in filter (\<lambda>log. run = [] \<or> log_Run log = run) (art_RecorderLogs art))"

section \<open>AEL-2: a second recorder\<close>

definition checkTwoRecorders :: "Artifact \<Rightarrow> Outcome" where
  "checkTwoRecorders art =
     (let logs = logsForArtifactRun art in
      if length logs < 2 then outcome Fail (plain ''fewer than two recorders on the run'')
      else or_pass
        (first_some (\<lambda>log.
           let out = recorderAEL1 log in
           if Status out \<noteq> Pass
           then Some (out\<lparr>Message := Errorf ''%s is not independently AEL-1: %s'' [S (log_ID log), E (Message out)]\<rparr>)
           else None) logs)
        (outcome Pass (plain ''all recorders independently satisfy AEL-1'')))"

text \<open>The loop of \<open>verifiedRecorderKey\<close>: the key so far, empty before the first record.\<close>

fun recorder_key :: "RecorderLog \<Rightarrow> string \<Rightarrow> Record list \<Rightarrow> Outcome + string" where
  "recorder_key log key [] = Inr key"
| "recorder_key log key (rec # recs) =
     (if rec_SignatureUV rec then Inl (outcome UV (recordMsg rec (rec_SignatureErr rec)))
      else if \<not> rec_SignatureOK rec
        then Inl (outcome Fail (recordMsg rec
          (firstErr [rec_SignatureErr rec, Some (Errorf ''record signature is not verified'' [])])))
      else
        (let recKey = to_lower (pl_Key (rec_Payload rec)) in
         if recKey = [] then Inl (outcome Fail (recordMsg rec (Some (Errorf ''record key fingerprint is empty'' []))))
         else if key = [] then recorder_key log recKey recs
         else if recKey \<noteq> key
           then Inl (outcome Fail (Errorf ''recorder %s records carry differing signing keys %s and %s''
             [S (log_ID log), S key, S recKey]))
         else recorder_key log key recs))"

definition verifiedRecorderKey :: "RecorderLog \<Rightarrow> string \<times> Outcome" where
  "verifiedRecorderKey log =
     (if log_Records log = []
      then ([], outcome Fail (Errorf ''%s has no records; recorder signing key is not established'' [S (log_ID log)]))
      else
        (case recorder_key log [] (log_Records log) of
           Inl out \<Rightarrow> ([], out)
         | Inr key \<Rightarrow>
             if log_Key log \<noteq> [] \<and> to_lower (log_Key log) \<noteq> key
             then ([], outcome Fail (Errorf ''recorder %s manifest declares key %s but records are signed by %s''
               [S (log_ID log), S (log_Key log), S key]))
             else (key, outcome Pass (plain []))))"

definition recorder_keys :: "RecorderLog list \<Rightarrow> (string \<times> string) list" where
  "recorder_keys logs = fold (\<lambda>log m. aput (log_ID log) (fst (verifiedRecorderKey log)) m) logs []"

text \<open>\<open>m[k]\<close> of a \<open>map[string]string\<close>: the empty string for a key that is not there.\<close>

definition map_get :: "(string \<times> string) list \<Rightarrow> string \<Rightarrow> string" where
  "map_get m k = (case alookup m k of Some v \<Rightarrow> v | None \<Rightarrow> [])"

definition checkKeysDiffer :: "Artifact \<Rightarrow> Outcome" where
  "checkKeysDiffer art =
     (let logs = logsForArtifactRun art; keys = recorder_keys logs in
      if length logs < 2 then outcome UV (plain ''need two recorders to compare key custody'')
      else or_pass
        (then_check
          (first_some (\<lambda>log. not_pass (snd (verifiedRecorderKey log))) logs)
          (first_some (\<lambda>i. first_some (\<lambda>j.
             let a = log_ID (logs ! i); b = log_ID (logs ! j) in
             if map_get keys a = map_get keys b
             then Some (outcome Fail (Errorf ''recorders %s and %s use the same verified signing key %s''
               [S a, S b, S (map_get keys a)]))
             else None) [i + 1..<length logs]) [0..<length logs]))
        (outcome Pass (plain ''verified recorder signing keys differ'')))"

definition coveredEvents :: "RecorderLog \<Rightarrow> string list \<Rightarrow> string list" where
  "coveredEvents log classes =
     concat (map (\<lambda>rec.
       case pl_Event (rec_Payload rec) of
         None \<Rightarrow> []
       | Some ev \<Rightarrow>
           if pl_Type (rec_Payload rec) \<noteq> ''activity'' then []
           else if ev_Class ev \<in> set classes then [ev_ID ev] else []) (log_Records log))"

definition covered_map :: "RecorderLog list \<Rightarrow> string list \<Rightarrow> (string \<times> string list) list" where
  "covered_map logs classes = fold (\<lambda>log m. aput (log_ID log) (coveredEvents log classes) m) logs []"

definition covers :: "(string \<times> string list) list \<Rightarrow> RecorderLog \<Rightarrow> string \<Rightarrow> bool" where
  "covers m log ev \<longleftrightarrow> (case alookup m (log_ID log) of Some ids \<Rightarrow> ev \<in> set ids | None \<Rightarrow> False)"

definition checkCrossAudit :: "Artifact \<Rightarrow> Outcome" where
  "checkCrossAudit art =
     (let undeclared = outcome UV (plain ''no covered event classes declared; omission-detection unverifiable'') in
      case man_Correspondence (art_Manifest art) of
        None \<Rightarrow> undeclared
      | Some co \<Rightarrow>
          if co_Classes co = [] then undeclared
          else if co_Match co \<noteq> ''id''
            then outcome UV (Errorf ''unsupported correspondence match %q'' [Q (co_Match co)])
          else
            (let logs = logsForArtifactRun art in
             if length logs < 2 then outcome UV (plain ''need two recorders for cross-audit'')
             else
               (let classes = co_Classes co; covered = covered_map logs classes;
                    events = remdups (concat (map (\<lambda>log. coveredEvents log classes) logs))
                in or_pass
                  (first_some (\<lambda>ev.
                     let absent = filter (\<lambda>log. \<not> covers covered log ev) logs;
                         present = filter (\<lambda>log. covers covered log ev) logs
                     in if absent \<noteq> []
                        then Some (outcome Fail (Errorf ''one-sided event %s present on %s absent from %s''
                          [S ev, S (join_with '','' (map log_ID present)), S (join_with '','' (map log_ID absent))]))
                        else None) events)
                  (outcome Pass (plain ''covered event ids match across recorders'')))))"

section \<open>AEL-3: the anchor log\<close>

text \<open>The guards the anchor checks share: declared, readable, present.\<close>

definition with_anchors :: "Artifact \<Rightarrow> (AnchorDecl \<Rightarrow> Anchors \<Rightarrow> Outcome) \<Rightarrow> Outcome" where
  "with_anchors art f =
     (case man_Anchor (art_Manifest art) of
        None \<Rightarrow> outcome UV (plain ''manifest anchor block is absent'')
      | Some decl \<Rightarrow>
          (case art_AnchorsErr art of
             Some err \<Rightarrow> outcome Fail err
           | None \<Rightarrow>
               (case art_Anchors art of
                  None \<Rightarrow> outcome UV (plain ''anchors.json is absent'')
                | Some anchors \<Rightarrow> f decl anchors)))"

definition checkTreeHead :: "crypto \<Rightarrow> Artifact \<Rightarrow> Outcome" where
  "checkTreeHead cr art =
     with_anchors art (\<lambda>decl anchors.
       case alookup (art_Keys art) (to_lower (ad_LogKey decl)) of
         None \<Rightarrow> outcome UV (Errorf ''missing published log key %s'' [S (ad_LogKey decl)])
       | Some pub \<Rightarrow>
           (let head = an_TreeHead anchors in
            case decodeStdBase64Field ''tree_head.signed'' (th_Signed head) of
              Inl err \<Rightarrow> outcome Fail err
            | Inr signed \<Rightarrow>
                (case Canonicalize signed of
                   Inl err \<Rightarrow> outcome Fail (Errorf ''tree_head.signed canonicalize: %v'' [E err])
                 | Inr canon \<Rightarrow>
                     if canon \<noteq> signed then outcome Fail (plain ''tree_head.signed is not canonical'')
                     else
                       (case parseSignedTreeHead signed of
                          Inl err \<Rightarrow> outcome Fail (Errorf ''tree_head.signed: %v'' [E err])
                        | Inr sh \<Rightarrow>
                            if sth_Log sh \<noteq> an_Log anchors \<or> sth_Root sh \<noteq> th_Root head \<or> sth_Size sh \<noteq> th_Size head
                            then outcome Fail (Errorf
                              ''tree_head.signed declares log=%q root=%q size=%d, want log=%q root=%q size=%d''
                              [Q (sth_Log sh), Q (sth_Root sh), D (sth_Size sh), Q (an_Log anchors), Q (th_Root head),
                               D (th_Size head)])
                            else
                              (case decodeStdBase64Field ''tree_head.sig'' (th_Sig head) of
                                 Inl err \<Rightarrow> outcome Fail err
                               | Inr sig \<Rightarrow>
                                   if length sig \<noteq> SignatureSize
                                   then outcome Fail (Errorf ''tree_head.sig length %d'' [D (int (length sig))])
                                   else if \<not> ed25519_verify cr pub signed sig
                                   then outcome Fail (plain ''tree_head.sig verification failed'')
                                   else outcome Pass
                                     (plain ''tree head signature verifies over stored signed bytes under log key''))))))"

fun decode_proof :: "string list \<Rightarrow> string list res" where
  "decode_proof [] = Inr []"
| "decode_proof (item # items) =
     and_then (decodeHex32 item) (\<lambda>node. and_then (decode_proof items) (\<lambda>nodes. Inr (node # nodes)))"

text \<open>One inclusion entry against the tree head; None when the recomputation does not return.\<close>

definition inclusion_entry :: "crypto \<Rightarrow> int \<Rightarrow> string \<Rightarrow> AnchorEntry \<Rightarrow> Outcome option option" where
  "inclusion_entry cr sz root entry =
     (let bad = (\<lambda>f err. Some (Some (outcome Fail (Errorf f [S (ae_Recorder entry), D (ae_Seq entry), E err])))) in
      case decodeHex32 (ae_Leaf entry) of
        Inl err \<Rightarrow> bad ''anchor %s seq %d leaf: %v'' err
      | Inr leaf \<Rightarrow>
          (case decode_proof (ae_Proof entry) of
             Inl err \<Rightarrow> bad ''anchor %s seq %d proof: %v'' err
           | Inr proof \<Rightarrow>
               Option.bind (merkleRootFromProof cr leaf (ae_Index entry) sz proof) (\<lambda>got.
                 case got of
                   Inl err \<Rightarrow> bad ''anchor %s seq %d: %v'' err
                 | Inr r \<Rightarrow>
                     if r \<noteq> root
                     then Some (Some (outcome Fail (Errorf ''anchor %s seq %d inclusion root mismatch''
                       [S (ae_Recorder entry), D (ae_Seq entry)])))
                     else Some None)))"

fun inclusion_entries :: "crypto \<Rightarrow> int \<Rightarrow> string \<Rightarrow> AnchorEntry list \<Rightarrow> Outcome option option" where
  "inclusion_entries cr sz root [] = Some None"
| "inclusion_entries cr sz root (entry # entries) =
     Option.bind (inclusion_entry cr sz root entry) (\<lambda>early.
       case early of Some out \<Rightarrow> Some (Some out) | None \<Rightarrow> inclusion_entries cr sz root entries)"

text \<open>A check that may not return: \<open>stuck\<close> stands for it, and is no outcome of the program.\<close>

definition stuck :: Outcome where
  "stuck = outcome ZeroStatus (StdErr ''does not return'')"

definition checkInclusion :: "crypto \<Rightarrow> Artifact \<Rightarrow> Outcome" where
  "checkInclusion cr art =
     with_anchors art (\<lambda>decl anchors.
       if an_Entries anchors = [] then outcome Fail (plain ''anchors.json has no inclusion entries'')
       else
         (case decodeHex32 (th_Root (an_TreeHead anchors)) of
            Inl err \<Rightarrow> outcome Fail (Errorf ''tree_head.root: %v'' [E err])
          | Inr root \<Rightarrow>
              (case inclusion_entries cr (th_Size (an_TreeHead anchors)) root (an_Entries anchors) of
                 None \<Rightarrow> stuck
               | Some early \<Rightarrow> or_pass early (outcome Pass (plain ''all inclusion proofs recompute to tree head root'')))))"

definition findRecord :: "Artifact \<Rightarrow> string \<Rightarrow> string \<Rightarrow> int \<Rightarrow> Record option" where
  "findRecord art recorder run seq =
     first_some (\<lambda>log.
       if log_ID log \<noteq> recorder \<or> log_Run log \<noteq> run then None
       else find (\<lambda>rec. pl_Seq (rec_Payload rec) = seq) (log_Records log)) (art_RecorderLogs art)"

definition checkAnchorLeaves :: "crypto \<Rightarrow> Artifact \<Rightarrow> Outcome" where
  "checkAnchorLeaves cr art =
     with_anchors art (\<lambda>decl anchors.
       or_pass
         (first_some (\<lambda>entry.
            case findRecord art (ae_Recorder entry) (ae_Run entry) (ae_Seq entry) of
              None \<Rightarrow> Some (outcome Fail (Errorf ''anchor mismatch: %s seq %d is missing''
                [S (ae_Recorder entry), D (ae_Seq entry)]))
            | Some rec \<Rightarrow>
                (let got = merkleLeafHex cr (rec_PayloadRaw rec) in
                 if got \<noteq> to_lower (ae_Leaf entry)
                 then Some (outcome Fail (Errorf ''anchor mismatch: %s seq %d leaf=%s anchored=%s''
                   [S (ae_Recorder entry), D (ae_Seq entry), S got, S (ae_Leaf entry)]))
                 else None)) (an_Entries anchors))
         (outcome Pass (plain ''anchored leaves match stored payload bytes'')))"

definition latest_anchored :: "AnchorEntry list \<Rightarrow> (string \<times> int) list" where
  "latest_anchored entries =
     fold (\<lambda>entry m.
       case alookup m (ae_Recorder entry) of
         None \<Rightarrow> aput (ae_Recorder entry) (ae_Seq entry) m
       | Some prev \<Rightarrow> if ae_Seq entry > prev then aput (ae_Recorder entry) (ae_Seq entry) m else m) entries []"

definition unanchored_windows :: "(string \<times> int) list \<Rightarrow> RecorderLog \<Rightarrow> string list" where
  "unanchored_windows latest log =
     (case alookup latest (log_ID log) of
        None \<Rightarrow> [log_ID log @ '':all'']
      | Some head \<Rightarrow>
          map (\<lambda>rec. log_ID log @ '':'' @ show_int (pl_Seq (rec_Payload rec)))
            (filter (\<lambda>rec. pl_Seq (rec_Payload rec) > head) (log_Records log)))"

definition checkUnanchoredWindow :: "Artifact \<Rightarrow> Outcome" where
  "checkUnanchoredWindow art =
     with_anchors art (\<lambda>decl anchors.
       let windows = concat (map (unanchored_windows (latest_anchored (an_Entries anchors))) (logsForArtifactRun art))
       in if windows \<noteq> [] then outcome Fail (Errorf ''UNANCHORED-WINDOW %s'' [S (join_with '','' windows)])
          else outcome Pass (plain ''no records beyond latest anchored seq''))"

text \<open>The comparison of an outside key with the recorders' verified keys, shared by u and v.\<close>

definition recorder_key_clash :: "Artifact \<Rightarrow> string \<Rightarrow> string \<Rightarrow> Outcome option" where
  "recorder_key_clash art key f =
     first_some (\<lambda>log.
       let (recorderKey, out) = verifiedRecorderKey log in
       if Status out \<noteq> Pass then Some out
       else if recorderKey = key then Some (outcome Fail (Errorf f [S key, S (log_ID log)]))
       else None) (logsForArtifactRun art)"

definition checkLogKeyIndependent :: "Artifact \<Rightarrow> Outcome" where
  "checkLogKeyIndependent art =
     (case man_Anchor (art_Manifest art) of
        None \<Rightarrow> outcome UV (plain ''manifest anchor block is absent'')
      | Some decl \<Rightarrow>
          (let logKey = to_lower (ad_LogKey decl) in
           if logKey = [] then outcome UV (plain ''manifest anchor.log_key is absent'')
           else or_pass (recorder_key_clash art logKey ''anchor log key %s is also recorder %s key'')
             (outcome Pass (plain ''anchor log key differs from verified recorder signing keys''))))"

section \<open>AEL-4: the counterparty\<close>

definition counterpartyStatementsForRun :: "Artifact \<Rightarrow> CounterpartyStatement list" where
  "counterpartyStatementsForRun art =
     (let run = artifactRun art in
      filter (\<lambda>stmt. cs_LineErr stmt \<noteq> None \<or> cs_ParseErr stmt \<noteq> None \<or> cp_Run (cs_Payload stmt) = run)
        (art_Counterparty art))"

definition err_text :: "msg option \<Rightarrow> msg" where
  "err_text err = (case err of Some e \<Rightarrow> e | None \<Rightarrow> plain [])"

definition checkCounterpartySignatures :: "Artifact \<Rightarrow> Outcome" where
  "checkCounterpartySignatures art =
     (case man_Counterparty (art_Manifest art) of
        None \<Rightarrow> outcome UV (plain ''manifest counterparty block is absent'')
      | Some decl \<Rightarrow>
          if art_CounterpartyMissing art then outcome UV (plain ''counterparty.jsonl is absent'')
          else if art_CounterpartyErr art \<noteq> None then outcome Fail (err_text (art_CounterpartyErr art))
          else if \<not> has_key (art_Keys art) (to_lower (cd_Key decl))
            then outcome UV (Errorf ''missing published counterparty key %s'' [S (cd_Key decl)])
          else if art_Counterparty art = [] then outcome Fail (plain ''no counterparty statements'')
          else or_pass
            (first_some (\<lambda>stmt.
               if cs_SignatureUV stmt then Some (outcome UV (err_text (cs_SignatureErr stmt)))
               else if \<not> cs_SignatureOK stmt
                 then Some (outcome Fail (counterpartyMsg stmt (firstErr [cs_SignatureErr stmt, cs_CanonicalErr stmt])))
               else if \<not> cs_CanonicalOK stmt then Some (outcome Fail (counterpartyMsg stmt (cs_CanonicalErr stmt)))
               else if \<not> cs_SchemaOK stmt then Some (outcome Fail (counterpartyMsg stmt (cs_SchemaErr stmt)))
               else None) (counterpartyStatementsForRun art))
            (outcome Pass (plain ''all counterparty statements verify'')))"

fun nonce_scan :: "string \<Rightarrow> string \<Rightarrow> string \<Rightarrow> RecorderLog list \<Rightarrow> Outcome + string" where
  "nonce_scan run nonce who [] = Inr nonce"
| "nonce_scan run nonce who (log # logs) =
     (if log_Run log \<noteq> run \<or> log_Records log = [] then nonce_scan run nonce who logs
      else
        (let p = rec_Payload (log_Records log ! 0) in
         if pl_Type p \<noteq> ''open'' \<or> pl_CPNonce p = []
         then Inl (outcome Fail (Errorf ''%s open record has no cp_nonce'' [S (log_ID log)]))
         else if nonce = [] then nonce_scan run (pl_CPNonce p) (log_ID log) logs
         else if pl_CPNonce p \<noteq> nonce
         then Inl (outcome Fail (Errorf ''run open records disagree on cp_nonce: %s=%q %s=%q''
           [S who, Q nonce, S (log_ID log), Q (pl_CPNonce p)]))
         else nonce_scan run nonce who logs))"

definition runNonce :: "Artifact \<Rightarrow> string \<Rightarrow> string \<times> Outcome" where
  "runNonce art run =
     (case nonce_scan run [] [] (logsForArtifactRun art) of
        Inl out \<Rightarrow> ([], out)
      | Inr nonce \<Rightarrow>
          if nonce = [] then ([], outcome Fail (plain ''run open record has no cp_nonce''))
          else (nonce, outcome Pass (plain [])))"

definition unverified_stmt :: "CounterpartyStatement \<Rightarrow> bool" where
  "unverified_stmt stmt \<longleftrightarrow>
     cs_LineErr stmt \<noteq> None \<or> cs_ParseErr stmt \<noteq> None \<or> cs_SignatureUV stmt \<or> \<not> cs_SignatureOK stmt"

definition wrong_run :: "CounterpartyStatement \<Rightarrow> string \<Rightarrow> string \<Rightarrow> Outcome" where
  "wrong_run stmt run nonce =
     outcome Fail (counterpartyMsg stmt (Some (Errorf ''wrong-run: run=%q nonce=%q want run=%q nonce=%q''
       [Q (cp_Run (cs_Payload stmt)), Q (cp_Nonce (cs_Payload stmt)), Q run, Q nonce])))"

definition checkCounterpartyBinding :: "Artifact \<Rightarrow> Outcome" where
  "checkCounterpartyBinding art =
     (case man_Counterparty (art_Manifest art) of
        None \<Rightarrow> outcome UV (plain ''manifest counterparty block is absent'')
      | Some decl \<Rightarrow>
          if art_CounterpartyMissing art then outcome UV (plain ''counterparty.jsonl is absent'')
          else
            (let run = artifactRun art; (nonce, nonceOut) = runNonce art run;
                 statements = counterpartyStatementsForRun art in
             if Status nonceOut \<noteq> Pass then nonceOut
             else if statements = [] \<and> art_Counterparty art \<noteq> []
               then wrong_run (art_Counterparty art ! 0) run nonce
             else or_pass
               (first_some (\<lambda>stmt.
                  if unverified_stmt stmt then Some (outcome UV (plain ''counterparty statements are not verified''))
                  else if cp_V (cs_Payload stmt) \<noteq> 1 \<or> cp_Type (cs_Payload stmt) \<noteq> ''received''
                    then Some (outcome Fail (counterpartyMsg stmt (Some (Errorf ''not a v1 received statement'' []))))
                  else if cp_Run (cs_Payload stmt) \<noteq> run \<or> cp_Nonce (cs_Payload stmt) \<noteq> nonce
                    then Some (wrong_run stmt run nonce)
                  else map_option (\<lambda>err. outcome Fail (counterpartyMsg stmt (Some err)))
                    (validateCounterpartyReceiptChoice (cs_PayloadRaw stmt))) statements)
               (outcome Pass (plain ''counterparty statements bind to run and nonce''))))"

definition recorded_flows :: "Artifact \<Rightarrow> string list \<Rightarrow> string list" where
  "recorded_flows art flows =
     concat (map (\<lambda>rec.
       case pl_Event (rec_Payload rec) of
         None \<Rightarrow> []
       | Some ev \<Rightarrow>
           if pl_Type (rec_Payload rec) = ''activity'' \<and> ev_Dir ev = ''out'' \<and> ev_Class ev \<in> set flows
           then [ev_ID ev] else []) (AllRecords art))"

definition confirmed_flows :: "CounterpartyStatement list \<Rightarrow> string list \<Rightarrow> string list" where
  "confirmed_flows stmts flows =
     concat (map (\<lambda>stmt.
       let p = cs_Payload stmt; ev = map_get (cp_Received p) ''event_id'' in
       if cp_Flow p \<notin> set flows \<or> cp_None p then [] else if ev \<noteq> [] then [ev] else []) stmts)"

definition checkCounterpartyAudit :: "Artifact \<Rightarrow> Outcome" where
  "checkCounterpartyAudit art =
     (case man_Counterparty (art_Manifest art) of
        None \<Rightarrow> outcome UV (plain ''manifest counterparty block is absent'')
      | Some decl \<Rightarrow>
          if art_CounterpartyMissing art then outcome UV (plain ''counterparty.jsonl is absent'')
          else if cd_Flows decl = [] then outcome UV (plain ''no confirmed flows declared'')
          else
            (let run = artifactRun art; (nonce, nonceOut) = runNonce art run;
                 stmts = counterpartyStatementsForRun art;
                 recorded = recorded_flows art (cd_Flows decl); confirmed = confirmed_flows stmts (cd_Flows decl) in
             if Status nonceOut \<noteq> Pass then outcome UV (Message nonceOut)
             else or_pass
               (then_check
                 (first_some (\<lambda>stmt.
                    if unverified_stmt stmt then Some (outcome UV (plain ''counterparty statements are not verified''))
                    else if cp_Run (cs_Payload stmt) \<noteq> run \<or> cp_Nonce (cs_Payload stmt) \<noteq> nonce
                      then Some (outcome UV (plain ''counterparty binding failed; audit not evaluated''))
                    else None) stmts)
               (then_check
                 (first_some (\<lambda>ev. if ev \<notin> set confirmed
                    then Some (outcome Fail (Errorf ''recorded-but-unconfirmed %s'' [S ev])) else None) recorded)
                 (first_some (\<lambda>ev. if ev \<notin> set recorded
                    then Some (outcome Fail (Errorf ''confirmed-but-unrecorded %s'' [S ev])) else None) confirmed)))
               (outcome Pass (plain ''confirmed flows match recorded outbound events''))))"

definition checkCounterpartyKeyIndependent :: "Artifact \<Rightarrow> Outcome" where
  "checkCounterpartyKeyIndependent art =
     (case man_Counterparty (art_Manifest art) of
        None \<Rightarrow> outcome UV (plain ''manifest counterparty block is absent'')
      | Some decl \<Rightarrow>
          (let counterpartyKey = to_lower (cd_Key decl) in
           if counterpartyKey = [] then outcome UV (plain ''manifest counterparty.key is absent'')
           else or_pass (recorder_key_clash art counterpartyKey ''counterparty key %s is also recorder %s key'')
             (outcome Pass (plain ''counterparty key differs from verified recorder signing keys''))))"

section \<open>R: replay of decisions\<close>

definition is_activity :: "Record \<Rightarrow> bool" where
  "is_activity rec \<longleftrightarrow> rec_ParseErr rec = None \<and> rec_LineErr rec = None \<and> pl_Type (rec_Payload rec) = ''activity''"

definition replay_failure :: "Artifact \<Rightarrow> Record \<Rightarrow> Outcome option" where
  "replay_failure art rec =
     (if \<not> is_activity rec then None
      else
        (case pl_Decision (rec_Payload rec) of
           None \<Rightarrow> None
         | Some dec \<Rightarrow>
             (case alookup (art_Policies art) (de_Policy dec) of
                None \<Rightarrow>
                  (case alookup (art_PolicyLoadErrs art) (de_Policy dec) of
                     Some err \<Rightarrow> Some (outcome Fail (Errorf ''policy %s failed to load: %v'' [S (de_Policy dec), E err]))
                   | None \<Rightarrow> Some (outcome Fail (Errorf ''policy %s not found'' [S (de_Policy dec)])))
              | Some pol \<Rightarrow>
                  if pd_Hash pol \<noteq> de_Policy dec
                  then Some (outcome Fail (Errorf ''policy hash mismatch: record=%s computed=%s''
                    [S (de_Policy dec), S (pd_Hash pol)]))
                  else
                    (case Eval pol (de_Inputs dec) of
                       Inl err \<Rightarrow> Some (outcome Fail (recordMsg rec (Some err)))
                     | Inr verdict \<Rightarrow>
                         if verdict \<noteq> de_Verdict dec
                         then fail_rec rec ''decision verdict=%s, recomputed=%s'' [S (de_Verdict dec), S verdict]
                         else None))))"

definition checkR :: "Artifact \<Rightarrow> string \<times> Outcome" where
  "checkR art =
     (let activities = filter is_activity (AllRecords art);
          decisionCount = length (filter (\<lambda>rec. pl_Decision (rec_Payload rec) \<noteq> None) activities) in
      case first_some (replay_failure art) (AllRecords art) of
        Some out \<Rightarrow> (''fail'', out)
      | None \<Rightarrow>
          if activities = [] \<or> decisionCount \<noteq> length activities
          then (''pending'', outcome UV (plain ''one or more activities lack replayable decisions''))
          else (''+R'', outcome Pass (plain ''all activity decisions replay'')))"

end
