(* ===== verification/Tamper.thy ===== *)
theory Tamper
  imports Checks_Facts
begin

text \<open>
  What a presented log cannot hide. \<open>loaded_record\<close> is what the loader guarantees of every record;
  the theorems then say that a kept record pins everything before it, that a closed log cannot lose,
  gain, repeat or reorder records, and what the heartbeat check bounds, with its 64-bit arithmetic.
\<close>

section \<open>Records as the loader leaves them\<close>

definition loaded_record :: "crypto \<Rightarrow> Record \<Rightarrow> bool" where
  "loaded_record cr r \<longleftrightarrow> (\<exists>ks line file n. r = Verify cr ks (ParseRecordLine cr line file n))"

lemma ParseRecordLine_payload:
  assumes "rec_LineErr (ParseRecordLine cr line file n) = None"
  shows "rec_Payload (ParseRecordLine cr line file n)
    = fst (unmarshal dec_Payload (rec_PayloadRaw (ParseRecordLine cr line file n)) zero_Payload)"
  using assms
  by (auto simp: ParseRecordLine_def Let_def new_Record_def split: sum.splits prod.splits if_splits)

lemma loaded_record_payload:
  "loaded_record cr r \<Longrightarrow> parsed r \<Longrightarrow> rec_Payload r = fst (unmarshal dec_Payload (rec_PayloadRaw r) zero_Payload)"
  by (auto simp: loaded_record_def parsed_def intro: ParseRecordLine_payload)

lemma loaded_record_hash:
  "loaded_record cr r \<Longrightarrow> parsed r \<Longrightarrow> rec_Hash r = sha256_hex cr (rec_PayloadRaw r)"
  by (auto simp: loaded_record_def parsed_def intro: ParseRecordLine_hash)

lemma loadRecorderLog_records:
  "loadRecorderLog cr fs rec = Inr l \<Longrightarrow> r \<in> set (log_Records l) \<Longrightarrow> \<exists>line file n. r = ParseRecordLine cr line file n"
  by (auto simp: loadRecorderLog_def split: sum.splits prod.splits option.splits) blast

lemma load_logs_loaded:
  "load_logs cr fs ks recs = Inr logs \<Longrightarrow> log \<in> set logs \<Longrightarrow> r \<in> set (log_Records log) \<Longrightarrow> loaded_record cr r"
proof (induction recs arbitrary: logs)
  case (Cons rec recs)
  then obtain l ls where l: "loadRecorderLog cr fs rec = Inr l" "load_logs cr fs ks recs = Inr ls"
    "logs = verify_log cr ks l # ls"
    by (auto simp: and_then_Inr_iff)
  show ?case
  proof (cases "log \<in> set ls")
    case False
    then have "log = verify_log cr ks l" using l Cons.prems by simp
    then obtain r0 where "r0 \<in> set (log_Records l)" "r = Verify cr ks r0"
      using Cons.prems(3) by (auto simp: verify_log_def)
    then show ?thesis using loadRecorderLog_records [OF l(1)] unfolding loaded_record_def by blast
  qed (use Cons l in auto)
qed simp

lemma fold_load_policy_logs [simp]:
  "art_RecorderLogs (fold (load_policy cr) es a) = art_RecorderLogs a"
proof (induction es arbitrary: a)
  case (Cons e es)
  have "art_RecorderLogs (load_policy cr e a) = art_RecorderLogs a"
    by (simp add: load_policy_def Let_def split: sum.split)
  then show ?case using Cons by simp
qed simp

lemma loadPolicies_logs: "loadPolicies cr fs a = Inr a' \<Longrightarrow> art_RecorderLogs a' = art_RecorderLogs a"
  by (auto simp: loadPolicies_def split: sum.splits if_splits)

lemma loadAnchors_logs [simp]: "art_RecorderLogs (loadAnchors fs a) = art_RecorderLogs a"
  by (simp add: loadAnchors_def Let_def split: option.split sum.split prod.split)

lemma loadCounterparty_logs [simp]: "art_RecorderLogs (loadCounterparty cr fs a) = art_RecorderLogs a"
  by (simp add: loadCounterparty_def Let_def split: option.split sum.split prod.split)

lemma LoadArtifact_loaded:
  assumes "LoadArtifact cr fs = Inr a" "log \<in> set (art_RecorderLogs a)" "r \<in> set (log_Records log)"
  shows "loaded_record cr r"
proof -
  obtain raw where raw: "readBoundedArtifactFile fs ''manifest.json'' maxManifestBytes = Inr raw"
    using assms(1) by (cases "readBoundedArtifactFile fs ''manifest.json'' maxManifestBytes")
      (auto simp: LoadArtifact_def and_then_Inr_iff)
  obtain ks m logs a' where "load_logs cr fs ks (man_Recorders m) = Inr logs"
    "loadPolicies cr fs ((new_Artifact ks raw m)\<lparr>art_RecorderLogs := logs\<rparr>) = Inr a'"
    "a = loadCounterparty cr fs (loadAnchors fs a')"
    using assms(1) raw by (auto simp: LoadArtifact_def and_then_Inr_iff)
  then show ?thesis using assms(2,3) loadPolicies_logs load_logs_loaded by fastforce
qed

section \<open>The head pins the history\<close>

definition bytes :: "RecorderLog \<Rightarrow> string list" where
  "bytes log = map rec_PayloadRaw (log_Records log)"

text \<open>A log whose records come from the loader and that passes checks d and e.\<close>

definition chained :: "crypto \<Rightarrow> RecorderLog \<Rightarrow> bool" where
  "chained cr log \<longleftrightarrow> (\<forall>r \<in> set (log_Records log). loaded_record cr r) \<and> every ordered_at log \<and> every linked_at log"

lemma chained_nth:
  assumes "chained cr log" "i < length (log_Records log)"
  shows "loaded_record cr (log_Records log ! i)" "ordered_at log i" "linked_at log i" "parsed (log_Records log ! i)"
  using assms by (auto simp: chained_def every_def linked_at_def)

lemma chained_seq_ge: "chained cr log \<Longrightarrow> i < length (log_Records log) \<Longrightarrow> int i \<le> pl_Seq (payload_at log i)"
proof (induction i)
  case 0
  then show ?case using chained_nth(2) [of cr log 0] by (simp add: ordered_at_def Let_def)
next
  case (Suc i)
  then show ?case using chained_nth(2) [of cr log "Suc i"] by (simp add: ordered_at_def Let_def)
qed

lemma chained_same_payload:
  assumes "chained cr log" "chained cr log'" "i < length (log_Records log)" "j < length (log_Records log')"
    and "bytes log ! i = bytes log' ! j"
  shows "payload_at log i = payload_at log' j"
  using chained_nth(1,4) [OF assms(1,3)] chained_nth(1,4) [OF assms(2,4)] assms(3-5)
  by (simp add: bytes_def loaded_record_payload)

lemma sha256_hex_inj:
  "inj_on (sha256 cr) A \<Longrightarrow> x \<in> A \<Longrightarrow> y \<in> A \<Longrightarrow> sha256_hex cr x = sha256_hex cr y \<Longrightarrow> x = y"
  by (auto simp: sha256_hex_def hex_encode_inj dest: inj_onD)

lemma chained_prefix:
  assumes c: "chained cr log" "chained cr log'"
    and inj: "inj_on (sha256 cr) (set (bytes log) \<union> set (bytes log'))"
  shows "i < length (log_Records log) \<Longrightarrow> j < length (log_Records log') \<Longrightarrow> bytes log ! i = bytes log' ! j
    \<Longrightarrow> i = j \<and> (\<forall>k \<le> i. bytes log ! k = bytes log' ! k)"
proof (induction i arbitrary: j)
  case 0
  have "pl_Seq (payload_at log' j) = 0"
    using chained_same_payload [OF c 0] chained_nth(2) [OF c(1) 0(1)] by (simp add: ordered_at_def Let_def)
  then have "j = 0" using chained_seq_ge [OF c(2) 0(2)] by simp
  then show ?case using 0 by simp
next
  case (Suc i)
  have same: "payload_at log (Suc i) = payload_at log' j" using chained_same_payload [OF c Suc.prems] .
  have "j \<noteq> 0"
  proof
    assume "j = 0"
    then have "pl_Seq (payload_at log' j) = 0"
      using chained_nth(2) [OF c(2) Suc.prems(2)] by (simp add: ordered_at_def Let_def)
    then show False using same chained_seq_ge [OF c(1) Suc.prems(1)] by simp
  qed
  then obtain j' where j: "j = Suc j'" by (cases j) auto
  have i': "i < length (log_Records log)" "j' < length (log_Records log')" using Suc.prems j by simp_all
  have "rec_Hash (log_Records log ! i) = rec_Hash (log_Records log' ! j')"
    using same chained_nth(3) [OF c(1) Suc.prems(1)] chained_nth(3) [OF c(2) Suc.prems(2)] j
    by (simp add: linked_at_def)
  then have "sha256_hex cr (bytes log ! i) = sha256_hex cr (bytes log' ! j')"
    using i' chained_nth [OF c(1) i'(1)] chained_nth [OF c(2) i'(2)]
    by (simp add: bytes_def loaded_record_hash)
  moreover have "bytes log ! i \<in> set (bytes log)" "bytes log' ! j' \<in> set (bytes log')"
    using i' by (simp_all add: bytes_def)
  ultimately have "bytes log ! i = bytes log' ! j'" using inj sha256_hex_inj by blast
  from Suc.IH [OF i' this] show ?case using j Suc.prems(3) by (auto simp: le_Suc_eq)
qed

text \<open>C1: a kept record pins everything before it. Take two loaded artifacts that both pass the
  checks d and e, and one record of each with the same payload bytes. Then the records stand at the same
  position and all records before them have the same payload bytes, unless two of these
  payloads collide under SHA-256. So whoever keeps one head detects every edit, deletion or insertion
  before it.\<close>
theorem head_pins_history:
  assumes "LoadArtifact cr fs = Inr a" "LoadArtifact cr fs' = Inr a'"
    and "Status (checkSequenceOrder a) = Pass" "Status (checkPredecessorLinks a) = Pass"
    and "Status (checkSequenceOrder a') = Pass" "Status (checkPredecessorLinks a') = Pass"
    and "log \<in> set (art_RecorderLogs a)" "log' \<in> set (art_RecorderLogs a')"
    and "inj_on (sha256 cr) (set (bytes log) \<union> set (bytes log'))"
    and "i < length (bytes log)" "j < length (bytes log')" "bytes log ! i = bytes log' ! j"
  shows "i = j \<and> take (Suc i) (bytes log) = take (Suc i) (bytes log')"
proof -
  have c: "chained cr log" "chained cr log'"
    using assms(3-8) LoadArtifact_loaded [OF assms(1)] LoadArtifact_loaded [OF assms(2)]
    by (auto simp: chained_def pass_simps)
  have l: "i < length (log_Records log)" "j < length (log_Records log')" using assms(10,11) by (simp_all add: bytes_def)
  from chained_prefix [OF c assms(9) l assms(12)]
  have p: "i = j" "\<forall>k \<le> i. bytes log ! k = bytes log' ! k" by auto
  have "take (Suc i) (bytes log) = take (Suc i) (bytes log')"
    by (rule nth_equalityI) (use assms(10,11) p in simp_all)
  then show ?thesis using p(1) by simp
qed

section \<open>A closed log is whole\<close>

definition closed_whole :: "crypto \<Rightarrow> RecorderLog \<Rightarrow> bool" where
  "closed_whole cr log \<longleftrightarrow> chained cr log \<and> (\<forall>i < length (log_Records log). numbered_at log i) \<and> closed_log log \<and> close_only_last log"

abbreviation close_payload :: "RecorderLog \<Rightarrow> Payload" where
  "close_payload log \<equiv> payload_at log (length (log_Records log) - 1)"

text \<open>Each payload of such a log says its own position, so what is taken from it is a beginning of it.\<close>

lemma numbered_subset_prefix:
  assumes w: "closed_whole cr log" "closed_whole cr log'" and sub: "set (bytes log') \<subseteq> set (bytes log)" and i: "i < length (bytes log')"
  shows "i < length (bytes log) \<and> bytes log' ! i = bytes log ! i"
proof -
  have "bytes log' ! i \<in> set (bytes log)" using i sub nth_mem by blast
  then obtain j where j: "j < length (bytes log)" "bytes log ! j = bytes log' ! i" by (metis in_set_conv_nth)
  have l: "j < length (log_Records log)" "i < length (log_Records log')" using i j(1) by (simp_all add: bytes_def)
  have "payload_at log j = payload_at log' i"
    by (rule chained_same_payload [OF _ _ l j(2)]) (use w in \<open>auto simp: closed_whole_def\<close>)
  then have "int j = int i" using w l unfolding closed_whole_def numbered_at_def by metis
  then show ?thesis using j by simp
qed

lemma closed_subset:
  assumes w: "closed_whole cr log" "closed_whole cr log'" and sub: "set (bytes log') \<subseteq> set (bytes log)"
  shows "bytes log' = bytes log"
proof -
  let ?n = "length (bytes log)" and ?m = "length (bytes log')"
  have len: "?n = length (log_Records log)" "?m = length (log_Records log')" by (simp_all add: bytes_def)
  have m: "2 \<le> ?m" "pl_Type (payload_at log' (?m - 1)) = ''close''"
    using w(2) by (simp_all add: closed_whole_def closed_log_def Let_def len)
  note at = numbered_subset_prefix [OF w sub, of "?m - 1"]
  have l: "?m - 1 < ?n" "bytes log' ! (?m - 1) = bytes log ! (?m - 1)" using at m(1) by auto
  have "payload_at log' (?m - 1) = payload_at log (?m - 1)"
    by (rule chained_same_payload [OF _ _ _ _ l(2)]) (use w l(1) m(1) len in \<open>auto simp: closed_whole_def\<close>)
  then have "\<not> ?m - 1 < ?n - 1" using m(2) w(1) len by (auto simp: closed_whole_def close_only_last_def)
  then have "?m = ?n" using m(1) l(1) by linarith
  then show ?thesis by (rule nth_equalityI) (use numbered_subset_prefix [OF w sub] in blast)
qed

lemma closed_same_commitment:
  assumes w: "closed_whole cr log" "closed_whole cr log'"
    and inj: "inj_on (sha256 cr) (set (bytes log) \<union> set (bytes log'))"
    and same: "pl_Count (close_payload log') = pl_Count (close_payload log)" "pl_Head (close_payload log') = pl_Head (close_payload log)"
  shows "butlast (bytes log') = butlast (bytes log)"
proof -
  let ?n = "length (log_Records log)"
  have c: "chained cr log" "chained cr log'" "closed_log log" "closed_log log'" using w by (simp_all add: closed_whole_def)
  then have n: "2 \<le> ?n" "length (log_Records log') = ?n" "rec_Hash (log_Records log' ! (?n - 2)) = rec_Hash (log_Records log ! (?n - 2))"
    using same by (simp_all add: closed_log_def Let_def)
  have i: "?n - 2 < ?n" "?n - 2 < length (log_Records log')" using n by simp_all
  have "sha256_hex cr (bytes log' ! (?n - 2)) = sha256_hex cr (bytes log ! (?n - 2))"
    using n(3) chained_nth [OF c(1) i(1)] chained_nth [OF c(2) i(2)] i by (simp add: bytes_def loaded_record_hash)
  moreover have "bytes log' ! (?n - 2) \<in> set (bytes log')" "bytes log ! (?n - 2) \<in> set (bytes log)"
    using i by (simp_all add: bytes_def)
  ultimately have "bytes log ! (?n - 2) = bytes log' ! (?n - 2)" using inj sha256_hex_inj [of cr] by (metis UnCI)
  then have "\<forall>k \<le> ?n - 2. bytes log ! k = bytes log' ! k" using chained_prefix [OF c(1,2) inj i] by blast
  then show ?thesis using n by (intro nth_equalityI) (auto simp: nth_butlast bytes_def)
qed

text \<open>C17: a closed log cannot lose, gain, repeat or reorder records. Take two loaded artifacts, or one, that
  pass the checks d, e, g and i, and a log of each. If every payload of the second log is a payload of the first one,
  the two logs have the same payloads in the same order: an omission, a repetition or an exchange, at the end of a log
  as in its middle, makes a check fail. And if their close records commit to the same count and the same head, they
  have the same payloads in the same order up to the close records, unless two of these payloads collide under
  SHA-256: count and head pin all that is before the close.\<close>
theorem omission_detected:
  assumes "LoadArtifact cr fs = Inr a" "LoadArtifact cr fs' = Inr a'"
    and "Status (checkSequenceOrder a) = Pass" "Status (checkPredecessorLinks a) = Pass"
    and "Status (checkContiguous a) = Pass" "Status (checkCloseCount a) = Pass" "log \<in> set (art_RecorderLogs a)"
    and "Status (checkSequenceOrder a') = Pass" "Status (checkPredecessorLinks a') = Pass"
    and "Status (checkContiguous a') = Pass" "Status (checkCloseCount a') = Pass" "log' \<in> set (art_RecorderLogs a')"
  shows "(set (bytes log') \<subseteq> set (bytes log) \<longrightarrow> bytes log' = bytes log)
    \<and> (pl_Count (close_payload log') = pl_Count (close_payload log) \<and> pl_Head (close_payload log') = pl_Head (close_payload log)
       \<and> inj_on (sha256 cr) (set (bytes log) \<union> set (bytes log')) \<longrightarrow> butlast (bytes log') = butlast (bytes log))"
proof -
  have "closed_whole cr log" "closed_whole cr log'"
    using assms(3-12) LoadArtifact_loaded [OF assms(1)] LoadArtifact_loaded [OF assms(2)]
    by (auto simp: closed_whole_def chained_def pass_simps)
  then show ?thesis using closed_subset closed_same_commitment by blast
qed

section \<open>Heartbeats\<close>

lemma wrap64_mod: "\<exists>k. wrap64 i = i + 2 ^ 64 * k"
proof -
  have "wrap64 i = (i + 2 ^ 63) - (i + 2 ^ 63) div 2 ^ 64 * 2 ^ 64 - 2 ^ 63"
    unfolding wrap64_def by (simp add: minus_div_mult_eq_mod)
  then show ?thesis by (intro exI [of _ "- ((i + 2 ^ 63) div 2 ^ 64)"]) simp
qed

lemma heartbeat_limit_bound:
  assumes "0 \<le> s" "wrap64 (h + t) = s"
  shows "heartbeat_limit h t \<le> s * second \<and> heartbeat_limit h t < max_duration"
proof -
  have l: "heartbeat_limit h t = wrap64 (s * second)" using assms(2) by (simp add: heartbeat_limit_def)
  have in64: "in64 (wrap64 (s * second))" by (rule wrap64_in64)
  obtain k where k: "wrap64 (s * second) = s * second + 2 ^ 64 * k" using wrap64_mod by blast
  have odd: "wrap64 (s * second) \<noteq> max_duration"
  proof
    assume "wrap64 (s * second) = max_duration"
    then have "s * 1000000000 + 18446744073709551616 * k = 9223372036854775807"
      using k by (simp add: max_duration_def second_def)
    moreover have "even (s * 1000000000 + 18446744073709551616 * k)" by simp
    ultimately show False by simp
  qed
  have "wrap64 (s * second) \<le> s * second"
  proof (cases "in64 (s * second)")
    case False
    then have "2 ^ 63 \<le> s * second" using assms(1) by (auto simp: in64_def second_def)
    then show ?thesis using in64 by (simp add: in64_def)
  qed (simp add: wrap64_id)
  moreover have "wrap64 (s * second) < max_duration"
    using in64 odd by (simp add: in64_def max_duration_def)
  ultimately show ?thesis using l by simp
qed

text \<open>C34: what check h bounds. Take a log with a positive hmax that passes check h, and let htol not be
  negative and hmax + htol fit in 64 bits. Then every timestamp from the first on parses, none is before its
  predecessor, no two consecutive records are more than hmax + htol seconds apart, as integers, and the log has a
  heartbeat record: the 64-bit product of the limit may overflow, and \<open>Sub\<close> saturates, but neither lets a
  larger gap pass. The two conditions are the schema's and the canonical form's (check w asks for an htol of at least
  0 in an open record, check b for integers within 2^53); check h alone does not test them, and without them the
  product can wrap to a limit above hmax + htol.\<close>
theorem heartbeat_bounds_gaps:
  assumes "Status (checkHeartbeat a) = Pass" "log \<in> set (art_RecorderLogs a)"
    and "0 < pl_HMax (payload_at log 0)" "0 \<le> pl_HTol (payload_at log 0)"
    and "in64 (pl_HMax (payload_at log 0) + pl_HTol (payload_at log 0))"
    and "1 \<le> i" "i < length (log_Records log)"
  shows "\<exists>t u. Time (payload_at log (i - 1)) = Some t \<and> Time (payload_at log i) = Some u \<and> t \<le> u
    \<and> u - t \<le> (pl_HMax (payload_at log 0) + pl_HTol (payload_at log 0)) * 1000000000
    \<and> (\<exists>r \<in> set (log_Records log). pl_Type (rec_Payload r) = ''heartbeat'')"
proof -
  let ?s = "pl_HMax (payload_at log 0) + pl_HTol (payload_at log 0)"
  let ?l = "heartbeat_limit (pl_HMax (payload_at log 0)) (pl_HTol (payload_at log 0))"
  have b: "beating log" using assms(1,2) by (simp add: pass_simps)
  then have "spaced_at log ?l i" "\<exists>r \<in> set (log_Records log). pl_Type (rec_Payload r) = ''heartbeat''"
    using assms(3,6,7) by (auto simp: beating_def dest: list.set_sel(2))
  then obtain t u where tu: "Time (payload_at log (i - 1)) = Some t" "Time (payload_at log i) = Some u" "t \<le> u"
    "time_sub u t \<le> ?l"
    by (auto simp: spaced_at_def split: option.splits)
  have l: "?l \<le> ?s * second" "?l < max_duration"
    using heartbeat_limit_bound [of ?s "pl_HMax (payload_at log 0)" "pl_HTol (payload_at log 0)"] assms(3-5) wrap64_id
    by auto
  have "- (2 ^ 63) \<le> ?l" using wrap64_in64 by (simp add: heartbeat_limit_def in64_def)
  then have "u - t \<le> ?l" using time_sub_le_iff [OF l(2)] tu(4) by simp
  then show ?thesis using tu l(1) \<open>\<exists>r \<in> set (log_Records log). pl_Type (rec_Payload r) = ''heartbeat''\<close>
    by (auto simp: second_def)
qed

text \<open>The overflow shows on the other side. A log whose open declares an hmax of 9223372037
  seconds, about 292 years, cannot pass check h when it has a second record, whatever its timestamps:
  the limit wraps to a negative duration.\<close>
lemma heartbeat_limit_overflow:
  assumes "pl_HMax (payload_at log 0) = 9223372037" "pl_HTol (payload_at log 0) = 0"
    and "2 \<le> length (log_Records log)"
  shows "Status (checkHeartbeatLog log) \<noteq> Pass"
proof
  assume "Status (checkHeartbeatLog log) = Pass"
  then have "spaced_at log (heartbeat_limit 9223372037 0) 1"
    using assms by (simp add: pass_simps beating_def)
  moreover have "heartbeat_limit 9223372037 0 < 0"
    by (simp add: heartbeat_limit_def wrap64_def second_def)
  moreover have "0 \<le> time_sub u t" if "t \<le> u" for t u
    using that by (simp add: time_sub_def max_duration_def)
  ultimately show False by (fastforce simp: spaced_at_def split: option.splits)
qed

end
