(* ===== verification/Grade.thy ===== *)
theory Grade
  imports Checks_Multi Tamper
begin

text \<open>
  The evaluation of \<open>checker/internal/ael/checks.go\<close>: which runs an artifact has, the 24 checks of one
  run, the grade they earn and the annotations that stand beside it.
\<close>

section \<open>Annotations\<close>

definition anchorAnnotation :: "Artifact \<Rightarrow> string" where
  "anchorAnnotation art =
     (case man_Anchor (art_Manifest art) of
        None \<Rightarrow> ''none''
      | Some decl \<Rightarrow> if ad_Log decl = [] then ''declared'' else ad_Log decl)"

definition retentionAnnotation :: "Retention \<Rightarrow> string" where
  "retentionAnnotation r =
     (if rt_PeriodDays r = 0 \<and> rt_Custody r = [] then ''not declared''
      else
        (let period = (if rt_PeriodDays r \<noteq> 0 then msg_text (Errorf ''%dd'' [D (rt_PeriodDays r)]) else ''period-undeclared'');
             custody = (if rt_Custody r \<noteq> [] then rt_Custody r else ''custody-undeclared'')
         in msg_text (Errorf ''operator-declared %s/%s'' [S period, S custody])))"

section \<open>The grade\<close>

definition allPass :: "checks \<Rightarrow> string list \<Rightarrow> bool" where
  "allPass cs ids \<longleftrightarrow> (\<forall>cid \<in> set ids. Status (check cs cid) = Pass)"

definition firstCap :: "string \<Rightarrow> checks \<Rightarrow> string list \<Rightarrow> msg" where
  "firstCap prefix cs ids =
     (case first_some (\<lambda>cid.
        let out = check cs cid in
        if Status out \<noteq> Pass
        then Some (Errorf ''%s: check %s is %s (%s)'' [S prefix, S cid, S (status_text (Status out)), E (Message out)])
        else None) ids of
        Some m \<Rightarrow> m | None \<Rightarrow> plain prefix)"

definition add_note :: "msg \<Rightarrow> Result \<Rightarrow> Result" where
  "add_note m res = res\<lparr>res_Notes := res_Notes res @ [m]\<rparr>"

text \<open>One rung of the ladder: the checks pass and the next rung is tried, or the cap is noted.\<close>

definition rung :: "string \<Rightarrow> string list \<Rightarrow> (Result \<Rightarrow> Result) \<Rightarrow> Result \<Rightarrow> Result" where
  "rung prefix ids further res =
     (if allPass (res_Checks res) ids then further res else add_note (firstCap prefix (res_Checks res) ids) res)"

definition computeGrade :: "Result \<Rightarrow> Result" where
  "computeGrade res =
     (if Status (check (res_Checks res) ''a'') = UV
      then add_note (plain ''AEL-0 capped: signature verification is UV'') (res\<lparr>res_Ungraded := True\<rparr>)
      else if \<not> allPass (res_Checks res) [''a'', ''b'', ''d'', ''e'', ''w'']
      then add_note (plain ''AEL-0 capped: authentic ordered canonical closed-schema record chain not established'')
             (res\<lparr>res_Ungraded := True\<rparr>)
      else if res_Open res then add_note (plain ''AEL-1 capped: OPEN/ABNORMAL-END'') (res\<lparr>res_Grade := 0\<rparr>)
      else
        rung ''AEL-1 capped'' [''f'', ''g'', ''h'', ''i''] (\<lambda>res.
        rung ''AEL-2 capped'' [''k'', ''l'', ''m''] (\<lambda>res.
        rung ''AEL-3 capped'' [''n'', ''o'', ''u''] (
        rung ''AEL-3 capped'' [''p'', ''q''] (\<lambda>res.
        rung ''AEL-4 capped'' [''r'', ''s'', ''t'', ''v''] (\<lambda>res. res\<lparr>res_Grade := 4\<rparr>)
          (res\<lparr>res_Grade := 3\<rparr>)))
          (res\<lparr>res_Grade := 2\<rparr>))
          (res\<lparr>res_Grade := 1\<rparr>))
          (res\<lparr>res_Grade := 0\<rparr>))"

section \<open>One run\<close>

definition run_checks :: "crypto \<Rightarrow> Artifact \<Rightarrow> checks" where
  "run_checks cr art =
     [(''a'', checkSignatures art), (''b'', checkCanonicalPayloads art),
      (''c'', checkByteflipDuty (checkSignatures art)), (''d'', checkSequenceOrder art),
      (''e'', checkPredecessorLinks art), (''w'', checkClosedSchemas art), (''f'', checkOpen art),
      (''g'', checkContiguous art), (''h'', checkHeartbeat art), (''i'', checkCloseCount art),
      (''j'', checkOpenEnd art), (''k'', checkTwoRecorders art), (''l'', checkKeysDiffer art),
      (''m'', checkCrossAudit art), (''n'', checkTreeHead cr art), (''o'', checkInclusion cr art),
      (''p'', checkAnchorLeaves cr art), (''q'', checkUnanchoredWindow art),
      (''r'', checkCounterpartySignatures art), (''s'', checkCounterpartyBinding art),
      (''t'', checkCounterpartyAudit art), (''u'', checkLogKeyIndependent art),
      (''v'', checkCounterpartyKeyIndependent art), (''R'', snd (checkR art))]"

definition ungraded_result :: "crypto \<Rightarrow> Artifact \<Rightarrow> Result" where
  "ungraded_result cr art =
     \<lparr>res_Run = artifactRun art, res_Grade = 0, res_Ungraded = False, res_R = fst (checkR art),
      res_Checks = run_checks cr art, res_Coverage = man_Coverage (art_Manifest art),
      res_Custody = man_Custody (art_Manifest art), res_Anchor = anchorAnnotation art,
      res_Retention = retentionAnnotation (man_Retention (art_Manifest art)),
      res_Open = False, res_OpenStatus = [], res_Notes = []\<rparr>"

definition mark_open :: "Result \<Rightarrow> Result" where
  "mark_open res =
     (let j = check (res_Checks res) ''j'' in
      if Status j = Fail \<and> str_contains (msg_text (Message j)) ''OPEN/ABNORMAL-END''
      then res\<lparr>res_Open := True, res_OpenStatus := ''OPEN/ABNORMAL-END''\<rparr> else res)"

definition mark_anchor :: "Result \<Rightarrow> Result" where
  "mark_anchor res = (if res_Grade res \<ge> 3 \<and> \<not> res_Ungraded res then res\<lparr>res_Anchor := ''independent''\<rparr> else res)"

definition evaluateRun :: "crypto \<Rightarrow> Artifact \<Rightarrow> Result" where
  "evaluateRun cr art = mark_anchor (computeGrade (mark_open (ungraded_result cr art)))"

section \<open>The artifact\<close>

definition add_run :: "string \<Rightarrow> string list \<Rightarrow> string list" where
  "add_run run runs = (if run \<noteq> [] \<and> run \<notin> set runs then runs @ [run] else runs)"

definition artifactRuns :: "Artifact \<Rightarrow> string list" where
  "artifactRuns art =
     (let runs = fold (\<lambda>log. add_run (log_Run log)) (art_RecorderLogs art) (fold add_run (man_Runs (art_Manifest art)) [])
      in if runs = [] then [[]] else runs)"

definition Evaluate :: "crypto \<Rightarrow> Artifact \<Rightarrow> Report" where
  "Evaluate cr art = \<lparr>rep_Runs = map (\<lambda>run. evaluateRun cr (ForRun art run)) (artifactRuns art)\<rparr>"

section \<open>Lemmas: the checks of a result\<close>

lemma check_simps [simp]: "check ((c, out) # cs) cid = (if cid = c then out else check cs cid)"
  by (simp add: check_def)

lemma run_checks_at:
  "check (run_checks cr art) ''a'' = checkSignatures art" "check (run_checks cr art) ''b'' = checkCanonicalPayloads art"
  "check (run_checks cr art) ''d'' = checkSequenceOrder art" "check (run_checks cr art) ''e'' = checkPredecessorLinks art"
  "check (run_checks cr art) ''w'' = checkClosedSchemas art" "check (run_checks cr art) ''f'' = checkOpen art"
  "check (run_checks cr art) ''g'' = checkContiguous art" "check (run_checks cr art) ''h'' = checkHeartbeat art"
  "check (run_checks cr art) ''i'' = checkCloseCount art" "check (run_checks cr art) ''j'' = checkOpenEnd art"
  "check (run_checks cr art) ''k'' = checkTwoRecorders art" "check (run_checks cr art) ''l'' = checkKeysDiffer art"
  "check (run_checks cr art) ''m'' = checkCrossAudit art" "check (run_checks cr art) ''n'' = checkTreeHead cr art"
  "check (run_checks cr art) ''o'' = checkInclusion cr art" "check (run_checks cr art) ''p'' = checkAnchorLeaves cr art"
  "check (run_checks cr art) ''q'' = checkUnanchoredWindow art" "check (run_checks cr art) ''r'' = checkCounterpartySignatures art"
  "check (run_checks cr art) ''s'' = checkCounterpartyBinding art" "check (run_checks cr art) ''t'' = checkCounterpartyAudit art"
  "check (run_checks cr art) ''u'' = checkLogKeyIndependent art"
  "check (run_checks cr art) ''v'' = checkCounterpartyKeyIndependent art"
  by (simp_all add: run_checks_def)

lemma add_note_simps [simp]:
  "res_Grade (add_note m r) = res_Grade r" "res_Ungraded (add_note m r) = res_Ungraded r" "res_Checks (add_note m r) = res_Checks r"
  "res_Open (add_note m r) = res_Open r" "res_R (add_note m r) = res_R r" "res_Run (add_note m r) = res_Run r"
  "res_Coverage (add_note m r) = res_Coverage r" "res_Custody (add_note m r) = res_Custody r"
  "res_Retention (add_note m r) = res_Retention r" "res_Anchor (add_note m r) = res_Anchor r"
  by (simp_all add: add_note_def)

lemma computeGrade_keeps [simp]:
  "res_Checks (computeGrade r) = res_Checks r" "res_R (computeGrade r) = res_R r" "res_Run (computeGrade r) = res_Run r"
  "res_Coverage (computeGrade r) = res_Coverage r" "res_Custody (computeGrade r) = res_Custody r"
  "res_Retention (computeGrade r) = res_Retention r" "res_Anchor (computeGrade r) = res_Anchor r"
  by (simp_all add: computeGrade_def rung_def)

lemma mark_open_keeps [simp]:
  "res_Checks (mark_open r) = res_Checks r" "res_R (mark_open r) = res_R r" "res_Run (mark_open r) = res_Run r"
  "res_Grade (mark_open r) = res_Grade r" "res_Ungraded (mark_open r) = res_Ungraded r"
  "res_Coverage (mark_open r) = res_Coverage r" "res_Custody (mark_open r) = res_Custody r"
  "res_Retention (mark_open r) = res_Retention r" "res_Anchor (mark_open r) = res_Anchor r"
  by (simp_all add: mark_open_def Let_def)

lemma mark_anchor_keeps [simp]:
  "res_Checks (mark_anchor r) = res_Checks r" "res_R (mark_anchor r) = res_R r" "res_Run (mark_anchor r) = res_Run r"
  "res_Grade (mark_anchor r) = res_Grade r" "res_Ungraded (mark_anchor r) = res_Ungraded r"
  "res_Coverage (mark_anchor r) = res_Coverage r" "res_Custody (mark_anchor r) = res_Custody r"
  "res_Retention (mark_anchor r) = res_Retention r" "res_Open (mark_anchor r) = res_Open r"
  by (simp_all add: mark_anchor_def)

text \<open>The ladder of checks that each grade needs, cumulative from AEL-0.\<close>

definition grade_checks :: "nat \<Rightarrow> string list" where
  "grade_checks g =
     concat (take (Suc g) [[''a'', ''b'', ''d'', ''e'', ''w''], [''f'', ''g'', ''h'', ''i''], [''k'', ''l'', ''m''],
       [''n'', ''o'', ''u'', ''p'', ''q''], [''r'', ''s'', ''t'', ''v'']])"

lemma allPass_append [simp]: "allPass cs (xs @ ys) \<longleftrightarrow> allPass cs xs \<and> allPass cs ys"
  by (auto simp: allPass_def)

lemma allPass_Nil [simp]: "allPass cs []"
  by (simp add: allPass_def)

lemma allPass_Cons: "allPass cs (x # xs) \<longleftrightarrow> Status (check cs x) = Pass \<and> allPass cs xs"
  by (simp add: allPass_def)

lemma grade_checks_simps:
  "grade_checks 0 = [''a'', ''b'', ''d'', ''e'', ''w'']"
  "grade_checks 1 = grade_checks 0 @ [''f'', ''g'', ''h'', ''i'']"
  "grade_checks 2 = grade_checks 1 @ [''k'', ''l'', ''m'']"
  "grade_checks 3 = grade_checks 2 @ [''n'', ''o'', ''u'', ''p'', ''q'']"
  "grade_checks 4 = grade_checks 3 @ [''r'', ''s'', ''t'', ''v'']"
  by (simp_all add: grade_checks_def eval_nat_numeral)

lemma grade_allPass:
  "allPass cs (grade_checks 0) \<longleftrightarrow> allPass cs [''a'', ''b'', ''d'', ''e'', ''w'']"
  "allPass cs (grade_checks 1) \<longleftrightarrow> allPass cs (grade_checks 0) \<and> allPass cs [''f'', ''g'', ''h'', ''i'']"
  "allPass cs (grade_checks 2) \<longleftrightarrow> allPass cs (grade_checks 1) \<and> allPass cs [''k'', ''l'', ''m'']"
  "allPass cs (grade_checks 3) \<longleftrightarrow> allPass cs (grade_checks 2) \<and> allPass cs [''n'', ''o'', ''u''] \<and> allPass cs [''p'', ''q'']"
  "allPass cs (grade_checks 4) \<longleftrightarrow> allPass cs (grade_checks 3) \<and> allPass cs [''r'', ''s'', ''t'', ''v'']"
  by (simp_all only: grade_checks_simps allPass_append) (simp_all add: allPass_Cons)

lemma grade_ladder:
  assumes "\<not> res_Ungraded res" "res_Grade res = 0"
  shows "(res_Ungraded (computeGrade res) \<longleftrightarrow> \<not> allPass (res_Checks res) (grade_checks 0))
    \<and> (\<forall>g \<in> {1..4}. int g \<le> res_Grade (computeGrade res) \<longleftrightarrow>
         \<not> res_Open res \<and> allPass (res_Checks res) (grade_checks g))
    \<and> 0 \<le> res_Grade (computeGrade res) \<and> res_Grade (computeGrade res) \<le> 4"
proof -
  have g: "{1..4} = {1, 2, 3, 4 :: nat}" by auto
  have uv: "Status (check (res_Checks res) ''a'') = UV \<Longrightarrow> \<not> allPass (res_Checks res) [''a'', ''b'', ''d'', ''e'', ''w'']"
    by (simp add: allPass_Cons)
  show ?thesis
    using assms uv unfolding g
    by (simp add: grade_allPass [unfolded One_nat_def] computeGrade_def rung_def)
qed

text \<open>C19: the grade is the ladder. On a fresh result, \<open>computeGrade\<close> leaves the run ungraded
  exactly when a check of AEL-0 does not pass, and otherwise gives at least grade \<open>g\<close>, for \<open>g\<close>
  from 1 to 4, exactly when the run is not open and every check of the rungs 0 to \<open>g\<close>
  passes; the grade is between 0 and 4. FAIL and UV cap alike.\<close>
theorem computeGrade_ladder:
  assumes "\<not> res_Ungraded res" "res_Grade res = 0"
  shows "(res_Ungraded (computeGrade res) \<longleftrightarrow> \<not> allPass (res_Checks res) (grade_checks 0))
    \<and> (\<forall>g \<in> {1..4}. int g \<le> res_Grade (computeGrade res) \<longleftrightarrow>
         \<not> res_Open res \<and> allPass (res_Checks res) (grade_checks g))
    \<and> 0 \<le> res_Grade (computeGrade res) \<and> res_Grade (computeGrade res) \<le> 4"
  using assms by (rule grade_ladder)

section \<open>Lemmas: the runs and their grades\<close>

definition closed_if_live :: "RecorderLog \<Rightarrow> bool" where
  "closed_if_live log \<longleftrightarrow> (log_Records log \<noteq> [] \<and> 0 < pl_HMax (payload_at log 0) \<longrightarrow>
     pl_Type (payload_at log (length (log_Records log) - 1)) = ''close'')"

lemma checkOpenEnd_cases:
  "Status (checkOpenEnd art) = Pass \<longleftrightarrow> (\<forall>log \<in> set (art_RecorderLogs art). closed_if_live log)"
  "Status (checkOpenEnd art) \<noteq> Pass \<Longrightarrow>
     Status (checkOpenEnd art) = Fail \<and> str_contains (msg_text (Message (checkOpenEnd art))) ''OPEN/ABNORMAL-END''"
proof -
  let ?f = "\<lambda>log. if log_Records log = [] then None
    else if pl_HMax (rec_Payload (log_Records log ! 0)) > 0
         \<and> pl_Type (rec_Payload (log_Records log ! (length (log_Records log) - 1))) \<noteq> ''close''
    then Some (outcome Fail (Errorf ''%s OPEN/ABNORMAL-END: no close record'' [S (log_ID log)])) else None"
  have f: "?f log = None \<longleftrightarrow> closed_if_live log" for log by (auto simp: closed_if_live_def)
  have t: "str_contains (msg_text (Errorf ''%s OPEN/ABNORMAL-END: no close record'' [S s])) ''OPEN/ABNORMAL-END''" for s
    using str_contains_append [of "'' OPEN/ABNORMAL-END: no close record''" "''OPEN/ABNORMAL-END''" s]
    by (simp add: has_prefix_def)
  have none: "first_some ?f (art_RecorderLogs art) = None \<longleftrightarrow> (\<forall>log \<in> set (art_RecorderLogs art). closed_if_live log)"
    unfolding first_some_None_iff f ..
  have some: "Status out = Fail \<and> str_contains (msg_text (Message out)) ''OPEN/ABNORMAL-END''"
    if "first_some ?f (art_RecorderLogs art) = Some out" for out
    using first_some_SomeD [OF that] t by (auto split: if_splits)
  show "Status (checkOpenEnd art) = Pass \<longleftrightarrow> (\<forall>log \<in> set (art_RecorderLogs art). closed_if_live log)"
    unfolding checkOpenEnd_def none [symmetric] using some
    by (cases "first_some ?f (art_RecorderLogs art)") (auto simp: or_pass_def)
  show "Status (checkOpenEnd art) \<noteq> Pass \<Longrightarrow>
     Status (checkOpenEnd art) = Fail \<and> str_contains (msg_text (Message (checkOpenEnd art))) ''OPEN/ABNORMAL-END''"
    unfolding checkOpenEnd_def using some
    by (cases "first_some ?f (art_RecorderLogs art)") (auto simp: or_pass_def)
qed

lemma mark_open_Open: "res_Open (mark_open (ungraded_result cr art)) \<longleftrightarrow> Status (checkOpenEnd art) \<noteq> Pass"
  using checkOpenEnd_cases(2) [of art]
  by (auto simp: mark_open_def ungraded_result_def run_checks_at Let_def)

lemma computeGrade_Open [simp]: "res_Open (computeGrade r) = res_Open r"
  by (simp add: computeGrade_def rung_def)

lemma evaluateRun_earns:
  assumes "g \<le> 4"
  shows "\<not> res_Open (evaluateRun cr art) \<and> \<not> res_Ungraded (evaluateRun cr art) \<and> int g \<le> res_Grade (evaluateRun cr art) \<longleftrightarrow>
    Status (checkOpenEnd art) = Pass \<and> allPass (run_checks cr art) (grade_checks g)"
proof -
  let ?r = "mark_open (ungraded_result cr art)"
  have l: "(res_Ungraded (computeGrade ?r) \<longleftrightarrow> \<not> allPass (run_checks cr art) (grade_checks 0))
    \<and> (\<forall>g \<in> {1..4}. int g \<le> res_Grade (computeGrade ?r) \<longleftrightarrow> \<not> res_Open ?r \<and> allPass (run_checks cr art) (grade_checks g))
    \<and> 0 \<le> res_Grade (computeGrade ?r) \<and> res_Grade (computeGrade ?r) \<le> 4"
    using grade_ladder [of ?r] by (simp add: ungraded_result_def)
  have z: "allPass (run_checks cr art) (grade_checks g) \<Longrightarrow> allPass (run_checks cr art) (grade_checks 0)"
    using assms by (auto simp: allPass_def grade_checks_def)
  show ?thesis
  proof (cases "g = 0")
    case True
    then show ?thesis using l by (auto simp: evaluateRun_def mark_open_Open)
  next
    case False
    then have "g \<in> {1..4}" using assms by auto
    then show ?thesis using l z by (auto simp: evaluateRun_def mark_open_Open)
  qed
qed

lemma artifactRuns_nonempty: "artifactRuns art \<noteq> []"
  by (simp add: artifactRuns_def Let_def)

end
