(* ===== verification/Gov.thy ===== *)
theory Gov
  imports Grade
begin

text \<open>
  \<open>checker/internal/ael/gov.go\<close>: the governability report. Every activity record gets a reversibility
  class and the status of its source; the findings of one event id are merged to the worst case; the
  coverage gate asks whether every event that has to be covered is in a declared class. The map
  \<open>byID\<close> and the slice \<open>order\<close> of the code are one association list in order of first insertion. A nil
  pointer that the code dereferences makes the value None.
\<close>

datatype GovStatus =
  GovPolicyBound | GovPolicySilent | GovPolicyInvalid | GovDeclared | GovUnclassified | GovUnassessable

definition revOrder_table :: "(string \<times> int) list" where
  "revOrder_table = [(''read-only'', 0), (''reversible'', 1), (''external-reversible'', 2), (''irreversible'', 3)]"

definition revOrder :: "string \<Rightarrow> int" where
  "revOrder c = (case alookup revOrder_table c of Some n \<Rightarrow> n | None \<Rightarrow> 0)"

definition normalizeClass :: "string \<Rightarrow> string \<times> bool" where
  "normalizeClass c = (if has_key revOrder_table c then (c, True) else (''irreversible'', False))"

definition isIrreversibleClass :: "string \<Rightarrow> bool" where
  "isIrreversibleClass c \<longleftrightarrow> c = ''irreversible''"

record GovEvent =
  ge_EventID :: string
  ge_Class :: string
  ge_EventClass :: string
  ge_Status :: GovStatus
  ge_Note :: string

record GovCoverage =
  gc_Status :: string
  gc_Gaps :: "string list"
  gc_Anomalies :: "string list"

record GovRun =
  gr_Run :: string
  gr_Events :: "GovEvent list"
  gr_Coverage :: GovCoverage

definition anomalyDuplicateIDClassConflict :: string where
  "anomalyDuplicateIDClassConflict = ''DUPLICATE-ID-CLASS-CONFLICT''"

record govAccum =
  ga_primary :: "GovEvent option"
  ga_eventClasses :: "string list"
  ga_classConflict :: bool
  ga_unassessable :: bool

section \<open>The class a policy binds\<close>

datatype policyState = policyNone | policyReferencedBad | policySilent | policyBoundOK

text \<open>The struct \<open>policyReversibility\<close> has one field, a map; \<open>extGov\<close> has one string, two structs deep.\<close>

definition dec_policyReversibility :: "json \<Rightarrow> (string \<times> string) list \<Rightarrow> (string \<times> string) list decoded" where
  "dec_policyReversibility = dec_struct (\<lambda>n. dec_map dec_string []) [''reversibility'']"

definition dec_extGov :: "json \<Rightarrow> string \<Rightarrow> string decoded" where
  "dec_extGov = dec_struct (\<lambda>n. dec_struct (\<lambda>n. dec_struct (\<lambda>n. dec_string) [''declared_reversibility'']) [''gov'']) [''ext'']"

definition policyBoundClass :: "crypto \<Rightarrow> Artifact \<Rightarrow> Record \<Rightarrow> Event \<Rightarrow> string \<times> policyState" where
  "policyBoundClass cr art rec ev =
     (case pl_Decision (rec_Payload rec) of
        None \<Rightarrow> ([], policyNone)
      | Some dec \<Rightarrow>
          if de_Policy dec = [] then ([], policyNone)
          else
            (case alookup (art_PolicyRaw art) (de_Policy dec) of
               None \<Rightarrow> ([], policyReferencedBad)
             | Some raw \<Rightarrow>
                 if sha256_hex cr raw \<noteq> de_Policy dec then ([], policyReferencedBad)
                 else
                   (case unmarshal dec_policyReversibility raw [] of
                      (pr, Some err) \<Rightarrow> ([], policyReferencedBad)
                    | (pr, None) \<Rightarrow>
                        (case alookup pr (ev_Class ev) of
                           None \<Rightarrow> ([], policySilent)
                         | Some cls \<Rightarrow> (cls, policyBoundOK)))))"

definition declaredClass :: "Record \<Rightarrow> string option" where
  "declaredClass rec =
     (case unmarshal dec_extGov (rec_PayloadRaw rec) [] of
        (cls, Some err) \<Rightarrow> None
      | (cls, None) \<Rightarrow> if cls = [] then None else Some cls)"

section \<open>The finding of one record\<close>

definition recoverUnassessable :: "Record \<Rightarrow> GovEvent" where
  "recoverUnassessable rec =
     (let note = ''schema-invalid activity record'';
          note = (case rec_SchemaErr rec of None \<Rightarrow> note | Some err \<Rightarrow> note @ '': '' @ msg_text err);
          (eid, cls) = (case pl_Event (rec_Payload rec) of None \<Rightarrow> ([], []) | Some ev \<Rightarrow> (ev_ID ev, ev_Class ev))
      in \<lparr>ge_EventID = eid, ge_Class = ''irreversible'', ge_EventClass = cls, ge_Status = GovUnassessable, ge_Note = note\<rparr>)"

definition classRecoverable :: "GovEvent \<Rightarrow> bool" where
  "classRecoverable ev \<longleftrightarrow> ge_EventID ev \<noteq> [] \<and> ge_EventClass ev \<noteq> []"

definition classifyEvent :: "crypto \<Rightarrow> Artifact \<Rightarrow> Record \<Rightarrow> GovEvent option" where
  "classifyEvent cr art rec =
     (if \<not> rec_SchemaOK rec then Some (recoverUnassessable rec)
      else
        (case pl_Event (rec_Payload rec) of
           None \<Rightarrow> None
         | Some e \<Rightarrow>
             (let finding = (\<lambda>status cls note.
                    \<lparr>ge_EventID = ev_ID e, ge_Class = cls, ge_EventClass = ev_Class e, ge_Status = status, ge_Note = note\<rparr>);
                  (pClass, pState) = policyBoundClass cr art rec e in
              Some
                (case pState of
                   policyBoundOK \<Rightarrow>
                     (let (class, known) = normalizeClass pClass in
                      if \<not> known
                      then finding GovPolicyInvalid ''irreversible'' ''policy class outside vocabulary or empty; treated as irreversible''
                      else finding GovPolicyBound class
                        (case declaredClass rec of
                           None \<Rightarrow> []
                         | Some dClassRaw \<Rightarrow>
                             (let dClass = fst (normalizeClass dClassRaw) in
                              if revOrder dClass < revOrder class
                              then ''agent-declared class '' @ dClass @ '' ignored; policy binds '' @ class else [])))
                 | policyReferencedBad \<Rightarrow>
                     finding GovPolicyInvalid ''irreversible''
                       ''referenced policy missing, malformed, or hash-mismatched; treated as irreversible''
                 | policySilent \<Rightarrow>
                     finding GovPolicySilent ''irreversible''
                       (case declaredClass rec of
                          Some dClassRaw \<Rightarrow>
                            ''verified policy silent on this event class; agent-declared '' @ fst (normalizeClass dClassRaw)
                            @ '' is advisory only''
                        | None \<Rightarrow> ''verified policy silent on this event class; treated as irreversible'')
                 | policyNone \<Rightarrow>
                     (case declaredClass rec of
                        Some dClassRaw \<Rightarrow>
                          (let (class, known) = normalizeClass dClassRaw in
                           finding GovDeclared class
                             (if known then [] else ''declared class outside vocabulary, treated as irreversible''))
                      | None \<Rightarrow> finding GovUnclassified ''irreversible'' [])))))"

section \<open>Merging the findings of one event\<close>

definition statusRank :: "GovStatus \<Rightarrow> int" where
  "statusRank s = (case s of GovPolicyBound \<Rightarrow> 2 | GovDeclared \<Rightarrow> 1 | _ \<Rightarrow> 0)"

definition mergeEvent :: "GovEvent \<Rightarrow> GovEvent \<Rightarrow> GovEvent" where
  "mergeEvent a b =
     (if revOrder (ge_Class b) > revOrder (ge_Class a) then b
      else if revOrder (ge_Class b) = revOrder (ge_Class a) \<and> statusRank (ge_Status b) > statusRank (ge_Status a) then b
      else a)"

definition new_accum :: govAccum where
  "new_accum = \<lparr>ga_primary = None, ga_eventClasses = [], ga_classConflict = False, ga_unassessable = False\<rparr>"

definition accumulate :: "govAccum \<Rightarrow> GovEvent \<Rightarrow> govAccum" where
  "accumulate acc ev =
     (let cls = ge_EventClass ev;
          acc1 = (if cls = [] then acc
            else acc\<lparr>ga_classConflict := ga_classConflict acc \<or> (ga_eventClasses acc \<noteq> [] \<and> cls \<notin> set (ga_eventClasses acc)),
                     ga_eventClasses := List.insert cls (ga_eventClasses acc)\<rparr>);
          acc2 = (if ge_Status ev = GovUnassessable then acc1\<lparr>ga_unassessable := True\<rparr> else acc1)
      in acc2\<lparr>ga_primary := Some (case ga_primary acc2 of None \<Rightarrow> ev | Some p \<Rightarrow> mergeEvent p ev)\<rparr>)"

definition finalizeEvent :: "govAccum \<Rightarrow> GovEvent option" where
  "finalizeEvent acc =
     map_option (\<lambda>ev.
       let ev1 = (if ga_unassessable acc \<and> ge_Status ev \<noteq> GovUnassessable
                  then ev\<lparr>ge_Status := GovUnassessable, ge_Class := ''irreversible''\<rparr> else ev)
       in if ga_classConflict acc
          then ev1\<lparr>ge_Note := (if ge_Note ev1 \<noteq> [] then ge_Note ev1 @ ''; '' else [])
                 @ anomalyDuplicateIDClassConflict @ '': recorders disagree on event.class for this id''\<rparr>
          else ev1) (ga_primary acc)"

section \<open>Coverage\<close>

type_synonym accums = "(string \<times> govAccum) list"

definition coverage :: "Artifact \<Rightarrow> accums \<Rightarrow> GovCoverage option" where
  "coverage art accs =
     (let anomalies = sort_slice (<) (map fst (filter (\<lambda>(_, acc). ga_classConflict acc) accs));
          anomalyList = map (\<lambda>i. anomalyDuplicateIDClassConflict @ '': '' @ i) anomalies in
      case those (map (\<lambda>(i, acc). map_option (\<lambda>ev. (i, acc, ev)) (finalizeEvent acc)) accs) of
        None \<Rightarrow> None
      | Some events \<Rightarrow> Some
          (if \<exists>(i, acc, ev) \<in> set events. ge_Status ev = GovUnassessable \<and> \<not> classRecoverable ev
           then \<lparr>gc_Status = ''UNASSESSABLE'', gc_Gaps = [], gc_Anomalies = anomalyList\<rparr>
           else
             (case man_Correspondence (art_Manifest art) of
                None \<Rightarrow> \<lparr>gc_Status = ''N/A'', gc_Gaps = [], gc_Anomalies = anomalyList\<rparr>
              | Some co \<Rightarrow>
                  if co_Classes co = [] then \<lparr>gc_Status = ''N/A'', gc_Gaps = [], gc_Anomalies = anomalyList\<rparr>
                  else
                    (let gaps = map fst (filter (\<lambda>(i, acc, ev).
                            \<not> (ge_Status ev = GovPolicyBound \<and> \<not> isIrreversibleClass (ge_Class ev))
                            \<and> (\<exists>cls \<in> set (ga_eventClasses acc). cls \<notin> set (co_Classes co))) events)
                     in if gaps = [] then \<lparr>gc_Status = ''OK'', gc_Gaps = [], gc_Anomalies = anomalyList\<rparr>
                        else \<lparr>gc_Status = ''GAP'', gc_Gaps = sort_slice (<) gaps, gc_Anomalies = anomalyList\<rparr>))))"

section \<open>The report\<close>

definition governed :: "Record \<Rightarrow> bool" where
  "governed rec \<longleftrightarrow> pl_Type (rec_Payload rec) = ''activity'' \<and> rec_SignatureOK rec \<and> rec_CanonicalOK rec"

definition add_event :: "GovEvent \<Rightarrow> accums \<Rightarrow> accums" where
  "add_event ev accs =
     aput (ge_EventID ev)
       (accumulate (case alookup accs (ge_EventID ev) of Some acc \<Rightarrow> acc | None \<Rightarrow> new_accum) ev) accs"

definition governRun :: "crypto \<Rightarrow> Artifact \<Rightarrow> string \<Rightarrow> GovRun option" where
  "governRun cr art run =
     Option.bind (those (map (classifyEvent cr art) (filter governed (AllRecords art)))) (\<lambda>findings.
       let byID = fold add_event findings [] in
       Option.bind (those (map (\<lambda>(i, acc). finalizeEvent acc) byID)) (\<lambda>events.
       Option.bind (coverage art byID) (\<lambda>cov.
         Some \<lparr>gr_Run = run, gr_Events = events, gr_Coverage = cov\<rparr>)))"

definition Governability :: "crypto \<Rightarrow> Artifact \<Rightarrow> GovRun list option" where
  "Governability cr art = those (map (\<lambda>run. governRun cr (ForRun art run) run) (man_Runs (art_Manifest art)))"

end
