(* ===== verification/Gov_Facts.thy ===== *)
theory Gov_Facts
  imports Gov Tamper
begin

text \<open>
  What the governability report promises: no governed record is dropped, an event is reported at its
  worst case whatever the order of its records, a softer class than irreversible needs a source, only a
  hash-verified policy lowers the coverage gate, and a loaded artifact never makes the report
  dereference a nil event. Two theorems show where the code departs from its comments.
\<close>

section \<open>Worst-case merging\<close>

text \<open>A merge that keeps one of its arguments, the worse one: first by severity, then by rank.\<close>

locale worst_case =
  fixes merge :: "'a \<Rightarrow> 'a \<Rightarrow> 'a" and severity :: "'a \<Rightarrow> int" and rank :: "'a \<Rightarrow> int"
  assumes merge_one: "merge a b = a \<or> merge a b = b"
    and merge_worst: "severity (merge a b) = max (severity a) (severity b)"
    and merge_rank: "severity x = severity (merge a b) \<Longrightarrow> x = a \<or> x = b \<Longrightarrow> rank x \<le> rank (merge a b)"
begin

definition merge_all :: "'a \<Rightarrow> 'a list \<Rightarrow> 'a" where
  "merge_all x xs = fold (\<lambda>y acc. merge acc y) xs x"

lemma merge_all_simps [simp]:
  "merge_all x [] = x"
  "merge_all x (y # ys) = merge_all (merge x y) ys"
  "merge_all x (ys @ [y]) = merge (merge_all x ys) y"
  by (simp_all add: merge_all_def)

lemma merge_all_in: "merge_all x xs \<in> set (x # xs)"
proof (induction xs arbitrary: x)
  case (Cons y ys)
  then show ?case using merge_one [of x y] by fastforce
qed simp

lemma merge_all_worst: "y \<in> set (x # xs) \<Longrightarrow> severity y \<le> severity (merge_all x xs)"
proof (induction xs rule: rev_induct)
  case (snoc z zs)
  then show ?case by (auto simp: merge_worst simp del: merge_all_simps(2))
qed simp

lemma merge_all_rank:
  "y \<in> set (x # xs) \<Longrightarrow> severity y = severity (merge_all x xs) \<Longrightarrow> rank y \<le> rank (merge_all x xs)"
proof (induction xs rule: rev_induct)
  case (snoc z zs)
  show ?case
  proof (cases "y \<in> set (x # zs)")
    case True
    let ?m = "merge_all x zs"
    have "severity y \<le> severity ?m" using merge_all_worst True .
    then have "severity ?m = severity (merge ?m z)" "severity y = severity ?m"
      using snoc.prems(2) by (simp_all add: merge_worst)
    then show ?thesis using snoc.IH [OF True] merge_rank [of ?m ?m z] by simp
  next
    case False
    then show ?thesis using snoc.prems merge_rank [of z "merge_all x zs" z] by simp
  qed
qed simp

text \<open>Severity and rank of the merge do not depend on the order.\<close>

lemma merge_all_order:
  assumes "set (x # xs) = set (y # ys)"
  shows "severity (merge_all x xs) = severity (merge_all y ys) \<and> rank (merge_all x xs) = rank (merge_all y ys)"
proof -
  have i: "merge_all x xs \<in> set (y # ys)" "merge_all y ys \<in> set (x # xs)"
    by (simp_all only: assms [symmetric] merge_all_in) (simp only: assms merge_all_in)
  have s: "severity (merge_all x xs) = severity (merge_all y ys)"
    using merge_all_worst [OF i(1)] merge_all_worst [OF i(2)] by simp
  then show ?thesis using merge_all_rank [OF i(1)] merge_all_rank [OF i(2)] by simp
qed

end

interpretation gov_merge: worst_case mergeEvent "\<lambda>e. revOrder (ge_Class e)" "\<lambda>e. statusRank (ge_Status e)"
  by unfold_locales (auto simp: mergeEvent_def)

section \<open>Accumulators\<close>

definition accum_of :: "GovEvent list \<Rightarrow> govAccum" where
  "accum_of evs = fold (\<lambda>ev acc. accumulate acc ev) evs new_accum"

lemma accum_of_simps [simp]:
  "accum_of [] = new_accum"
  "accum_of (evs @ [ev]) = accumulate (accum_of evs) ev"
  by (simp_all add: accum_of_def)

lemma accumulate_fields [simp]:
  "ga_primary (accumulate acc ev) = Some (case ga_primary acc of None \<Rightarrow> ev | Some p \<Rightarrow> mergeEvent p ev)"
  "ga_unassessable (accumulate acc ev) \<longleftrightarrow> ga_unassessable acc \<or> ge_Status ev = GovUnassessable"
  "set (ga_eventClasses (accumulate acc ev)) = set (ga_eventClasses acc) \<union> ({ge_EventClass ev} - {[]})"
  "ga_classConflict (accumulate acc ev) \<longleftrightarrow> ga_classConflict acc
     \<or> (ge_EventClass ev \<noteq> [] \<and> ga_eventClasses acc \<noteq> [] \<and> ge_EventClass ev \<notin> set (ga_eventClasses acc))"
  by (auto simp: accumulate_def Let_def)

lemma accum_of_primary: "ga_primary (accum_of (e # es)) = Some (gov_merge.merge_all e es)"
proof (induction es rule: rev_induct)
  case (snoc x xs)
  then show ?case
    using accum_of_simps(2) [of "e # xs" x] by (simp del: gov_merge.merge_all_simps(2))
qed (use accum_of_simps(2) [of "[]" e] in \<open>simp add: new_accum_def\<close>)

lemma accum_of_fields:
  "ga_unassessable (accum_of evs) \<longleftrightarrow> (\<exists>ev \<in> set evs. ge_Status ev = GovUnassessable)"
  "set (ga_eventClasses (accum_of evs)) = ge_EventClass ` set evs - {[]}"
  by (induction evs rule: rev_induct) (auto simp: new_accum_def)

lemma accum_of_conflict:
  "ga_classConflict (accum_of evs) \<longleftrightarrow>
     (\<exists>a \<in> set evs. \<exists>b \<in> set evs. ge_EventClass a \<noteq> [] \<and> ge_EventClass b \<noteq> [] \<and> ge_EventClass a \<noteq> ge_EventClass b)"
proof (induction evs rule: rev_induct)
  case (snoc x xs)
  have e: "ga_eventClasses (accum_of xs) \<noteq> [] \<longleftrightarrow> (\<exists>b \<in> set xs. ge_EventClass b \<noteq> [])"
    using accum_of_fields(2) [of xs] by (metis (no_types, lifting) DiffD1 DiffD2 DiffI all_not_in_conv imageE imageI
      insertCI set_empty2 singletonD)
  show ?case unfolding accum_of_simps accumulate_fields e accum_of_fields snoc.IH by auto metis+
qed (simp add: new_accum_def)

lemma alookup_add_event:
  "alookup (add_event ev accs) i =
     (if i = ge_EventID ev then Some (accumulate (case alookup accs i of Some acc \<Rightarrow> acc | None \<Rightarrow> new_accum) ev)
      else alookup accs i)"
  by (simp add: add_event_def alookup_aput)

lemma alookup_add_events:
  "alookup (fold add_event evs []) i =
     (let own = filter (\<lambda>ev. ge_EventID ev = i) evs in if own = [] then None else Some (accum_of own))"
proof (induction evs rule: rev_induct)
  case (snoc x xs)
  then show ?case
    using accum_of_simps(2) [of "[]" x]
    by (auto simp: alookup_add_event Let_def)
qed simp

lemma keys_add_events: "fst ` set (fold add_event evs []) = ge_EventID ` set evs"
  by (induction evs rule: rev_induct) (auto simp: add_event_def keys_aput)

lemma distinct_add_events: "distinct (map fst (fold add_event evs []))"
  by (induction evs rule: rev_induct) (simp_all add: add_event_def distinct_aput)

lemma in_add_events:
  "(i, acc) \<in> set (fold add_event evs []) \<longleftrightarrow>
     (\<exists>ev \<in> set evs. ge_EventID ev = i) \<and> acc = accum_of (filter (\<lambda>ev. ge_EventID ev = i) evs)"
proof -
  have "(i, acc) \<in> set (fold add_event evs []) \<longleftrightarrow> alookup (fold add_event evs []) i = Some acc"
    using alookup_in_set [OF distinct_add_events] alookup_SomeD by metis
  then show ?thesis by (auto simp: alookup_add_events Let_def filter_empty_conv)
qed

section \<open>The finding of one record\<close>

lemma those_Some_iff: "those xs = Some ys \<longleftrightarrow> xs = map Some ys"
proof (induction xs arbitrary: ys)
  case (Cons x xs)
  show ?case by (cases x) (auto simp: Cons.IH)
qed auto

definition vocabulary :: "string set" where
  "vocabulary = fst ` set revOrder_table"

lemma vocabulary_simps [simp]: "''irreversible'' \<in> vocabulary" "fst (normalizeClass c) \<in> vocabulary"
  by (auto simp: vocabulary_def revOrder_table_def normalizeClass_def has_key_def)

lemma revOrder_inj:
  assumes "a \<in> vocabulary" "b \<in> vocabulary" "revOrder a = revOrder b"
  shows "a = b"
proof -
  have "\<forall>a \<in> set (map fst revOrder_table). \<forall>b \<in> set (map fst revOrder_table). revOrder a = revOrder b \<longrightarrow> a = b"
    by code_simp
  then show ?thesis using assms unfolding vocabulary_def set_map by blast
qed

lemma revOrder_irreversible: "a \<in> vocabulary \<Longrightarrow> revOrder a \<le> revOrder ''irreversible''"
  by (auto simp: vocabulary_def revOrder_table_def revOrder_def)

lemma normalizeClass_cases: "normalizeClass c = (d, k) \<Longrightarrow> d = (if k then c else ''irreversible'') \<and> (k \<longleftrightarrow> c \<in> vocabulary)"
  by (auto simp: normalizeClass_def vocabulary_def has_key_iff split: if_splits)

lemma classifyEvent_class: "classifyEvent cr art rec = Some f \<Longrightarrow> ge_Class f \<in> vocabulary"
  by (auto simp: classifyEvent_def recoverUnassessable_def Let_def split: if_splits option.splits prod.splits policyState.splits
      dest!: normalizeClass_cases)

lemma classifyEvent_unassessable:
  "classifyEvent cr art rec = Some f \<Longrightarrow> ge_Status f = GovUnassessable \<longleftrightarrow> \<not> rec_SchemaOK rec"
  "classifyEvent cr art rec = Some f \<Longrightarrow> ge_Status f = GovUnassessable \<Longrightarrow> ge_Class f = ''irreversible''"
  by (auto simp: classifyEvent_def recoverUnassessable_def Let_def split: if_splits option.splits prod.splits policyState.splits)

lemma classifyEvent_None: "classifyEvent cr art rec = None \<longleftrightarrow> rec_SchemaOK rec \<and> pl_Event (rec_Payload rec) = None"
  by (auto simp: classifyEvent_def Let_def split: option.splits prod.splits)

text \<open>\<open>binds cr art rec cls\<close>: a policy whose bytes hash to the reference of the decision maps the
  record's event class to \<open>cls\<close>.\<close>

definition binds :: "crypto \<Rightarrow> Artifact \<Rightarrow> Record \<Rightarrow> string \<Rightarrow> bool" where
  "binds cr art rec cls \<longleftrightarrow>
     (\<exists>dec ev raw pr. pl_Decision (rec_Payload rec) = Some dec \<and> pl_Event (rec_Payload rec) = Some ev
        \<and> alookup (art_PolicyRaw art) (de_Policy dec) = Some raw \<and> sha256_hex cr raw = de_Policy dec
        \<and> unmarshal dec_policyReversibility raw [] = (pr, None) \<and> alookup pr (ev_Class ev) = Some cls)"

lemma policyBoundClass_OK:
  "pl_Event (rec_Payload rec) = Some ev \<Longrightarrow> policyBoundClass cr art rec ev = (cls, policyBoundOK) \<Longrightarrow> binds cr art rec cls"
  by (auto simp: policyBoundClass_def binds_def split: option.splits if_splits prod.splits)

lemma policyBoundClass_None:
  "policyBoundClass cr art rec ev = (cls, policyNone) \<Longrightarrow>
     pl_Decision (rec_Payload rec) = None \<or> (\<exists>dec. pl_Decision (rec_Payload rec) = Some dec \<and> de_Policy dec = [])"
  by (auto simp: policyBoundClass_def split: option.splits if_splits prod.splits)

lemma softer_class:
  assumes "classifyEvent cr art rec = Some f" "ge_Class f \<noteq> ''irreversible''"
  shows "rec_SchemaOK rec \<and>
    (ge_Status f = GovPolicyBound \<and> binds cr art rec (ge_Class f)
     \<or> ge_Status f = GovDeclared \<and> declaredClass rec = Some (ge_Class f)
       \<and> (\<forall>dec. pl_Decision (rec_Payload rec) = Some dec \<longrightarrow> de_Policy dec = []))"
proof -
  have ok: "rec_SchemaOK rec" using assms classifyEvent_unassessable by blast
  obtain e where e: "pl_Event (rec_Payload rec) = Some e"
    using assms(1) ok by (cases "pl_Event (rec_Payload rec)") (simp_all add: classifyEvent_def)
  obtain p st where p: "policyBoundClass cr art rec e = (p, st)" by fastforce
  show ?thesis
  proof (cases st)
    case policyBoundOK
    then show ?thesis using assms ok e p policyBoundClass_OK [OF e]
      by (auto simp: classifyEvent_def Let_def split: prod.splits if_splits dest!: normalizeClass_cases)
  next
    case policyNone
    then show ?thesis using assms ok e p policyBoundClass_None [of cr art rec e p]
      by (auto simp: classifyEvent_def Let_def split: prod.splits option.splits dest!: normalizeClass_cases)
  qed (use assms ok e p in \<open>auto simp: classifyEvent_def\<close>)
qed

text \<open>Where a softer class comes from. A record gets a class other than irreversible only when
  its schema holds and either a policy whose bytes hash to the decision's reference maps its event class to
  exactly this class (status POLICY-BOUND), or no policy is referenced and the agent declared
  it (status DECLARED). A missing, malformed, mismatched or silent policy never falls through to the
  agent's declaration.\<close>
lemma classifyEvent_softer_class:
  assumes "classifyEvent cr art rec = Some f" "ge_Class f \<noteq> ''irreversible''"
  shows "rec_SchemaOK rec \<and>
    (ge_Status f = GovPolicyBound \<and> binds cr art rec (ge_Class f)
     \<or> ge_Status f = GovDeclared \<and> declaredClass rec = Some (ge_Class f)
       \<and> (\<forall>dec. pl_Decision (rec_Payload rec) = Some dec \<longrightarrow> de_Policy dec = []))"
  using assms by (rule softer_class)

section \<open>The reported events\<close>

lemma finalizeEvent_accum:
  assumes "evs \<noteq> []"
  shows "\<exists>ev. finalizeEvent (accum_of evs) = Some ev \<and> ge_EventID ev = ge_EventID (gov_merge.merge_all (hd evs) (tl evs))
    \<and> (if \<exists>f \<in> set evs. ge_Status f = GovUnassessable
       then ge_Status ev = GovUnassessable
         \<and> (ge_Class ev = ''irreversible'' \<or> ge_Class ev = ge_Class (gov_merge.merge_all (hd evs) (tl evs))
              \<and> ge_Status (gov_merge.merge_all (hd evs) (tl evs)) = GovUnassessable)
       else ge_Status ev = ge_Status (gov_merge.merge_all (hd evs) (tl evs))
         \<and> ge_Class ev = ge_Class (gov_merge.merge_all (hd evs) (tl evs)))"
proof -
  have "ga_primary (accum_of evs) = Some (gov_merge.merge_all (hd evs) (tl evs))"
    using assms accum_of_primary [of "hd evs" "tl evs"] by simp
  then show ?thesis by (auto simp: finalizeEvent_def accum_of_fields Let_def)
qed

text \<open>The findings of a run and those of one event id.\<close>

definition classified :: "crypto \<Rightarrow> Artifact \<Rightarrow> GovEvent list \<Rightarrow> bool" where
  "classified cr art fs \<longleftrightarrow> map (classifyEvent cr art) (filter governed (AllRecords art)) = map Some fs"

lemma classified_in: "classified cr art fs \<Longrightarrow> f \<in> set fs \<longleftrightarrow>
    (\<exists>rec \<in> set (AllRecords art). governed rec \<and> classifyEvent cr art rec = Some f)"
proof -
  assume c: "classified cr art fs"
  have "Some f \<in> set (map Some fs) \<longleftrightarrow> Some f \<in> classifyEvent cr art ` set (filter governed (AllRecords art))"
    using c unfolding classified_def by (metis set_map)
  then show ?thesis by force
qed

lemma classified_rec:
  "classified cr art fs \<Longrightarrow> rec \<in> set (AllRecords art) \<Longrightarrow> governed rec \<Longrightarrow>
     \<exists>f \<in> set fs. classifyEvent cr art rec = Some f"
proof -
  assume c: "classified cr art fs" and r: "rec \<in> set (AllRecords art)" "governed rec"
  have "classifyEvent cr art rec \<in> set (map Some fs)"
    unfolding c [unfolded classified_def, symmetric] using r by simp
  then show ?thesis by auto
qed

abbreviation of_id :: "string \<Rightarrow> GovEvent list \<Rightarrow> GovEvent list" where
  "of_id i fs \<equiv> filter (\<lambda>f. ge_EventID f = i) fs"

lemma governRun_Some:
  "governRun cr art run = Some gr \<Longrightarrow> \<exists>fs. classified cr art fs
     \<and> map (\<lambda>(i, acc). finalizeEvent acc) (fold add_event fs []) = map Some (gr_Events gr)
     \<and> coverage art (fold add_event fs []) = Some (gr_Coverage gr)"
  by (auto simp: governRun_def Let_def bind_eq_Some_conv those_Some_iff classified_def)

lemma reported_iff:
  assumes "map (\<lambda>(i, acc). finalizeEvent acc) (fold add_event fs []) = map Some evs"
  shows "ev \<in> set evs \<longleftrightarrow> (\<exists>f \<in> set fs. finalizeEvent (accum_of (of_id (ge_EventID f) fs)) = Some ev)"
proof -
  have "Some ev \<in> set (map Some evs) \<longleftrightarrow> (\<exists>i acc. (i, acc) \<in> set (fold add_event fs []) \<and> finalizeEvent acc = Some ev)"
    unfolding assms [symmetric] by force
  then show ?thesis by (auto simp: in_add_events)
qed

lemma final_of_id:
  assumes "f \<in> set fs" "finalizeEvent (accum_of (of_id (ge_EventID f) fs)) = Some ev"
  shows "ge_EventID ev = ge_EventID f"
proof -
  let ?evs = "of_id (ge_EventID f) fs"
  have ne: "?evs \<noteq> []" using assms(1) by (auto simp: filter_empty_conv)
  then have "gov_merge.merge_all (hd ?evs) (tl ?evs) \<in> set ?evs"
    using gov_merge.merge_all_in [of "hd ?evs" "tl ?evs"] by simp
  then show ?thesis using finalizeEvent_accum [OF ne] assms(2) by auto
qed

lemma final_worst:
  assumes "f \<in> set fs" "finalizeEvent (accum_of (of_id (ge_EventID f) fs)) = Some ev" "\<forall>g \<in> set fs. ge_Class g \<in> vocabulary"
  shows "revOrder (ge_Class f) \<le> revOrder (ge_Class ev)"
proof -
  let ?evs = "of_id (ge_EventID f) fs"
  let ?m = "gov_merge.merge_all (hd ?evs) (tl ?evs)"
  have f: "f \<in> set ?evs" using assms(1) by simp
  then have ne: "?evs \<noteq> []" by (metis empty_iff list.set(1))
  then have "revOrder (ge_Class f) \<le> revOrder (ge_Class ?m)" "revOrder (ge_Class f) \<le> revOrder ''irreversible''"
    using gov_merge.merge_all_worst [of f "hd ?evs" "tl ?evs"] f assms(1,3) revOrder_irreversible by simp_all
  then show ?thesis using finalizeEvent_accum [OF ne] assms(2) by (auto split: if_splits)
qed

lemma final_unassessable:
  assumes "f \<in> set fs" "finalizeEvent (accum_of (of_id (ge_EventID f) fs)) = Some ev" "ge_Status f = GovUnassessable"
    and "\<forall>g \<in> set fs. ge_Status g = GovUnassessable \<longrightarrow> ge_Class g = ''irreversible''"
  shows "ge_Status ev = GovUnassessable \<and> ge_Class ev = ''irreversible''"
proof -
  let ?evs = "of_id (ge_EventID f) fs"
  let ?m = "gov_merge.merge_all (hd ?evs) (tl ?evs)"
  have ne: "?evs \<noteq> []" using assms(1) by (auto simp: filter_empty_conv)
  then have "?m \<in> set ?evs" using gov_merge.merge_all_in [of "hd ?evs" "tl ?evs"] by simp
  then have "ge_Status ?m = GovUnassessable \<Longrightarrow> ge_Class ?m = ''irreversible''" using assms(4) by simp
  then show ?thesis using finalizeEvent_accum [OF ne] assms(1-3) by (auto split: if_splits)
qed

lemma classified_vocabulary:
  assumes "classified cr art fs"
  shows "\<forall>g \<in> set fs. ge_Class g \<in> vocabulary"
    and "\<forall>g \<in> set fs. ge_Status g = GovUnassessable \<longrightarrow> ge_Class g = ''irreversible''"
  using classified_in [OF assms] classifyEvent_class classifyEvent_unassessable(2) by blast+

lemma reported_unique:
  assumes "map (\<lambda>(i, acc). finalizeEvent acc) (fold add_event fs []) = map Some evs" "ev \<in> set evs" "ev' \<in> set evs"
    and "ge_EventID ev = ge_EventID ev'"
  shows "ev = ev'"
proof -
  obtain f f' where f: "f \<in> set fs" "finalizeEvent (accum_of (of_id (ge_EventID f) fs)) = Some ev"
    "f' \<in> set fs" "finalizeEvent (accum_of (of_id (ge_EventID f') fs)) = Some ev'"
    using assms(2,3) reported_iff [OF assms(1)] by blast
  then have "ge_EventID f = ge_EventID f'" using final_of_id assms(4) by metis
  then show ?thesis using f by simp
qed

text \<open>C31: the report drops no governed record and never softens one. Every activity record with a
  good signature and canonical bytes has a finding, and exactly one reported event carries its event
  id; that event's class is at least as severe as the record's, and is UNASSESSABLE and
  irreversible when the record's schema failed.\<close>
theorem governRun_keeps_worst:
  assumes "governRun cr art run = Some gr" "rec \<in> set (AllRecords art)" "governed rec"
  shows "\<exists>f. classifyEvent cr art rec = Some f \<and> (\<exists>!ev. ev \<in> set (gr_Events gr) \<and> ge_EventID ev = ge_EventID f)
    \<and> (\<forall>ev \<in> set (gr_Events gr). ge_EventID ev = ge_EventID f \<longrightarrow>
         revOrder (ge_Class f) \<le> revOrder (ge_Class ev)
         \<and> (\<not> rec_SchemaOK rec \<longrightarrow> ge_Status ev = GovUnassessable \<and> ge_Class ev = ''irreversible''))"
proof -
  obtain fs where fs: "classified cr art fs"
    "map (\<lambda>(i, acc). finalizeEvent acc) (fold add_event fs []) = map Some (gr_Events gr)"
    using governRun_Some [OF assms(1)] by blast
  obtain f where f: "f \<in> set fs" "classifyEvent cr art rec = Some f" using classified_rec [OF fs(1) assms(2,3)] by blast
  have "of_id (ge_EventID f) fs \<noteq> []" using f(1) by (auto simp: filter_empty_conv)
  then obtain ev where ev: "finalizeEvent (accum_of (of_id (ge_EventID f) fs)) = Some ev" using finalizeEvent_accum by blast
  have r: "ev \<in> set (gr_Events gr)" "ge_EventID ev = ge_EventID f"
    using reported_iff [OF fs(2)] f(1) ev final_of_id by blast+
  have "revOrder (ge_Class f) \<le> revOrder (ge_Class ev)"
    using final_worst [OF f(1) ev] classified_vocabulary(1) [OF fs(1)] by blast
  moreover have "ge_Status ev = GovUnassessable \<and> ge_Class ev = ''irreversible''" if "\<not> rec_SchemaOK rec"
    using final_unassessable [OF f(1) ev _ classified_vocabulary(2) [OF fs(1)]] classifyEvent_unassessable(1) [OF f(2)] that
    by simp
  moreover have "ev' = ev" if "ev' \<in> set (gr_Events gr)" "ge_EventID ev' = ge_EventID f" for ev'
    using reported_unique [OF fs(2)] that r by simp
  ultimately show ?thesis using f(2) r by blast
qed

section \<open>The coverage gate\<close>

lemma coverage_OK:
  assumes "coverage art accs = Some cov" "gc_Status cov = ''OK''" "(i, acc) \<in> set accs"
  shows "\<exists>ev co. finalizeEvent acc = Some ev \<and> man_Correspondence (art_Manifest art) = Some co
    \<and> (ge_Status ev = GovUnassessable \<longrightarrow> classRecoverable ev)
    \<and> (ge_Status ev = GovPolicyBound \<and> ge_Class ev \<noteq> ''irreversible'' \<or> set (ga_eventClasses acc) \<subseteq> set (co_Classes co))"
proof -
  let ?es = "map (\<lambda>(i, acc). map_option (\<lambda>ev. (i, acc, ev)) (finalizeEvent acc)) accs"
  obtain events where e: "?es = map Some events"
    using assms(1) by (auto simp: coverage_def Let_def those_Some_iff split: option.splits)
  have "map_option (\<lambda>ev. (i, acc, ev)) (finalizeEvent acc) \<in> set (map Some events)"
    using assms(3) unfolding e [symmetric] by force
  then obtain ev where ev: "finalizeEvent acc = Some ev" "(i, acc, ev) \<in> set events" by auto
  have ths: "those ?es = Some events" using e by (simp only: those_Some_iff)
  show ?thesis using assms(1,2) ev
    by (fastforce simp: coverage_def Let_def ths filter_empty_conv isIrreversibleClass_def split: if_splits option.splits)
qed

text \<open>The merged finding of one event id keeps its event class, so where its schema failed and the gate is open the class was
  recovered from some record.\<close>

lemma final_event_class:
  assumes "evs \<noteq> []" "finalizeEvent (accum_of evs) = Some ev"
  shows "ge_EventClass ev = ge_EventClass (gov_merge.merge_all (hd evs) (tl evs))"
proof -
  have "ga_primary (accum_of evs) = Some (gov_merge.merge_all (hd evs) (tl evs))"
    using assms(1) accum_of_primary [of "hd evs" "tl evs"] by simp
  then show ?thesis using assms(2) by (auto simp: finalizeEvent_def Let_def split: if_splits)
qed

lemma unassessable_recovered:
  assumes fs: "classified cr art fs" and f: "f \<in> set fs" "ge_Status f = GovUnassessable"
    and ev: "finalizeEvent (accum_of (of_id (ge_EventID f) fs)) = Some ev" "ge_Status ev = GovUnassessable \<longrightarrow> classRecoverable ev"
  shows "\<exists>rec' \<in> set (AllRecords art). governed rec' \<and> (\<exists>f'. classifyEvent cr art rec' = Some f' \<and> ge_EventID f' = ge_EventID f
    \<and> ge_EventClass f' \<noteq> [] \<and> ge_EventClass f' \<in> set (ga_eventClasses (accum_of (of_id (ge_EventID f) fs)))
    \<and> revOrder (ge_Class f) \<le> revOrder (ge_Class f'))"
proof -
  let ?evs = "of_id (ge_EventID f) fs"
  let ?m = "gov_merge.merge_all (hd ?evs) (tl ?evs)"
  have ne: "?evs \<noteq> []" using f(1) by (auto simp: filter_empty_conv)
  have "classRecoverable ev" using final_unassessable [OF f(1) ev(1) f(2) classified_vocabulary(2) [OF fs]] ev(2) by blast
  then have c: "ge_EventClass ?m \<noteq> []" using final_event_class [OF ne ev(1)] by (simp add: classRecoverable_def)
  have m: "?m \<in> set ?evs" using gov_merge.merge_all_in [of "hd ?evs" "tl ?evs"] ne by simp
  then have "ge_EventClass ?m \<in> set (ga_eventClasses (accum_of ?evs))" using c by (auto simp: accum_of_fields)
  moreover have "revOrder (ge_Class f) \<le> revOrder (ge_Class ?m)"
    using gov_merge.merge_all_worst [of f "hd ?evs" "tl ?evs"] ne f(1) by simp
  ultimately show ?thesis using c m classified_in [OF fs] by auto
qed

text \<open>C15: what coverage OK says of every governed record. Take a run whose coverage is OK. A record with an event class has
  it among the declared correspondence classes, unless a governed record of the same event id, at least as severe, is
  POLICY-BOUND: a policy whose bytes hash to its decision's reference binds its class, and that class is not irreversible; a
  record whose schema failed is not excused by that. A record without an event class is not gated by one. If its schema holds,
  nothing more is asked of it, against section 5 of docs/GOVERNABILITY-EXTENSION.md; if its schema failed, another governed
  record of the same event id, at least as severe, has a class, and this class is a declared one.\<close>
theorem coverage_OK_sound:
  assumes "governRun cr art run = Some gr" "gc_Status (gr_Coverage gr) = ''OK''"
    and "rec \<in> set (AllRecords art)" "governed rec"
  shows "\<exists>f co. classifyEvent cr art rec = Some f \<and> man_Correspondence (art_Manifest art) = Some co
    \<and> (ge_EventClass f \<in> set (co_Classes co)
       \<or> ge_EventClass f = [] \<and> (rec_SchemaOK rec
          \<or> (\<exists>rec' f'. rec' \<in> set (AllRecords art) \<and> governed rec' \<and> classifyEvent cr art rec' = Some f'
               \<and> ge_EventID f' = ge_EventID f \<and> ge_EventClass f' \<noteq> [] \<and> ge_EventClass f' \<in> set (co_Classes co)
               \<and> revOrder (ge_Class f) \<le> revOrder (ge_Class f')))
       \<or> rec_SchemaOK rec \<and> (\<exists>rec' f'. rec' \<in> set (AllRecords art) \<and> governed rec' \<and> classifyEvent cr art rec' = Some f'
            \<and> ge_EventID f' = ge_EventID f \<and> ge_Status f' = GovPolicyBound \<and> binds cr art rec' (ge_Class f')
            \<and> ge_Class f' \<noteq> ''irreversible'' \<and> revOrder (ge_Class f) \<le> revOrder (ge_Class f')))"
proof -
  obtain fs where fs: "classified cr art fs"
    "map (\<lambda>(i, acc). finalizeEvent acc) (fold add_event fs []) = map Some (gr_Events gr)"
    "coverage art (fold add_event fs []) = Some (gr_Coverage gr)"
    using governRun_Some [OF assms(1)] by blast
  obtain f where f: "f \<in> set fs" "classifyEvent cr art rec = Some f" using classified_rec [OF fs(1) assms(3,4)] by blast
  let ?evs = "of_id (ge_EventID f) fs"
  have ne: "?evs \<noteq> []" using f(1) by (auto simp: filter_empty_conv)
  have "(ge_EventID f, accum_of ?evs) \<in> set (fold add_event fs [])" using f(1) by (auto simp: in_add_events)
  then obtain ev co where ev: "finalizeEvent (accum_of ?evs) = Some ev" "man_Correspondence (art_Manifest art) = Some co"
    "ge_Status ev = GovPolicyBound \<and> ge_Class ev \<noteq> ''irreversible'' \<or> set (ga_eventClasses (accum_of ?evs)) \<subseteq> set (co_Classes co)"
    "ge_Status ev = GovUnassessable \<longrightarrow> classRecoverable ev"
    using coverage_OK [OF fs(3) assms(2)] by blast
  show ?thesis
  proof (cases "set (ga_eventClasses (accum_of ?evs)) \<subseteq> set (co_Classes co)")
    case True
    then consider "ge_EventClass f \<in> set (co_Classes co)" | "ge_EventClass f = []" "rec_SchemaOK rec"
      | "ge_EventClass f = []" "ge_Status f = GovUnassessable"
      using f(1) classifyEvent_unassessable(1) [OF f(2)] by (auto simp: accum_of_fields)
    then show ?thesis
    proof cases
      case 3
      then show ?thesis using unassessable_recovered [OF fs(1) f(1) 3(2) ev(1,4)] True f(2) ev(2) by blast
    qed (use f(2) ev(2) in blast)+
  next
    case False
    let ?m = "gov_merge.merge_all (hd ?evs) (tl ?evs)"
    have b: "ge_Status ev = GovPolicyBound" "ge_Class ev \<noteq> ''irreversible''" using ev(3) False by auto
    have un: "\<not> (\<exists>g \<in> set ?evs. ge_Status g = GovUnassessable)"
      using finalizeEvent_accum [OF ne] ev(1) b(1) by (auto split: if_splits)
    then have m: "ge_Status ?m = GovPolicyBound" "ge_Class ?m \<noteq> ''irreversible''"
      using finalizeEvent_accum [OF ne] ev(1) b by (auto split: if_splits)
    have "?m \<in> set ?evs" using gov_merge.merge_all_in [of "hd ?evs" "tl ?evs"] ne by simp
    then obtain rec' where r: "rec' \<in> set (AllRecords art)" "governed rec'" "classifyEvent cr art rec' = Some ?m"
      "ge_EventID ?m = ge_EventID f"
      using classified_in [OF fs(1)] by auto
    have "binds cr art rec' (ge_Class ?m)" using softer_class [OF r(3) m(2)] m(1) by auto
    moreover have "revOrder (ge_Class f) \<le> revOrder (ge_Class ?m)"
      using gov_merge.merge_all_worst [of f "hd ?evs" "tl ?evs"] ne f(1) by simp
    moreover have "rec_SchemaOK rec" using classifyEvent_unassessable(1) [OF f(2)] un f(1) by auto
    ultimately show ?thesis using r m f(2) ev(2) by blast
  qed
qed

end
