(* ===== verification/Multi_Facts.thy ===== *)
theory Multi_Facts
  imports Grade
begin

text \<open>
  What the checks across recorders, anchors and counterparty establish when they pass, as rules of the
  collection \<open>pass_simps\<close>, and what the grades AEL-2, AEL-3 and AEL-4 therefore promise of a run.
\<close>

section \<open>Keys\<close>

definition one_key :: "RecorderLog \<Rightarrow> string \<Rightarrow> bool" where
  "one_key log key \<longleftrightarrow> log_Records log \<noteq> [] \<and> key \<noteq> []
     \<and> (\<forall>r \<in> set (log_Records log). authentic r \<and> to_lower (pl_Key (rec_Payload r)) = key)
     \<and> (log_Key log = [] \<or> to_lower (log_Key log) = key)"

lemma recorder_key_Inr:
  "recorder_key log key recs = Inr k \<longleftrightarrow>
     (\<forall>r \<in> set recs. authentic r \<and> to_lower (pl_Key (rec_Payload r)) = k)
     \<and> (if key = [] then recs = [] \<and> k = [] \<or> recs \<noteq> [] \<and> k \<noteq> [] else k = key)"
proof (induction recs arbitrary: key)
  case (Cons r recs)
  define l where "l = to_lower (pl_Key (rec_Payload r))"
  have step: "recorder_key log key (r # recs) = Inr k \<longleftrightarrow>
      authentic r \<and> l \<noteq> [] \<and> (key = [] \<or> l = key) \<and> recorder_key log l recs = Inr k"
    by (simp add: authentic_def Let_def l_def)
  show ?case unfolding step Cons.IH set_simps ball_simps l_def [symmetric] by (cases "l = []"; cases "key = []") auto
qed auto

lemma recorder_key_Inl: "recorder_key log key recs = Inl out \<Longrightarrow> Status out \<noteq> Pass"
  by (induction recs arbitrary: key) (auto simp: Let_def split: if_splits)

lemma verifiedRecorderKey_Pass [pass_simps]:
  "Status (snd (verifiedRecorderKey log)) = Pass \<longleftrightarrow> one_key log (fst (verifiedRecorderKey log))"
proof (cases "recorder_key log [] (log_Records log)")
  case (Inl out)
  then have "log_Records log \<noteq> []" by auto
  then have "verifiedRecorderKey log = ([], out)" using Inl by (simp add: verifiedRecorderKey_def)
  then show ?thesis using recorder_key_Inl [OF Inl] by (simp add: one_key_def)
next
  case (Inr k)
  then have k: "(\<forall>r \<in> set (log_Records log). authentic r \<and> to_lower (pl_Key (rec_Payload r)) = k)"
    "log_Records log \<noteq> [] \<Longrightarrow> k \<noteq> []"
    by (auto simp: recorder_key_Inr)
  then show ?thesis using Inr by (auto simp: verifiedRecorderKey_def one_key_def)
qed

lemma alookup_recorder_keys:
  assumes "distinct (map log_ID logs)" "log \<in> set logs"
  shows "alookup (recorder_keys logs) (log_ID log) = Some (fst (verifiedRecorderKey log))"
  using assms
proof (induction logs rule: rev_induct)
  case (snoc x xs)
  have "log_ID log \<noteq> log_ID x" if "log \<in> set xs" using snoc.prems(1) imageI [OF that, of log_ID] by auto
  then show ?case using snoc by (auto simp: recorder_keys_def alookup_aput)
qed simp

lemma pairs_distinct:
  "(\<forall>i < length xs. \<forall>j \<in> {Suc i..<length xs}. f (xs ! i) \<noteq> f (xs ! j)) \<longleftrightarrow> distinct (map f xs)" (is "?l \<longleftrightarrow> ?r")
proof
  assume ?l
  then have "i < length xs \<Longrightarrow> j < length xs \<Longrightarrow> i < j \<Longrightarrow> f (xs ! i) \<noteq> f (xs ! j)" for i j by simp
  then show ?r by (auto simp: distinct_conv_nth) (metis nat_neq_iff)
qed (auto simp: distinct_conv_nth)

lemma checkKeysDiffer_Pass [pass_simps]:
  "Status (checkKeysDiffer art) = Pass \<longleftrightarrow>
     (let logs = logsForArtifactRun art in 2 \<le> length logs
        \<and> (\<forall>log \<in> set logs. one_key log (fst (verifiedRecorderKey log)))
        \<and> distinct (map log_ID logs) \<and> distinct (map (\<lambda>log. fst (verifiedRecorderKey log)) logs))"
proof -
  let ?logs = "logsForArtifactRun art"
  let ?keys = "recorder_keys ?logs"
  have d: "distinct (map (\<lambda>log. map_get ?keys (log_ID log)) ?logs) \<longleftrightarrow>
      distinct (map log_ID ?logs) \<and> distinct (map (\<lambda>log. fst (verifiedRecorderKey log)) ?logs)" (is "?l \<longleftrightarrow> ?r")
  proof (cases "distinct (map log_ID ?logs)")
    case True
    then have eq: "map (\<lambda>log. map_get ?keys (log_ID log)) ?logs = map (\<lambda>log. fst (verifiedRecorderKey log)) ?logs"
      using alookup_recorder_keys by (auto simp: map_get_def)
    show ?thesis unfolding eq using True by simp
  next
    case False
    have "?l \<Longrightarrow> distinct (map (map_get ?keys) (map log_ID ?logs))" by (simp add: comp_def)
    then have "?l \<Longrightarrow> distinct (map log_ID ?logs)" using distinct_map by blast
    then show ?thesis using False by blast
  qed
  have c: "(\<forall>i < length ?logs. \<forall>j \<in> {Suc i..<length ?logs}.
      map_get ?keys (log_ID (?logs ! i)) \<noteq> map_get ?keys (log_ID (?logs ! j))) \<longleftrightarrow>
      distinct (map log_ID ?logs) \<and> distinct (map (\<lambda>log. fst (verifiedRecorderKey log)) ?logs)"
    using pairs_distinct [of ?logs "\<lambda>log. map_get ?keys (log_ID log)"] d by simp
  show ?thesis
    by (simp add: checkKeysDiffer_def Let_def or_pass_fails fails_intros scan_simps pass_simps c not_less)
qed

section \<open>Covered events\<close>

lemma alookup_covered_map:
  assumes "distinct (map log_ID logs)" "log \<in> set logs"
  shows "alookup (covered_map logs classes) (log_ID log) = Some (coveredEvents log classes)"
  using assms
proof (induction logs rule: rev_induct)
  case (snoc x xs)
  have "log_ID log \<noteq> log_ID x" if "log \<in> set xs" using snoc.prems(1) imageI [OF that, of log_ID] by auto
  then show ?case using snoc by (auto simp: covered_map_def alookup_aput)
qed simp

definition same_events :: "RecorderLog list \<Rightarrow> string list \<Rightarrow> bool" where
  "same_events logs classes \<longleftrightarrow>
     (\<forall>log \<in> set logs. \<forall>log' \<in> set logs. set (coveredEvents log classes) = set (coveredEvents log' classes))"

lemma checkTwoRecorders_Pass [pass_simps]:
  "Status (checkTwoRecorders art) = Pass \<longleftrightarrow> 2 \<le> length (logsForArtifactRun art)
     \<and> (\<forall>log \<in> set (logsForArtifactRun art). Status (recorderAEL1 log) = Pass)"
  by (auto simp: checkTwoRecorders_def Let_def or_pass_fails fails_intros scan_simps not_less)

lemma checkCrossAudit_Pass:
  assumes "Status (checkCrossAudit art) = Pass" "distinct (map log_ID (logsForArtifactRun art))"
  shows "\<exists>co. man_Correspondence (art_Manifest art) = Some co \<and> co_Classes co \<noteq> [] \<and> co_Match co = ''id''
    \<and> same_events (logsForArtifactRun art) (co_Classes co)"
proof -
  let ?logs = "logsForArtifactRun art"
  obtain co where co: "man_Correspondence (art_Manifest art) = Some co"
    using assms(1) by (auto simp: checkCrossAudit_def Let_def split: option.splits)
  have c: "co_Classes co \<noteq> []" "co_Match co = ''id''"
    using assms(1) co by (auto simp: checkCrossAudit_def Let_def split: if_splits)
  have "\<forall>ev \<in> set (concat (map (\<lambda>log. coveredEvents log (co_Classes co)) ?logs)). \<forall>log \<in> set ?logs.
      covers (covered_map ?logs (co_Classes co)) log ev"
    using assms(1) co c
    by (auto simp: checkCrossAudit_def Let_def or_pass_fails fails_intros scan_simps filter_empty_conv split: if_splits)
  moreover have "covers (covered_map ?logs (co_Classes co)) log ev \<longleftrightarrow> ev \<in> set (coveredEvents log (co_Classes co))"
    if "log \<in> set ?logs" for log ev
    using alookup_covered_map [OF assms(2) that] by (simp add: covers_def)
  ultimately have "same_events ?logs (co_Classes co)" unfolding same_events_def by auto
  then show ?thesis using co c by blast
qed

section \<open>Anchors\<close>

lemma with_anchors_Pass:
  "Status (with_anchors art f) = Pass \<longleftrightarrow>
     (\<exists>decl an. man_Anchor (art_Manifest art) = Some decl \<and> art_AnchorsErr art = None \<and> art_Anchors art = Some an
        \<and> Status (f decl an) = Pass)"
  by (auto simp: with_anchors_def split: option.splits)

definition head_signed :: "crypto \<Rightarrow> Artifact \<Rightarrow> AnchorDecl \<Rightarrow> Anchors \<Rightarrow> bool" where
  "head_signed cr art decl an \<longleftrightarrow>
     (\<exists>pub signed sig sth. alookup (art_Keys art) (to_lower (ad_LogKey decl)) = Some pub
        \<and> ed25519_verify cr pub signed sig \<and> parseSignedTreeHead signed = Inr sth
        \<and> sth_Log sth = an_Log an \<and> sth_Root sth = th_Root (an_TreeHead an) \<and> sth_Size sth = th_Size (an_TreeHead an))"

lemma checkTreeHead_Pass:
  assumes "Status (checkTreeHead cr art) = Pass"
  shows "\<exists>decl an. man_Anchor (art_Manifest art) = Some decl \<and> art_Anchors art = Some an \<and> head_signed cr art decl an"
proof -
  obtain decl an where an: "man_Anchor (art_Manifest art) = Some decl" "art_Anchors art = Some an"
    using assms unfolding checkTreeHead_def with_anchors_Pass by blast
  note [simp] = an checkTreeHead_def with_anchors_def Let_def
  obtain pub where [simp]: "alookup (art_Keys art) (to_lower (ad_LogKey decl)) = Some pub"
    using assms by (cases "alookup (art_Keys art) (to_lower (ad_LogKey decl))") (auto split: option.splits)
  obtain signed where [simp]: "decodeStdBase64Field ''tree_head.signed'' (th_Signed (an_TreeHead an)) = Inr signed"
    using assms by (cases "decodeStdBase64Field ''tree_head.signed'' (th_Signed (an_TreeHead an))") (auto split: option.splits)
  obtain canon where [simp]: "Canonicalize signed = Inr canon"
    using assms by (cases "Canonicalize signed") (auto split: option.splits)
  obtain sth where [simp]: "parseSignedTreeHead signed = Inr sth"
    using assms by (cases "parseSignedTreeHead signed") (auto split: option.splits if_splits)
  obtain sig where [simp]: "decodeStdBase64Field ''tree_head.sig'' (th_Sig (an_TreeHead an)) = Inr sig"
    using assms by (cases "decodeStdBase64Field ''tree_head.sig'' (th_Sig (an_TreeHead an))") (auto split: option.splits if_splits)
  have "ed25519_verify cr pub signed sig \<and> sth_Log sth = an_Log an \<and> sth_Root sth = th_Root (an_TreeHead an)
      \<and> sth_Size sth = th_Size (an_TreeHead an)"
    using assms by (auto split: option.splits if_splits)
  then show ?thesis unfolding head_signed_def by auto
qed

definition included :: "crypto \<Rightarrow> int \<Rightarrow> string \<Rightarrow> AnchorEntry \<Rightarrow> bool" where
  "included cr sz root entry \<longleftrightarrow>
     (\<exists>leaf proof. decodeHex32 (ae_Leaf entry) = Inr leaf \<and> decode_proof (ae_Proof entry) = Inr proof
        \<and> merkleRootFromProof cr leaf (ae_Index entry) sz proof = Some (Inr root))"

lemma inclusion_entry_None: "inclusion_entry cr sz root entry = Some None \<longleftrightarrow> included cr sz root entry"
  unfolding inclusion_entry_def included_def Let_def
  by (cases "decodeHex32 (ae_Leaf entry)"; cases "decode_proof (ae_Proof entry)";
      cases "merkleRootFromProof cr (projr (decodeHex32 (ae_Leaf entry))) (ae_Index entry) sz (projr (decode_proof (ae_Proof entry)))")
    (auto split: sum.splits)

lemma inclusion_entry_fails: "inclusion_entry cr sz root entry = Some (Some out) \<Longrightarrow> Status out \<noteq> Pass"
  unfolding inclusion_entry_def Let_def
  by (cases "decodeHex32 (ae_Leaf entry)"; cases "decode_proof (ae_Proof entry)";
      cases "merkleRootFromProof cr (projr (decodeHex32 (ae_Leaf entry))) (ae_Index entry) sz (projr (decode_proof (ae_Proof entry)))")
    (auto split: sum.splits if_splits)

lemma inclusion_entries_None: "inclusion_entries cr sz root es = Some None \<longleftrightarrow> (\<forall>e \<in> set es. included cr sz root e)"
proof (induction es)
  case (Cons e es)
  show ?case
  proof (cases "inclusion_entry cr sz root e")
    case None
    then have "\<not> included cr sz root e" using inclusion_entry_None [of cr sz root e] by simp
    then show ?thesis using None by simp
  next
    case (Some early)
    then show ?thesis using Cons inclusion_entry_None [of cr sz root e] by (cases early) auto
  qed
qed simp

lemma inclusion_entries_fails: "inclusion_entries cr sz root es = Some (Some out) \<Longrightarrow> Status out \<noteq> Pass"
  by (induction es) (auto simp: bind_eq_Some_conv split: option.splits dest: inclusion_entry_fails)

lemma checkInclusion_Pass:
  assumes "Status (checkInclusion cr art) = Pass"
  shows "\<exists>an root. art_Anchors art = Some an \<and> decodeHex32 (th_Root (an_TreeHead an)) = Inr root \<and> an_Entries an \<noteq> []
    \<and> (\<forall>e \<in> set (an_Entries an). included cr (th_Size (an_TreeHead an)) root e)"
proof -
  obtain decl an where an: "art_Anchors art = Some an" "an_Entries an \<noteq> []"
    "Status (case decodeHex32 (th_Root (an_TreeHead an)) of
            Inl err \<Rightarrow> outcome Fail (Errorf ''tree_head.root: %v'' [E err])
          | Inr root \<Rightarrow>
              (case inclusion_entries cr (th_Size (an_TreeHead an)) root (an_Entries an) of
                 None \<Rightarrow> stuck
               | Some early \<Rightarrow> or_pass early (outcome Pass (plain ''all inclusion proofs recompute to tree head root'')))) = Pass"
    using assms unfolding checkInclusion_def with_anchors_Pass by (auto split: if_splits)
  obtain root where root: "decodeHex32 (th_Root (an_TreeHead an)) = Inr root" using an(3) by (auto split: sum.splits)
  obtain early where early: "inclusion_entries cr (th_Size (an_TreeHead an)) root (an_Entries an) = Some early"
    using an(3) root by (auto simp: stuck_def split: option.splits)
  have "early = None" using an(3) root early inclusion_entries_fails by (cases early) (auto simp: or_pass_def)
  then show ?thesis using an root early inclusion_entries_None by auto
qed

definition logged :: "crypto \<Rightarrow> Artifact \<Rightarrow> AnchorEntry \<Rightarrow> Record \<Rightarrow> bool" where
  "logged cr art e r \<longleftrightarrow> findRecord art (ae_Recorder e) (ae_Run e) (ae_Seq e) = Some r
     \<and> decodeHex32 (ae_Leaf e) = Inr (merkleLeaf cr (rec_PayloadRaw r))"

lemma checkAnchorLeaves_Pass:
  assumes "Status (checkAnchorLeaves cr art) = Pass" "art_Anchors art = Some an" "e \<in> set (an_Entries an)"
    and "decodeHex32 (ae_Leaf e) = Inr leaf"
  shows "\<exists>r. logged cr art e r"
proof -
  have "\<forall>e \<in> set (an_Entries an). \<exists>r. findRecord art (ae_Recorder e) (ae_Run e) (ae_Seq e) = Some r
      \<and> merkleLeafHex cr (rec_PayloadRaw r) = to_lower (ae_Leaf e)"
    using assms(1,2) unfolding checkAnchorLeaves_def with_anchors_Pass
    by (auto simp: or_pass_def Let_def scan_simps split: option.splits if_splits dest!: first_some_SomeD)
  then obtain r where r: "findRecord art (ae_Recorder e) (ae_Run e) (ae_Seq e) = Some r"
    "merkleLeafHex cr (rec_PayloadRaw r) = to_lower (ae_Leaf e)" using assms(3) by blast
  have "hex_decode (to_lower (ae_Leaf e)) = Some (merkleLeaf cr (rec_PayloadRaw r))"
    using r(2) by (simp add: merkleLeafHex_def sha256_hex_def merkleLeaf_def flip: r(2))
  then have "leaf = merkleLeaf cr (rec_PayloadRaw r)"
    using assms(4) by (auto simp: decodeHex32_def split: if_splits)
  then show ?thesis using r(1) assms(4) by (auto simp: logged_def)
qed

lemma latest_anchored_entry:
  "alookup (latest_anchored es) i = Some s \<Longrightarrow> \<exists>e \<in> set es. ae_Recorder e = i \<and> ae_Seq e = s"
proof (induction es arbitrary: s rule: rev_induct)
  case (snoc e es)
  then show ?case
    by (cases "alookup (latest_anchored es) (ae_Recorder e)") (auto simp: latest_anchored_def alookup_aput split: if_splits)
qed (simp add: latest_anchored_def)

lemma checkUnanchoredWindow_Pass:
  assumes "Status (checkUnanchoredWindow art) = Pass" "art_Anchors art = Some an" "log \<in> set (logsForArtifactRun art)"
  shows "\<exists>e \<in> set (an_Entries an). ae_Recorder e = log_ID log \<and> (\<forall>r \<in> set (log_Records log). pl_Seq (rec_Payload r) \<le> ae_Seq e)"
proof -
  have "unanchored_windows (latest_anchored (an_Entries an)) log = []"
    using assms unfolding checkUnanchoredWindow_def with_anchors_Pass by (auto simp: Let_def split: if_splits)
  then obtain s where "alookup (latest_anchored (an_Entries an)) (log_ID log) = Some s"
    "\<forall>r \<in> set (log_Records log). pl_Seq (rec_Payload r) \<le> s"
    by (auto simp: unanchored_windows_def filter_empty_conv not_less split: option.splits)
  then show ?thesis using latest_anchored_entry by blast
qed

lemma recorder_key_clash_None:
  "recorder_key_clash art key f = None \<longleftrightarrow>
     (\<forall>log \<in> set (logsForArtifactRun art). \<exists>k. one_key log k \<and> k = fst (verifiedRecorderKey log) \<and> k \<noteq> key)"
  by (auto simp: recorder_key_clash_def scan_simps split_beta pass_simps)

lemma fails_recorder_key_clash [fails_intros]: "fails (recorder_key_clash art key f)"
  unfolding recorder_key_clash_def by (auto simp: fails_def split_beta split: if_splits dest!: first_some_SomeD)

lemma checkLogKeyIndependent_Pass:
  "Status (checkLogKeyIndependent art) = Pass \<Longrightarrow> man_Anchor (art_Manifest art) = Some decl \<Longrightarrow>
     log \<in> set (logsForArtifactRun art) \<Longrightarrow> \<exists>k. one_key log k \<and> k \<noteq> to_lower (ad_LogKey decl)"
  by (auto simp: checkLogKeyIndependent_def Let_def or_pass_fails fails_intros recorder_key_clash_None split: if_splits)

section \<open>The counterparty\<close>

lemma checkCounterpartySignatures_Pass:
  "Status (checkCounterpartySignatures art) = Pass \<Longrightarrow> stmt \<in> set (counterpartyStatementsForRun art) \<Longrightarrow> authentic_stmt stmt"
  by (auto simp: checkCounterpartySignatures_def or_pass_def scan_simps authentic_stmt_def
      split: option.splits if_splits dest!: first_some_SomeD)

lemma nonce_scan_Inr:
  "nonce_scan run nonce who logs = Inr n \<Longrightarrow>
     (\<forall>log \<in> set logs. log_Run log = run \<and> log_Records log \<noteq> [] \<longrightarrow>
        pl_Type (payload_at log 0) = ''open'' \<and> pl_CPNonce (payload_at log 0) = n)
     \<and> (nonce \<noteq> [] \<longrightarrow> n = nonce)"
proof (induction logs arbitrary: nonce who)
  case (Cons log logs)
  show ?case
  proof (cases "log_Run log \<noteq> run \<or> log_Records log = []")
    case True
    then have "nonce_scan run nonce who logs = Inr n" using Cons.prems by auto
    from Cons.IH [OF this] show ?thesis using True by auto
  next
    case False
    then have p: "pl_Type (payload_at log 0) = ''open''" "pl_CPNonce (payload_at log 0) \<noteq> []"
      using Cons.prems by (auto simp: Let_def split: if_splits)
    show ?thesis
    proof (cases "nonce = []")
      case True
      then have "nonce_scan run (pl_CPNonce (payload_at log 0)) (log_ID log) logs = Inr n"
        using Cons.prems False p by (simp add: Let_def)
      from Cons.IH [OF this] show ?thesis using p True by simp
    next
      case nonce: False
      then have "pl_CPNonce (payload_at log 0) = nonce" "nonce_scan run nonce who logs = Inr n"
        using Cons.prems False p by (auto simp: Let_def split: if_splits)
      with Cons.IH [OF this(2)] show ?thesis using p nonce by simp
    qed
  qed
qed simp

lemma runNonce_Pass:
  "runNonce art run = (nonce, out) \<Longrightarrow> Status out = Pass \<Longrightarrow> nonce \<noteq> []
     \<and> (\<forall>log \<in> set (logsForArtifactRun art). log_Run log = run \<and> log_Records log \<noteq> [] \<longrightarrow>
          pl_Type (payload_at log 0) = ''open'' \<and> pl_CPNonce (payload_at log 0) = nonce)"
proof -
  assume a: "runNonce art run = (nonce, out)" "Status out = Pass"
  have f: "nonce_scan run n who logs = Inl out' \<Longrightarrow> Status out' \<noteq> Pass" for n who logs out'
    by (induction run n who logs rule: nonce_scan.induct) (auto simp: Let_def split: if_splits)
  obtain n where n: "nonce_scan run [] [] (logsForArtifactRun art) = Inr n"
    using a f by (cases "nonce_scan run [] [] (logsForArtifactRun art)") (auto simp: runNonce_def)
  then have "n = nonce" "nonce \<noteq> []" using a by (auto simp: runNonce_def split: if_splits)
  then show ?thesis using nonce_scan_Inr [OF n] by blast
qed

definition bound_stmt :: "string \<Rightarrow> string \<Rightarrow> CounterpartyStatement \<Rightarrow> bool" where
  "bound_stmt run nonce stmt \<longleftrightarrow> cp_V (cs_Payload stmt) = 1 \<and> cp_Type (cs_Payload stmt) = ''received''
     \<and> cp_Run (cs_Payload stmt) = run \<and> cp_Nonce (cs_Payload stmt) = nonce"

lemma checkCounterpartyBinding_Pass:
  assumes "Status (checkCounterpartyBinding art) = Pass"
  shows "\<exists>nonce. nonce \<noteq> []
    \<and> (\<forall>log \<in> set (logsForArtifactRun art). log_Run log = artifactRun art \<and> log_Records log \<noteq> [] \<longrightarrow>
         pl_Type (payload_at log 0) = ''open'' \<and> pl_CPNonce (payload_at log 0) = nonce)
    \<and> (\<forall>stmt \<in> set (counterpartyStatementsForRun art). bound_stmt (artifactRun art) nonce stmt)"
proof -
  obtain nonce out where n: "runNonce art (artifactRun art) = (nonce, out)" by fastforce
  have "Status out = Pass" "\<forall>stmt \<in> set (counterpartyStatementsForRun art). bound_stmt (artifactRun art) nonce stmt"
    using assms n
    by (auto simp: checkCounterpartyBinding_def Let_def or_pass_def scan_simps wrong_run_def bound_stmt_def
        split: option.splits if_splits dest!: first_some_SomeD)
  then show ?thesis using runNonce_Pass [OF n] by blast
qed

lemma checkCounterpartyAudit_Pass:
  assumes "Status (checkCounterpartyAudit art) = Pass"
  shows "\<exists>decl. man_Counterparty (art_Manifest art) = Some decl \<and> cd_Flows decl \<noteq> []
    \<and> set (recorded_flows art (cd_Flows decl)) = set (confirmed_flows (counterpartyStatementsForRun art) (cd_Flows decl))"
proof -
  obtain decl where d: "man_Counterparty (art_Manifest art) = Some decl"
    using assms by (auto simp: checkCounterpartyAudit_def split: option.splits)
  obtain nonce out where n: "runNonce art (artifactRun art) = (nonce, out)" by fastforce
  show ?thesis using assms d n
    by (auto simp: checkCounterpartyAudit_def Let_def or_pass_fails fails_intros scan_simps split: if_splits)
qed

lemma checkCounterpartyKeyIndependent_Pass:
  "Status (checkCounterpartyKeyIndependent art) = Pass \<Longrightarrow> man_Counterparty (art_Manifest art) = Some decl \<Longrightarrow>
     log \<in> set (logsForArtifactRun art) \<Longrightarrow> \<exists>k. one_key log k \<and> k \<noteq> to_lower (cd_Key decl)"
  by (auto simp: checkCounterpartyKeyIndependent_def Let_def or_pass_fails fails_intros recorder_key_clash_None split: if_splits)

section \<open>Replay\<close>

definition replays :: "Artifact \<Rightarrow> Record \<Rightarrow> bool" where
  "replays art rec \<longleftrightarrow>
     (\<exists>dec pol. pl_Decision (rec_Payload rec) = Some dec \<and> alookup (art_Policies art) (de_Policy dec) = Some pol
        \<and> pd_Hash pol = de_Policy dec \<and> Eval pol (de_Inputs dec) = Inr (de_Verdict dec))"

lemma replay_failure_None [scan_simps]:
  "replay_failure art rec = None \<longleftrightarrow> (is_activity rec \<and> pl_Decision (rec_Payload rec) \<noteq> None \<longrightarrow> replays art rec)"
  by (auto simp: replay_failure_def replays_def split: option.splits sum.splits)

lemma length_filter_all: "length (filter P xs) = length xs \<longleftrightarrow> (\<forall>x \<in> set xs. P x)"
proof -
  have "length (filter P xs) + length (filter (\<lambda>x. \<not> P x) xs) = length xs" by (rule sum_length_filter_compl)
  moreover have "filter (\<lambda>x. \<not> P x) xs = [] \<longleftrightarrow> (\<forall>x \<in> set xs. P x)" by (simp add: filter_empty_conv)
  ultimately show ?thesis by (metis add_cancel_right_right length_0_conv)
qed

text \<open>C16: +R means that every decision replays. A run earns the suffix +R exactly when it has
  activities and each carries a decision whose policy is in the artifact, under the hash the record commits to,
  and evaluates on the recorded inputs to the recorded verdict.\<close>
theorem checkR_replays:
  "fst (checkR art) = ''+R'' \<longleftrightarrow> (\<exists>rec \<in> set (AllRecords art). is_activity rec)
     \<and> (\<forall>rec \<in> set (AllRecords art). is_activity rec \<longrightarrow> replays art rec)"
proof -
  let ?as = "filter is_activity (AllRecords art)"
  have l: "length (filter (\<lambda>rec. pl_Decision (rec_Payload rec) \<noteq> None) ?as) = length ?as \<longleftrightarrow>
      (\<forall>rec \<in> set ?as. pl_Decision (rec_Payload rec) \<noteq> None)" by (rule length_filter_all)
  have d: "replays art rec \<Longrightarrow> pl_Decision (rec_Payload rec) \<noteq> None" for rec by (auto simp: replays_def)
  show ?thesis
  proof (cases "first_some (replay_failure art) (AllRecords art)")
    case None
    then have n: "\<forall>rec \<in> set (AllRecords art). is_activity rec \<and> pl_Decision (rec_Payload rec) \<noteq> None \<longrightarrow> replays art rec"
      by (simp add: scan_simps)
    have "fst (checkR art) = ''+R'' \<longleftrightarrow> ?as \<noteq> [] \<and> (\<forall>rec \<in> set ?as. pl_Decision (rec_Payload rec) \<noteq> None)"
      unfolding checkR_def Let_def None option.case by (simp add: l del: filter_filter not_None_eq)
    also have "?as \<noteq> [] \<longleftrightarrow> (\<exists>rec \<in> set (AllRecords art). is_activity rec)" by (simp add: filter_empty_conv)
    also have "(\<forall>rec \<in> set ?as. pl_Decision (rec_Payload rec) \<noteq> None) \<longleftrightarrow>
        (\<forall>rec \<in> set (AllRecords art). is_activity rec \<longrightarrow> replays art rec)"
      using n d by fastforce
    finally show ?thesis .
  next
    case (Some out)
    then obtain rec where "rec \<in> set (AllRecords art)" "replay_failure art rec \<noteq> None" using first_some_SomeD by fastforce
    then show ?thesis using Some d by (auto simp: checkR_def Let_def scan_simps)
  qed
qed

section \<open>What the upper grades promise\<close>

lemma earned:
  assumes "int g \<le> res_Grade (evaluateRun cr art)" "g \<in> {1..4}"
  shows "allPass (run_checks cr art) (grade_checks g)"
  using grade_ladder [of "mark_open (ungraded_result cr art)"] assms
  by (auto simp: evaluateRun_def ungraded_result_def)

text \<open>C6: AEL-2 means independent recorders that agree. A run with grade 2 or more has at least two
  logs; each satisfies the AEL-1 contract on its own; each is signed throughout by one key; the recorder ids and
  the keys are pairwise different; and all logs hold the same ids of covered events.\<close>
theorem ael2_sound:
  assumes "2 \<le> res_Grade (evaluateRun cr art)"
  shows "let logs = logsForArtifactRun art in 2 \<le> length logs
    \<and> (\<forall>log \<in> set logs. Status (recorderAEL1 log) = Pass)
    \<and> distinct (map log_ID logs)
    \<and> (\<exists>keys. length keys = length logs \<and> distinct keys \<and> list_all2 one_key logs keys)
    \<and> (\<exists>co. man_Correspondence (art_Manifest art) = Some co \<and> co_Classes co \<noteq> [] \<and> same_events logs (co_Classes co))"
proof -
  have "allPass (run_checks cr art) (grade_checks 2)" using earned [of 2] assms by simp
  then have p: "Status (checkTwoRecorders art) = Pass" "Status (checkKeysDiffer art) = Pass" "Status (checkCrossAudit art) = Pass"
    by (simp_all add: grade_checks_def allPass_Cons run_checks_at eval_nat_numeral)
  let ?logs = "logsForArtifactRun art" and ?keys = "map (\<lambda>log. fst (verifiedRecorderKey log)) (logsForArtifactRun art)"
  have "list_all2 one_key ?logs ?keys" "distinct ?keys" "distinct (map log_ID ?logs)"
    using p(2) unfolding pass_simps Let_def by (auto simp: list_all2_map2 list_all2_same)
  then have "\<exists>keys. length keys = length ?logs \<and> distinct keys \<and> list_all2 one_key ?logs keys" "distinct (map log_ID ?logs)"
    by (auto intro!: exI [of _ ?keys])
  then show ?thesis using p checkCrossAudit_Pass [OF p(3)] unfolding Let_def by (auto simp: pass_simps)
qed

text \<open>C5: AEL-3 means that an outside log holds every recorder's head. In a run with grade 3 or
  more, the published log key signed a tree head with the presented root and size, no recorder of the run signs
  with that key, and for each log there is an anchored entry at or beyond its last sequence
  number whose record is present: the Merkle leaf of that record's bytes is proven under the signed root.\<close>
theorem ael3_sound:
  assumes "3 \<le> res_Grade (evaluateRun cr art)"
  shows "\<exists>decl an root. man_Anchor (art_Manifest art) = Some decl \<and> art_Anchors art = Some an \<and> head_signed cr art decl an
    \<and> decodeHex32 (th_Root (an_TreeHead an)) = Inr root
    \<and> (\<forall>log \<in> set (logsForArtifactRun art). (\<exists>k. one_key log k \<and> k \<noteq> to_lower (ad_LogKey decl))
        \<and> (\<exists>e \<in> set (an_Entries an). ae_Recorder e = log_ID log \<and> (\<forall>r \<in> set (log_Records log). pl_Seq (rec_Payload r) \<le> ae_Seq e)
            \<and> (\<exists>r proof. findRecord art (ae_Recorder e) (ae_Run e) (ae_Seq e) = Some r \<and> decode_proof (ae_Proof e) = Inr proof
                 \<and> merkleRootFromProof cr (merkleLeaf cr (rec_PayloadRaw r)) (ae_Index e) (th_Size (an_TreeHead an)) proof
                     = Some (Inr root))))"
proof -
  have "allPass (run_checks cr art) (grade_checks 3)" using earned [of 3] assms by simp
  then have p: "Status (checkTreeHead cr art) = Pass" "Status (checkInclusion cr art) = Pass" "Status (checkAnchorLeaves cr art) = Pass"
    "Status (checkUnanchoredWindow art) = Pass" "Status (checkLogKeyIndependent art) = Pass"
    by (simp_all add: grade_checks_def allPass_Cons run_checks_at eval_nat_numeral)
  obtain decl an where an: "man_Anchor (art_Manifest art) = Some decl" "art_Anchors art = Some an" "head_signed cr art decl an"
    using checkTreeHead_Pass [OF p(1)] by blast
  obtain root where root: "decodeHex32 (th_Root (an_TreeHead an)) = Inr root"
    "\<forall>e \<in> set (an_Entries an). included cr (th_Size (an_TreeHead an)) root e"
    using checkInclusion_Pass [OF p(2)] an(2) by auto
  have "\<exists>r proof. findRecord art (ae_Recorder e) (ae_Run e) (ae_Seq e) = Some r \<and> decode_proof (ae_Proof e) = Inr proof
      \<and> merkleRootFromProof cr (merkleLeaf cr (rec_PayloadRaw r)) (ae_Index e) (th_Size (an_TreeHead an)) proof = Some (Inr root)"
    if e: "e \<in> set (an_Entries an)" for e
  proof -
    obtain leaf nodes where lp: "decodeHex32 (ae_Leaf e) = Inr leaf" "decode_proof (ae_Proof e) = Inr nodes"
      "merkleRootFromProof cr leaf (ae_Index e) (th_Size (an_TreeHead an)) nodes = Some (Inr root)"
      using root(2) e by (auto simp: included_def)
    then show ?thesis using checkAnchorLeaves_Pass [OF p(3) an(2) e lp(1)] by (auto simp: logged_def)
  qed
  moreover have "\<exists>e \<in> set (an_Entries an). ae_Recorder e = log_ID log \<and> (\<forall>r \<in> set (log_Records log). pl_Seq (rec_Payload r) \<le> ae_Seq e)"
    if "log \<in> set (logsForArtifactRun art)" for log
    using checkUnanchoredWindow_Pass [OF p(4) an(2) that] .
  moreover have "\<exists>k. one_key log k \<and> k \<noteq> to_lower (ad_LogKey decl)" if "log \<in> set (logsForArtifactRun art)" for log
    using checkLogKeyIndependent_Pass [OF p(5) an(1) that] .
  ultimately show ?thesis using an root(1) by fast
qed

text \<open>C4: AEL-4 means that the other side saw the same. In a run with grade 4, every statement of
  the counterparty for the run is authentic, canonical and bound to the run and to the one nonce that all open
  records carry; the counterparty's key is no recorder's key; and the outbound events the recorders hold on the
  confirmed flows are exactly those the counterparty received.\<close>
theorem ael4_sound:
  assumes "4 \<le> res_Grade (evaluateRun cr art)"
  shows "\<exists>decl nonce. man_Counterparty (art_Manifest art) = Some decl \<and> nonce \<noteq> []
    \<and> (\<forall>log \<in> set (logsForArtifactRun art). (\<exists>k. one_key log k \<and> k \<noteq> to_lower (cd_Key decl))
         \<and> (log_Run log = artifactRun art \<longrightarrow> pl_CPNonce (payload_at log 0) = nonce))
    \<and> (\<forall>stmt \<in> set (counterpartyStatementsForRun art). authentic_stmt stmt \<and> bound_stmt (artifactRun art) nonce stmt)
    \<and> set (recorded_flows art (cd_Flows decl)) = set (confirmed_flows (counterpartyStatementsForRun art) (cd_Flows decl))"
proof -
  have "allPass (run_checks cr art) (grade_checks 4)" using earned [of 4] assms by simp
  then have p: "Status (checkCounterpartySignatures art) = Pass" "Status (checkCounterpartyBinding art) = Pass"
    "Status (checkCounterpartyAudit art) = Pass" "Status (checkCounterpartyKeyIndependent art) = Pass"
    by (simp_all add: grade_checks_def allPass_Cons run_checks_at eval_nat_numeral)
  obtain decl where decl: "man_Counterparty (art_Manifest art) = Some decl"
    "set (recorded_flows art (cd_Flows decl)) = set (confirmed_flows (counterpartyStatementsForRun art) (cd_Flows decl))"
    using checkCounterpartyAudit_Pass [OF p(3)] by blast
  obtain nonce where nonce: "nonce \<noteq> []"
    "\<forall>log \<in> set (logsForArtifactRun art). log_Run log = artifactRun art \<and> log_Records log \<noteq> [] \<longrightarrow>
       pl_Type (payload_at log 0) = ''open'' \<and> pl_CPNonce (payload_at log 0) = nonce"
    "\<forall>stmt \<in> set (counterpartyStatementsForRun art). bound_stmt (artifactRun art) nonce stmt"
    using checkCounterpartyBinding_Pass [OF p(2)] by blast
  have k: "\<exists>k. one_key log k \<and> k \<noteq> to_lower (cd_Key decl)" if "log \<in> set (logsForArtifactRun art)" for log
    using checkCounterpartyKeyIndependent_Pass [OF p(4) decl(1) that] .
  then have "\<forall>log \<in> set (logsForArtifactRun art). log_Records log \<noteq> []" by (auto simp: one_key_def)
  then have "\<forall>log \<in> set (logsForArtifactRun art). log_Run log = artifactRun art \<longrightarrow> pl_CPNonce (payload_at log 0) = nonce"
    using nonce(2) by blast
  moreover have "\<forall>stmt \<in> set (counterpartyStatementsForRun art). authentic_stmt stmt"
    using checkCounterpartySignatures_Pass [OF p(1)] by blast
  ultimately show ?thesis using decl nonce(1,3) k by (intro exI [of _ decl] exI [of _ nonce]) blast
qed

end
