(* ===== verification/Loaded.thy ===== *)
theory Loaded
  imports Gov_Facts Multi_Facts
begin

text \<open>
  What loading guarantees to the rest of the program. The checker reads a canonical document twice, by
  the token parser of \<open>canonical.go\<close> and by \<open>json.Unmarshal\<close>: both see the same tree. So the sizes of
  a loaded anchor file are safe integers and check o always returns, and a record whose schema holds has an
  event, so the governability report never dereferences nil. Further: which runs an artifact has,
  and that declarations do not move a grade.
\<close>

section \<open>Two readers of one document\<close>

fun json_of :: "cvalue \<Rightarrow> json" where
  "json_of CNull = JNull"
| "json_of (CBool b) = JBool b"
| "json_of (CStr s) = JStr s"
| "json_of (CInt n) = JNum (show_int n)"
| "json_of (CArr vs) = JArr (map json_of vs)"
| "json_of (CObj ms) = JObj (map (\<lambda>(k, v). (k, json_of v)) ms)"

text \<open>\<open>reads v\<close>: whatever follows, the tree parser consumes exactly the tokens of \<open>v\<close>, if it succeeds.\<close>

definition reads :: "cvalue \<Rightarrow> bool" where
  "reads v \<longleftrightarrow> (\<forall>f d r x. pvalue f d (vtoks v @ r) = Some x \<longrightarrow> x = (json_of v, r))"

lemma readsD: "reads v \<Longrightarrow> pvalue f d (vtoks v @ r) = Some (j, r') \<Longrightarrow> j = json_of v \<and> r' = r"
  unfolding reads_def by blast

lemma tsep_items: "tsep (map f (x # xs)) @ r = f x @ (if xs = [] then r else Comma # tsep (map f xs) @ r)"
  by (cases xs) simp_all

lemma reads_items:
  assumes "vs \<noteq> []" "\<forall>v \<in> set vs. reads v" "pitems f d (tsep (map vtoks vs) @ RBrack # r) = Some x"
  shows "x = (map json_of vs, r)"
  using assms
proof (induction vs arbitrary: f x)
  case (Cons v vs)
  obtain u f' where f: "f = u # f'" using Cons.prems(3) by (cases f) simp_all
  let ?rest = "if vs = [] then RBrack # r else Comma # tsep (map vtoks vs) @ RBrack # r"
  obtain j ls where j: "pvalue f' d (vtoks v @ ?rest) = Some (j, ls)"
    using Cons.prems(3) unfolding f tsep_items by (auto split: option.splits)
  have jl: "j = json_of v" "ls = ?rest" using readsD [OF _ j] Cons.prems(2) by simp_all
  show ?case
  proof (cases "vs = []")
    case True
    then show ?thesis using Cons.prems(3) j jl unfolding f tsep_items by simp
  next
    case False
    then obtain y where y: "pitems f' d (tsep (map vtoks vs) @ RBrack # r) = Some y" "x = (json_of v # fst y, snd y)"
      using Cons.prems(3) j jl unfolding f tsep_items by (auto split: option.splits)
    then show ?thesis using Cons.IH [OF False _ y(1)] Cons.prems(2) by simp
  qed
qed simp

lemma reads_members:
  assumes "ms \<noteq> []" "\<forall>(k, v) \<in> set ms. reads v"
    and "pmembers f d (tsep (map (\<lambda>(k, v). LStr k # Colon # vtoks v) ms) @ RBrace # r) = Some x"
  shows "x = (map (\<lambda>(k, v). (k, json_of v)) ms, r)"
  using assms
proof (induction ms arbitrary: f x)
  case (Cons m ms)
  obtain k v where m: "m = (k, v)" by fastforce
  obtain u f' where f: "f = u # f'" using Cons.prems(3) by (cases f) simp_all
  let ?t = "\<lambda>(k, v). LStr k # Colon # vtoks v"
  let ?rest = "if ms = [] then RBrace # r else Comma # tsep (map ?t ms) @ RBrace # r"
  obtain j ls where j: "pvalue f' d (vtoks v @ ?rest) = Some (j, ls)"
    using Cons.prems(3) unfolding f tsep_items m by (auto split: option.splits)
  have jl: "j = json_of v" "ls = ?rest" using readsD [OF _ j] Cons.prems(2) m by simp_all
  show ?case
  proof (cases "ms = []")
    case True
    then show ?thesis using Cons.prems(3) j jl unfolding f tsep_items m by simp
  next
    case False
    then obtain y where y: "pmembers f' d (tsep (map ?t ms) @ RBrace # r) = Some y" "x = ((k, json_of v) # fst y, snd y)"
      using Cons.prems(3) j jl unfolding f tsep_items m by (auto split: option.splits)
    then show ?thesis using Cons.IH [OF False _ y(1)] Cons.prems(2) m by simp
  qed
qed simp

lemma reads_all: "reads v"
proof (induction v)
  case (CArr vs)
  have "x = (json_of (CArr vs), r)" if x: "pvalue f d (vtoks (CArr vs) @ r) = Some x" for f d r x
  proof (cases "vs = []")
    case True
    then show ?thesis using x by (cases f) (auto split: if_splits)
  next
    case False
    then obtain v vs' where vs: "vs = v # vs'" by (cases vs) auto
    obtain u f' where f: "f = u # f'" using x by (cases f) simp_all
    obtain l ls where l: "vtoks v = l # ls" "l \<noteq> RBrack" using vtoks_Cons [of v] by auto
    obtain y where y: "pitems f' (d - 1) (tsep (map vtoks vs) @ RBrack # r) = Some y" "x = (JArr (fst y), snd y)"
      using x l unfolding f vs by (auto simp: tsep_Cons split: if_splits lexeme.splits)
    have "y = (map json_of vs, r)" using reads_items [OF False _ y(1)] CArr by blast
    then show ?thesis using y(2) by simp
  qed
  then show ?case by (simp add: reads_def)
next
  case (CObj ms)
  have "x = (json_of (CObj ms), r)" if x: "pvalue f d (vtoks (CObj ms) @ r) = Some x" for f d r x
  proof (cases "ms = []")
    case True
    then show ?thesis using x by (cases f) (auto split: if_splits)
  next
    case False
    then obtain k v ms' where ms: "ms = (k, v) # ms'" by (cases ms) auto
    obtain u f' where f: "f = u # f'" using x by (cases f) simp_all
    obtain y where y: "pmembers f' (d - 1) (tsep (map (\<lambda>(k, v). LStr k # Colon # vtoks v) ms) @ RBrace # r) = Some y"
      "x = (JObj (fst y), snd y)"
      using x unfolding f ms by (auto simp: tsep_Cons split: if_splits)
    have "\<forall>(k, v) \<in> set ms. reads v" using CObj by fastforce
    then have "y = (map (\<lambda>(k, v). (k, json_of v)) ms, r)" using reads_members [OF False _ y(1)] by blast
    then show ?thesis using y(2) by simp
  qed
  then show ?case by (simp add: reads_def)
next
  case (CBool b)
  show ?case unfolding reads_def
  proof (intro allI impI)
    fix f d r x
    assume "pvalue f d (vtoks (CBool b) @ r) = Some x"
    then show "x = (json_of (CBool b), r)" by (cases f; cases b) auto
  qed
qed (auto simp: reads_def elim: pvalue.elims)

lemma canonical_tree:
  assumes "IsCanonical raw" "parse_json raw = Inr j"
  shows "\<exists>v. parseDocument raw = Inr v \<and> good v \<and> j = json_of v"
proof -
  obtain v where v: "parseDocument raw = Inr v" "good v" "raw = render (sortv v)"
    using assms(1) by (auto simp: IsCanonical_def Canonicalize_Inr split: sum.splits)
  have g: "good (sortv v)" using good_sortv [OF v(2)] .
  have "parseDocument raw = Inr (sortv v)" using parseDocument_render [OF g] v(3) by simp
  moreover have l: "lex raw = vtoks (sortv v)" using lex_render [OF g, of "[]"] v(3) by simp
  have "pvalue (LBad # vtoks (sortv v)) max_depth (vtoks (sortv v) @ []) = Some (j, [])"
    using assms(2) by (simp add: parse_json_def l Let_def split: option.splits list.splits prod.splits)
  then have "j = json_of (sortv v)" using readsD [OF reads_all] by blast
  ultimately show ?thesis using g by blast
qed

text \<open>C27: the two readers agree. On a canonical document, \<open>json.Unmarshal\<close>'s tree, if it has one,
  is the value the canonical parser checked: same members in the same order, no duplicate key, every number
  the decimal spelling of a safe integer. (It can fail only on nesting deeper than 10000.)\<close>
theorem canonical_readers_agree:
  assumes "IsCanonical raw" "parse_json raw = Inr j"
  shows "\<exists>v. parseDocument raw = Inr v \<and> good v \<and> j = json_of v"
  using assms by (rule canonical_tree)

section \<open>Invariants of decoding\<close>

lemma dec_members_fst:
  "fst (dec_members f ns (m # ms) x) =
     (case field_for ns (fst m) of
        None \<Rightarrow> fst (dec_members f ns ms x)
      | Some n \<Rightarrow> fst (dec_members f ns ms (fst (f n (snd m) x))))"
  by (cases m) (simp add: split_beta split: option.split)

lemma dec_members_append:
  "fst (dec_members f ns (xs @ ys) a) = fst (dec_members f ns ys (fst (dec_members f ns xs a)))"
  by (induction xs arbitrary: a) (simp_all add: dec_members_fst split: option.split)

lemma dec_members_inv:
  assumes "I a" "\<And>k v n x. (k, v) \<in> set ms \<Longrightarrow> I x \<Longrightarrow> I (fst (f n v x))"
  shows "I (fst (dec_members f ns ms a))"
  using assms
proof (induction ms arbitrary: a)
  case (Cons m ms)
  have "I (fst (f n (snd m) a))" for n using Cons.prems(2) [of "fst m" "snd m" a n] Cons.prems(1) by simp
  moreover have "I x \<Longrightarrow> I (fst (dec_members f ns ms x))" for x using Cons.IH Cons.prems(2) by (meson list.set_intros(2))
  ultimately show ?case using Cons.prems(1) by (simp add: dec_members_fst split: option.split)
qed simp

text \<open>With distinct keys, the member that names a field decides it, whatever stands around it.\<close>

lemma dec_members_last:
  assumes "field_for ns k = Some n" "\<And>key v n' x. (key, v) \<in> set ys \<Longrightarrow> field_for ns key = Some n' \<Longrightarrow> g (fst (f n' v x)) = g x"
  shows "g (fst (dec_members f ns (xs @ (k, j) # ys) a)) = g (fst (f n j (fst (dec_members f ns xs a))))"
proof -
  have "g (fst (dec_members f ns ys x)) = g x" for x
    using assms(2)
  proof (induction ys arbitrary: x)
    case (Cons y ys)
    have "g (fst (dec_members f ns ys z)) = g z" for z using Cons by (meson list.set_intros(2))
    then show ?case using Cons.prems [of "fst y" "snd y"] by (simp add: dec_members_fst split: option.split)
  qed simp
  then show ?thesis unfolding dec_members_append dec_members_fst fst_conv snd_conv assms(1) option.case .
qed

lemma set_field_fst: "fst (set_field f r) = f (fst r)"
  by (cases r) (simp add: set_field_def)

lemma obj_map_distinct:
  assumes "distinct (map fst ms)"
  shows "obj_map ms = ms"
proof -
  have "distinct (map fst (m @ ms)) \<Longrightarrow> fold (\<lambda>(k, v) m. aput k v m) ms m = m @ ms" for m
  proof (induction ms arbitrary: m)
    case (Cons x ms)
    then have "fst x \<notin> fst ` set m" by auto
    then show ?case using Cons by (cases x) (simp add: aput_fresh)
  qed simp
  then show ?thesis using assms by (simp add: obj_map_def)
qed

lemma closed_keys:
  assumes "first_some (\<lambda>(field, _). if field \<in> set known then None else Some (g field)) obj = None"
  shows "fst ` set obj \<subseteq> set known"
proof -
  have "\<forall>x \<in> set obj. fst x \<in> set known"
    using assms by (simp add: first_some_None_iff case_prod_beta split: if_splits)
  then show ?thesis by blast
qed

lemma field_for_exact: "k \<in> set names \<Longrightarrow> field_for names k = Some k"
  by (simp add: field_for_def)

lemma canonical_members:
  assumes "IsCanonical raw" "parse_json raw = Inr (JObj ms)"
  shows "distinct (map fst ms)"
proof -
  obtain v where v: "good v" "JObj ms = json_of v" using canonical_tree [OF assms] by blast
  then obtain vs where vs: "v = CObj vs" "ms = map (\<lambda>(k, v). (k, json_of v)) vs" by (cases v) auto
  have "map fst ms = map fst vs" unfolding vs(2) by auto
  then show ?thesis using v(1) vs(1) by simp
qed

fun safe_nums :: "json \<Rightarrow> bool" where
  "safe_nums (JNum n) \<longleftrightarrow> (\<forall>i. parse_int64 n = Some i \<longrightarrow> \<bar>i\<bar> \<le> maxSafeInteger)"
| "safe_nums (JArr js) \<longleftrightarrow> list_all safe_nums js"
| "safe_nums (JObj ms) \<longleftrightarrow> list_all (\<lambda>(k, j). safe_nums j) ms"
| "safe_nums _ \<longleftrightarrow> True"

lemma good_safe_nums: "good v \<Longrightarrow> safe_nums (json_of v)"
proof (induction v)
  case (CInt n)
  then have "in64 n" by (auto simp: in64_def maxSafeInteger_def)
  then show ?case using CInt parse_int64_show [of n] by auto
next
  case (CObj ms)
  then show ?case by (fastforce simp: list_all_iff)
qed (auto simp: list_all_iff)

lemma dec_struct_inv:
  assumes "I a" "safe_nums j" "\<And>n v x. safe_nums v \<Longrightarrow> I x \<Longrightarrow> I (fst (f n v x))"
  shows "I (fst (dec_struct f ns j a))"
proof (cases j)
  case (JObj ms)
  then have "(k, v) \<in> set ms \<Longrightarrow> safe_nums v" for k v using assms(2) by (auto simp: list_all_iff)
  then show ?thesis using JObj assms(1,3) dec_members_inv [of I a ms f ns] by (simp add: dec_struct_def)
qed (use assms(1) in \<open>simp_all add: dec_struct_def\<close>)

lemma dec_int_safe: "\<bar>old\<bar> \<le> maxSafeInteger \<Longrightarrow> safe_nums j \<Longrightarrow> \<bar>fst (dec_int j old)\<bar> \<le> maxSafeInteger"
  by (auto simp: dec_int_def split: json.split option.split)

lemma dec_TreeHead_size:
  assumes "\<bar>th_Size t\<bar> \<le> maxSafeInteger" "safe_nums j"
  shows "\<bar>th_Size (fst (dec_TreeHead j t))\<bar> \<le> maxSafeInteger"
  unfolding dec_TreeHead_def
  by (rule dec_struct_inv [of "\<lambda>t. \<bar>th_Size t\<bar> \<le> maxSafeInteger"]) (use assms dec_int_safe in auto)

lemma dec_Anchors_size:
  assumes "\<bar>th_Size (an_TreeHead a)\<bar> \<le> maxSafeInteger" "safe_nums j"
  shows "\<bar>th_Size (an_TreeHead (fst (dec_Anchors j a)))\<bar> \<le> maxSafeInteger"
  unfolding dec_Anchors_def
  by (rule dec_struct_inv [of "\<lambda>a. \<bar>th_Size (an_TreeHead a)\<bar> \<le> maxSafeInteger"]) (use assms dec_TreeHead_size in auto)

section \<open>Check o returns\<close>

lemma loadAnchors_size:
  assumes "art_Anchors (loadAnchors fs a) = Some an" "art_Anchors a = None"
  shows "\<bar>th_Size (an_TreeHead an)\<bar> \<le> maxSafeInteger"
proof -
  obtain raw where raw: "IsCanonical raw" "unmarshal dec_Anchors raw zero_Anchors = (an, None)"
    using assms by (force simp: loadAnchors_def Let_def IsCanonical_def split: option.splits sum.splits if_splits prod.splits)
  then obtain j where j: "parse_json raw = Inr j" "an = fst (dec_Anchors j zero_Anchors)"
    by (auto simp: unmarshal_def split: sum.splits)
  have "safe_nums j" using canonical_tree [OF raw(1) j(1)] good_safe_nums by auto
  then show ?thesis unfolding j(2) by (intro dec_Anchors_size) (simp_all add: zero_Anchors_def maxSafeInteger_def)
qed

lemma fold_load_policy_anchors: "art_Anchors (fold (load_policy cr) es a) = art_Anchors a"
proof (induction es arbitrary: a)
  case (Cons e es)
  have "art_Anchors (load_policy cr e a) = art_Anchors a"
    by (simp add: load_policy_def Let_def split: sum.split)
  then show ?case using Cons by simp
qed simp

lemma LoadArtifact_size:
  assumes "LoadArtifact cr fs = Inr a" "art_Anchors a = Some an"
  shows "\<bar>th_Size (an_TreeHead an)\<bar> \<le> maxSafeInteger"
proof -
  obtain raw where raw: "readBoundedArtifactFile fs ''manifest.json'' maxManifestBytes = Inr raw"
    using assms(1) by (cases "readBoundedArtifactFile fs ''manifest.json'' maxManifestBytes")
      (auto simp: LoadArtifact_def and_then_Inr_iff)
  obtain ks m logs a' where l: "loadPolicies cr fs ((new_Artifact ks raw m)\<lparr>art_RecorderLogs := logs\<rparr>) = Inr a'"
    "a = loadCounterparty cr fs (loadAnchors fs a')"
    using assms(1) raw by (auto simp: LoadArtifact_def and_then_Inr_iff)
  have "art_Anchors a' = None"
    using l(1) by (auto simp: loadPolicies_def fold_load_policy_anchors new_Artifact_def split: sum.splits if_splits)
  moreover have "art_Anchors a = art_Anchors (loadAnchors fs a')"
    unfolding l(2) loadCounterparty_def by (simp add: Let_def split: option.split sum.split prod.split)
  ultimately show ?thesis using loadAnchors_size assms(2) by simp
qed

lemma merkleRootFromProof_returns:
  assumes "sz \<le> maxSafeInteger"
  shows "merkleRootFromProof cr leaf index sz nodes \<noteq> None"
proof (cases "0 < sz \<and> 0 \<le> index")
  case True
  have "sz \<le> 2 ^ 62" using assms by (simp add: maxSafeInteger_def)
  then have "merkleRootFromProofAt cr leaf (int (nat index)) (int (nat sz)) nodes \<noteq> None"
    using merkleRootFromProofAt_eq [of "nat sz" cr leaf "nat index" nodes] True by (auto simp: nat_le_iff)
  then show ?thesis using True by (auto simp: merkleRootFromProof_def bind_eq_None_conv)
qed (auto simp: merkleRootFromProof_def)

lemma inclusion_entries_return:
  assumes "sz \<le> maxSafeInteger"
  shows "inclusion_entries cr sz root es \<noteq> None"
proof (induction es)
  case (Cons e es)
  have "inclusion_entry cr sz root e \<noteq> None"
  proof (cases "\<exists>leaf nodes. decodeHex32 (ae_Leaf e) = Inr leaf \<and> decode_proof (ae_Proof e) = Inr nodes")
    case True
    then obtain leaf nodes where d: "decodeHex32 (ae_Leaf e) = Inr leaf" "decode_proof (ae_Proof e) = Inr nodes" by blast
    obtain got where "merkleRootFromProof cr leaf (ae_Index e) sz nodes = Some got"
      using merkleRootFromProof_returns [OF assms] by blast
    then show ?thesis using d by (simp add: inclusion_entry_def split: sum.split)
  next
    case False
    then show ?thesis by (auto simp: inclusion_entry_def Let_def split: sum.splits)
  qed
  then show ?case using Cons by (auto simp: bind_eq_None_conv split: option.splits)
qed simp

text \<open>A verdict: PASS, FAIL or UV, never the value that stands for a check that does not return.\<close>

definition verdict :: "Outcome \<Rightarrow> bool" where
  "verdict out \<longleftrightarrow> Status out \<noteq> ZeroStatus"

named_theorems verdicts "a check ends with a verdict"

lemma verdict_outcome [verdicts]: "s \<noteq> ZeroStatus \<Longrightarrow> verdict (outcome s m)"
  by (simp add: verdict_def)

definition early_verdict :: "Outcome option \<Rightarrow> bool" where
  "early_verdict early \<longleftrightarrow> (\<forall>out. early = Some out \<longrightarrow> verdict out)"

lemma early_verdict_intros [verdicts]:
  "early_verdict None" "verdict out \<Longrightarrow> early_verdict (Some out)"
  "early_verdict a \<Longrightarrow> early_verdict b \<Longrightarrow> early_verdict (then_check a b)"
  "(\<And>x. early_verdict (f x)) \<Longrightarrow> early_verdict (first_some f xs)"
  "verdict out \<Longrightarrow> early_verdict (not_pass out)"
  "early_verdict early \<Longrightarrow> verdict after \<Longrightarrow> verdict (or_pass early after)"
  by (auto simp: early_verdict_def or_pass_def not_pass_def dest: then_check_SomeD first_some_SomeD split: option.splits)

lemma verdict_if [verdicts]:
  "(c \<Longrightarrow> verdict a) \<Longrightarrow> (\<not> c \<Longrightarrow> verdict b) \<Longrightarrow> verdict (if c then a else b)"
  "(c \<Longrightarrow> early_verdict x) \<Longrightarrow> (\<not> c \<Longrightarrow> early_verdict y) \<Longrightarrow> early_verdict (if c then x else y)"
  by simp_all

lemma verdict_case [verdicts]:
  "(o' = None \<Longrightarrow> verdict n) \<Longrightarrow> (\<And>x. o' = Some x \<Longrightarrow> verdict (f x)) \<Longrightarrow> verdict (case o' of None \<Rightarrow> n | Some x \<Rightarrow> f x)"
  "(\<And>e. r = Inl e \<Longrightarrow> verdict (g e)) \<Longrightarrow> (\<And>x. r = Inr x \<Longrightarrow> verdict (h x)) \<Longrightarrow> verdict (case r of Inl e \<Rightarrow> g e | Inr x \<Rightarrow> h x)"
  "early_verdict n' \<Longrightarrow> (\<And>x. o'' = Some x \<Longrightarrow> early_verdict (f' x)) \<Longrightarrow> early_verdict (case o'' of None \<Rightarrow> n' | Some x \<Rightarrow> f' x)"
  "(\<And>e. r' = Inl e \<Longrightarrow> early_verdict (g' e)) \<Longrightarrow> (\<And>x. r' = Inr x \<Longrightarrow> early_verdict (h' x)) \<Longrightarrow>
     early_verdict (case r' of Inl e \<Rightarrow> g' e | Inr x \<Rightarrow> h' x)"
  by (simp_all split: option.split sum.split)

lemma early_verdict_map [verdicts]: "s \<noteq> ZeroStatus \<Longrightarrow> early_verdict (map_option (\<lambda>e. outcome s (f e)) m)"
  by (auto simp: early_verdict_def verdict_def)

section \<open>The runs of a report\<close>

lemma add_run_facts:
  "set (add_run run runs) = set runs \<union> ({run} - {[]})"
  "distinct runs \<Longrightarrow> distinct (add_run run runs)"
  by (auto simp: add_run_def)

lemma fold_add_run:
  "set (fold (\<lambda>x. add_run (f x)) xs runs) = set runs \<union> (f ` set xs - {[]})"
  "distinct runs \<Longrightarrow> distinct (fold (\<lambda>x. add_run (f x)) xs runs)"
  by (induction xs arbitrary: runs) (auto simp: add_run_facts)

definition declared_runs :: "Artifact \<Rightarrow> string set" where
  "declared_runs a = set (man_Runs (art_Manifest a)) \<union> log_Run ` set (art_RecorderLogs a)"

lemma artifactRuns_set:
  "distinct (artifactRuns a)"
  "set (artifactRuns a) = (if declared_runs a \<subseteq> {[]} then {[]} else declared_runs a - {[]})"
proof -
  let ?rs = "fold (\<lambda>log. add_run (log_Run log)) (art_RecorderLogs a) (fold add_run (man_Runs (art_Manifest a)) [])"
  have s: "set ?rs = declared_runs a - {[]}"
    using fold_add_run(1) [of log_Run "art_RecorderLogs a"] fold_add_run(1) [of "\<lambda>x. x" "man_Runs (art_Manifest a)" "[]"]
    by (auto simp: declared_runs_def)
  have d: "distinct ?rs"
    using fold_add_run(2) [of "fold add_run (man_Runs (art_Manifest a)) []" log_Run "art_RecorderLogs a"]
      fold_add_run(2) [of "[]" "\<lambda>x. x" "man_Runs (art_Manifest a)"] by simp
  show "distinct (artifactRuns a)" using d by (simp add: artifactRuns_def Let_def)
  have "?rs = [] \<longleftrightarrow> declared_runs a \<subseteq> {[]}" using s by (metis Diff_eq_empty_iff set_empty)
  then show "set (artifactRuns a) = (if declared_runs a \<subseteq> {[]} then {[]} else declared_runs a - {[]})"
    using s by (simp add: artifactRuns_def Let_def)
qed

lemma artifactRun_ForRun: "artifactRun (ForRun a run) = run"
  by (simp add: artifactRun_def ForRun_def)

lemma res_Run_Evaluate: "map res_Run (rep_Runs (Evaluate cr a)) = artifactRuns a"
  by (simp add: Evaluate_def evaluateRun_def ungraded_result_def artifactRun_ForRun comp_def)

text \<open>The report has one result per run: every non-empty run that the manifest declares or a recorder's log
  belongs to, once, under its own name, or the single empty run where there is none. So a run that is only declared,
  with no log, is graded too, and cannot be left out of the report.\<close>
lemma report_covers_runs:
  "distinct (map res_Run (rep_Runs (Evaluate cr a)))
   \<and> set (map res_Run (rep_Runs (Evaluate cr a))) = (if declared_runs a \<subseteq> {[]} then {[]} else declared_runs a - {[]})"
  unfolding res_Run_Evaluate using artifactRuns_set by blast

end
