(* ===== verification/Document.thy ===== *)
theory Document
  imports Loaded
begin

text \<open>
  From a value to its canonical document and back: what \<open>writeCanonical\<close> prints, \<open>json.Unmarshal\<close> reads as the
  same tree. With it the examples build whole documents from values, and an emitted manifest is read back.
\<close>

text \<open>Nesting of at most \<open>d\<close> containers, the limit of \<open>json.Unmarshal\<close>.\<close>

fun shallow :: "nat \<Rightarrow> cvalue \<Rightarrow> bool" where
  "shallow d (CArr vs) \<longleftrightarrow> 0 < d \<and> list_all (shallow (d - 1)) vs"
| "shallow d (CObj ms) \<longleftrightarrow> 0 < d \<and> list_all (\<lambda>(k, v). shallow (d - 1) v) ms"
| "shallow d v \<longleftrightarrow> True"

lemma shallow_mono: "shallow d v \<Longrightarrow> d \<le> d' \<Longrightarrow> shallow d' v"
  by (induction d v arbitrary: d' rule: shallow.induct) (fastforce simp: list_all_iff)+

definition readable :: "cvalue \<Rightarrow> bool" where
  "readable v \<longleftrightarrow> (\<forall>f d r. shallow d v \<longrightarrow> length (vtoks v) \<le> length f \<longrightarrow> pvalue f d (vtoks v @ r) = Some (json_of v, r))"

lemma readableD:
  "readable v \<Longrightarrow> shallow d v \<Longrightarrow> length (vtoks v) \<le> length f \<Longrightarrow> pvalue f d (vtoks v @ r) = Some (json_of v, r)"
  unfolding readable_def by blast

lemma vtoks_length: "0 < length (vtoks v)"
  using vtoks_Cons [of v] by auto

lemma read_items:
  assumes "vs \<noteq> []" "\<forall>v \<in> set vs. readable v \<and> shallow d v" "length (tsep (map vtoks vs)) < length f"
  shows "pitems f d (tsep (map vtoks vs) @ RBrack # r) = Some (map json_of vs, r)"
  using assms
proof (induction vs arbitrary: f)
  case (Cons v vs)
  obtain u f' where f: "f = u # f'" using Cons.prems(3) by (cases f) auto
  let ?rest = "if vs = [] then RBrack # r else Comma # tsep (map vtoks vs) @ RBrack # r"
  have len: "length (vtoks v) + (if vs = [] then 0 else 1 + length (tsep (map vtoks vs))) \<le> length f'"
    using Cons.prems(3) unfolding f by (cases vs) auto
  have v: "pvalue f' d (vtoks v @ ?rest) = Some (json_of v, ?rest)"
    by (rule readableD) (use Cons.prems(2) len in auto)
  show ?case
  proof (cases "vs = []")
    case True
    then show ?thesis using v unfolding f tsep_items by simp
  next
    case False
    have "pitems f' d (tsep (map vtoks vs) @ RBrack # r) = Some (map json_of vs, r)"
      by (rule Cons.IH [OF False]) (use Cons.prems(2) len False vtoks_length [of v] in auto)
    then show ?thesis using v False unfolding f tsep_items by simp
  qed
qed simp

lemma read_members:
  assumes "ms \<noteq> []" "\<forall>(k, v) \<in> set ms. readable v \<and> shallow d v" "length (tsep (map mtoks ms)) < length f"
  shows "pmembers f d (tsep (map mtoks ms) @ RBrace # r) = Some (map (\<lambda>(k, v). (k, json_of v)) ms, r)"
  using assms
proof (induction ms arbitrary: f)
  case (Cons m ms)
  obtain k v where m: "m = (k, v)" by fastforce
  obtain u f' where f: "f = u # f'" using Cons.prems(3) by (cases f) auto
  let ?rest = "if ms = [] then RBrace # r else Comma # tsep (map mtoks ms) @ RBrace # r"
  have len: "length (vtoks v) + (if ms = [] then 0 else 1 + length (tsep (map mtoks ms))) \<le> length f'"
    using Cons.prems(3) unfolding f m by (cases ms) auto
  have v: "pvalue f' d (vtoks v @ ?rest) = Some (json_of v, ?rest)"
    by (rule readableD) (use Cons.prems(2) len m in auto)
  show ?case
  proof (cases "ms = []")
    case True
    then show ?thesis using v unfolding f tsep_items m by simp
  next
    case False
    have "pmembers f' d (tsep (map mtoks ms) @ RBrace # r) = Some (map (\<lambda>(k, v). (k, json_of v)) ms, r)"
      by (rule Cons.IH [OF False]) (use Cons.prems(2) len False vtoks_length [of v] in auto)
    then show ?thesis using v False unfolding f tsep_items m by simp
  qed
qed simp

lemma readable_all: "readable v"
proof (induction v)
  case (CArr vs)
  show ?case unfolding readable_def
  proof (intro allI impI)
    fix f d r
    assume s: "shallow d (CArr vs)" and l: "length (vtoks (CArr vs)) \<le> length (f :: lexeme list)"
    then obtain u f' where f: "f = u # f'" by (cases f) auto
    show "pvalue f d (vtoks (CArr vs) @ r) = Some (json_of (CArr vs), r)"
    proof (cases "vs = []")
      case True
      then show ?thesis using s f by simp
    next
      case False
      then obtain v vs' where vs: "vs = v # vs'" by (cases vs) auto
      obtain t ls where t: "vtoks v = t # ls" "t \<noteq> RBrack" using vtoks_Cons [of v] by auto
      have "pitems f' (d - 1) (tsep (map vtoks vs) @ RBrack # r) = Some (map json_of vs, r)"
        by (rule read_items [OF False]) (use CArr s l f in \<open>auto simp: list_all_iff\<close>)
      then show ?thesis using s t unfolding f vs by (auto simp: tsep_Cons split: lexeme.split)
    qed
  qed
next
  case (CObj ms)
  show ?case unfolding readable_def
  proof (intro allI impI)
    fix f d r
    assume s: "shallow d (CObj ms)" and l: "length (vtoks (CObj ms)) \<le> length (f :: lexeme list)"
    then obtain u f' where f: "f = u # f'" by (cases f) auto
    show "pvalue f d (vtoks (CObj ms) @ r) = Some (json_of (CObj ms), r)"
    proof (cases "ms = []")
      case True
      then show ?thesis using s f by simp
    next
      case False
      then obtain k v ms' where ms: "ms = (k, v) # ms'" by (cases ms) auto
      have "\<forall>(k, v) \<in> set ms. readable v \<and> shallow (d - 1) v" using CObj s by (fastforce simp: list_all_iff)
      then have "pmembers f' (d - 1) (tsep (map mtoks ms) @ RBrace # r) = Some (map (\<lambda>(k, v). (k, json_of v)) ms, r)"
        by (rule read_members [OF False]) (use l f in simp)
      then show ?thesis using s unfolding f ms by (auto simp: tsep_Cons)
    qed
  qed
next
  case (CBool b)
  show ?case unfolding readable_def
  proof (intro allI impI)
    fix f d r
    assume "length (vtoks (CBool b)) \<le> length (f :: lexeme list)"
    then show "pvalue f d (vtoks (CBool b) @ r) = Some (json_of (CBool b), r)" by (cases f; cases b) auto
  qed
qed (auto simp: readable_def neq_Nil_conv Suc_le_length_iff)

lemma parse_json_render:
  assumes "good v" "shallow max_depth v"
  shows "parse_json (render v) = Inr (json_of v)"
proof -
  have l: "lex (render v) = vtoks v" using lex_render [OF assms(1), of "[]"] by simp
  have "pvalue (LBad # vtoks v) max_depth (vtoks v @ []) = Some (json_of v, [])"
    by (rule readableD [OF readable_all]) (use assms(2) in auto)
  then show ?thesis by (simp add: parse_json_def l Let_def)
qed

lemma IsCanonical_render:
  assumes "good v" "sortv v = v"
  shows "IsCanonical (render v)"
  using parseDocument_render [OF assms(1)] assms(2) writeCanonical_render [OF assms(1)]
  by (simp add: IsCanonical_def Canonicalize_def)

section \<open>Fields in base64\<close>

lemma decode_ascii: "code c < 128 \<Longrightarrow> decode_rune (c # s) = (code c, 1)"
  by (simp add: Let_def)

lemma trim_space_plain:
  assumes "\<forall>c \<in> set s. 32 < code c \<and> code c < 128"
  shows "trim_space s = s"
proof (cases "s = []")
  case False
  have d: "decode_rune (drop i s) = (code (s ! i), 1)" "32 < code (s ! i)" "code (s ! i) < 128" if "i < length s" for i
    using that assms decode_ascii [of "s ! i" "drop (Suc i) s"] by (simp_all add: Cons_nth_drop_Suc)
  have sp: "\<not> is_space_rune n" if "32 < n" "n < 128" for n using that by (simp add: is_space_rune_def)
  have "trim_left s = s"
    using d [of 0] False by (cases s) (simp_all add: trim_left.simps(2) sp del: decode_rune.simps)
  moreover have "last_rune_space s = None"
    using d [of "length s - 1"] d [of "length s - 2"] d [of "length s - 3"] False sp [of "code (s ! (length s - 1))"]
    by (auto simp: last_rune_space_def Let_def Suc_le_eq)
  then have "trim_right s = s" by (subst trim_right.simps) simp
  ultimately show ?thesis by (simp add: trim_space_def)
qed (simp add: trim_space_def trim_right.simps)

lemma trim_space_std_encode [simp]: "trim_space (std_encode x) = std_encode x"
proof (rule trim_space_plain, intro ballI)
  fix c
  assume "c \<in> set (std_encode x)"
  then have "c \<in> b64_char False ` {..<64} \<or> c = CHR ''=''"
    using b64_encode_chars [of False True x] by (auto simp: b64_alphabet_def)
  then show "32 < code c \<and> code c < 128" by (auto simp: code_b64_char)
qed

lemma decodeStdBase64Field_encode [simp]: "decodeStdBase64Field n (std_encode x) = Inr x"
  by (simp add: decodeStdBase64Field_def)

section \<open>The round trip\<close>

text \<open>C28: what \<open>writeCanonical\<close> prints is read back by \<open>json.Unmarshal\<close>: for a value with safe integers, valid UTF-8
  and distinct keys, nested at most 10000 deep, the printed document is canonical and its
  tree is the value with sorted keys.\<close>
theorem writeCanonical_roundtrip:
  assumes "good v" "shallow max_depth (sortv v)"
  shows "\<exists>raw. writeCanonical v = Inr raw \<and> IsCanonical raw \<and> parse_json raw = Inr (json_of (sortv v))"
  using assms by (intro exI [of _ "render (sortv v)"])
    (simp add: writeCanonical_render IsCanonical_render good_sortv sortv_idem parse_json_render)

end
