(* ===== verification/Go_Marshal.thy ===== *)
theory Go_Marshal
  imports Document
begin

text \<open>
  What the program uses of Go's \<open>json.Marshal\<close> (with its default HTML escaping): the text of a value, members in
  the order of the struct. The program never publishes this text, it canonicalizes it; the lemmas show that
  the canonicalizer reads back the value that was marshalled.
\<close>

section \<open>Writing\<close>

definition go_escape_byte :: "char \<Rightarrow> string" where
  "go_escape_byte c =
     (if c = CHR ''<'' \<or> c = CHR ''>'' \<or> c = CHR ''&''
      then CHR 0x5C # ''u00'' @ [hex_digit (code c div 16), hex_digit (code c mod 16)]
      else escape_byte c)"

text \<open>An invalid byte is written as the replacement character, U+2028 and U+2029 are escaped.\<close>

function go_body :: "string \<Rightarrow> string" where
  "go_body [] = []"
| "go_body (c # s) =
     (if code c < 128 then go_escape_byte c @ go_body s
      else if decode_rune (c # s) = (rune_error, 1) then CHR 0x5C # ''ufffd'' @ go_body s
      else (if fst (decode_rune (c # s)) = 8232 then CHR 0x5C # ''u2028''
            else if fst (decode_rune (c # s)) = 8233 then CHR 0x5C # ''u2029''
            else take (snd (decode_rune (c # s))) (c # s))
           @ go_body (drop (snd (decode_rune (c # s))) (c # s)))"
  by pat_completeness auto
termination
  by (relation "measure length") auto

declare go_body.simps(2) [simp del]

definition go_string :: "string \<Rightarrow> string" where
  "go_string s = CHR ''\"'' # go_body s @ ''\"''"

fun json_Marshal :: "cvalue \<Rightarrow> string" where
  "json_Marshal CNull = ''null''"
| "json_Marshal (CBool b) = (if b then ''true'' else ''false'')"
| "json_Marshal (CStr s) = go_string s"
| "json_Marshal (CInt n) = show_int n"
| "json_Marshal (CArr vs) = ''['' @ seps (map json_Marshal vs) @ '']''"
| "json_Marshal (CObj ms) = ''{'' @ seps (map (\<lambda>(k, v). go_string k @ '':'' @ json_Marshal v) ms) @ ''}''"

text \<open>An \<open>Encoder\<close> after \<open>SetIndent("", "  ")\<close>: \<open>nl\<close> is the line break with the indentation of the value.\<close>

fun json_Indent :: "string \<Rightarrow> cvalue \<Rightarrow> string" where
  "json_Indent nl (CArr vs) =
     (if vs = [] then ''[]''
      else ''['' @ nl @ ''  '' @ join_with ('','' @ nl @ ''  '') (map (json_Indent (nl @ ''  '')) vs) @ nl @ '']'')"
| "json_Indent nl (CObj ms) =
     (if ms = [] then ''{}''
      else ''{'' @ nl @ ''  ''
        @ join_with ('','' @ nl @ ''  '') (map (\<lambda>(k, v). go_string k @ '': '' @ json_Indent (nl @ ''  '') v) ms)
        @ nl @ ''}'')"
| "json_Indent nl v = json_Marshal v"

definition json_Encode :: "cvalue \<Rightarrow> string" where
  "json_Encode v = json_Indent [CHR 0x0A] v @ [CHR 0x0A]"

text \<open>A Go map in JSON: its keys in the order of their bytes.\<close>

definition doc_map :: "(string \<times> cvalue) list \<Rightarrow> cvalue" where
  "doc_map m = CObj (sort_slice (\<lambda>x y. fst x < fst y) m)"

definition doc_strings :: "string list \<Rightarrow> cvalue" where
  "doc_strings ss = CArr (map CStr ss)"

section \<open>Reading back\<close>

lemma lex_str_u4:
  assumes "getu4 (CHR 0x5C # CHR ''u'' # a # b # c # d # s) = Some r" "\<not> is_surrogate r"
  shows "lex_str (CHR 0x5C # CHR ''u'' # a # b # c # d # s) = cons_rune r (lex_str s)"
  using assms by (subst lex_str.simps(2)) (simp add: simple_escape_def)

lemma lex_str_go_escape:
  assumes "code c < 128"
  shows "lex_str (go_escape_byte c @ s) = cons_rune (code c) (lex_str s)"
proof (cases "c = CHR ''<'' \<or> c = CHR ''>'' \<or> c = CHR ''&''")
  case True
  have "getu4 (CHR 0x5C # CHR ''u'' # CHR ''0'' # CHR ''0'' # hex_digit (code c div 16) # hex_digit (code c mod 16) # s)
      = Some (code c)"
    using div_mult_mod_eq [of "code c" 16] by (simp add: getu4_def code_escape)
  moreover have "\<not> is_surrogate (code c)" using assms by (simp add: is_surrogate_def)
  ultimately show ?thesis using True by (simp add: go_escape_byte_def lex_str_u4)
qed (use lex_str_escape_byte [OF assms] in \<open>simp add: go_escape_byte_def\<close>)

definition go_rune :: "nat \<Rightarrow> string" where
  "go_rune r =
     (if r < 128 then go_escape_byte (chr r)
      else if r = 8232 then CHR 0x5C # ''u2028'' else if r = 8233 then CHR 0x5C # ''u2029'' else encode_rune r)"

lemma go_body_rune:
  assumes "valid_rune r"
  shows "go_body (encode_rune r @ s) = go_rune r @ go_body s"
proof (cases "r < 128")
  case True
  then show ?thesis by (simp add: encode_rune_ascii go_body.simps(2) code_chr go_rune_def)
next
  case False
  then obtain c t where ct: "encode_rune r = c # t" "128 \<le> code c"
    using encode_rune_hd [OF assms] by auto
  have d: "decode_rune (c # t @ s) = (r, Suc (length t))"
    using decode_encode_rune [OF assms, of s] ct by simp
  have n: "(r, Suc (length t)) \<noteq> (rune_error, 1)"
  proof
    assume "(r, Suc (length t)) = (rune_error, 1)"
    then have "length (encode_rune rune_error) = 1" using ct by simp
    then show False by (simp add: encode_rune_def valid_rune_def rune_error_def is_surrogate_def)
  qed
  show ?thesis using False ct n by (auto simp: go_body.simps(2) d go_rune_def)
qed

lemma lex_str_go_rune:
  assumes "valid_rune r"
  shows "lex_str (go_rune r @ s) = cons_rune r (lex_str s)"
proof -
  have h: "getu4 (CHR 0x5C # ''u2028'' @ s) = Some 8232" "getu4 (CHR 0x5C # ''u2029'' @ s) = Some 8233"
    by (simp_all add: getu4_def hex_val_def)
  have u: "lex_str (CHR 0x5C # ''u2028'' @ s) = cons_rune 8232 (lex_str s)"
    "lex_str (CHR 0x5C # ''u2029'' @ s) = cons_rune 8233 (lex_str s)"
    using h by (simp_all add: lex_str_u4 is_surrogate_def)
  show ?thesis
    using u lex_str_rune [OF assms, of s] lex_str_go_escape [of "chr r" s]
    by (auto simp: go_rune_def code_chr)
qed

lemma lex_go_string:
  assumes "valid_utf8 k"
  shows "lex (go_string k @ s) = LStr k # lex s"
proof -
  have "lex_str (go_body (encode_runes rs) @ CHR 0x22 # s) = Some (rs, s)" if "list_all valid_rune rs" for rs
    using that
  proof (induction rs)
    case Nil
    show ?case by (simp add: lex_str.simps(2))
  next
    case (Cons r rs)
    then show ?case
      using lex_str_go_rune [of r "go_body (encode_runes rs) @ CHR 0x22 # s"] by (simp add: go_body_rune cons_rune_def)
  qed
  then have "lex_str (go_body k @ CHR 0x22 # s) = Some (runes k, s)"
    using assms by (metis valid_utf8_def)
  then show ?thesis using assms by (simp add: go_string_def lex.simps(2) is_ws_def valid_utf8_def)
qed

lemma lex_marshal: "good v \<Longrightarrow> follows s \<Longrightarrow> lex (json_Marshal v @ s) = vtoks v @ lex s"
proof (induction v arbitrary: s rule: good.induct)
  case (3 vs)
  then have "lex (seps (map json_Marshal vs) @ CHR '']'' # s) = tsep (map vtoks vs) @ lex (CHR '']'' # s)"
    by (intro lex_seps) (auto simp: list_all_iff)
  then show ?case by simp
next
  case (4 ms)
  have "lex ((case m of (k, v) \<Rightarrow> go_string k @ '':'' @ json_Marshal v) @ t)
      = (case m of (k, v) \<Rightarrow> LStr k # Colon # vtoks v) @ lex t" if "m \<in> set ms" "follows t" for m t
  proof (cases m)
    case (Pair k v)
    have "valid_utf8 k" "good v" using "4.prems"(1) that(1) Pair by (auto simp: list_all_iff)
    then show ?thesis using "4.IH" [OF that(1)] Pair that(2) by (simp add: lex_go_string)
  qed
  then have "lex (seps (map (\<lambda>(k, v). go_string k @ '':'' @ json_Marshal v) ms) @ CHR ''}'' # s)
     = tsep (map (\<lambda>(k, v). LStr k # Colon # vtoks v) ms) @ lex (CHR ''}'' # s)"
    by (intro lex_seps) auto
  then show ?case by simp
qed (simp_all add: lex_show_int lex_go_string lex.simps(2) is_ws_def is_digit_def has_prefix_def)

text \<open>The canonicalizer turns the marshalled text of a value into the canonical document of that value.\<close>

lemma Canonicalize_marshal:
  assumes "good v"
  shows "Canonicalize (json_Marshal v) = Inr (render (sortv v))"
proof -
  have "lex (json_Marshal v) = lex (render v)"
    using lex_marshal [OF assms, of "[]"] lex_render [OF assms, of "[]"] by simp
  then have "parseDocument (json_Marshal v) = parseDocument (render v)"
    by (simp add: parseDocument_def new_decoder_def)
  then show ?thesis by (simp add: Canonicalize_def parseDocument_render [OF assms] writeCanonical_render [OF assms] and_then_def)
qed

end
