(* ===== verification/Gen.thy ===== *)
theory Gen
  imports Go_Marshal
begin

text \<open>
  The core of the fixture generator \<open>checker/cmd/aelgen/main.go\<close>: how a recorder makes its chain of signed records, a log its
  anchors and a counterparty its statements. A Go value of type \<open>any\<close> is a \<open>cvalue\<close>, a map an association list. \<open>ed25519.Sign\<close>
  under a private key is the argument \<open>sign\<close>.
\<close>

section \<open>Records\<close>

record signedRecord =
  sr_payload :: string
  sr_sig :: string

definition line :: "signedRecord \<Rightarrow> string" where
  "line r = rawurl_encode (sr_payload r) @ ''.'' @ rawurl_encode (sr_sig r)"

record recordPlan =
  rp_typ :: string
  rp_ts :: string
  rp_seq :: "int option"
  rp_extra :: "(string \<times> cvalue) list"
  rp_patch :: "(string \<Rightarrow> string) option"

definition canonicalValue :: "cvalue \<Rightarrow> string res" where
  "canonicalValue v = Canonicalize (json_Marshal v)"

definition zeroHash :: string where
  "zeroHash = replicate 64 (CHR ''0'')"

text \<open>\<open>for k, v := range extra { payload[k] = v }\<close>, and a key that is set only where it is not there.\<close>

definition put_all :: "(string \<times> 'v) list \<Rightarrow> (string \<times> 'v) list \<Rightarrow> (string \<times> 'v) list" where
  "put_all extra m = fold (\<lambda>(k, v). aput k v) extra m"

definition put_default :: "string \<Rightarrow> 'v \<Rightarrow> (string \<times> 'v) list \<Rightarrow> (string \<times> 'v) list" where
  "put_default k v m = (if has_key m k then m else aput k v m)"

definition plan_payload :: "string \<Rightarrow> string \<Rightarrow> string \<Rightarrow> nat \<Rightarrow> nat \<Rightarrow> string \<Rightarrow> recordPlan \<Rightarrow> (string \<times> cvalue) list" where
  "plan_payload run recorder fp len i prev plan =
     (let payload = put_all (rp_extra plan)
        [(''v'', CInt 1), (''type'', CStr (rp_typ plan)), (''run'', CStr run), (''recorder'', CStr recorder), (''key'', CStr fp),
         (''seq'', CInt (case rp_seq plan of None \<Rightarrow> int i | Some seq \<Rightarrow> seq)), (''prev'', CStr prev), (''ts'', CStr (rp_ts plan))]
      in if rp_typ plan = ''close''
         then put_default ''head'' (CStr prev) (put_default ''count'' (CInt (int len)) payload)
         else payload)"

fun build_from ::
  "crypto \<Rightarrow> (string \<Rightarrow> string) \<Rightarrow> string \<Rightarrow> string \<Rightarrow> string \<Rightarrow> nat \<Rightarrow> nat \<Rightarrow> string \<Rightarrow> recordPlan list \<Rightarrow> signedRecord list res" where
  "build_from cr sign run recorder fp len i prev [] = Inr []"
| "build_from cr sign run recorder fp len i prev (plan # plans) =
     and_then (canonicalValue (CObj (plan_payload run recorder fp len i prev plan))) (\<lambda>canon.
       let raw = (case rp_patch plan of None \<Rightarrow> canon | Some patch \<Rightarrow> patch canon) in
       and_then (build_from cr sign run recorder fp len (Suc i) (sha256_hex cr raw) plans) (\<lambda>out.
         Inr (\<lparr>sr_payload = raw, sr_sig = sign raw\<rparr> # out)))"

definition buildRecords ::
  "crypto \<Rightarrow> (string \<Rightarrow> string) \<Rightarrow> string \<Rightarrow> string \<Rightarrow> string \<Rightarrow> recordPlan list \<Rightarrow> signedRecord list res" where
  "buildRecords cr sign run recorder fp plans = build_from cr sign run recorder fp (length plans) 0 zeroHash plans"

section \<open>Plans\<close>

definition plan :: "string \<Rightarrow> string \<Rightarrow> (string \<times> cvalue) list \<Rightarrow> recordPlan" where
  "plan typ ts extra = \<lparr>rp_typ = typ, rp_ts = ts, rp_seq = None, rp_extra = extra, rp_patch = None\<rparr>"

definition open_plan :: "string \<Rightarrow> int \<Rightarrow> int \<Rightarrow> recordPlan" where
  "open_plan ts hmax htol = plan ''open'' ts [(''hmax'', CInt hmax), (''htol'', CInt htol)]"

definition openNonce :: "string \<Rightarrow> int \<Rightarrow> int \<Rightarrow> string \<Rightarrow> recordPlan" where
  "openNonce ts hmax htol nonce = plan ''open'' ts [(''hmax'', CInt hmax), (''htol'', CInt htol), (''cp_nonce'', CStr nonce)]"

definition eventExtra :: "string \<Rightarrow> string \<Rightarrow> string \<Rightarrow> (string \<times> cvalue) list option \<Rightarrow> (string \<times> cvalue) list" where
  "eventExtra cls ident dir decision =
     (''event'', CObj [(''class'', CStr cls), (''id'', CStr ident), (''dir'', CStr dir)])
     # (case decision of None \<Rightarrow> [] | Some d \<Rightarrow> [(''decision'', CObj d)])"

definition activity ::
  "string \<Rightarrow> string \<Rightarrow> string \<Rightarrow> string \<Rightarrow> (string \<times> cvalue) list option \<Rightarrow> (string \<Rightarrow> string) option \<Rightarrow> recordPlan" where
  "activity ts cls ident dir decision patch = (plan ''activity'' ts (eventExtra cls ident dir decision))\<lparr>rp_patch := patch\<rparr>"

definition fixtureActivity :: "string \<Rightarrow> string \<Rightarrow> string \<Rightarrow> string \<Rightarrow> (string \<times> cvalue) list \<Rightarrow> recordPlan" where
  "fixtureActivity ts cls ident dir fixture =
     plan ''activity'' ts (aput ''ext'' (CObj [(''fixture'', CObj fixture)]) (eventExtra cls ident dir None))"

definition govActivity ::
  "string \<Rightarrow> string \<Rightarrow> string \<Rightarrow> string \<Rightarrow> (string \<times> cvalue) list option \<Rightarrow> string \<Rightarrow> recordPlan" where
  "govActivity ts cls ident dir decision declared =
     plan ''activity'' ts
       (aput ''ext'' (CObj [(''gov'', CObj [(''declared_reversibility'', CStr declared)])]) (eventExtra cls ident dir decision))"

definition schemaInvalidActivity :: "string \<Rightarrow> string \<Rightarrow> string \<Rightarrow> string \<Rightarrow> recordPlan" where
  "schemaInvalidActivity ts cls ident dir =
     plan ''activity'' ts (aput ''surprise'' (CStr ''unknown-top-level-key'') (eventExtra cls ident dir None))"

definition schemaInvalidNoClassActivity :: "string \<Rightarrow> string \<Rightarrow> string \<Rightarrow> recordPlan" where
  "schemaInvalidNoClassActivity ts ident dir = plan ''activity'' ts [(''event'', CObj [(''id'', CStr ident), (''dir'', CStr dir)])]"

definition heartbeat :: "string \<Rightarrow> recordPlan" where
  "heartbeat ts = plan ''heartbeat'' ts []"

definition closePlan :: "string \<Rightarrow> int option \<Rightarrow> string \<Rightarrow> recordPlan" where
  "closePlan ts n head =
     plan ''close'' ts ((case n of None \<Rightarrow> [] | Some c \<Rightarrow> [(''count'', CInt c)]) @ (if head = [] then [] else [(''head'', CStr head)]))"

definition dupVPatch :: "string \<Rightarrow> string" where
  "dupVPatch raw = take (length raw - 1) raw @ '',\"v\":1}''"

section \<open>Keys\<close>

text \<open>\<open>newkey\<close> is \<open>ed25519.NewKeyFromSeed\<close>: the private and the public key of a seed.\<close>

definition fingerprint :: "crypto \<Rightarrow> string \<Rightarrow> string" where
  "fingerprint cr pub = sha256_hex cr pub"

definition labeledKey :: "crypto \<Rightarrow> (string \<Rightarrow> string \<times> string) \<Rightarrow> string \<Rightarrow> string \<times> string \<times> string" where
  "labeledKey cr newkey label =
     (let (priv, pub) = newkey (sha256 cr (''AEL-FIXTURE-TEST-SEED-v1:'' @ label)) in (priv, pub, fingerprint cr pub))"

section \<open>Policies\<close>

definition hashed :: "crypto \<Rightarrow> cvalue \<Rightarrow> (string \<times> string) res" where
  "hashed cr v = and_then (canonicalValue v) (\<lambda>raw. Inr (sha256_hex cr raw, raw))"

definition policyFixture :: "crypto \<Rightarrow> (string \<times> string) res" where
  "policyFixture cr = hashed cr (CObj
     [(''v'', CInt 1),
      (''rules'', CArr [CObj
        [(''when'', CObj [(''field'', CStr ''risk''), (''op'', CStr ''gte''), (''value'', CInt 5)]), (''verdict'', CStr ''block'')]]),
      (''default'', CStr ''allow'')])"

definition reversibility_policy :: "crypto \<Rightarrow> (string \<times> cvalue) list \<Rightarrow> (string \<times> string) res" where
  "reversibility_policy cr classes =
     hashed cr (CObj [(''v'', CInt 1), (''rules'', CArr []), (''default'', CStr ''allow''), (''reversibility'', CObj classes)])"

definition govPolicyFixture :: "crypto \<Rightarrow> (string \<times> string) res" where
  "govPolicyFixture cr = reversibility_policy cr [(''pay'', CStr ''irreversible''), (''net'', CStr ''reversible'')]"

definition govSilentPolicyFixture :: "crypto \<Rightarrow> (string \<times> string) res" where
  "govSilentPolicyFixture cr = reversibility_policy cr [(''pay'', CStr ''reversible'')]"

definition govInvalidValuePolicyFixture :: "crypto \<Rightarrow> (string \<times> string) res" where
  "govInvalidValuePolicyFixture cr = reversibility_policy cr [(''net'', CStr ''maybe-reversible'')]"

section \<open>Anchors\<close>

definition recordRun :: "signedRecord \<Rightarrow> string" where
  "recordRun rec = pl_Run (fst (unmarshal dec_Payload (sr_payload rec) zero_Payload))"

definition anchorEntriesValue :: "AnchorEntry list \<Rightarrow> cvalue" where
  "anchorEntriesValue entries = CArr (map (\<lambda>e. CObj
     [(''recorder'', CStr (ae_Recorder e)), (''run'', CStr (ae_Run e)), (''seq'', CInt (ae_Seq e)), (''leaf'', CStr (ae_Leaf e)),
      (''index'', CInt (ae_Index e)), (''proof'', CArr (map CStr (ae_Proof e)))]) entries)"

text \<open>The records of all logs in the order of the recorders, each with its recorder and its position in the log.\<close>

definition anchored_records :: "(string \<times> signedRecord list) list \<Rightarrow> (string \<times> nat \<times> signedRecord) list" where
  "anchored_records logs =
     concat (map (\<lambda>recorderID. map (\<lambda>(seq, rec). (recorderID, seq, rec))
         (case alookup logs recorderID of None \<Rightarrow> [] | Some recs \<Rightarrow> enumerate 0 recs))
       (sort_slice (<) (map fst logs)))"

fun merkle_proofs :: "crypto \<Rightarrow> string list \<Rightarrow> nat list \<Rightarrow> string list list option" where
  "merkle_proofs cr leaves [] = Some []"
| "merkle_proofs cr leaves (i # is) =
     Option.bind (merkleProof cr leaves (int i)) (\<lambda>p. Option.bind (merkle_proofs cr leaves is) (\<lambda>ps. Some (p # ps)))"

definition merkleProofs :: "crypto \<Rightarrow> string list \<Rightarrow> string list list option" where
  "merkleProofs cr leaves = merkle_proofs cr leaves [0..<length leaves]"

definition anchors_value :: "(string \<Rightarrow> string) \<Rightarrow> string \<Rightarrow> int \<Rightarrow> string \<Rightarrow> string \<Rightarrow> AnchorEntry list \<Rightarrow> cvalue" where
  "anchors_value sign logID sz root headMsg entries = CObj
     [(''log'', CStr logID),
      (''tree_head'', CObj [(''size'', CInt sz), (''root'', CStr root), (''signed'', CStr (std_encode headMsg)),
         (''sig'', CStr (std_encode (sign headMsg)))]),
      (''entries'', anchorEntriesValue entries)]"

text \<open>None is a call that does not return: a tree of more than \<open>2 ^ 62\<close> leaves.\<close>

definition buildAnchors ::
  "crypto \<Rightarrow> string \<Rightarrow> (string \<Rightarrow> string) \<Rightarrow> (string \<times> signedRecord list) list \<Rightarrow> string res option" where
  "buildAnchors cr logID sign logs =
     (let recs = anchored_records logs; leaves = map (\<lambda>(_, _, rec). merkleLeaf cr (sr_payload rec)) recs in
      Option.bind (merkleRoot cr leaves) (\<lambda>root.
      Option.bind (merkleProofs cr leaves) (\<lambda>proofs.
      let entries = map (\<lambda>(index, recorderID, seq, rec).
            \<lparr>ae_Recorder = recorderID, ae_Run = recordRun rec, ae_Seq = int seq, ae_Leaf = hex_encode (leaves ! index),
             ae_Index = int index, ae_Proof = map hex_encode (proofs ! index)\<rparr>) (enumerate 0 recs)
      in Some
        (and_then (canonicalValue (CObj [(''log'', CStr logID), (''root'', CStr (hex_encode root)),
             (''size'', CInt (int (length leaves)))])) (\<lambda>headMsg.
         canonicalValue (anchors_value sign logID (int (length leaves)) (hex_encode root) headMsg entries))))))"

text \<open>The same anchors over a head that is not canonical, and with the first proof spoilt.\<close>

definition noncanonicalTreeHeadSigned :: "string \<Rightarrow> (string \<Rightarrow> string) \<Rightarrow> string res" where
  "noncanonicalTreeHeadSigned raw sign =
     (case unmarshal dec_Anchors raw zero_Anchors of
        (anchors, Some err) \<Rightarrow> Inl err
      | (anchors, None) \<Rightarrow>
          canonicalValue (anchors_value sign (an_Log anchors) (th_Size (an_TreeHead anchors)) (th_Root (an_TreeHead anchors))
            (msg_text (Errorf (''{'' @ [CHR 0x0A] @ ''  \"log\": %q,'' @ [CHR 0x0A] @ ''  \"root\": %q,'' @ [CHR 0x0A]
                @ ''  \"size\": %d'' @ [CHR 0x0A] @ ''}'')
              [Q (an_Log anchors), Q (th_Root (an_TreeHead anchors)), D (th_Size (an_TreeHead anchors))]))
            (an_Entries anchors)))"

definition corruptFirstProof :: "string \<Rightarrow> string res" where
  "corruptFirstProof raw =
     (case unmarshal dec_Anchors raw zero_Anchors of
        (anchors, Some err) \<Rightarrow> Inl err
      | (anchors, None) \<Rightarrow>
          if an_Entries anchors = [] \<or> ae_Proof (an_Entries anchors ! 0) = []
          then Inl (Errorf ''anchor has no proof to corrupt'' [])
          else
            (let entry = an_Entries anchors ! 0; th = an_TreeHead anchors;
                 entries = (an_Entries anchors)[0 := entry\<lparr>ae_Proof := (ae_Proof entry)[0 := replicate 64 (CHR ''f'')]\<rparr>]
             in canonicalValue (CObj
               [(''log'', CStr (an_Log anchors)),
                (''tree_head'', CObj [(''size'', CInt (th_Size th)), (''root'', CStr (th_Root th)), (''signed'', CStr (th_Signed th)),
                   (''sig'', CStr (th_Sig th))]),
                (''entries'', anchorEntriesValue entries)])))"

section \<open>Counterparties\<close>

definition statement :: "(string \<Rightarrow> string) \<Rightarrow> string \<Rightarrow> string \<Rightarrow> string \<Rightarrow> (string \<times> cvalue) list \<Rightarrow> signedRecord list res" where
  "statement sign run nonce flow answer =
     and_then (canonicalValue (CObj
       ([(''v'', CInt 1), (''type'', CStr ''received''), (''run'', CStr run), (''flow'', CStr flow), (''nonce'', CStr nonce)] @ answer)))
       (\<lambda>raw. Inr [\<lparr>sr_payload = raw, sr_sig = sign raw\<rparr>])"

definition buildCounterparty ::
  "(string \<Rightarrow> string) \<Rightarrow> string \<Rightarrow> string \<Rightarrow> string \<Rightarrow> string \<Rightarrow> signedRecord list res" where
  "buildCounterparty sign run nonce flow eventID =
     statement sign run nonce flow [(''received'', CObj [(''event_id'', CStr eventID)])]"

definition buildCounterpartyNone :: "(string \<Rightarrow> string) \<Rightarrow> string \<Rightarrow> string \<Rightarrow> string \<Rightarrow> signedRecord list res" where
  "buildCounterpartyNone sign run nonce flow = statement sign run nonce flow [(''none'', CBool True)]"

definition buildCounterpartyEmpty :: "(string \<Rightarrow> string) \<Rightarrow> string \<Rightarrow> string \<Rightarrow> string \<Rightarrow> signedRecord list res" where
  "buildCounterpartyEmpty sign run nonce flow = statement sign run nonce flow []"

end
