(* ===== verification/Go_Flag.thy ===== *)
theory Go_Flag
  imports Go_Text
begin

text \<open>
  What the commands use of Go's \<open>flag\<close> package: a flag is \<open>-name\<close> or \<open>--name\<close>, its value follows an equals sign or is the
  next argument, a boolean flag never takes the next argument, and parsing stops at the first argument that is not
  a flag or after a double dash. Integer flags are read by \<open>strconv.ParseInt\<close> with base 0.
\<close>

section \<open>Parsing\<close>

datatype flag_head = Positional | Terminator | Malformed | Named string "string option"

definition flag_body :: "string \<Rightarrow> flag_head" where
  "flag_body body =
     (if body = [] \<or> hd body = CHR ''-'' \<or> hd body = CHR ''='' then Malformed
      else
        (let name = takeWhile (\<lambda>c. c \<noteq> CHR ''='') body in
         Named name (if CHR ''='' \<in> set body then Some (drop (length name + 1) body) else None)))"

definition flag_head :: "string \<Rightarrow> flag_head" where
  "flag_head s =
     (case s of
        c # d # t \<Rightarrow>
          if c \<noteq> CHR ''-'' then Positional
          else if d = CHR ''-'' then (if t = [] then Terminator else flag_body t)
          else flag_body (d # t)
      | _ \<Rightarrow> Positional)"

definition parse_bool :: "string \<Rightarrow> bool option" where
  "parse_bool s =
     (if s \<in> {''1'', ''t'', ''T'', ''true'', ''TRUE'', ''True''} then Some True
      else if s \<in> {''0'', ''f'', ''F'', ''false'', ''FALSE'', ''False''} then Some False
      else None)"

text \<open>\<open>strconv.ParseInt(s, 0, 64)\<close>: a sign, a prefix for the base, digits, and underscores between digits.\<close>

definition lower :: "char \<Rightarrow> char" where
  "lower c = (if 65 \<le> code c \<and> code c \<le> 90 then chr (code c + 32) else c)"

definition digit_value :: "char \<Rightarrow> nat option" where
  "digit_value c =
     (if is_digit c then Some (code c - 48)
      else if 97 \<le> code (lower c) \<and> code (lower c) \<le> 122 then Some (code (lower c) - 87) else None)"

definition base_prefix :: "string \<Rightarrow> nat option" where
  "base_prefix s =
     (case s of
        z # b # _ \<Rightarrow>
          if z \<noteq> CHR ''0'' then None
          else if lower b = CHR ''b'' then Some 2 else if lower b = CHR ''o'' then Some 8
          else if lower b = CHR ''x'' then Some 16 else None
      | _ \<Rightarrow> None)"

fun uint_loop :: "nat \<Rightarrow> string \<Rightarrow> nat \<Rightarrow> nat res" where
  "uint_loop base [] n = Inr n"
| "uint_loop base (c # s) n =
     (if c = CHR ''_'' then uint_loop base s n
      else
        (case digit_value c of
           None \<Rightarrow> Inl (StdErr ''parse error'')
         | Some d \<Rightarrow>
             if d \<ge> base then Inl (StdErr ''parse error'')
             else if n * base + d \<ge> 2 ^ 64 then Inl (StdErr ''value out of range'')
             else uint_loop base s (n * base + d)))"

text \<open>\<open>underscoreOK\<close>: what was seen last is a digit (or the prefix), an underscore, or neither.\<close>

datatype seen = SawDigit | SawUnderscore | SawOther

fun underscores :: "bool \<Rightarrow> seen \<Rightarrow> string \<Rightarrow> bool" where
  "underscores hex saw [] \<longleftrightarrow> saw \<noteq> SawUnderscore"
| "underscores hex saw (c # s) \<longleftrightarrow>
     (if is_digit c \<or> (hex \<and> 97 \<le> code (lower c) \<and> code (lower c) \<le> 102) then underscores hex SawDigit s
      else if c = CHR ''_'' then saw = SawDigit \<and> underscores hex SawUnderscore s
      else saw \<noteq> SawUnderscore \<and> underscores hex SawOther s)"

definition parse_uint0 :: "string \<Rightarrow> nat res" where
  "parse_uint0 s =
     (let prefix = base_prefix s;
          (base, digits) =
            (if s = [] \<or> hd s \<noteq> CHR ''0'' then (10, s)
             else (case prefix of Some b \<Rightarrow> if length s \<ge> 3 then (b, drop 2 s) else (8, tl s) | None \<Rightarrow> (8, tl s)));
          ok = (case prefix of Some b \<Rightarrow> underscores (b = 16) SawDigit (drop 2 s) | None \<Rightarrow> underscores False SawOther s)
      in
        if s = [] then Inl (StdErr ''parse error'')
        else
          and_then (uint_loop base digits 0) (\<lambda>n.
          if CHR ''_'' \<in> set digits \<and> \<not> ok then Inl (StdErr ''parse error'') else Inr n))"

definition parse_int0 :: "string \<Rightarrow> int res" where
  "parse_int0 s =
     (let neg = (s \<noteq> [] \<and> hd s = CHR ''-''); unsigned = (if s \<noteq> [] \<and> hd s \<in> {CHR ''-'', CHR ''+''} then tl s else s)
      in
        and_then (parse_uint0 unsigned) (\<lambda>n.
        if \<not> neg \<and> n \<ge> 2 ^ 63 \<or> neg \<and> n > 2 ^ 63 then Inl (StdErr ''value out of range'')
        else Inr (if neg then - int n else int n)))"

text \<open>The table gives the flags and what they hold. The result has the values in the order they were set, and the
  arguments that are left.\<close>

datatype flag_kind = TextFlag | BoolFlag | IntFlag

definition flag_error :: "flag_kind \<Rightarrow> string \<Rightarrow> string \<Rightarrow> msg option" where
  "flag_error kind name v =
     (case kind of
        TextFlag \<Rightarrow> None
      | BoolFlag \<Rightarrow>
          if parse_bool v = None then Some (Errorf ''invalid boolean value %q for -%s: %v'' [Q v, S name, E (StdErr ''parse error'')])
          else None
      | IntFlag \<Rightarrow>
          (case parse_int0 v of
             Inl e \<Rightarrow> Some (Errorf ''invalid value %q for flag -%s: %v'' [Q v, S name, E e])
           | Inr _ \<Rightarrow> None))"

fun parse_flags :: "(string \<times> flag_kind) list \<Rightarrow> string list \<Rightarrow> ((string \<times> string) list \<times> string list) res" where
  "parse_flags table [] = Inr ([], [])"
| "parse_flags table (s # args) =
     (case flag_head s of
        Positional \<Rightarrow> Inr ([], s # args)
      | Terminator \<Rightarrow> Inr ([], args)
      | Malformed \<Rightarrow> Inl (Errorf ''bad flag syntax: %s'' [S s])
      | Named name given \<Rightarrow>
          (case alookup table name of
             None \<Rightarrow>
               if name = ''help'' \<or> name = ''h'' then Inl (StdErr ''flag: help requested'')
               else Inl (Errorf ''flag provided but not defined: -%s'' [S name])
           | Some kind \<Rightarrow>
               (case (if given = None \<and> kind = BoolFlag then Some ''true'' else given) of
                  Some v \<Rightarrow>
                    (case flag_error kind name v of
                       Some err \<Rightarrow> Inl err
                     | None \<Rightarrow> and_then (parse_flags table args) (\<lambda>(sets, rest). Inr ((name, v) # sets, rest)))
                | None \<Rightarrow>
                    (case args of
                       [] \<Rightarrow> Inl (Errorf ''flag needs an argument: -%s'' [S name])
                     | v # args' \<Rightarrow>
                         (case flag_error kind name v of
                            Some err \<Rightarrow> Inl err
                          | None \<Rightarrow>
                              and_then (parse_flags table args') (\<lambda>(sets, rest). Inr ((name, v) # sets, rest)))))))"

text \<open>\<open>flag.Parse\<close> ends the program itself: with 0 where help is asked for, with 2 on other errors. The text on the
  standard error is left out.\<close>

definition flag_exit :: "msg \<Rightarrow> int" where
  "flag_exit err = (if err = StdErr ''flag: help requested'' then 0 else 2)"

text \<open>A flag that is set twice keeps its last value; one that collects keeps them all.\<close>

definition flag_string :: "(string \<times> string) list \<Rightarrow> string \<Rightarrow> string \<Rightarrow> string" where
  "flag_string sets name otherwise = (case alookup (rev sets) name of Some v \<Rightarrow> v | None \<Rightarrow> otherwise)"

definition flag_bool :: "(string \<times> string) list \<Rightarrow> string \<Rightarrow> bool" where
  "flag_bool sets name = (case alookup (rev sets) name of Some v \<Rightarrow> parse_bool v = Some True | None \<Rightarrow> False)"

definition flag_int :: "(string \<times> string) list \<Rightarrow> string \<Rightarrow> int \<Rightarrow> int" where
  "flag_int sets name otherwise =
     (case alookup (rev sets) name of Some v \<Rightarrow> (case parse_int0 v of Inr n \<Rightarrow> n | Inl _ \<Rightarrow> otherwise) | None \<Rightarrow> otherwise)"

definition flag_list :: "(string \<times> string) list \<Rightarrow> string \<Rightarrow> string list" where
  "flag_list sets name = map snd (filter (\<lambda>(n, v). n = name) sets)"

section \<open>Arguments that spell flags\<close>

lemma flag_head_long:
  assumes "name \<noteq> []" "hd name \<noteq> CHR ''-''" "CHR ''='' \<notin> set name"
  shows "flag_head (''--'' @ name) = Named name None"
proof -
  have "takeWhile (\<lambda>c. c \<noteq> CHR ''='') name = name" using assms(3) by (intro takeWhile_eq_all_conv [THEN iffD2]) auto
  moreover have "hd name \<noteq> CHR ''=''" using assms(1,3) by (cases name) auto
  ultimately show ?thesis using assms by (simp add: flag_head_def flag_body_def)
qed

definition spelled :: "(string \<times> string) list \<Rightarrow> string list" where
  "spelled sets = concat (map (\<lambda>(n, v). [''--'' @ n, v]) sets)"

text \<open>Values may be empty or begin with a dash: a flag takes the next argument whatever it is.\<close>

lemma parse_flags_spelled:
  assumes "\<forall>(n, v) \<in> set sets. alookup table n = Some TextFlag \<and> n \<noteq> [] \<and> hd n \<noteq> CHR ''-'' \<and> CHR ''='' \<notin> set n"
    and "rest = [] \<or> flag_head (hd rest) = Positional"
  shows "parse_flags table (spelled sets @ rest) = Inr (sets, rest)"
  using assms(1)
proof (induction sets)
  case Nil
  show ?case using assms(2) by (cases rest) (auto simp: spelled_def)
next
  case (Cons e sets)
  obtain n v where e: "e = (n, v)" by fastforce
  then have "flag_head (''--'' @ n) = Named n None" using Cons.prems by (intro flag_head_long) auto
  moreover have "parse_flags table (spelled sets @ rest) = Inr (sets, rest)" using Cons by auto
  ultimately show ?case using Cons.prems by (simp add: e spelled_def flag_error_def)
qed

end
