(* ===== verification/Report_Json.thy ===== *)
theory Report_Json
  imports Gov Go_Marshal
begin

text \<open>
  The JSON form of what \<open>aelcheck\<close> reports: the struct tags of \<open>result.go\<close> and \<open>gov.go\<close>, members in the order of the
  struct, those with \<open>omitempty\<close> only where they have a value. A nil slice is written as null.
\<close>

definition text_member :: "string \<Rightarrow> string \<Rightarrow> (string \<times> cvalue) list" where
  "text_member name v = (if v = [] then [] else [(name, CStr v)])"

definition list_member :: "string \<Rightarrow> string list \<Rightarrow> (string \<times> cvalue) list" where
  "list_member name vs = (if vs = [] then [] else [(name, doc_strings vs)])"

definition doc_Outcome :: "Outcome \<Rightarrow> cvalue" where
  "doc_Outcome out = CObj ((''status'', CStr (status_text (Status out))) # text_member ''message'' (msg_text (Message out)))"

definition MarshalJSON :: "Result \<Rightarrow> cvalue" where
  "MarshalJSON r = CObj
     ([(''grade'', if res_Ungraded r then CStr ''ungraded'' else CInt (res_Grade r)),
       (''run'', CStr (res_Run r)), (''r'', CStr (res_R r)),
       (''checks'', doc_map (map (\<lambda>(cid, out). (cid, doc_Outcome out)) (res_Checks r))),
       (''coverage'', CStr (res_Coverage r)), (''custody'', CStr (res_Custody r)), (''anchor'', CStr (res_Anchor r)),
       (''retention'', CStr (res_Retention r)), (''open'', CBool (res_Open r))]
      @ text_member ''open_status'' (res_OpenStatus r) @ list_member ''notes'' (map msg_text (res_Notes r)))"

definition doc_Report :: "Report \<Rightarrow> cvalue" where
  "doc_Report report = CObj [(''runs'', CArr (map MarshalJSON (rep_Runs report)))]"

definition GovStatus_text :: "GovStatus \<Rightarrow> string" where
  "GovStatus_text s =
     (case s of
        GovPolicyBound \<Rightarrow> ''POLICY-BOUND'' | GovPolicySilent \<Rightarrow> ''POLICY-SILENT'' | GovPolicyInvalid \<Rightarrow> ''POLICY-INVALID''
      | GovDeclared \<Rightarrow> ''DECLARED'' | GovUnclassified \<Rightarrow> ''UNCLASSIFIED'' | GovUnassessable \<Rightarrow> ''UNASSESSABLE'')"

definition doc_GovEvent :: "GovEvent \<Rightarrow> cvalue" where
  "doc_GovEvent ev = CObj
     ([(''event_id'', CStr (ge_EventID ev)), (''class'', CStr (ge_Class ev)), (''event_class'', CStr (ge_EventClass ev)),
       (''status'', CStr (GovStatus_text (ge_Status ev)))] @ text_member ''note'' (ge_Note ev))"

definition doc_GovCoverage :: "GovCoverage \<Rightarrow> cvalue" where
  "doc_GovCoverage cov = CObj
     ((''status'', CStr (gc_Status cov)) # list_member ''gaps'' (gc_Gaps cov) @ list_member ''anomalies'' (gc_Anomalies cov))"

definition doc_GovRun :: "GovRun \<Rightarrow> cvalue" where
  "doc_GovRun run = CObj [(''run'', CStr (gr_Run run)), (''events'', CArr (map doc_GovEvent (gr_Events run))),
     (''coverage'', doc_GovCoverage (gr_Coverage run))]"

text \<open>With \<open>--gov\<close> the runs stand beside the governability report, whose slice is nil for a manifest without runs.\<close>

definition doc_payload :: "Report \<Rightarrow> GovRun list option \<Rightarrow> cvalue" where
  "doc_payload report gov =
     (case gov of
        None \<Rightarrow> doc_Report report
      | Some runs \<Rightarrow> CObj [(''runs'', CArr (map MarshalJSON (rep_Runs report))),
          (''governability'', if runs = [] then CNull else CArr (map doc_GovRun runs))])"

end
