(* ===== verification/Cli.thy ===== *)
theory Cli
  imports Report_Json Go_Flag
begin

text \<open>
  \<open>checker/cmd/aelcheck/main.go\<close>: the command. \<open>cli_args\<close> is what \<open>flag.Parse\<close> leaves; \<open>aelcheck\<close>
  returns the exit status and the text on standard output; \<open>aelcheck_main\<close> is the program, from its arguments.
  None is the panic of a nil event. The text on the standard error is left out.
\<close>

record cli_args =
  arg_json :: bool
  arg_gov :: bool
  arg_keys :: string
  arg_minGrade :: int
  arg_rest :: "string list"

definition exitNonconforming :: int where
  "exitNonconforming = 3"

definition exitOpen :: int where
  "exitOpen = 4"

definition conformanceExit :: "Report \<Rightarrow> int \<Rightarrow> int" where
  "conformanceExit report minGrade =
     (if rep_Runs report = [] then exitNonconforming
      else if \<exists>res \<in> set (rep_Runs report). res_Open res then exitOpen
      else if \<exists>res \<in> set (rep_Runs report). res_Ungraded res \<or> res_Grade res < minGrade then exitNonconforming
      else 0)"

section \<open>The printed report\<close>

definition newline :: string where
  "newline = [CHR 0x0A]"

text \<open>\<open>%-ns\<close>: padded on the right to \<open>n\<close> runes.\<close>

definition pad :: "nat \<Rightarrow> string \<Rightarrow> string" where
  "pad n s = s @ replicate (n - length (runes s)) (CHR '' '')"

definition check_line :: "checks \<Rightarrow> string \<Rightarrow> string" where
  "check_line cs cid =
     (let out = check cs cid in
      pad 2 cid @ '' '' @ pad 4 (status_text (Status out)) @ '' '' @ msg_text (Message out) @ newline)"

definition print_run :: "nat \<Rightarrow> nat \<Rightarrow> Result \<Rightarrow> string" where
  "print_run n i res =
     (if n > 1 then (if i > 0 then newline else []) @ ''run '' @ res_Run res @ '' checks:'' @ newline else [])
     @ concat (map (check_line (res_Checks res)) (CheckIDs (res_Checks res)))
     @ (if res_OpenStatus res \<noteq> [] then ''status: '' @ res_OpenStatus res @ newline else [])
     @ concat (map (\<lambda>note. ''note: '' @ msg_text note @ newline) (res_Notes res))
     @ GradeLine res @ newline"

definition printGovernability :: "GovRun list \<Rightarrow> string" where
  "printGovernability gov =
     concat (map (\<lambda>run.
       newline @ ''governability '' @ gr_Run run @ '':'' @ newline
       @ concat (map (\<lambda>ev.
           ''  '' @ pad 12 (ge_EventID ev) @ '' '' @ pad 19 (ge_Class ev) @ '' '' @ GovStatus_text (ge_Status ev)
           @ (if ge_Note ev \<noteq> [] then '' ('' @ ge_Note ev @ '')'' else []) @ newline) (gr_Events run))
       @ (let cov = gr_Coverage run in
          if gc_Gaps cov \<noteq> []
          then ''  coverage: '' @ gc_Status cov @ '' ('' @ arg_text (L (gc_Gaps cov)) @ '')'' @ newline
          else ''  coverage: '' @ gc_Status cov @ newline)) gov)"

definition writeSelfRunNotice :: "Report \<Rightarrow> string" where
  "writeSelfRunNotice report =
     (if rep_Runs report = [] then []
      else newline
        @ ''This is a self-run evaluation result and is not an AEL grade.'' @ newline
        @ ''A grade is earned only through a verification record issued by an eligible verifier,'' @ newline
        @ ''who must not be the producer or the operator of the artifact evaluated here.'' @ newline)"

section \<open>The command\<close>

definition usage_ok :: "cli_args \<Rightarrow> bool" where
  "usage_ok args \<longleftrightarrow>
     \<not> (arg_keys args = [] \<or> length (arg_rest args) \<noteq> 1 \<or> arg_minGrade args < 0 \<or> arg_minGrade args > 4)"

text \<open>\<open>encode\<close> is the error of writing the JSON form; those of the human form are not looked at.\<close>

definition aelcheck :: "crypto \<Rightarrow> msg option \<Rightarrow> cli_args \<Rightarrow> artifact_fs \<Rightarrow> (int \<times> string) option" where
  "aelcheck cr encode args fs =
     (if \<not> usage_ok args then Some (2, [])
      else
        (case LoadArtifact cr fs of
           Inl err \<Rightarrow> Some (1, [])
         | Inr art \<Rightarrow>
             (let report = Evaluate cr art; status = conformanceExit report (arg_minGrade args) in
              case (if arg_gov args then map_option Some (Governability cr art) else Some None) of
                None \<Rightarrow> None
              | Some gov \<Rightarrow>
                  if arg_json args then
                    Some (if encode \<noteq> None then (1, []) else (status, json_Encode (doc_payload report gov)))
                  else
                    (let runs = rep_Runs report in
                     Some (status,
                       concat (map (\<lambda>i. print_run (length runs) i (runs ! i)) [0..<length runs])
                       @ (case gov of Some g \<Rightarrow> printGovernability g | None \<Rightarrow> [])
                       @ writeSelfRunNotice report)))))"

section \<open>The program\<close>

text \<open>The version that the linker sets, the one of the Go runtime, and the directories of artifact and keys.\<close>

record check_host =
  ch_version :: string
  ch_runtime :: string
  ch_encode :: "msg option"
  ch_fs :: "string \<Rightarrow> string \<Rightarrow> artifact_fs"

definition releaseVersion :: "string \<Rightarrow> string" where
  "releaseVersion version = (if version = [] then ''devel'' else version)"

definition version_text :: "string \<Rightarrow> string \<Rightarrow> string \<Rightarrow> string" where
  "version_text name version runtime = name @ '' '' @ releaseVersion version @ '' ('' @ runtime @ '')'' @ newline"

definition check_flags :: "(string \<times> flag_kind) list" where
  "check_flags = [(''json'', BoolFlag), (''gov'', BoolFlag), (''keys'', TextFlag), (''min-grade'', IntFlag)]"

definition check_args :: "(string \<times> string) list \<Rightarrow> string list \<Rightarrow> cli_args" where
  "check_args sets rest =
     \<lparr>arg_json = flag_bool sets ''json'', arg_gov = flag_bool sets ''gov'', arg_keys = flag_string sets ''keys'' [],
      arg_minGrade = flag_int sets ''min-grade'' 0, arg_rest = rest\<rparr>"

definition aelcheck_main :: "crypto \<Rightarrow> check_host \<Rightarrow> string list \<Rightarrow> (int \<times> string) option" where
  "aelcheck_main cr host arguments =
     (if arguments = [''--version''] then Some (0, version_text ''aelcheck'' (ch_version host) (ch_runtime host))
      else
        (case parse_flags check_flags arguments of
           Inl err \<Rightarrow> Some (flag_exit err, [])
         | Inr (sets, rest) \<Rightarrow>
             let args = check_args sets rest in
             aelcheck cr (ch_encode host) args (ch_fs host (hd rest) (arg_keys args))))"

section \<open>The exit status\<close>

lemma conformanceExit_zero:
  "conformanceExit report g = 0 \<longleftrightarrow> rep_Runs report \<noteq> []
     \<and> (\<forall>res \<in> set (rep_Runs report). \<not> res_Open res \<and> \<not> res_Ungraded res \<and> g \<le> res_Grade res)"
  by (auto simp: conformanceExit_def exitNonconforming_def exitOpen_def not_less not_le)

text \<open>Exit status 0 at minimum grade \<open>g\<close>: every run that is declared or logged, each judged on its own records, passes every
  check of the rungs 0 to \<open>g\<close>, and no recorder of it ended without a close.\<close>

lemma conforms_iff:
  assumes "g \<le> 4"
  shows "conformanceExit (Evaluate cr art) (int g) = 0 \<longleftrightarrow>
    (\<forall>run \<in> set (artifactRuns art). Status (checkOpenEnd (ForRun art run)) = Pass
       \<and> allPass (run_checks cr (ForRun art run)) (grade_checks g))"
  unfolding conformanceExit_zero by (simp add: Evaluate_def artifactRuns_nonempty evaluateRun_earns [OF assms])

text \<open>The exit status is 4 exactly when a run is open; an empty report never exits 0.\<close>

lemma conformanceExit_contract:
  "(conformanceExit report g = 4 \<longleftrightarrow> (\<exists>res \<in> set (rep_Runs report). res_Open res))
   \<and> (conformanceExit report g = 0 \<longleftrightarrow> rep_Runs report \<noteq> []
        \<and> (\<forall>res \<in> set (rep_Runs report). \<not> res_Open res \<and> \<not> res_Ungraded res \<and> g \<le> res_Grade res))
   \<and> conformanceExit report g \<in> {0, 3, 4}"
  by (auto simp: conformanceExit_def exitNonconforming_def exitOpen_def not_less not_le)

lemmas conformanceExit_range = conformanceExit_contract [THEN conjunct2, THEN conjunct2]

end
