(* ===== verification/Gen_Corpus.thy ===== *)
theory Gen_Corpus
  imports Gen Go_Flag Cli
begin

text \<open>
  The corpus of \<open>checker/cmd/aelgen/main.go\<close>: what a case is, the files that are written for it, the report that grades every
  case against its expectation, and the exit status. Where the program ranges over a map to write files, the order is that of
  the association list; the operating system's answers are arguments.
\<close>

section \<open>Expectations\<close>

text \<open>A grade of type \<open>any\<close> holds a number, a word or nothing.\<close>

datatype grade = GNone | GInt int | GStr string

record runExpected =
  re_ID :: string
  re_Grade :: grade
  re_R :: string
  re_Must :: "(string \<times> string) list"

record expected =
  ex_Grade :: grade
  ex_R :: string
  ex_Must :: "(string \<times> string) list"
  ex_Runs :: "runExpected list"
  ex_Note :: string

record govEventExpect =
  ge_ExpStatus :: string
  ge_ExpClass :: string

record govExpectation =
  gx_Events :: "(string \<times> govEventExpect) list"
  gx_Coverage :: string
  gx_Gaps :: "string list"
  gx_Anomalies :: "string list"

record caseDef =
  cas_name :: string
  cas_records :: "signedRecord list"
  cas_recorderRecords :: "(string \<times> signedRecord list) list"
  cas_recorderKeys :: "(string \<times> string) list"
  cas_policies :: "(string \<times> string) list"
  cas_anchors :: string
  cas_counterparty :: "signedRecord list"
  cas_expect :: expected
  cas_publishKeys :: bool
  cas_omitKeys :: "string list"
  cas_badKeyFiles :: "(string \<times> string) list"
  cas_keys :: "(string \<times> string) list"
  cas_manifestExtra :: "(string \<times> cvalue) list"
  cas_coverage :: string
  cas_custody :: string
  cas_govExpect :: "govExpectation option"
  cas_limitScenario :: "cvalue option"
  cas_readme :: string

definition expect :: "grade \<Rightarrow> string \<Rightarrow> (string \<times> string) list \<Rightarrow> expected" where
  "expect g r must = \<lparr>ex_Grade = g, ex_R = r, ex_Must = must, ex_Runs = [], ex_Note = []\<rparr>"

definition expectRuns :: "runExpected list \<Rightarrow> expected" where
  "expectRuns runs = \<lparr>ex_Grade = GNone, ex_R = [], ex_Must = [], ex_Runs = runs, ex_Note = []\<rparr>"

definition claimedRung :: "grade \<Rightarrow> int" where
  "claimedRung g = (case g of GInt n \<Rightarrow> n | _ \<Rightarrow> 0)"

definition claimedExpectedRung :: "expected \<Rightarrow> int" where
  "claimedExpectedRung ex =
     (if ex_Runs ex = [] then claimedRung (ex_Grade ex)
      else fold (\<lambda>run m. if claimedRung (re_Grade run) > m then claimedRung (re_Grade run) else m) (ex_Runs ex) 0)"

definition expectedRuns :: "expected \<Rightarrow> runExpected list" where
  "expectedRuns ex =
     (if ex_Runs ex \<noteq> [] then ex_Runs ex
      else [\<lparr>re_ID = [], re_Grade = ex_Grade ex, re_R = ex_R ex, re_Must = ex_Must ex\<rparr>])"

section \<open>The files of a case\<close>

fun go_value :: "cvalue \<Rightarrow> cvalue" where
  "go_value (CArr vs) = CArr (map go_value vs)"
| "go_value (CObj ms) = doc_map (map (\<lambda>(k, v). (k, go_value v)) ms)"
| "go_value v = v"

definition doc_grade :: "grade \<Rightarrow> cvalue" where
  "doc_grade g = (case g of GNone \<Rightarrow> CNull | GInt n \<Rightarrow> CInt n | GStr s \<Rightarrow> CStr s)"

definition doc_must :: "(string \<times> string) list \<Rightarrow> cvalue" where
  "doc_must m = doc_map (map (\<lambda>(k, v). (k, CStr v)) m)"

definition doc_runExpected :: "runExpected \<Rightarrow> cvalue" where
  "doc_runExpected r = CObj [(''id'', CStr (re_ID r)), (''grade'', doc_grade (re_Grade r)), (''r'', CStr (re_R r)),
     (''must'', doc_must (re_Must r))]"

definition doc_expected :: "expected \<Rightarrow> cvalue" where
  "doc_expected e = CObj
     ((if ex_Grade e = GNone then [] else [(''grade'', doc_grade (ex_Grade e))])
      @ (if ex_R e = [] then [] else [(''r'', CStr (ex_R e))])
      @ (if ex_Must e = [] then [] else [(''must'', doc_must (ex_Must e))])
      @ (if ex_Runs e = [] then [] else [(''runs'', CArr (map doc_runExpected (ex_Runs e)))])
      @ [(''note'', CStr (ex_Note e))])"

definition doc_govExpectation :: "govExpectation \<Rightarrow> cvalue" where
  "doc_govExpectation g = CObj
     ([(''events'', doc_map (map (\<lambda>(k, v). (k, CObj [(''status'', CStr (ge_ExpStatus v)), (''class'', CStr (ge_ExpClass v))])) (gx_Events g)))]
      @ (if gx_Coverage g = [] then [] else [(''coverage'', CStr (gx_Coverage g))])
      @ (if gx_Gaps g = [] then [] else [(''gaps'', CArr (map CStr (gx_Gaps g)))])
      @ (if gx_Anomalies g = [] then [] else [(''anomalies'', CArr (map CStr (gx_Anomalies g)))]))"

definition json_MarshalIndent :: "cvalue \<Rightarrow> string" where
  "json_MarshalIndent v = json_Indent newline v"

definition case_logs :: "caseDef \<Rightarrow> (string \<times> signedRecord list) list" where
  "case_logs c = (if cas_recorderRecords c = [] then [(''r1'', cas_records c)] else cas_recorderRecords c)"

definition case_recorders :: "caseDef \<Rightarrow> string list" where
  "case_recorders c = sort_slice (<) (map fst (case_logs c))"

definition case_log :: "caseDef \<Rightarrow> string \<Rightarrow> signedRecord list" where
  "case_log c recorderID = (case alookup (case_logs c) recorderID of None \<Rightarrow> [] | Some recs \<Rightarrow> recs)"

definition log_text :: "signedRecord list \<Rightarrow> string" where
  "log_text recs = join_with newline (map line recs) @ newline"

definition key_files :: "caseDef \<Rightarrow> string \<Rightarrow> string \<Rightarrow> (string \<times> string) list" where
  "key_files c pub fp =
     (let keys = (if cas_keys c = [] then [(fp, pub)] else cas_keys c) in
      if cas_publishKeys c \<or> cas_name c \<noteq> ''ael0/unpublished_key''
      then map (\<lambda>keyFP. (''keys/'' @ keyFP @ ''.pub'',
             (case alookup (cas_badKeyFiles c) keyFP of
                Some override \<Rightarrow> override
              | None \<Rightarrow> std_encode (case alookup keys keyFP of Some key \<Rightarrow> key | None \<Rightarrow> []) @ newline)))
           (filter (\<lambda>keyFP. keyFP \<notin> set (cas_omitKeys c)) (sort_slice (<) (map fst keys)))
      else [])"

definition defaultRun :: "string \<Rightarrow> string" where
  "defaultRun name = ''run-'' @ map (\<lambda>ch. if ch = CHR ''/'' \<or> ch = CHR ''_'' then CHR ''-'' else ch) name"

definition recorder_run :: "caseDef \<Rightarrow> string \<Rightarrow> string" where
  "recorder_run c recorderID =
     (case case_log c recorderID of
        [] \<Rightarrow> defaultRun (cas_name c)
      | rec # _ \<Rightarrow> if recordRun rec \<noteq> [] then recordRun rec else defaultRun (cas_name c))"

definition case_runs :: "caseDef \<Rightarrow> string list" where
  "case_runs c = fold (\<lambda>recorderID runs. if recorder_run c recorderID \<in> set runs then runs else runs @ [recorder_run c recorderID])
     (case_recorders c) []"

definition case_manifest :: "caseDef \<Rightarrow> string \<Rightarrow> (string \<times> cvalue) list" where
  "case_manifest c fp =
     put_all (cas_manifestExtra c)
       [(''ael_format'', CInt ArtifactFormatVersion), (''claimed_rung'', CInt (claimedExpectedRung (cas_expect c))),
        (''coverage'', CStr (if cas_coverage c = [] then ''declared-only'' else cas_coverage c)),
        (''custody'', CStr (if cas_custody c = [] then ''same-process'' else cas_custody c)),
        (''retention'', CObj [(''period_days'', CInt 30), (''custody'', CStr ''fixture'')]),
        (''runs'', CArr (map CStr (case_runs c))),
        (''recorders'', CArr (map (\<lambda>recorderID. CObj
           [(''id'', CStr recorderID), (''run'', CStr (recorder_run c recorderID)),
            (''key'', CStr (case alookup (cas_recorderKeys c) recorderID of Some keyFP \<Rightarrow> keyFP | None \<Rightarrow> fp)),
            (''file'', CStr (''recorders/'' @ recorderID @ ''.jsonl''))]) (case_recorders c)))]"

definition single_run :: "caseDef \<Rightarrow> expected" where
  "single_run c =
     (let ex = cas_expect c in
      if ex_Runs ex \<noteq> [] then ex
      else ex\<lparr>ex_Runs := [\<lparr>re_ID = (case case_runs c of [] \<Rightarrow> [] | run # _ \<Rightarrow> run), re_Grade = ex_Grade ex, re_R = ex_R ex,
             re_Must = ex_Must ex\<rparr>], ex_Grade := GNone, ex_R := [], ex_Must := []\<rparr>)"

text \<open>The files below the directory of the case, in the order they are written.\<close>

definition writeCase :: "caseDef \<Rightarrow> string \<Rightarrow> string \<Rightarrow> (string \<times> string) list res" where
  "writeCase c pub fp =
     and_then (canonicalValue (CObj (case_manifest c fp))) (\<lambda>manifest.
     Inr (map (\<lambda>(hash, raw). (''policy/'' @ hash @ ''.json'', raw)) (cas_policies c)
       @ (if cas_anchors c = [] then [] else [(''anchors.json'', cas_anchors c)])
       @ (if cas_counterparty c = [] then [] else [(''counterparty.jsonl'', log_text (cas_counterparty c))])
       @ key_files c pub fp
       @ map (\<lambda>recorderID. (''recorders/'' @ recorderID @ ''.jsonl'', log_text (case_log c recorderID))) (case_recorders c)
       @ [(''manifest.json'', manifest), (''expect.json'', json_MarshalIndent (doc_expected (single_run c)) @ newline)]
       @ (case cas_govExpect c of
            None \<Rightarrow> [] | Some g \<Rightarrow> [(''expect_gov.json'', json_MarshalIndent (doc_govExpectation g) @ newline)])
       @ (case cas_limitScenario c of
            None \<Rightarrow> [] | Some v \<Rightarrow> [(''scenario.json'', json_MarshalIndent (go_value v) @ newline)])
       @ (if cas_readme c = [] then [] else [(''README.md'', cas_readme c)])))"

definition writeManifest :: "string list \<Rightarrow> string" where
  "writeManifest names = join_with newline (sort_slice (<) names) @ newline"

definition writeCaseManifest :: "caseDef list \<Rightarrow> (string \<times> string) list" where
  "writeCaseManifest cases =
     [(''CASES.txt'', writeManifest (map cas_name cases)),
      (''GOV-CASES.txt'', writeManifest (map cas_name (filter (\<lambda>c. cas_govExpect c \<noteq> None) cases)))]"

section \<open>The corpus report\<close>

record CorpusCaseRun =
  ccr_Run :: string
  ccr_Grade :: string
  ccr_R :: string

record CorpusCase =
  cc_Name :: string
  cc_Match :: bool
  cc_Expected :: string
  cc_Runs :: "CorpusCaseRun list"

record CorpusReport =
  cr_CorpusFormat :: int
  cr_Total :: int
  cr_Matched :: int
  cr_Mismatched :: int
  cr_Cases :: "CorpusCase list"

definition exitCorpusMismatch :: int where "exitCorpusMismatch = 3"

definition ExitStatus :: "CorpusReport \<Rightarrow> int" where
  "ExitStatus r = (if cr_Mismatched r > 0 then exitCorpusMismatch else 0)"

definition reportGrade :: "Result \<Rightarrow> string" where
  "reportGrade res = (if res_Ungraded res then ''ungraded'' else ''AEL'' @ show_int (res_Grade res))"

definition expectedGrade :: "grade \<Rightarrow> string" where
  "expectedGrade g = (case g of GInt n \<Rightarrow> ''AEL'' @ show_int n | GStr s \<Rightarrow> s | GNone \<Rightarrow> ''<nil>'')"

definition must_pass :: "Result \<Rightarrow> (string \<times> string) list \<Rightarrow> bool" where
  "must_pass res must \<longleftrightarrow>
     (\<forall>(cid, want) \<in> set must. \<exists>got. alookup (res_Checks res) cid = Some got \<and> status_text (Status got) = want)"

definition compareExpected :: "Report \<Rightarrow> expected \<Rightarrow> bool" where
  "compareExpected report ex =
     (let runExps = expectedRuns ex;
          byRun = fold (\<lambda>res. aput (res_Run res) res) (rep_Runs report) []
      in length (rep_Runs report) = length runExps
         \<and> list_all (\<lambda>runExp.
             (case (case alookup byRun (re_ID runExp) of
                      Some res \<Rightarrow> Some res
                    | None \<Rightarrow>
                        if re_ID runExp = [] \<and> length (rep_Runs report) = 1 then Some (rep_Runs report ! 0) else None) of
                None \<Rightarrow> False
              | Some res \<Rightarrow>
                  reportGrade res = expectedGrade (re_Grade runExp) \<and> res_R res = re_R runExp \<and> must_pass res (re_Must runExp)))
             runExps)"

definition reportChecks :: "Result \<Rightarrow> string" where
  "reportChecks res =
     join_with '' '' (concat (map (\<lambda>cid.
         case alookup (res_Checks res) cid of
           None \<Rightarrow> [] | Some out \<Rightarrow> [cid @ ''='' @ status_text (Status out)])
       [''a'', ''b'', ''c'', ''d'', ''e'', ''w'', ''f'', ''g'', ''h'', ''i'', ''j'', ''k'', ''l'', ''m'', ''n'', ''o'', ''p'',
        ''q'', ''u'', ''r'', ''s'', ''t'', ''v'', ''R'']))"

definition reportSummary :: "Report \<Rightarrow> string" where
  "reportSummary report = join_with '' || '' (map (\<lambda>res.
     ''run='' @ res_Run res @ '' grade='' @ reportGrade res @ '' r='' @ res_R res @ '' | '' @ reportChecks res) (rep_Runs report))"

definition reportExpected :: "expected \<Rightarrow> string" where
  "reportExpected ex = join_with '' || '' (map (\<lambda>runExp.
     ''run='' @ (if re_ID runExp = [] then ''<single>'' else re_ID runExp) @ '' grade='' @ expectedGrade (re_Grade runExp)
     @ '' r='' @ re_R runExp @ '' ''
     @ join_with '' '' (map (\<lambda>k. k @ ''='' @ (case alookup (re_Must runExp) k of Some v \<Rightarrow> v | None \<Rightarrow> []))
         (sort_slice (<) (map fst (re_Must runExp))))) (expectedRuns ex))"

definition okLabel :: "bool \<Rightarrow> string" where
  "okLabel ok = (if ok then ''OK'' else ''MISMATCH'')"

definition corpus_case :: "caseDef \<Rightarrow> Report \<Rightarrow> CorpusCase" where
  "corpus_case c report =
     \<lparr>cc_Name = cas_name c, cc_Match = compareExpected report (cas_expect c), cc_Expected = reportExpected (cas_expect c),
      cc_Runs = map (\<lambda>res. \<lparr>ccr_Run = res_Run res, ccr_Grade = reportGrade res, ccr_R = res_R res\<rparr>) (rep_Runs report)\<rparr>"

definition count_case :: "CorpusCase \<Rightarrow> CorpusReport \<Rightarrow> CorpusReport" where
  "count_case entry r =
     r\<lparr>cr_Cases := cr_Cases r @ [entry], cr_Total := cr_Total r + 1,
       cr_Matched := (if cc_Match entry then cr_Matched r + 1 else cr_Matched r),
       cr_Mismatched := (if cc_Match entry then cr_Mismatched r else cr_Mismatched r + 1)\<rparr>"

definition case_line :: "caseDef \<Rightarrow> Report \<Rightarrow> string" where
  "case_line c report =
     cas_name c @ '': '' @ reportSummary report @ '' expected: '' @ reportExpected (cas_expect c) @ '' [''
     @ okLabel (compareExpected report (cas_expect c)) @ '']'' @ newline"

text \<open>What the operating system shows of each case and how it answers the writes: the error of the line of a case, and of
  the encoder.\<close>

record report_host =
  rh_fs :: "string \<Rightarrow> artifact_fs"
  rh_print :: "string \<Rightarrow> msg option"
  rh_encode :: "msg option"

fun report_loop :: "crypto \<Rightarrow> report_host \<Rightarrow> bool \<Rightarrow> caseDef list \<Rightarrow> CorpusReport \<Rightarrow> string \<Rightarrow> CorpusReport res \<times> string" where
  "report_loop cr host json [] r out = (Inr r, out)"
| "report_loop cr host json (c # cases) r out =
     (case LoadArtifact cr (rh_fs host (cas_name c)) of
        Inl err \<Rightarrow> (Inl err, out)
      | Inr art \<Rightarrow>
          (let report = Evaluate cr art; r = count_case (corpus_case c report) r in
           if json then report_loop cr host json cases r out
           else
             (case rh_print host (cas_name c) of
                Some err \<Rightarrow> (Inl (Errorf ''write corpus report: %w'' [E err]), out)
              | None \<Rightarrow> report_loop cr host json cases r (out @ case_line c report))))"

definition doc_CorpusReport :: "CorpusReport \<Rightarrow> cvalue" where
  "doc_CorpusReport r = CObj
     [(''corpus_format'', CInt (cr_CorpusFormat r)), (''total'', CInt (cr_Total r)), (''matched'', CInt (cr_Matched r)),
      (''mismatched'', CInt (cr_Mismatched r)),
      (''cases'', if cr_Cases r = [] then CNull else CArr (map (\<lambda>c. CObj
         [(''name'', CStr (cc_Name c)), (''match'', CBool (cc_Match c)), (''expected'', CStr (cc_Expected c)),
          (''runs'', if cc_Runs c = [] then CNull else CArr (map (\<lambda>run. CObj
             [(''run'', CStr (ccr_Run run)), (''grade'', CStr (ccr_Grade run)), (''r'', CStr (ccr_R run))]) (cc_Runs c)))])
         (cr_Cases r)))]"

definition reportCases :: "crypto \<Rightarrow> report_host \<Rightarrow> bool \<Rightarrow> caseDef list \<Rightarrow> CorpusReport res \<times> string" where
  "reportCases cr host json cases =
     (case report_loop cr host json cases
         \<lparr>cr_CorpusFormat = 1, cr_Total = 0, cr_Matched = 0, cr_Mismatched = 0, cr_Cases = []\<rparr> [] of
        (Inl err, out) \<Rightarrow> (Inl err, out)
      | (Inr r, out) \<Rightarrow>
          if json then
            (case rh_encode host of
               Some err \<Rightarrow> (Inl (Errorf ''encode corpus report: %w'' [E err]), out)
             | None \<Rightarrow> (Inr r, out @ json_Encode (doc_CorpusReport r)))
          else (Inr r, out))"

section \<open>The command\<close>

datatype generate_error = Mismatch CorpusReport | Failed msg

definition statusForGenerateError :: "generate_error option \<Rightarrow> int" where
  "statusForGenerateError err =
     (case err of None \<Rightarrow> 0 | Some (Mismatch _) \<Rightarrow> exitCorpusMismatch | Some (Failed _) \<Rightarrow> 1)"

text \<open>What the operating system answers before the report: making the directory, the writes of one case, the two lists of
  cases and the package fixtures; and the cases themselves.\<close>

record generate_host = report_host +
  gh_prepare :: "msg option"
  gh_cases :: "caseDef list res"
  gh_write :: "string \<Rightarrow> (string \<times> string) list \<Rightarrow> msg option"
  gh_lists :: "(string \<times> string) list \<Rightarrow> msg option"
  gh_packages :: "msg option"

definition write_case_err :: "generate_host \<Rightarrow> string \<Rightarrow> string \<Rightarrow> caseDef \<Rightarrow> msg option" where
  "write_case_err host pub fp c =
     (case writeCase c pub fp of Inl err \<Rightarrow> Some err | Inr files \<Rightarrow> gh_write host (cas_name c) files)"

definition generate :: "crypto \<Rightarrow> generate_host \<Rightarrow> string \<Rightarrow> bool \<Rightarrow> bool \<Rightarrow> generate_error option \<times> string" where
  "generate cr host pub report reportJSON =
     (case gh_prepare host of
        Some err \<Rightarrow> (Some (Failed err), [])
      | None \<Rightarrow>
          (case gh_cases host of
             Inl err \<Rightarrow> (Some (Failed err), [])
           | Inr cases \<Rightarrow>
               (case first_err (map (write_case_err host pub (fingerprint cr pub)) cases
                       @ [gh_lists host (writeCaseManifest cases), gh_packages host]) of
                  Some err \<Rightarrow> (Some (Failed err), [])
                | None \<Rightarrow>
                    if \<not> report then (None, [])
                    else
                      (case reportCases cr (report_host.truncate host) reportJSON cases of
                         (Inl err, out) \<Rightarrow> (Some (Failed err), out)
                       | (Inr result, out) \<Rightarrow> (if ExitStatus result \<noteq> 0 then Some (Mismatch result) else None, out)))))"

definition gen_flags :: "(string \<times> flag_kind) list" where
  "gen_flags = [(''out'', TextFlag), (''report'', BoolFlag), (''json'', BoolFlag)]"

text \<open>The answer to \<open>--version\<close> is left out.\<close>

definition aelgen :: "crypto \<Rightarrow> generate_host \<Rightarrow> string \<Rightarrow> string list \<Rightarrow> int \<times> string" where
  "aelgen cr host pub arguments =
     (case parse_flags gen_flags arguments of
        Inl err \<Rightarrow> (flag_exit err, [])
      | Inr (sets, rest) \<Rightarrow>
          if flag_string sets ''out'' [] = [] \<or> rest \<noteq> [] then (2, [])
          else if flag_bool sets ''json'' \<and> \<not> flag_bool sets ''report'' then (2, [])
          else
            (let (err, out) = generate cr host pub (flag_bool sets ''report'') (flag_bool sets ''json'')
             in (statusForGenerateError err, out)))"

end
