(* ===== verification/Package.thy ===== *)
theory Package
  imports Grade
begin

text \<open>
  \<open>checker/internal/ael/package.go\<close>, the document part: the manifest of an evaluation package or
  verification record, the status statement, their decoding, their closed schemas and the semantic checks on
  a decoded manifest. Files and trust are in \<open>Package_Files\<close>.
\<close>

section \<open>The manifest\<close>

record PackageSigner =
  sg_ID :: string
  sg_Key :: string

record PackageVerifier =
  pv_ID :: string
  pv_Key :: string
  pv_RelationshipToProducer :: string
  pv_RelationshipToOperator :: string

record PackageCustody =
  pc_Acquisition :: string
  pc_Replay :: string
  pc_Review :: string
  pc_Issuance :: string

record PackageCoverage =
  pcv_Scope :: string
  pcv_Disclosure :: string

record PackageBlob =
  bl_Path :: string
  bl_Size :: int
  bl_DigestAlgorithm :: string
  bl_Digest :: string
  bl_URL :: string

record PackageBinding =
  bd_Root :: string
  bd_KeysDir :: string
  bd_Manifest :: PackageBlob
  bd_DiscoveredRuns :: "string list"

record PackageVersionedSum =
  vs_Version :: string
  vs_DigestAlgorithm :: string
  vs_Digest :: string

record PackageChecker =
  ck_Name :: string
  ck_SourceRevision :: string
  ck_Executable :: PackageBlob

record PackageEvaluation =
  pe_Arguments :: "string list"
  pe_ExitStatus :: int
  pe_MachineOutput :: PackageBlob
  pe_Stdout :: PackageBlob
  pe_Stderr :: PackageBlob

record PackageConformance =
  cf_Corpus :: PackageVersionedSum
  cf_Command :: "string list"
  cf_ExitStatus :: int
  cf_Result :: PackageBlob

record PackageGradeAnnotations =
  ga_Coverage :: string
  ga_Custody :: string
  ga_Anchor :: string
  ga_Retention :: string

record PackageGrade =
  pg_Run :: string
  pg_Line :: string
  pg_Annotations :: PackageGradeAnnotations
  pg_Outcomes :: "(string \<times> string) list"

record PackageStatusAuthority =
  sa_ID :: string
  sa_Key :: string
  sa_RecordID :: string
  sa_URL :: string

text \<open>The party \<open>PackageParty\<close> has one field, its id. The operator's outcomes keep their status as text.\<close>

record PackageManifest =
  pm_Kind :: string
  pm_PackageFormat :: int
  pm_ID :: string
  pm_Run :: string
  pm_Producer :: string
  pm_Operator :: PackageSigner
  pm_Verifier :: "PackageVerifier option"
  pm_VerificationCustody :: PackageCustody
  pm_EvidenceCoverage :: PackageCoverage
  pm_ArtifactBinding :: PackageBinding
  pm_Files :: "PackageBlob list"
  pm_VerificationInputs :: "PackageBlob list"
  pm_Spec :: PackageVersionedSum
  pm_Checker :: PackageChecker
  pm_ArtifactEvaluation :: PackageEvaluation
  pm_Conformance :: PackageConformance
  pm_Grades :: "PackageGrade list"
  pm_IssuedAt :: string
  pm_ExpiresAt :: string
  pm_StatusAuthority :: PackageStatusAuthority

record VerificationStatus =
  st_StatusFormat :: int
  st_RecordID :: string
  st_Authority :: string
  st_IssuedAt :: string
  st_NextUpdate :: string
  st_EffectiveAt :: string
  st_State :: string
  st_Reason :: string
  st_Replacement :: string

section \<open>Decoding\<close>

definition zero_Blob :: PackageBlob where
  "zero_Blob = \<lparr>bl_Path = [], bl_Size = 0, bl_DigestAlgorithm = [], bl_Digest = [], bl_URL = []\<rparr>"

definition zero_Sum :: PackageVersionedSum where
  "zero_Sum = \<lparr>vs_Version = [], vs_DigestAlgorithm = [], vs_Digest = []\<rparr>"

definition zero_Grade :: PackageGrade where
  "zero_Grade = \<lparr>pg_Run = [], pg_Line = [],
     pg_Annotations = \<lparr>ga_Coverage = [], ga_Custody = [], ga_Anchor = [], ga_Retention = []\<rparr>, pg_Outcomes = []\<rparr>"

definition zero_PackageManifest :: PackageManifest where
  "zero_PackageManifest =
     \<lparr>pm_Kind = [], pm_PackageFormat = 0, pm_ID = [], pm_Run = [], pm_Producer = [],
      pm_Operator = \<lparr>sg_ID = [], sg_Key = []\<rparr>, pm_Verifier = None,
      pm_VerificationCustody = \<lparr>pc_Acquisition = [], pc_Replay = [], pc_Review = [], pc_Issuance = []\<rparr>,
      pm_EvidenceCoverage = \<lparr>pcv_Scope = [], pcv_Disclosure = []\<rparr>,
      pm_ArtifactBinding = \<lparr>bd_Root = [], bd_KeysDir = [], bd_Manifest = zero_Blob, bd_DiscoveredRuns = []\<rparr>,
      pm_Files = [], pm_VerificationInputs = [], pm_Spec = zero_Sum,
      pm_Checker = \<lparr>ck_Name = [], ck_SourceRevision = [], ck_Executable = zero_Blob\<rparr>,
      pm_ArtifactEvaluation = \<lparr>pe_Arguments = [], pe_ExitStatus = 0, pe_MachineOutput = zero_Blob,
        pe_Stdout = zero_Blob, pe_Stderr = zero_Blob\<rparr>,
      pm_Conformance = \<lparr>cf_Corpus = zero_Sum, cf_Command = [], cf_ExitStatus = 0, cf_Result = zero_Blob\<rparr>,
      pm_Grades = [], pm_IssuedAt = [], pm_ExpiresAt = [],
      pm_StatusAuthority = \<lparr>sa_ID = [], sa_Key = [], sa_RecordID = [], sa_URL = []\<rparr>\<rparr>"

definition dec_Party :: "json \<Rightarrow> string \<Rightarrow> string decoded" where
  "dec_Party = dec_struct (\<lambda>n j x. dec_string j x) [''id'']"

definition dec_Signer :: "json \<Rightarrow> PackageSigner \<Rightarrow> PackageSigner decoded" where
  "dec_Signer = dec_struct
     (\<lambda>n j s. if n = ''id'' then set_field (\<lambda>x. s\<lparr>sg_ID := x\<rparr>) (dec_string j (sg_ID s))
        else set_field (\<lambda>x. s\<lparr>sg_Key := x\<rparr>) (dec_string j (sg_Key s)))
     [''id'', ''key'']"

definition dec_Verifier :: "json \<Rightarrow> PackageVerifier \<Rightarrow> PackageVerifier decoded" where
  "dec_Verifier = dec_struct
     (\<lambda>n j v. if n = ''id'' then set_field (\<lambda>x. v\<lparr>pv_ID := x\<rparr>) (dec_string j (pv_ID v))
        else if n = ''key'' then set_field (\<lambda>x. v\<lparr>pv_Key := x\<rparr>) (dec_string j (pv_Key v))
        else if n = ''relationship_to_producer''
        then set_field (\<lambda>x. v\<lparr>pv_RelationshipToProducer := x\<rparr>) (dec_string j (pv_RelationshipToProducer v))
        else set_field (\<lambda>x. v\<lparr>pv_RelationshipToOperator := x\<rparr>) (dec_string j (pv_RelationshipToOperator v)))
     [''id'', ''key'', ''relationship_to_producer'', ''relationship_to_operator'']"

definition dec_Custody :: "json \<Rightarrow> PackageCustody \<Rightarrow> PackageCustody decoded" where
  "dec_Custody = dec_struct
     (\<lambda>n j c. if n = ''acquisition'' then set_field (\<lambda>x. c\<lparr>pc_Acquisition := x\<rparr>) (dec_string j (pc_Acquisition c))
        else if n = ''replay'' then set_field (\<lambda>x. c\<lparr>pc_Replay := x\<rparr>) (dec_string j (pc_Replay c))
        else if n = ''review'' then set_field (\<lambda>x. c\<lparr>pc_Review := x\<rparr>) (dec_string j (pc_Review c))
        else set_field (\<lambda>x. c\<lparr>pc_Issuance := x\<rparr>) (dec_string j (pc_Issuance c)))
     [''acquisition'', ''replay'', ''review'', ''issuance'']"

definition dec_Coverage :: "json \<Rightarrow> PackageCoverage \<Rightarrow> PackageCoverage decoded" where
  "dec_Coverage = dec_struct
     (\<lambda>n j c. if n = ''scope'' then set_field (\<lambda>x. c\<lparr>pcv_Scope := x\<rparr>) (dec_string j (pcv_Scope c))
        else set_field (\<lambda>x. c\<lparr>pcv_Disclosure := x\<rparr>) (dec_string j (pcv_Disclosure c)))
     [''scope'', ''disclosure'']"

definition dec_Blob :: "json \<Rightarrow> PackageBlob \<Rightarrow> PackageBlob decoded" where
  "dec_Blob = dec_struct
     (\<lambda>n j b. if n = ''path'' then set_field (\<lambda>x. b\<lparr>bl_Path := x\<rparr>) (dec_string j (bl_Path b))
        else if n = ''size'' then set_field (\<lambda>x. b\<lparr>bl_Size := x\<rparr>) (dec_int j (bl_Size b))
        else if n = ''digest_algorithm''
        then set_field (\<lambda>x. b\<lparr>bl_DigestAlgorithm := x\<rparr>) (dec_string j (bl_DigestAlgorithm b))
        else if n = ''digest'' then set_field (\<lambda>x. b\<lparr>bl_Digest := x\<rparr>) (dec_string j (bl_Digest b))
        else set_field (\<lambda>x. b\<lparr>bl_URL := x\<rparr>) (dec_string j (bl_URL b)))
     [''path'', ''size'', ''digest_algorithm'', ''digest'', ''url'']"

definition dec_Binding :: "json \<Rightarrow> PackageBinding \<Rightarrow> PackageBinding decoded" where
  "dec_Binding = dec_struct
     (\<lambda>n j b. if n = ''root'' then set_field (\<lambda>x. b\<lparr>bd_Root := x\<rparr>) (dec_string j (bd_Root b))
        else if n = ''keys_dir'' then set_field (\<lambda>x. b\<lparr>bd_KeysDir := x\<rparr>) (dec_string j (bd_KeysDir b))
        else if n = ''manifest'' then set_field (\<lambda>x. b\<lparr>bd_Manifest := x\<rparr>) (dec_Blob j (bd_Manifest b))
        else set_field (\<lambda>x. b\<lparr>bd_DiscoveredRuns := x\<rparr>) (dec_slice dec_string [] j (bd_DiscoveredRuns b)))
     [''root'', ''keys_dir'', ''manifest'', ''discovered_runs'']"

definition dec_Sum :: "json \<Rightarrow> PackageVersionedSum \<Rightarrow> PackageVersionedSum decoded" where
  "dec_Sum = dec_struct
     (\<lambda>n j s. if n = ''version'' then set_field (\<lambda>x. s\<lparr>vs_Version := x\<rparr>) (dec_string j (vs_Version s))
        else if n = ''digest_algorithm''
        then set_field (\<lambda>x. s\<lparr>vs_DigestAlgorithm := x\<rparr>) (dec_string j (vs_DigestAlgorithm s))
        else set_field (\<lambda>x. s\<lparr>vs_Digest := x\<rparr>) (dec_string j (vs_Digest s)))
     [''version'', ''digest_algorithm'', ''digest'']"

definition dec_Checker :: "json \<Rightarrow> PackageChecker \<Rightarrow> PackageChecker decoded" where
  "dec_Checker = dec_struct
     (\<lambda>n j c. if n = ''name'' then set_field (\<lambda>x. c\<lparr>ck_Name := x\<rparr>) (dec_string j (ck_Name c))
        else if n = ''source_revision''
        then set_field (\<lambda>x. c\<lparr>ck_SourceRevision := x\<rparr>) (dec_string j (ck_SourceRevision c))
        else set_field (\<lambda>x. c\<lparr>ck_Executable := x\<rparr>) (dec_Blob j (ck_Executable c)))
     [''name'', ''source_revision'', ''executable'']"

definition dec_Evaluation :: "json \<Rightarrow> PackageEvaluation \<Rightarrow> PackageEvaluation decoded" where
  "dec_Evaluation = dec_struct
     (\<lambda>n j e. if n = ''arguments'' then set_field (\<lambda>x. e\<lparr>pe_Arguments := x\<rparr>) (dec_slice dec_string [] j (pe_Arguments e))
        else if n = ''exit_status'' then set_field (\<lambda>x. e\<lparr>pe_ExitStatus := x\<rparr>) (dec_int j (pe_ExitStatus e))
        else if n = ''machine_output'' then set_field (\<lambda>x. e\<lparr>pe_MachineOutput := x\<rparr>) (dec_Blob j (pe_MachineOutput e))
        else if n = ''stdout'' then set_field (\<lambda>x. e\<lparr>pe_Stdout := x\<rparr>) (dec_Blob j (pe_Stdout e))
        else set_field (\<lambda>x. e\<lparr>pe_Stderr := x\<rparr>) (dec_Blob j (pe_Stderr e)))
     [''arguments'', ''exit_status'', ''machine_output'', ''stdout'', ''stderr'']"

definition dec_Conformance :: "json \<Rightarrow> PackageConformance \<Rightarrow> PackageConformance decoded" where
  "dec_Conformance = dec_struct
     (\<lambda>n j c. if n = ''corpus'' then set_field (\<lambda>x. c\<lparr>cf_Corpus := x\<rparr>) (dec_Sum j (cf_Corpus c))
        else if n = ''command'' then set_field (\<lambda>x. c\<lparr>cf_Command := x\<rparr>) (dec_slice dec_string [] j (cf_Command c))
        else if n = ''exit_status'' then set_field (\<lambda>x. c\<lparr>cf_ExitStatus := x\<rparr>) (dec_int j (cf_ExitStatus c))
        else set_field (\<lambda>x. c\<lparr>cf_Result := x\<rparr>) (dec_Blob j (cf_Result c)))
     [''corpus'', ''command'', ''exit_status'', ''result'']"

definition dec_GradeAnnotations :: "json \<Rightarrow> PackageGradeAnnotations \<Rightarrow> PackageGradeAnnotations decoded" where
  "dec_GradeAnnotations = dec_struct
     (\<lambda>n j a. if n = ''coverage'' then set_field (\<lambda>x. a\<lparr>ga_Coverage := x\<rparr>) (dec_string j (ga_Coverage a))
        else if n = ''custody'' then set_field (\<lambda>x. a\<lparr>ga_Custody := x\<rparr>) (dec_string j (ga_Custody a))
        else if n = ''anchor'' then set_field (\<lambda>x. a\<lparr>ga_Anchor := x\<rparr>) (dec_string j (ga_Anchor a))
        else set_field (\<lambda>x. a\<lparr>ga_Retention := x\<rparr>) (dec_string j (ga_Retention a)))
     [''coverage'', ''custody'', ''anchor'', ''retention'']"

definition dec_Grade :: "json \<Rightarrow> PackageGrade \<Rightarrow> PackageGrade decoded" where
  "dec_Grade = dec_struct
     (\<lambda>n j g. if n = ''run'' then set_field (\<lambda>x. g\<lparr>pg_Run := x\<rparr>) (dec_string j (pg_Run g))
        else if n = ''line'' then set_field (\<lambda>x. g\<lparr>pg_Line := x\<rparr>) (dec_string j (pg_Line g))
        else if n = ''annotations''
        then set_field (\<lambda>x. g\<lparr>pg_Annotations := x\<rparr>) (dec_GradeAnnotations j (pg_Annotations g))
        else set_field (\<lambda>x. g\<lparr>pg_Outcomes := x\<rparr>) (dec_map dec_string [] j (pg_Outcomes g)))
     [''run'', ''line'', ''annotations'', ''outcomes'']"

definition dec_StatusAuthority :: "json \<Rightarrow> PackageStatusAuthority \<Rightarrow> PackageStatusAuthority decoded" where
  "dec_StatusAuthority = dec_struct
     (\<lambda>n j a. if n = ''id'' then set_field (\<lambda>x. a\<lparr>sa_ID := x\<rparr>) (dec_string j (sa_ID a))
        else if n = ''key'' then set_field (\<lambda>x. a\<lparr>sa_Key := x\<rparr>) (dec_string j (sa_Key a))
        else if n = ''record_id'' then set_field (\<lambda>x. a\<lparr>sa_RecordID := x\<rparr>) (dec_string j (sa_RecordID a))
        else set_field (\<lambda>x. a\<lparr>sa_URL := x\<rparr>) (dec_string j (sa_URL a)))
     [''id'', ''key'', ''record_id'', ''url'']"

definition package_field :: "string \<Rightarrow> json \<Rightarrow> PackageManifest \<Rightarrow> PackageManifest decoded" where
  "package_field n j m =
     (if n = ''kind'' then set_field (\<lambda>x. m\<lparr>pm_Kind := x\<rparr>) (dec_string j (pm_Kind m))
      else if n = ''package_format'' then set_field (\<lambda>x. m\<lparr>pm_PackageFormat := x\<rparr>) (dec_int j (pm_PackageFormat m))
      else if n = ''id'' then set_field (\<lambda>x. m\<lparr>pm_ID := x\<rparr>) (dec_string j (pm_ID m))
      else if n = ''run'' then set_field (\<lambda>x. m\<lparr>pm_Run := x\<rparr>) (dec_string j (pm_Run m))
      else if n = ''producer'' then set_field (\<lambda>x. m\<lparr>pm_Producer := x\<rparr>) (dec_Party j (pm_Producer m))
      else if n = ''operator'' then set_field (\<lambda>x. m\<lparr>pm_Operator := x\<rparr>) (dec_Signer j (pm_Operator m))
      else if n = ''verifier'' then set_field (\<lambda>x. m\<lparr>pm_Verifier := x\<rparr>)
        (dec_ptr dec_Verifier \<lparr>pv_ID = [], pv_Key = [], pv_RelationshipToProducer = [], pv_RelationshipToOperator = []\<rparr>
          j (pm_Verifier m))
      else if n = ''verification_custody''
      then set_field (\<lambda>x. m\<lparr>pm_VerificationCustody := x\<rparr>) (dec_Custody j (pm_VerificationCustody m))
      else if n = ''evidence_coverage''
      then set_field (\<lambda>x. m\<lparr>pm_EvidenceCoverage := x\<rparr>) (dec_Coverage j (pm_EvidenceCoverage m))
      else if n = ''artifact_binding''
      then set_field (\<lambda>x. m\<lparr>pm_ArtifactBinding := x\<rparr>) (dec_Binding j (pm_ArtifactBinding m))
      else if n = ''files'' then set_field (\<lambda>x. m\<lparr>pm_Files := x\<rparr>) (dec_slice dec_Blob zero_Blob j (pm_Files m))
      else if n = ''verification_inputs''
      then set_field (\<lambda>x. m\<lparr>pm_VerificationInputs := x\<rparr>) (dec_slice dec_Blob zero_Blob j (pm_VerificationInputs m))
      else if n = ''spec'' then set_field (\<lambda>x. m\<lparr>pm_Spec := x\<rparr>) (dec_Sum j (pm_Spec m))
      else if n = ''checker'' then set_field (\<lambda>x. m\<lparr>pm_Checker := x\<rparr>) (dec_Checker j (pm_Checker m))
      else if n = ''artifact_evaluation''
      then set_field (\<lambda>x. m\<lparr>pm_ArtifactEvaluation := x\<rparr>) (dec_Evaluation j (pm_ArtifactEvaluation m))
      else if n = ''conformance'' then set_field (\<lambda>x. m\<lparr>pm_Conformance := x\<rparr>) (dec_Conformance j (pm_Conformance m))
      else if n = ''grades'' then set_field (\<lambda>x. m\<lparr>pm_Grades := x\<rparr>) (dec_slice dec_Grade zero_Grade j (pm_Grades m))
      else if n = ''issued_at'' then set_field (\<lambda>x. m\<lparr>pm_IssuedAt := x\<rparr>) (dec_string j (pm_IssuedAt m))
      else if n = ''expires_at'' then set_field (\<lambda>x. m\<lparr>pm_ExpiresAt := x\<rparr>) (dec_string j (pm_ExpiresAt m))
      else set_field (\<lambda>x. m\<lparr>pm_StatusAuthority := x\<rparr>) (dec_StatusAuthority j (pm_StatusAuthority m)))"

definition dec_PackageManifest :: "json \<Rightarrow> PackageManifest \<Rightarrow> PackageManifest decoded" where
  "dec_PackageManifest = dec_struct package_field
     [''kind'', ''package_format'', ''id'', ''run'', ''producer'', ''operator'', ''verifier'', ''verification_custody'',
      ''evidence_coverage'', ''artifact_binding'', ''files'', ''verification_inputs'', ''spec'', ''checker'',
      ''artifact_evaluation'', ''conformance'', ''grades'', ''issued_at'', ''expires_at'', ''status_authority'']"

definition dec_VerificationStatus :: "json \<Rightarrow> VerificationStatus \<Rightarrow> VerificationStatus decoded" where
  "dec_VerificationStatus = dec_struct
     (\<lambda>n j s. if n = ''status_format'' then set_field (\<lambda>x. s\<lparr>st_StatusFormat := x\<rparr>) (dec_int j (st_StatusFormat s))
        else if n = ''record_id'' then set_field (\<lambda>x. s\<lparr>st_RecordID := x\<rparr>) (dec_string j (st_RecordID s))
        else if n = ''authority'' then set_field (\<lambda>x. s\<lparr>st_Authority := x\<rparr>) (dec_string j (st_Authority s))
        else if n = ''issued_at'' then set_field (\<lambda>x. s\<lparr>st_IssuedAt := x\<rparr>) (dec_string j (st_IssuedAt s))
        else if n = ''next_update'' then set_field (\<lambda>x. s\<lparr>st_NextUpdate := x\<rparr>) (dec_string j (st_NextUpdate s))
        else if n = ''effective_at'' then set_field (\<lambda>x. s\<lparr>st_EffectiveAt := x\<rparr>) (dec_string j (st_EffectiveAt s))
        else if n = ''state'' then set_field (\<lambda>x. s\<lparr>st_State := x\<rparr>) (dec_string j (st_State s))
        else if n = ''reason'' then set_field (\<lambda>x. s\<lparr>st_Reason := x\<rparr>) (dec_string j (st_Reason s))
        else set_field (\<lambda>x. s\<lparr>st_Replacement := x\<rparr>) (dec_string j (st_Replacement s)))
     [''status_format'', ''record_id'', ''authority'', ''issued_at'', ''next_update'', ''effective_at'', ''state'',
      ''reason'', ''replacement'']"

definition zero_VerificationStatus :: VerificationStatus where
  "zero_VerificationStatus = \<lparr>st_StatusFormat = 0, st_RecordID = [], st_Authority = [], st_IssuedAt = [],
     st_NextUpdate = [], st_EffectiveAt = [], st_State = [], st_Reason = [], st_Replacement = []\<rparr>"

section \<open>Closed schemas\<close>

text \<open>A local struct of \<open>json.RawMessage\<close> fields; a field that is absent stays the empty message.\<close>

definition raw_struct :: "string list \<Rightarrow> json res \<Rightarrow> fields res" where
  "raw_struct names raw =
     and_then raw (\<lambda>j.
       case dec_struct (\<lambda>n v m. (aput n v m, None)) names j [] of
         (m, Some e) \<Rightarrow> Inl e
       | (m, None) \<Rightarrow> Inr m)"

definition raw_items :: "json res \<Rightarrow> json list res" where
  "raw_items raw =
     and_then raw (\<lambda>j. case dec_slice dec_raw JNull j [] of (js, Some e) \<Rightarrow> Inl e | (js, None) \<Rightarrow> Inr js)"

definition raw_root :: "json res \<Rightarrow> fields res" where
  "raw_root raw = and_then raw (\<lambda>j. and_then (raw_map j) (\<lambda>m. Inr (case m of Some ms \<Rightarrow> ms | None \<Rightarrow> [])))"

definition validateNonNegativeIntegerSchema :: "json res \<Rightarrow> string \<Rightarrow> msg option" where
  "validateNonNegativeIntegerSchema raw field =
     (let bad = Some (Errorf ''%s must be a non-negative integer'' [S field]) in
      case raw of
        Inl err \<Rightarrow> Some (Errorf ''%s must be a non-negative integer: %w'' [S field, E err])
      | Inr j \<Rightarrow>
          (case any_of True j of
             (value, Some err) \<Rightarrow> Some (Errorf ''%s must be a non-negative integer: %w'' [S field, E err])
           | (value, None) \<Rightarrow>
               (case value of
                  VNumber n \<Rightarrow>
                    (case number_Int64 n of Inr i \<Rightarrow> if i < 0 then bad else None | Inl _ \<Rightarrow> bad)
                | _ \<Rightarrow> bad)))"

definition validateStringArraySchema :: "json res \<Rightarrow> string \<Rightarrow> msg option" where
  "validateStringArraySchema raw field =
     (case raw of
        Inl err \<Rightarrow> Some (Errorf ''%s must be an array: %w'' [S field, E err])
      | Inr j \<Rightarrow>
          (case any_of False j of
             (value, Some err) \<Rightarrow> Some (Errorf ''%s must be an array: %w'' [S field, E err])
           | (value, None) \<Rightarrow>
               (case value of
                  VSlice items \<Rightarrow>
                    first_some (\<lambda>i. case items ! i of
                        VString _ \<Rightarrow> None
                      | _ \<Rightarrow> Some (Errorf ''%s[%d] must be a string'' [S field, D (int i)])) [0..<length items]
                | _ \<Rightarrow> Some (Errorf ''%s must be an array'' [S field]))))"

definition validatePackageBlobSchema :: "json res \<Rightarrow> msg option" where
  "validatePackageBlobSchema raw =
     first_err
       [validateObjectSchema raw [''path'', ''size'', ''digest_algorithm'', ''digest'', ''url'']
          [''path'', ''size'', ''digest_algorithm'', ''digest''],
        (case raw_struct [''size''] raw of
           Inl e \<Rightarrow> Some e
         | Inr blob \<Rightarrow> validateNonNegativeIntegerSchema (raw_field blob ''size'') ''size'')]"

definition validatePackageGradeSchema :: "json res \<Rightarrow> msg option" where
  "validatePackageGradeSchema raw =
     first_err
       [validateObjectSchema raw [''run'', ''line'', ''annotations'', ''outcomes''] [''run'', ''line'', ''annotations'', ''outcomes''],
        (case raw_struct [''annotations''] raw of
           Inl e \<Rightarrow> Some e
         | Inr grade \<Rightarrow>
             validateObjectSchema (raw_field grade ''annotations'') [''coverage'', ''custody'', ''anchor'', ''retention'']
               [''coverage'', ''custody'', ''anchor'', ''retention''])]"

definition prefix_err :: "string \<Rightarrow> msg option \<Rightarrow> msg option" where
  "prefix_err name = wrap_err (\<lambda>e. Errorf ''%s: %w'' [S name, E e])"

definition validate_each :: "string \<Rightarrow> (json res \<Rightarrow> msg option) \<Rightarrow> json res \<Rightarrow> msg option" where
  "validate_each field f raw =
     (case raw_items raw of
        Inl err \<Rightarrow> Some (Errorf ''%s must be an array: %w'' [S field, E err])
      | Inr items \<Rightarrow>
          first_some (\<lambda>i. wrap_err (\<lambda>e. Errorf ''%s[%d]: %w'' [S field, D (int i), E e]) (f (Inr (items ! i))))
            [0..<length items])"

text \<open>An object whose keys are exactly \<open>keys\<close>, under \<open>field\<close> of the manifest.\<close>

abbreviation nested_exact :: "json res \<Rightarrow> string \<Rightarrow> string list \<Rightarrow> msg option" where
  "nested_exact raw field ks \<equiv> prefix_err field (validateNestedObjectSchema raw field ks ks)"

definition validateEvaluationSchema :: "json res \<Rightarrow> fields \<Rightarrow> msg option" where
  "validateEvaluationSchema raw root =
     first_err
       [nested_exact raw ''artifact_evaluation'' [''arguments'', ''exit_status'', ''machine_output'', ''stdout'', ''stderr''],
        (case raw_struct [''arguments'', ''exit_status'', ''machine_output'', ''stdout'', ''stderr'']
                (raw_field root ''artifact_evaluation'') of
           Inl e \<Rightarrow> Some e
         | Inr evaluation \<Rightarrow>
             first_err
               [validateStringArraySchema (raw_field evaluation ''arguments'') ''artifact_evaluation.arguments'',
                validateNonNegativeIntegerSchema (raw_field evaluation ''exit_status'') ''artifact_evaluation.exit_status'',
                first_some (\<lambda>name. wrap_err (\<lambda>e. Errorf ''artifact_evaluation.%s: %w'' [S name, E e])
                    (validatePackageBlobSchema (raw_field evaluation name)))
                  [''machine_output'', ''stdout'', ''stderr'']])]"

definition validateConformanceSchema :: "json res \<Rightarrow> fields \<Rightarrow> msg option" where
  "validateConformanceSchema raw root =
     first_err
       [nested_exact raw ''conformance'' [''corpus'', ''command'', ''exit_status'', ''result''],
        (case raw_struct [''corpus'', ''command'', ''exit_status'', ''result''] (raw_field root ''conformance'') of
           Inl e \<Rightarrow> Some e
         | Inr conformance \<Rightarrow>
             first_err
               [validateStringArraySchema (raw_field conformance ''command'') ''conformance.command'',
                validateNonNegativeIntegerSchema (raw_field conformance ''exit_status'') ''conformance.exit_status'',
                prefix_err ''conformance.corpus''
                  (validateObjectSchema (raw_field conformance ''corpus'') [''version'', ''digest_algorithm'', ''digest'']
                    [''version'', ''digest_algorithm'', ''digest'']),
                prefix_err ''conformance.result'' (validatePackageBlobSchema (raw_field conformance ''result''))])]"

definition validatePackageNestedSchema :: "json res \<Rightarrow> string \<Rightarrow> msg option" where
  "validatePackageNestedSchema raw kind =
     (case raw_root raw of
        Inl e \<Rightarrow> Some e
      | Inr root \<Rightarrow>
          first_err
            [nested_exact raw ''producer'' [''id''],
             (if kind = ''evaluation-package'' then nested_exact raw ''operator'' [''id'', ''key'']
              else nested_exact raw ''operator'' [''id'']),
             (if kind = ''verification-record''
              then nested_exact raw ''verifier'' [''id'', ''key'', ''relationship_to_producer'', ''relationship_to_operator'']
              else None),
             nested_exact raw ''verification_custody'' [''acquisition'', ''replay'', ''review'', ''issuance''],
             nested_exact raw ''evidence_coverage'' [''scope'', ''disclosure''],
             nested_exact raw ''artifact_binding'' [''root'', ''keys_dir'', ''manifest'', ''discovered_runs''],
             (case raw_struct [''manifest''] (raw_field root ''artifact_binding'') of
                Inl e \<Rightarrow> Some e
              | Inr binding \<Rightarrow>
                  prefix_err ''artifact_binding.manifest'' (validatePackageBlobSchema (raw_field binding ''manifest''))),
             first_some (\<lambda>field. validate_each field validatePackageBlobSchema (raw_field root field))
               [''files'', ''verification_inputs''],
             nested_exact raw ''spec'' [''version'', ''digest_algorithm'', ''digest''],
             nested_exact raw ''checker'' [''name'', ''source_revision'', ''executable''],
             (case raw_struct [''executable''] (raw_field root ''checker'') of
                Inl e \<Rightarrow> Some e
              | Inr checker \<Rightarrow>
                  prefix_err ''checker.executable'' (validatePackageBlobSchema (raw_field checker ''executable''))),
             validateEvaluationSchema raw root,
             validateConformanceSchema raw root,
             prefix_err ''status_authority'' (validateNestedObjectSchema raw ''status_authority''
               [''id'', ''key'', ''record_id'', ''url''] [''id'', ''key'', ''record_id'']),
             (if kind = ''verification-record''
              then validate_each ''grades'' validatePackageGradeSchema (raw_field root ''grades'') else None)])"

definition packageCommonKeys :: "string list" where
  "packageCommonKeys =
     [''kind'', ''package_format'', ''id'', ''run'', ''producer'', ''operator'', ''verification_custody'',
      ''evidence_coverage'', ''artifact_binding'', ''files'', ''verification_inputs'', ''spec'', ''checker'',
      ''artifact_evaluation'', ''conformance'', ''issued_at'', ''expires_at'', ''status_authority'']"

definition package_required :: "string list" where
  "package_required =
     [''kind'', ''package_format'', ''id'', ''run'', ''producer'', ''operator'', ''verification_custody'',
      ''evidence_coverage'', ''artifact_binding'', ''files'', ''verification_inputs'', ''spec'', ''checker'',
      ''artifact_evaluation'', ''conformance'', ''issued_at'', ''status_authority'']"

definition validatePackageManifestSchema :: "json res \<Rightarrow> msg option" where
  "validatePackageManifestSchema raw =
     (case raw_root raw of
        Inl e \<Rightarrow> Some e
      | Inr root \<Rightarrow>
          (case alookup root ''kind'' of
             None \<Rightarrow> Some (Errorf ''missing required top-level key %q'' [Q ''kind''])
           | Some kindRaw \<Rightarrow>
               (case dec_string kindRaw [] of
                  (kind, Some _) \<Rightarrow> Some (Errorf ''kind must be a string'' [])
                | (kind, None) \<Rightarrow>
                    if kind = ''evaluation-package'' then
                      first_err [validateObjectSchema raw packageCommonKeys package_required,
                        validatePackageNestedSchema raw kind]
                    else if kind = ''verification-record'' then
                      first_err [validateObjectSchema raw (packageCommonKeys @ [''verifier'', ''grades''])
                          (package_required @ [''verifier'', ''grades'']),
                        validatePackageNestedSchema raw kind]
                    else Some (Errorf ''kind %q must be evaluation-package or verification-record'' [Q kind]))))"

section \<open>Semantic checks\<close>

definition packageTextPresent :: "string list \<Rightarrow> bool" where
  "packageTextPresent values = list_all (\<lambda>v. trim_space v \<noteq> []) values"

definition isSHA256 :: "string \<Rightarrow> bool" where
  "isSHA256 value \<longleftrightarrow> length value = 64 \<and> hex_decode value \<noteq> None \<and> to_lower value = value"

definition validatePackagePath :: "string \<Rightarrow> msg option" where
  "validatePackagePath value =
     (let e = Some (Errorf ''must be a normalized relative path'' []) in
      if value = [] \<or> CHR 0x5C \<in> set value \<or> has_prefix value ''/'' \<or> path_Clean value \<noteq> value then e
      else first_some (\<lambda>part. if part = [] \<or> part = ''.'' \<or> part = ''..'' then e else None)
             (split_on (CHR ''/'') value))"

definition validateRFC3339 :: "string \<Rightarrow> string \<Rightarrow> msg option" where
  "validateRFC3339 name value =
     (case parse_rfc3339 value of
        None \<Rightarrow> Some (Errorf ''%s: %w'' [S name, E (StdErr ''parsing time'')]) | Some _ \<Rightarrow> None)"

definition validateVersionedSum :: "string \<Rightarrow> PackageVersionedSum \<Rightarrow> msg option" where
  "validateVersionedSum name vsum =
     (if \<not> packageTextPresent [vs_Version vsum] \<or> vs_DigestAlgorithm vsum \<noteq> ''sha-256'' \<or> \<not> isSHA256 (vs_Digest vsum)
      then Some (Errorf ''%s must carry a versioned sha-256 digest'' [S name]) else None)"

definition validateBlobShape :: "string \<Rightarrow> PackageBlob \<Rightarrow> msg option" where
  "validateBlobShape name blob =
     first_err
       [wrap_err (\<lambda>e. Errorf ''%s path: %w'' [S name, E e]) (validatePackagePath (bl_Path blob)),
        if bl_Size blob < 0 \<or> bl_DigestAlgorithm blob \<noteq> ''sha-256'' \<or> \<not> isSHA256 (bl_Digest blob)
        then Some (Errorf ''%s must carry size and sha-256 digest'' [S name]) else None]"

definition grade_fault :: "string list \<Rightarrow> PackageGrade \<Rightarrow> msg option" where
  "grade_fault seen grade =
     (let a = pg_Annotations grade in
      if \<not> packageTextPresent [pg_Run grade, pg_Line grade] \<or> pg_Run grade \<in> set seen
      then Some (Errorf ''grades must have one non-empty entry for each run'' [])
      else if \<not> packageTextPresent [ga_Coverage a, ga_Custody a, ga_Anchor a, ga_Retention a]
      then Some (Errorf ''grade %q is missing required annotations'' [Q (pg_Run grade)])
      else if pg_Outcomes grade = []
      then Some (Errorf ''grade %q is missing PASS / FAIL / UV outcomes'' [Q (pg_Run grade)])
      else first_some (\<lambda>(cid, out).
             if \<not> packageTextPresent [cid]
                \<or> (out \<noteq> status_text Pass \<and> out \<noteq> status_text Fail \<and> out \<noteq> status_text UV)
             then Some (Errorf ''grade %q has invalid outcome'' [Q (pg_Run grade)]) else None) (pg_Outcomes grade))"

fun grades_loop :: "string list \<Rightarrow> PackageGrade list \<Rightarrow> msg option" where
  "grades_loop seen [] = None"
| "grades_loop seen (grade # grades) =
     (case grade_fault seen grade of Some e \<Rightarrow> Some e | None \<Rightarrow> grades_loop (pg_Run grade # seen) grades)"

definition validatePackageGrades :: "PackageManifest \<Rightarrow> msg option" where
  "validatePackageGrades m = grades_loop [] (pm_Grades m)"

text \<open>The parties: a verification record has a verifier who is neither the producer nor the operator, an
  evaluation package has an operator key and no grades.\<close>

definition validate_verifier :: "PackageManifest \<Rightarrow> PackageVerifier option \<Rightarrow> msg option" where
  "validate_verifier m verifier =
     (let absent = Some (Errorf ''verification record requires verifier identity and key'' []) in
      case verifier of
        None \<Rightarrow> absent
      | Some v \<Rightarrow>
          if \<not> packageTextPresent [pv_ID v, pv_Key v] then absent
          else if \<not> packageTextPresent [pv_RelationshipToProducer v, pv_RelationshipToOperator v]
          then Some (Errorf ''verifier relationships must be present'' [])
          else if \<not> isSHA256 (pv_Key v)
          then Some (Errorf ''verification record verifier must identify a sha-256 public key'' [])
          else if pv_ID v = pm_Producer m then Some (Errorf ''verifier must not equal producer'' [])
          else if pv_ID v = sg_ID (pm_Operator m) then Some (Errorf ''verifier must not equal operator'' [])
          else None)"

definition validate_parties :: "PackageManifest \<Rightarrow> msg option" where
  "validate_parties m =
     (if pm_PackageFormat m \<noteq> 1 \<or> \<not> packageTextPresent [pm_ID m, pm_Run m]
      then Some (Errorf ''package format, id, and run must be present'' [])
      else if \<not> packageTextPresent [pm_Producer m, sg_ID (pm_Operator m)]
      then Some (Errorf ''producer and operator identities must be present'' [])
      else if pm_Kind m = ''evaluation-package'' \<and> \<not> isSHA256 (sg_Key (pm_Operator m))
      then Some (Errorf ''evaluation package operator must identify a sha-256 public key'' [])
      else if pm_Kind m = ''verification-record'' then validate_verifier m (pm_Verifier m)
      else if pm_Grades m \<noteq> [] then Some (Errorf ''evaluation package must not carry grades'' [])
      else None)"

definition validate_declarations :: "PackageManifest \<Rightarrow> msg option" where
  "validate_declarations m =
     (let c = pm_VerificationCustody m; e = pm_EvidenceCoverage m in
      if \<not> packageTextPresent [pc_Acquisition c, pc_Replay c, pc_Review c, pc_Issuance c]
      then Some (Errorf ''verification custody fields must be present'' [])
      else if \<not> packageTextPresent [pcv_Scope e, pcv_Disclosure e]
      then Some (Errorf ''evidence coverage fields must be present'' [])
      else if pe_ExitStatus (pm_ArtifactEvaluation m) < 0
      then Some (Errorf ''artifact evaluation exit status must be non-negative'' [])
      else if cf_ExitStatus (pm_Conformance m) < 0
      then Some (Errorf ''conformance exit status must be non-negative'' [])
      else if cf_Command (pm_Conformance m) = [] then Some (Errorf ''conformance command must not be empty'' [])
      else first_err
        [validateRFC3339 ''issued_at'' (pm_IssuedAt m),
         if pm_ExpiresAt m \<noteq> [] then validateRFC3339 ''expires_at'' (pm_ExpiresAt m) else None])"

definition validate_binding :: "PackageManifest \<Rightarrow> msg option" where
  "validate_binding m =
     (let b = pm_ArtifactBinding m in
      first_err
        [wrap_err (\<lambda>e. Errorf ''artifact root: %w'' [E e]) (validatePackagePath (bd_Root b)),
         wrap_err (\<lambda>e. Errorf ''artifact keys_dir: %w'' [E e]) (validatePackagePath (bd_KeysDir b)),
         if bd_DiscoveredRuns b = [] then Some (Errorf ''artifact binding must list discovered runs'' []) else None,
         first_some (\<lambda>run. if \<not> packageTextPresent [run]
             then Some (Errorf ''artifact binding has an empty discovered run'' []) else None) (bd_DiscoveredRuns b)])"

definition validatePackageSemantics :: "PackageManifest \<Rightarrow> msg option" where
  "validatePackageSemantics m =
     first_err
       [validate_parties m,
        validate_declarations m,
        validate_binding m,
        validateBlobShape ''artifact manifest'' (bd_Manifest (pm_ArtifactBinding m)),
        validateVersionedSum ''spec'' (pm_Spec m),
        validateVersionedSum ''conformance corpus'' (cf_Corpus (pm_Conformance m)),
        (if \<not> packageTextPresent [ck_Name (pm_Checker m), ck_SourceRevision (pm_Checker m)]
         then Some (Errorf ''checker name and source revision must be present'' []) else None),
        first_some (\<lambda>(name, blob). validateBlobShape name blob)
          [(''checker executable'', ck_Executable (pm_Checker m)),
           (''artifact evaluation machine output'', pe_MachineOutput (pm_ArtifactEvaluation m)),
           (''artifact evaluation stdout'', pe_Stdout (pm_ArtifactEvaluation m)),
           (''artifact evaluation stderr'', pe_Stderr (pm_ArtifactEvaluation m)),
           (''conformance result'', cf_Result (pm_Conformance m))],
        (let a = pm_StatusAuthority m in
         if \<not> packageTextPresent [sa_ID a, sa_RecordID a] \<or> \<not> isSHA256 (sa_Key a) \<or> sa_RecordID a \<noteq> pm_ID m
         then Some (Errorf ''status authority must identify this record and its key'' []) else None),
        (if pm_Kind m = ''verification-record'' then validatePackageGrades m else None)]"

section \<open>The status statement\<close>

definition status_current :: "VerificationStatus \<Rightarrow> instant \<Rightarrow> msg option" where
  "status_current s issued =
     (if \<not> packageTextPresent [st_NextUpdate s] then Some (Errorf ''current status requires next_update'' [])
      else
        (case parse_rfc3339 (st_NextUpdate s) of
           None \<Rightarrow> validateRFC3339 ''status next_update'' (st_NextUpdate s)
         | Some nextUpdate \<Rightarrow>
             if \<not> issued < nextUpdate
             then Some (Errorf ''current status next_update must be later than issued_at'' []) else None))"

definition status_state :: "VerificationStatus \<Rightarrow> instant \<Rightarrow> msg option" where
  "status_state s issued =
     (if st_State s = ''current'' then status_current s issued
      else if st_State s = ''revoked'' then
        (if \<not> packageTextPresent [st_Reason s, st_EffectiveAt s]
         then Some (Errorf ''revoked status requires reason and effective_at'' [])
         else validateRFC3339 ''status effective_at'' (st_EffectiveAt s))
      else if st_State s = ''superseded'' then
        (if \<not> packageTextPresent [st_Reason s, st_Replacement s, st_EffectiveAt s]
         then Some (Errorf ''superseded status requires reason, replacement, and effective_at'' [])
         else validateRFC3339 ''status effective_at'' (st_EffectiveAt s))
      else Some (Errorf ''invalid status state %q'' [Q (st_State s)]))"

definition validateVerificationStatusSchema :: "string \<Rightarrow> msg option" where
  "validateVerificationStatusSchema raw =
     (case validateObjectSchema (parse_json raw)
         [''status_format'', ''record_id'', ''authority'', ''issued_at'', ''next_update'', ''effective_at'', ''state'',
          ''reason'', ''replacement'']
         [''status_format'', ''record_id'', ''authority'', ''issued_at'', ''state''] of
        Some e \<Rightarrow> Some e
      | None \<Rightarrow>
          (case unmarshal dec_VerificationStatus raw zero_VerificationStatus of
             (s, Some e) \<Rightarrow> Some e
           | (s, None) \<Rightarrow>
               if st_StatusFormat s \<noteq> 1 then Some (Errorf ''status_format must be 1'' [])
               else
                 (case parse_rfc3339 (st_IssuedAt s) of
                    None \<Rightarrow> validateRFC3339 ''status issued_at'' (st_IssuedAt s)
                  | Some issued \<Rightarrow> status_state s issued)))"

end
