(* ===== verification/Package_Files.thy ===== *)
theory Package_Files
  imports Package Go_Marshal
begin

text \<open>
  \<open>checker/internal/ael/package.go\<close>, the part that reads files and keys: the snapshot of a package, the
  trust roles, the signature, the blobs, the bound artifact, the machine output, the status, and
  \<open>validatePackageDir\<close>; and the validate command of \<open>checker/cmd/aelpackage/main.go\<close>. The directory that is validated
  is an argument, as the entries \<open>filepath.WalkDir\<close> visits; so are the trust directories and the files outside.
\<close>

section \<open>The package directory\<close>

text \<open>What the walk finds under a path; \<open>WError\<close> is an entry that the walk cannot read.\<close>

datatype walk_node = WDir | WFile "string res" | WSymlink | WIrregular | WError msg

record package_source =
  ps_lstat :: "bool res"
  ps_walk :: "(string \<times> walk_node) list"

text \<open>The snapshot: the directories and the bytes of the files, in the order of the walk, under relative
  paths. Its own file operations are taken to succeed.\<close>

datatype node = Dir | File string

type_synonym tree = "(string \<times> node) list"

fun snapshot_walk :: "(string \<times> walk_node) list \<Rightarrow> tree res" where
  "snapshot_walk [] = Inr []"
| "snapshot_walk ((rel, n) # es) =
     (case n of
        WError e \<Rightarrow> Inl e
      | WSymlink \<Rightarrow> Inl (Errorf ''package contains symlink %q'' [Q rel])
      | WIrregular \<Rightarrow> Inl (Errorf ''package contains non-regular file %q'' [Q rel])
      | WDir \<Rightarrow> and_then (snapshot_walk es) (\<lambda>t. Inr ((rel, Dir) # t))
      | WFile r \<Rightarrow> and_then r (\<lambda>raw. and_then (snapshot_walk es) (\<lambda>t. Inr ((rel, File raw) # t))))"

definition snapshotPackageDir :: "package_source \<Rightarrow> tree res" where
  "snapshotPackageDir src =
     (case ps_lstat src of
        Inl err \<Rightarrow> Inl (Errorf ''inspect package directory: %w'' [E err])
      | Inr isdir \<Rightarrow>
          if \<not> isdir then Inl (Errorf ''package directory must be a non-symlink directory'' [])
          else
            (case snapshot_walk (ps_walk src) of
               Inl err \<Rightarrow> Inl (Errorf ''snapshot package: %w'' [E err])
             | Inr t \<Rightarrow> Inr t))"

definition packageManifestName :: string where "packageManifestName = ''manifest.json''"
definition packageSignatureName :: string where "packageSignatureName = ''manifest.sig''"
definition packageTrustOperators :: string where "packageTrustOperators = ''operators''"
definition packageTrustVerifiers :: string where "packageTrustVerifiers = ''verifiers''"
definition packageTrustStatus :: string where "packageTrustStatus = ''status''"

text \<open>\<open>os.ReadFile\<close>, \<open>os.ReadDir\<close> and \<open>os.Open\<close> in the snapshot.\<close>

definition under :: "string \<Rightarrow> string \<Rightarrow> bool" where
  "under d p \<longleftrightarrow> has_prefix p (d @ ''/'')"

definition is_file :: "node \<Rightarrow> bool" where
  "is_file n \<longleftrightarrow> (case n of File _ \<Rightarrow> True | Dir \<Rightarrow> False)"

definition missing_err :: "tree \<Rightarrow> string \<Rightarrow> msg" where
  "missing_err t p = (if \<exists>(q, n) \<in> set t. is_file n \<and> under q p then StdErr ''not a directory'' else os_ErrNotExist)"

definition tree_open :: "tree \<Rightarrow> string \<Rightarrow> os_file res" where
  "tree_open t p =
     (case alookup t p of
        Some (File raw) \<Rightarrow> Inr \<lparr>f_data = raw, f_err = None\<rparr>
      | Some Dir \<Rightarrow> Inr \<lparr>f_data = [], f_err = Some (StdErr ''is a directory'')\<rparr>
      | None \<Rightarrow> Inl (missing_err t p))"

definition tree_read :: "tree \<Rightarrow> string \<Rightarrow> string res" where
  "tree_read t p = and_then (tree_open t p) read_all"

definition base_name :: "string \<Rightarrow> string" where
  "base_name p = last (split_on (CHR ''/'') p)"

definition tree_dir :: "tree \<Rightarrow> string \<Rightarrow> dirent list res" where
  "tree_dir t d =
     (case alookup t d of
        Some Dir \<Rightarrow>
          Inr (map (\<lambda>(p, n). \<lparr>e_name = base_name p, e_isdir = \<not> is_file n, e_file = tree_open t p\<rparr>)
            (filter (\<lambda>(p, n). p = d @ ''/'' @ base_name p) t))
      | Some (File _) \<Rightarrow> Inl (StdErr ''not a directory'')
      | None \<Rightarrow> Inl (missing_err t d))"

definition tree_fs :: "tree \<Rightarrow> string \<Rightarrow> string \<Rightarrow> artifact_fs" where
  "tree_fs t root keysDir =
     \<lparr>fs_root = (case alookup t root of
         Some Dir \<Rightarrow> None | Some (File _) \<Rightarrow> Some (StdErr ''not a directory'') | None \<Rightarrow> Some (missing_err t root)),
      fs_open = (\<lambda>rel. tree_open t (root @ ''/'' @ rel)),
      fs_policy = tree_dir t (root @ ''/policy''),
      fs_keys = tree_dir t keysDir\<rparr>"

definition safePackagePath :: "string \<Rightarrow> string res" where
  "safePackagePath rel =
     fail_if (wrap_err (\<lambda>e. Errorf ''unsafe package path %q: %w'' [Q rel, E e]) (validatePackagePath rel)) (Inr rel)"

section \<open>Errors and trust\<close>

text \<open>\<open>Untrusted\<close> is a \<open>PackageValidationError\<close>, whose state is always UNTRUSTED.\<close>

datatype package_error = Untrusted msg | Invalid msg

type_synonym 'a pres = "package_error + 'a"

definition invalid :: "'a res \<Rightarrow> 'a pres" where
  "invalid r = (case r of Inl e \<Rightarrow> Inl (Invalid e) | Inr x \<Rightarrow> Inr x)"

definition and_try :: "'a pres \<Rightarrow> ('a \<Rightarrow> 'b pres) \<Rightarrow> 'b pres" where
  "and_try r f = (case r of Inl e \<Rightarrow> Inl e | Inr x \<Rightarrow> f x)"

definition require_ok :: "msg option \<Rightarrow> 'a pres \<Rightarrow> 'a pres" where
  "require_ok e r = (case e of Some m \<Rightarrow> Inl (Invalid m) | None \<Rightarrow> r)"

record trust_entry = dirent +
  te_symlink :: bool

text \<open>One role directory: \<open>os.Lstat\<close> (whether it is a symlink) and \<open>os.ReadDir\<close>.\<close>

record trust_dir =
  td_lstat :: "bool res"
  td_entries :: "trust_entry list res"

definition keys_fs :: "dirent list res \<Rightarrow> artifact_fs" where
  "keys_fs entries = \<lparr>fs_root = None, fs_open = (\<lambda>_. Inl os_ErrNotExist), fs_policy = Inl os_ErrNotExist, fs_keys = entries\<rparr>"

definition loadPackageTrustRoleKeys :: "crypto \<Rightarrow> (string \<Rightarrow> trust_dir) \<Rightarrow> string \<Rightarrow> keys res" where
  "loadPackageTrustRoleKeys cr trust role =
     (case td_lstat (trust role) of
        Inl err \<Rightarrow> if err = os_ErrNotExist then Inr [] else Inl err
      | Inr symlink \<Rightarrow>
          if symlink then Inl (Errorf ''trusted %s key directory must not be a symlink'' [S role])
          else and_then (td_entries (trust role)) (\<lambda>entries.
            fail_if (first_some (\<lambda>entry. if te_symlink entry
                then Some (Errorf ''trusted %s key directory contains symlink %q'' [S role, Q (e_name entry)]) else None) entries)
              (loadKeys cr (keys_fs (Inr (map dirent.truncate entries))))))"

definition loadPackageTrustKeys :: "crypto \<Rightarrow> (string \<Rightarrow> trust_dir) \<Rightarrow> string \<Rightarrow> keys pres" where
  "loadPackageTrustKeys cr trust role =
     (case loadPackageTrustRoleKeys cr trust role of
        Inl err \<Rightarrow> Inl (Untrusted (Errorf ''load trusted %s keys: %v'' [S role, E err]))
      | Inr ks \<Rightarrow>
          if role = packageTrustVerifiers then
            (case loadPackageTrustRoleKeys cr trust packageTrustOperators of
               Inl err \<Rightarrow> Inl (Untrusted (Errorf ''load trusted %s keys: %v'' [S packageTrustOperators, E err]))
             | Inr operatorKeys \<Rightarrow>
                 (case first_some (\<lambda>(fingerprint, _). if has_key operatorKeys fingerprint
                     then Some (Errorf ''trusted verifier key %s is also trusted as an operator key'' [S fingerprint])
                     else None) ks of
                    Some e \<Rightarrow> Inl (Untrusted e)
                  | None \<Rightarrow> Inr ks))
          else Inr ks)"

definition packageSignerTrustRole :: "PackageManifest \<Rightarrow> string" where
  "packageSignerTrustRole m =
     (if pm_Kind m = ''verification-record'' then packageTrustVerifiers else packageTrustOperators)"

definition packageSignerKey :: "PackageManifest \<Rightarrow> string" where
  "packageSignerKey m =
     (case pm_Verifier m of
        Some v \<Rightarrow> if pm_Kind m = ''verification-record'' then pv_Key v else sg_Key (pm_Operator m)
      | None \<Rightarrow> sg_Key (pm_Operator m))"

definition verifyPackageSignature :: "crypto \<Rightarrow> tree \<Rightarrow> string \<Rightarrow> string \<Rightarrow> keys \<Rightarrow> unit pres" where
  "verifyPackageSignature cr t manifest fingerprint ks =
     (case alookup ks (to_lower fingerprint) of
        None \<Rightarrow> Inl (Untrusted (Errorf ''missing trusted package signer key %s'' [S fingerprint]))
      | Some pub \<Rightarrow>
          and_try (invalid (safePackagePath packageSignatureName)) (\<lambda>sigPath.
            case tree_read t sigPath of
              Inl err \<Rightarrow> Inl (Invalid (Errorf ''read package manifest signature: %w'' [E err]))
            | Inr raw \<Rightarrow>
                and_try (invalid (decodeStdBase64Field ''manifest signature'' (trim_space raw))) (\<lambda>sig.
                  if length sig \<noteq> SignatureSize \<or> \<not> ed25519_verify cr pub manifest sig
                  then Inl (Invalid (Errorf ''package manifest signature verification failed'' [])) else Inr ())))"

section \<open>Blobs\<close>

definition normalizedPackageBlobPath :: "string \<Rightarrow> PackageBlob \<Rightarrow> string res" where
  "normalizedPackageBlobPath name blob = fail_if (validateBlobShape name blob) (Inr (path_Clean (bl_Path blob)))"

definition packageReferencedBlobs :: "PackageManifest \<Rightarrow> PackageBlob list" where
  "packageReferencedBlobs m =
     [bd_Manifest (pm_ArtifactBinding m), ck_Executable (pm_Checker m), pe_MachineOutput (pm_ArtifactEvaluation m),
      pe_Stdout (pm_ArtifactEvaluation m), pe_Stderr (pm_ArtifactEvaluation m), cf_Result (pm_Conformance m)]
     @ pm_VerificationInputs m"

fun declare_files :: "(string \<times> PackageBlob) list \<Rightarrow> PackageBlob list \<Rightarrow> (string \<times> PackageBlob) list res" where
  "declare_files declared [] = Inr declared"
| "declare_files declared (blob # blobs) =
     and_then (normalizedPackageBlobPath ''file manifest entry'' blob) (\<lambda>name.
       if has_key declared name then Inl (Errorf ''file manifest lists %q more than once'' [Q name])
       else declare_files (aput name blob declared) blobs)"

fun inputs_unique :: "string list \<Rightarrow> PackageBlob list \<Rightarrow> msg option" where
  "inputs_unique seen [] = None"
| "inputs_unique seen (blob # blobs) =
     (case normalizedPackageBlobPath ''verification input'' blob of
        Inl e \<Rightarrow> Some e
      | Inr name \<Rightarrow>
          if name \<in> set seen then Some (Errorf ''verification inputs list %q more than once'' [Q name])
          else inputs_unique (name # seen) blobs)"

definition check_reference :: "(string \<times> PackageBlob) list \<Rightarrow> PackageBlob \<Rightarrow> msg option" where
  "check_reference declared ref =
     (case normalizedPackageBlobPath ''referenced blob'' ref of
        Inl e \<Rightarrow> Some e
      | Inr name \<Rightarrow>
          (case alookup declared name of
             None \<Rightarrow> Some (Errorf ''referenced blob %q is absent from file manifest'' [Q name])
           | Some blob \<Rightarrow>
               if bl_Size blob \<noteq> bl_Size ref \<or> bl_DigestAlgorithm blob \<noteq> bl_DigestAlgorithm ref
                  \<or> bl_Digest blob \<noteq> bl_Digest ref
               then Some (Errorf ''referenced blob %q does not match file manifest'' [Q name]) else None))"

text \<open>The manifest and its signature are the only files that are not blobs.\<close>

definition is_blob :: "string \<times> node \<Rightarrow> bool" where
  "is_blob e \<longleftrightarrow> is_file (snd e) \<and> fst e \<noteq> packageManifestName \<and> fst e \<noteq> packageSignatureName"

definition check_file :: "crypto \<Rightarrow> (string \<times> PackageBlob) list \<Rightarrow> string \<times> node \<Rightarrow> msg option" where
  "check_file cr declared e =
     (case snd e of
        Dir \<Rightarrow> None
      | File raw \<Rightarrow>
          if \<not> is_blob e then None
          else
            (case alookup declared (fst e) of
               None \<Rightarrow> Some (Errorf ''package file %q is absent from file manifest'' [Q (fst e)])
             | Some blob \<Rightarrow>
                 if int (length raw) \<noteq> bl_Size blob \<or> sha256_hex cr raw \<noteq> bl_Digest blob
                 then Some (Errorf ''blob %q size or digest mismatch'' [Q (fst e)]) else None))"

definition validatePackageBlobs :: "crypto \<Rightarrow> tree \<Rightarrow> PackageManifest \<Rightarrow> msg option" where
  "validatePackageBlobs cr t m =
     (case declare_files [] (pm_Files m) of
        Inl e \<Rightarrow> Some e
      | Inr declared \<Rightarrow>
          first_err
            [inputs_unique [] (pm_VerificationInputs m),
             first_some (check_reference declared) (packageReferencedBlobs m),
             first_some (check_file cr declared) t,
             first_some (\<lambda>(name, _). if name \<in> fst ` set (filter is_blob t) then None
               else Some (Errorf ''required blob %q is missing'' [Q name])) declared])"

section \<open>Keys among the inputs\<close>

definition input_key :: "crypto \<Rightarrow> string \<Rightarrow> string option" where
  "input_key cr raw =
     (case std_decode (trim_space raw) of
        None \<Rightarrow> None
      | Some decoded \<Rightarrow>
          if length decoded \<noteq> PublicKeySize \<or> std_encode decoded \<noteq> trim_space raw then None
          else Some (sha256_hex cr decoded))"

fun input_keys :: "crypto \<Rightarrow> tree \<Rightarrow> PackageBlob list \<Rightarrow> string list res" where
  "input_keys cr t [] = Inr []"
| "input_keys cr t (blob # blobs) =
     and_then (safePackagePath (bl_Path blob)) (\<lambda>f.
     and_then (tree_read t f) (\<lambda>raw.
     and_then (input_keys cr t blobs) (\<lambda>ks.
       Inr (case input_key cr raw of Some k \<Rightarrow> k # ks | None \<Rightarrow> ks))))"

definition undeclared_key :: "string list \<Rightarrow> string \<Rightarrow> string \<times> node \<Rightarrow> msg option" where
  "undeclared_key declared keysDir e =
     (if (fst e = keysDir \<or> under keysDir (fst e)) \<and> is_file (snd e)
         \<and> has_suffix (base_name (fst e)) ''.pub'' \<and> fst e \<notin> set declared
      then Some (Errorf ''artifact verification key %q is absent from verification inputs'' [Q (fst e)]) else None)"

definition validatePackageInputKeys :: "crypto \<Rightarrow> tree \<Rightarrow> PackageManifest \<Rightarrow> msg option" where
  "validatePackageInputKeys cr t m =
     (case safePackagePath (bd_KeysDir (pm_ArtifactBinding m)) of
        Inl e \<Rightarrow> Some e
      | Inr keysDir \<Rightarrow>
          if alookup t keysDir = None then Some (missing_err t keysDir)
          else
            (case first_some (undeclared_key (map bl_Path (pm_VerificationInputs m)) keysDir) t of
               Some e \<Rightarrow> Some e
             | None \<Rightarrow>
                 (case input_keys cr t (pm_VerificationInputs m) of
                    Inl e \<Rightarrow> Some e
                  | Inr ks \<Rightarrow>
                      first_some (\<lambda>fingerprint. if to_lower fingerprint \<in> set ks then None
                          else Some (Errorf ''package signer public key is absent from verification inputs'' []))
                        [packageSignerKey m, sa_Key (pm_StatusAuthority m)])))"

section \<open>The bound artifact\<close>

definition discoveredPackageRuns :: "Report \<Rightarrow> string list" where
  "discoveredPackageRuns report = sort (filter (\<lambda>run. run \<noteq> []) (map res_Run (rep_Runs report)))"

definition sameStringSet :: "string list \<Rightarrow> string list \<Rightarrow> bool" where
  "sameStringSet left right \<longleftrightarrow>
     length left = length right
     \<and> (let leftCopy = sort left; rightCopy = sort right in \<forall>i \<in> set [0..<length leftCopy]. leftCopy ! i = rightCopy ! i)"

definition validateArtifactBinding :: "crypto \<Rightarrow> tree \<Rightarrow> PackageManifest \<Rightarrow> msg option" where
  "validateArtifactBinding cr t m =
     (let b = pm_ArtifactBinding m in
      case (safePackagePath (bd_Root b), safePackagePath (bd_KeysDir b)) of
        (Inl e, _) \<Rightarrow> Some e
      | (_, Inl e) \<Rightarrow> Some e
      | (Inr artifactRoot, Inr keysDir) \<Rightarrow>
          if bl_Path (bd_Manifest b) \<noteq> bd_Root b @ ''/'' @ packageManifestName
          then Some (Errorf ''artifact manifest must be %q'' [Q (bd_Root b @ ''/'' @ packageManifestName)])
          else
            (case LoadArtifact cr (tree_fs t artifactRoot keysDir) of
               Inl err \<Rightarrow> Some (Errorf ''load bound artifact: %w'' [E err])
             | Inr art \<Rightarrow>
                 (let runs = discoveredPackageRuns (Evaluate cr art) in
                  if \<not> sameStringSet runs (bd_DiscoveredRuns b)
                  then Some (Errorf ''artifact binding discovered runs %v do not match submitted runs %v''
                         [L runs, L (bd_DiscoveredRuns b)])
                  else if pm_Run m \<notin> set runs
                  then Some (Errorf ''package run %q is not in discovered runs'' [Q (pm_Run m)])
                  else if pm_Kind m = ''verification-record'' \<and> \<not> sameStringSet runs (map pg_Run (pm_Grades m))
                  then Some (Errorf ''verification record grades do not cover every discovered run'' [])
                  else None)))"

section \<open>The machine output\<close>

record MachineOutcome =
  mo_Status :: string
  mo_Message :: string

record packageMachineRun =
  mr_Grade :: "json res"
  mrun_Run :: string
  mr_R :: string
  mr_Checks :: "(string \<times> MachineOutcome) list"
  mr_Coverage :: string
  mr_Custody :: string
  mr_Anchor :: string
  mr_Retention :: string
  mr_Open :: bool
  mr_OpenStatus :: string
  mr_Notes :: "string list"

definition dec_MachineOutcome :: "json \<Rightarrow> MachineOutcome \<Rightarrow> MachineOutcome decoded" where
  "dec_MachineOutcome = dec_struct
     (\<lambda>n j out. if n = ''status'' then set_field (\<lambda>x. out\<lparr>mo_Status := x\<rparr>) (dec_string j (mo_Status out))
        else set_field (\<lambda>x. out\<lparr>mo_Message := x\<rparr>) (dec_string j (mo_Message out)))
     [''status'', ''message'']"

definition zero_MachineRun :: packageMachineRun where
  "zero_MachineRun = \<lparr>mr_Grade = Inl syntax_err, mrun_Run = [], mr_R = [], mr_Checks = [], mr_Coverage = [], mr_Custody = [],
     mr_Anchor = [], mr_Retention = [], mr_Open = False, mr_OpenStatus = [], mr_Notes = []\<rparr>"

definition machine_field :: "string \<Rightarrow> json \<Rightarrow> packageMachineRun \<Rightarrow> packageMachineRun decoded" where
  "machine_field n j r =
     (if n = ''grade'' then (r\<lparr>mr_Grade := Inr j\<rparr>, None)
      else if n = ''run'' then set_field (\<lambda>x. r\<lparr>mrun_Run := x\<rparr>) (dec_string j (mrun_Run r))
      else if n = ''r'' then set_field (\<lambda>x. r\<lparr>mr_R := x\<rparr>) (dec_string j (mr_R r))
      else if n = ''checks'' then set_field (\<lambda>x. r\<lparr>mr_Checks := x\<rparr>)
        (dec_map dec_MachineOutcome \<lparr>mo_Status = [], mo_Message = []\<rparr> j (mr_Checks r))
      else if n = ''coverage'' then set_field (\<lambda>x. r\<lparr>mr_Coverage := x\<rparr>) (dec_string j (mr_Coverage r))
      else if n = ''custody'' then set_field (\<lambda>x. r\<lparr>mr_Custody := x\<rparr>) (dec_string j (mr_Custody r))
      else if n = ''anchor'' then set_field (\<lambda>x. r\<lparr>mr_Anchor := x\<rparr>) (dec_string j (mr_Anchor r))
      else if n = ''retention'' then set_field (\<lambda>x. r\<lparr>mr_Retention := x\<rparr>) (dec_string j (mr_Retention r))
      else if n = ''open'' then set_field (\<lambda>x. r\<lparr>mr_Open := x\<rparr>) (dec_bool j (mr_Open r))
      else if n = ''open_status'' then set_field (\<lambda>x. r\<lparr>mr_OpenStatus := x\<rparr>) (dec_string j (mr_OpenStatus r))
      else set_field (\<lambda>x. r\<lparr>mr_Notes := x\<rparr>) (dec_slice dec_string [] j (mr_Notes r)))"

definition dec_MachineRun :: "json \<Rightarrow> packageMachineRun \<Rightarrow> packageMachineRun decoded" where
  "dec_MachineRun = dec_struct machine_field
     [''grade'', ''run'', ''r'', ''checks'', ''coverage'', ''custody'', ''anchor'', ''retention'', ''open'', ''open_status'', ''notes'']"

definition dec_MachineReport :: "json \<Rightarrow> packageMachineRun list \<Rightarrow> packageMachineRun list decoded" where
  "dec_MachineReport = dec_struct (\<lambda>n j rs. dec_slice dec_MachineRun zero_MachineRun j rs) [''runs'']"

text \<open>The result without its checks, which keep their status as text, and the checks beside it.\<close>

definition packageMachineResult :: "packageMachineRun \<Rightarrow> (Result \<times> (string \<times> MachineOutcome) list) res" where
  "packageMachineResult run =
     (let bad = Inl (Errorf ''artifact evaluation machine output has invalid grade for run %q'' [Q (mrun_Run run)]);
          res = \<lparr>res_Run = mrun_Run run, res_Grade = 0, res_Ungraded = False, res_R = mr_R run, res_Checks = [],
            res_Coverage = mr_Coverage run, res_Custody = mr_Custody run, res_Anchor = mr_Anchor run,
            res_Retention = mr_Retention run, res_Open = mr_Open run, res_OpenStatus = mr_OpenStatus run,
            res_Notes = map StdErr (mr_Notes run)\<rparr>
      in case mr_Grade run of
           Inl _ \<Rightarrow> bad
         | Inr j \<Rightarrow>
             (case any_of True j of
                (_, Some _) \<Rightarrow> bad
              | (value, None) \<Rightarrow>
                  (case value of
                     VNumber n \<Rightarrow>
                       (case number_Int64 n of
                          Inl _ \<Rightarrow> bad
                        | Inr g \<Rightarrow>
                            if g < 0 \<or> g > 4 then bad else Inr (res\<lparr>res_Grade := g\<rparr>, mr_Checks run))
                   | VString s \<Rightarrow> if s = ''ungraded'' then Inr (res\<lparr>res_Ungraded := True\<rparr>, mr_Checks run) else bad
                   | _ \<Rightarrow> bad)))"

definition samePackageOutcomes :: "(string \<times> string) list \<Rightarrow> (string \<times> MachineOutcome) list \<Rightarrow> bool" where
  "samePackageOutcomes grades checks \<longleftrightarrow>
     length grades = length checks
     \<and> list_all (\<lambda>(cid, out). (case alookup grades cid of Some s \<Rightarrow> s | None \<Rightarrow> []) = mo_Status out) checks"

fun machine_results ::
  "(string \<times> Result \<times> (string \<times> MachineOutcome) list) list \<Rightarrow> packageMachineRun list \<Rightarrow>
     (string \<times> Result \<times> (string \<times> MachineOutcome) list) list res"
where
  "machine_results results [] = Inr results"
| "machine_results results (run # runs) =
     and_then (packageMachineResult run) (\<lambda>(res, checks).
       if has_key results (res_Run res) \<or> \<not> packageTextPresent [res_Run res]
       then Inl (Errorf ''artifact evaluation machine output has invalid run identities'' [])
       else machine_results (aput (res_Run res) (res, checks) results) runs)"

definition grade_agrees :: "(string \<times> Result \<times> (string \<times> MachineOutcome) list) list \<Rightarrow> PackageGrade \<Rightarrow> bool" where
  "grade_agrees results grade \<longleftrightarrow>
     (case alookup results (pg_Run grade) of
        None \<Rightarrow> False
      | Some (res, checks) \<Rightarrow>
          (let a = pg_Annotations grade in
           pg_Line grade = GradeLine res \<and> ga_Coverage a = res_Coverage res \<and> ga_Custody a = res_Custody res
           \<and> ga_Anchor a = res_Anchor res \<and> ga_Retention a = res_Retention res
           \<and> samePackageOutcomes (pg_Outcomes grade) checks))"

definition validatePackageGradesAgainstMachineOutput :: "tree \<Rightarrow> PackageManifest \<Rightarrow> msg option" where
  "validatePackageGradesAgainstMachineOutput t m =
     (case safePackagePath (bl_Path (pe_MachineOutput (pm_ArtifactEvaluation m))) of
        Inl e \<Rightarrow> Some e
      | Inr p \<Rightarrow>
          (case tree_read t p of
             Inl err \<Rightarrow> Some (Errorf ''read artifact evaluation machine output: %w'' [E err])
           | Inr raw \<Rightarrow>
               (case unmarshal dec_MachineReport raw [] of
                  (_, Some err) \<Rightarrow> Some (Errorf ''artifact evaluation machine output is invalid: %w'' [E err])
                | (runs, None) \<Rightarrow>
                    if length runs \<noteq> length (pm_Grades m)
                    then Some (Errorf ''verification record grades disagree with artifact evaluation machine output'' [])
                    else
                      (case machine_results [] runs of
                         Inl e \<Rightarrow> Some e
                       | Inr results \<Rightarrow>
                           first_some (\<lambda>grade. if grade_agrees results grade then None
                             else Some (Errorf ''verification record grade %q disagrees with artifact evaluation machine output''
                               [Q (pg_Run grade)])) (pm_Grades m)))))"

section \<open>The status\<close>

definition validateVerificationStatus :: "crypto \<Rightarrow> (string \<Rightarrow> string res) \<Rightarrow> PackageManifest \<Rightarrow> string \<Rightarrow> string \<Rightarrow> keys \<Rightarrow> VerificationStatus pres" where
  "validateVerificationStatus cr os_read m statusPath signaturePath ks =
     (case os_read statusPath of
        Inl err \<Rightarrow> Inl (Invalid (Errorf ''read verification status: %w'' [E err]))
      | Inr raw \<Rightarrow>
          if \<not> IsCanonical raw then Inl (Invalid (Errorf ''verification status is not canonical'' []))
          else require_ok (wrap_err (\<lambda>e. Errorf ''verification status schema: %w'' [E e]) (validateVerificationStatusSchema raw))
            (case unmarshal dec_VerificationStatus raw zero_VerificationStatus of
               (s, Some err) \<Rightarrow> Inl (Invalid err)
             | (s, None) \<Rightarrow>
                 if st_RecordID s \<noteq> pm_ID m \<or> st_Authority s \<noteq> sa_ID (pm_StatusAuthority m)
                 then Inl (Invalid (Errorf ''verification status does not bind this record and authority'' []))
                 else
                   (case alookup ks (to_lower (sa_Key (pm_StatusAuthority m))) of
                      None \<Rightarrow> Inl (Untrusted (Errorf ''missing trusted status authority key %s'' [S (sa_Key (pm_StatusAuthority m))]))
                    | Some pub \<Rightarrow>
                        (case os_read signaturePath of
                           Inl err \<Rightarrow> Inl (Invalid (Errorf ''read verification status signature: %w'' [E err]))
                         | Inr sigRaw \<Rightarrow>
                             and_try (invalid (decodeStdBase64Field ''status signature'' (trim_space sigRaw))) (\<lambda>sig.
                               if length sig \<noteq> SignatureSize \<or> \<not> ed25519_verify cr pub raw sig
                               then Inl (Invalid (Errorf ''verification status signature verification failed'' []))
                               else Inr s)))))"

section \<open>The validation\<close>

record PackageValidation =
  val_Kind :: string
  val_ID :: string
  val_DisplayState :: string

record PackageValidationOptions =
  opt_StatusPath :: string
  opt_StatusSignaturePath :: string
  opt_EvaluationTime :: instant
  opt_MaxStatusAge :: int

record package_env =
  en_trust :: "string \<Rightarrow> trust_dir"
  en_read :: "string \<Rightarrow> string res"

text \<open>The zero \<open>time.Time\<close>: the first instant of year 1.\<close>

definition zero_time :: instant where
  "zero_time = civil_days 1 1 1 * 86400 * second"

definition hasConsumerEvaluationTime :: "instant \<Rightarrow> bool" where
  "hasConsumerEvaluationTime t \<longleftrightarrow> t \<noteq> zero_time"

definition evaluationDisplayState :: "int \<Rightarrow> string" where
  "evaluationDisplayState exitStatus = (if exitStatus = 4 then ''EVALUATION-OPEN'' else ''EVALUATION-FAILED'')"

definition no_time :: "string \<Rightarrow> package_error" where
  "no_time field = Invalid (Errorf ''%s: %w'' [S field, E (StdErr ''parsing time'')])"

text \<open>The display state that a status statement gives at the evaluation time.\<close>

definition dated_state :: "instant \<Rightarrow> string \<Rightarrow> string \<Rightarrow> string pres" where
  "dated_state now effectiveAt state =
     (case parse_rfc3339 effectiveAt of
        None \<Rightarrow> Inl (no_time ''status effective_at'')
      | Some effective \<Rightarrow> Inr (if now < effective then ''STATUS-UNKNOWN'' else state))"

definition status_display :: "instant \<Rightarrow> int \<Rightarrow> VerificationStatus \<Rightarrow> string pres" where
  "status_display now maxAge s =
     (case parse_rfc3339 (st_IssuedAt s) of
        None \<Rightarrow> Inl (no_time ''status issued_at'')
      | Some issued \<Rightarrow>
          if now < issued then Inr ''STATUS-UNKNOWN''
          else if st_State s = ''current'' then
            (if maxAge > 0 \<and> \<not> now < issued + maxAge then Inr ''STATUS-UNKNOWN''
             else
               (case parse_rfc3339 (st_NextUpdate s) of
                  None \<Rightarrow> Inl (no_time ''status next_update'')
                | Some nextUpdate \<Rightarrow> Inr (if \<not> now < nextUpdate then ''STATUS-UNKNOWN'' else ''VERIFIED'')))
          else if st_State s = ''revoked'' then dated_state now (st_EffectiveAt s) ''REVOKED''
          else if st_State s = ''superseded'' then dated_state now (st_EffectiveAt s) ''SUPERSEDED''
          else Inl (Invalid (Errorf ''status state %q is invalid'' [Q (st_State s)])))"

definition expired :: "instant \<Rightarrow> PackageManifest \<Rightarrow> bool pres" where
  "expired now m =
     (if pm_ExpiresAt m = [] then Inr False
      else
        (case parse_rfc3339 (pm_ExpiresAt m) of
           None \<Rightarrow> Inl (no_time ''expires_at'') | Some expires \<Rightarrow> Inr (\<not> now < expires)))"

text \<open>The display state of a verification record whose evaluation and conformance succeeded.\<close>

definition record_display :: "crypto \<Rightarrow> package_env \<Rightarrow> PackageValidationOptions \<Rightarrow> PackageManifest \<Rightarrow> string pres" where
  "record_display cr env opts m =
     (let now = opt_EvaluationTime opts in
      if opt_MaxStatusAge opts < 0 then Inl (Invalid (Errorf ''maximum status age must not be negative'' []))
      else if \<not> hasConsumerEvaluationTime now then Inr ''STATUS-UNKNOWN''
      else
        and_try (expired now m) (\<lambda>over.
          if over then Inr ''EXPIRED''
          else if opt_StatusPath opts = [] \<or> opt_StatusSignaturePath opts = [] then Inr ''STATUS-UNKNOWN''
          else
            (case and_try (loadPackageTrustKeys cr (en_trust env) packageTrustStatus)
                    (validateVerificationStatus cr (en_read env) m (opt_StatusPath opts) (opt_StatusSignaturePath opts)) of
               Inl _ \<Rightarrow> Inr ''STATUS-UNKNOWN''
             | Inr s \<Rightarrow> status_display now (opt_MaxStatusAge opts) s)))"

definition package_display :: "crypto \<Rightarrow> package_env \<Rightarrow> PackageValidationOptions \<Rightarrow> PackageManifest \<Rightarrow> string pres" where
  "package_display cr env opts m =
     (if pe_ExitStatus (pm_ArtifactEvaluation m) \<noteq> 0
      then Inr (evaluationDisplayState (pe_ExitStatus (pm_ArtifactEvaluation m)))
      else if cf_ExitStatus (pm_Conformance m) \<noteq> 0 then Inr ''CONFORMANCE-FAILED''
      else if pm_Kind m = ''evaluation-package'' then Inr ''EVALUATED''
      else record_display cr env opts m)"

text \<open>The manifest: canonical, of the closed schema, decoded, semantically valid.\<close>

definition load_package_manifest :: "string \<Rightarrow> PackageManifest pres" where
  "load_package_manifest raw =
     (if \<not> IsCanonical raw then Inl (Invalid (Errorf ''package manifest is not canonical'' []))
      else require_ok (wrap_err (\<lambda>e. Errorf ''package schema: %w'' [E e]) (validatePackageManifestSchema (parse_json raw)))
        (case unmarshal dec_PackageManifest raw zero_PackageManifest of
           (m, Some err) \<Rightarrow> Inl (Invalid (Errorf ''parse package manifest: %w'' [E err]))
         | (m, None) \<Rightarrow> require_ok (validatePackageSemantics m) (Inr m)))"

text \<open>Everything the manifest says of the package, checked against the package.\<close>

definition check_package :: "crypto \<Rightarrow> package_env \<Rightarrow> tree \<Rightarrow> string \<Rightarrow> PackageManifest \<Rightarrow> unit pres" where
  "check_package cr env t raw m =
     and_try (loadPackageTrustKeys cr (en_trust env) (packageSignerTrustRole m)) (\<lambda>signerKeys.
     and_try (verifyPackageSignature cr t raw (packageSignerKey m) signerKeys) (\<lambda>_.
     require_ok (validatePackageBlobs cr t m)
     (require_ok (validatePackageInputKeys cr t m)
     (require_ok (validateArtifactBinding cr t m)
     (require_ok
       (if pm_Kind m = ''verification-record''
           \<and> (pe_ExitStatus (pm_ArtifactEvaluation m) = 0 \<or> pe_ExitStatus (pm_ArtifactEvaluation m) = 4)
        then validatePackageGradesAgainstMachineOutput t m else None)
       (Inr ()))))))"

definition validatePackageDir :: "crypto \<Rightarrow> package_env \<Rightarrow> PackageValidationOptions \<Rightarrow> tree \<Rightarrow> PackageValidation pres" where
  "validatePackageDir cr env opts t =
     and_try (invalid (safePackagePath packageManifestName)) (\<lambda>manifestPath.
     and_try (case tree_read t manifestPath of
          Inl err \<Rightarrow> Inl (Invalid (Errorf ''read package manifest: %w'' [E err])) | Inr raw \<Rightarrow> Inr raw) (\<lambda>raw.
     and_try (load_package_manifest raw) (\<lambda>m.
     and_try (check_package cr env t raw m) (\<lambda>_.
     and_try (package_display cr env opts m) (\<lambda>state.
       Inr \<lparr>val_Kind = pm_Kind m, val_ID = pm_ID m, val_DisplayState = state\<rparr>)))))"

definition ValidatePackage :: "crypto \<Rightarrow> package_env \<Rightarrow> PackageValidationOptions \<Rightarrow> package_source \<Rightarrow> PackageValidation pres" where
  "ValidatePackage cr env opts src =
     and_try (invalid (snapshotPackageDir src)) (validatePackageDir cr env opts)"

section \<open>The validate command\<close>

text \<open>
  \<open>package_args\<close> is what \<open>flag.Parse\<close> leaves, with the outcome of \<open>time.ParseDuration\<close> for
  \<open>--max-status-age\<close>, if it is given. The command returns its exit status and its standard output; \<open>encode\<close> is
  the error of writing the JSON form.
\<close>

record package_args =
  pa_json :: bool
  pa_keys :: string
  pa_status :: string
  pa_signature :: string
  pa_at :: string
  pa_maxAge :: "int res option"
  pa_rest :: "string list"

definition exitNotCurrent :: int where
  "exitNotCurrent = 3"

definition packageExitCode :: "string \<Rightarrow> int" where
  "packageExitCode displayState =
     (if displayState = ''VERIFIED'' \<or> displayState = ''EVALUATED'' then 0 else exitNotCurrent)"

definition package_options :: "package_args \<Rightarrow> PackageValidationOptions option" where
  "package_options args =
     Option.bind (if pa_at args = [] then Some zero_time else parse_rfc3339 (pa_at args)) (\<lambda>at.
     Option.bind (case pa_maxAge args of
          None \<Rightarrow> Some 0
        | Some (Inl _) \<Rightarrow> None
        | Some (Inr age) \<Rightarrow> if age \<le> 0 then None else Some age) (\<lambda>age.
     Some \<lparr>opt_StatusPath = pa_status args, opt_StatusSignaturePath = pa_signature args,
       opt_EvaluationTime = at, opt_MaxStatusAge = age\<rparr>))"

definition doc_validation :: "PackageValidation \<Rightarrow> cvalue" where
  "doc_validation result = CObj
     [(''kind'', CStr (val_Kind result)), (''id'', CStr (val_ID result)), (''display_state'', CStr (val_DisplayState result))]"

definition aelpackage :: "crypto \<Rightarrow> package_env \<Rightarrow> msg option \<Rightarrow> package_args \<Rightarrow> package_source \<Rightarrow> int \<times> string" where
  "aelpackage cr env encode args src =
     (if pa_keys args = [] \<or> length (pa_rest args) \<noteq> 2 \<or> pa_rest args ! 0 \<noteq> ''validate'' then (2, [])
      else
        (case package_options args of
           None \<Rightarrow> (2, [])
         | Some opts \<Rightarrow>
             (case ValidatePackage cr env opts src of
                Inl _ \<Rightarrow> (1, [])
              | Inr result \<Rightarrow>
                  if pa_json args \<and> encode \<noteq> None then (1, [])
                  else
                    (packageExitCode (val_DisplayState result),
                     (if pa_json args then json_Marshal (doc_validation result)
                      else msg_text (Errorf ''%s %s: %s'' [S (val_Kind result), S (val_ID result), S (val_DisplayState result)]))
                     @ [CHR 0x0A]))))"

end
