(* ===== verification/Emit_Files.thy ===== *)
theory Emit_Files
  imports Package_Files
begin

text \<open>
  \<open>checker/internal/ael/emit.go\<close>, the file operations: copying into the staging directory, the index of its files
  and the comparisons that bind the index to what was read before. A staging directory is the list of its
  entries under relative paths, as \<open>filepath.WalkDir\<close> visits them. The modes of files are not modelled.
\<close>

type_synonym stage = "(string \<times> walk_node) list"

definition emitArtifactDir :: string where "emitArtifactDir = ''artifact''"
definition emitKeysDir :: string where "emitKeysDir = ''inputs/keys''"
definition emitPackageKeysDir :: string where "emitPackageKeysDir = ''inputs/package-keys''"
definition emitSpecPath :: string where "emitSpecPath = ''inputs/specification.txt''"
definition emitMachineOutput :: string where "emitMachineOutput = ''results/artifact.json''"
definition emitStderrPath :: string where "emitStderrPath = ''results/stderr.txt''"
definition emitConformancePath :: string where "emitConformancePath = ''results/conformance.json''"
definition emitCheckerDir :: string where "emitCheckerDir = ''checker''"

lemmas emit_layout = emitArtifactDir_def emitKeysDir_def emitPackageKeysDir_def emitSpecPath_def emitMachineOutput_def
  emitStderrPath_def emitConformancePath_def emitCheckerDir_def

section \<open>Directories and files\<close>

text \<open>The directories above a relative path, outermost first.\<close>

fun parents_from :: "string \<Rightarrow> string \<Rightarrow> string list" where
  "parents_from seen [] = []"
| "parents_from seen (c # cs) =
     (if c = CHR ''/'' then seen # parents_from (seen @ [c]) cs else parents_from (seen @ [c]) cs)"

definition parents :: "string \<Rightarrow> string list" where
  "parents p = parents_from [] p"

text \<open>An operation through a symlink acts outside: it leaves the entries of the stage as they are.\<close>

definition through_link :: "stage \<Rightarrow> string \<Rightarrow> bool" where
  "through_link st p \<longleftrightarrow> list_ex (\<lambda>q. alookup st q = Some WSymlink) (parents p)"

definition mkdir_one :: "string \<Rightarrow> stage \<Rightarrow> stage res" where
  "mkdir_one p st =
     (if through_link st p then Inr st
      else
        (case alookup st p of
           None \<Rightarrow> Inr (st @ [(p, WDir)])
         | Some n \<Rightarrow> if n = WDir \<or> n = WSymlink then Inr st else Inl (StdErr ''not a directory'')))"

fun mkdirs :: "string list \<Rightarrow> stage \<Rightarrow> stage res" where
  "mkdirs [] st = Inr st"
| "mkdirs (p # ps) st = and_then (mkdir_one p st) (mkdirs ps)"

definition MkdirAll :: "string \<Rightarrow> stage \<Rightarrow> stage res" where
  "MkdirAll p = mkdirs (parents p @ [p])"

definition WriteFile :: "string \<Rightarrow> string \<Rightarrow> stage \<Rightarrow> stage res" where
  "WriteFile p raw st =
     (if p = ''.'' then Inl (StdErr ''is a directory'')
      else if through_link st p then Inr st
      else
        (case alookup st p of
           Some WDir \<Rightarrow> Inl (StdErr ''is a directory'')
         | Some WSymlink \<Rightarrow> Inr st
         | Some WIrregular \<Rightarrow> Inl (StdErr ''not a regular file'')
         | Some (WError e) \<Rightarrow> Inl e
         | _ \<Rightarrow> Inr (aput p (WFile (Inr raw)) st)))"

text \<open>\<open>os.ReadFile\<close> in the stage; \<open>link\<close> is what a symlink leads to.\<close>

definition stage_read :: "(string \<Rightarrow> string res) \<Rightarrow> stage \<Rightarrow> string \<Rightarrow> string res" where
  "stage_read link st p =
     (if p = ''.'' then Inl (StdErr ''is a directory'')
      else if through_link st p then link p
      else
        (case alookup st p of
           None \<Rightarrow> Inl os_ErrNotExist
         | Some WDir \<Rightarrow> Inl (StdErr ''is a directory'')
         | Some WSymlink \<Rightarrow> link p
         | Some WIrregular \<Rightarrow> Inl (StdErr ''not a regular file'')
         | Some (WError e) \<Rightarrow> Inl e
         | Some (WFile r) \<Rightarrow> r))"

text \<open>\<open>copyFile\<close>: the source is read first; \<open>os.MkdirAll(filepath.Dir(destination))\<close> makes the directories above.\<close>

definition copyFile :: "string res \<Rightarrow> string \<Rightarrow> stage \<Rightarrow> stage res" where
  "copyFile source dest st = and_then source (\<lambda>raw. and_then (mkdirs (parents dest) st) (WriteFile dest raw))"

text \<open>\<open>copyTree\<close>, over the entries of the walk of the source; the first is the source itself, under a dot.\<close>

definition copy_target :: "string \<Rightarrow> string \<Rightarrow> string" where
  "copy_target dest rel = (if rel = ''.'' then dest else dest @ ''/'' @ rel)"

fun copyTree :: "string \<Rightarrow> (string \<times> walk_node) list \<Rightarrow> stage \<Rightarrow> stage res" where
  "copyTree dest [] st = Inr st"
| "copyTree dest ((rel, n) # es) st =
     (case n of
        WError e \<Rightarrow> Inl e
      | WDir \<Rightarrow> and_then (MkdirAll (copy_target dest rel) st) (copyTree dest es)
      | WFile r \<Rightarrow> and_then (copyFile r (copy_target dest rel) st) (copyTree dest es)
      | _ \<Rightarrow> Inl (Errorf ''refusing to copy non-regular file %q'' [Q rel]))"

text \<open>The walk of a directory of the stage.\<close>

definition stage_walk :: "stage \<Rightarrow> string \<Rightarrow> (string \<times> walk_node) list" where
  "stage_walk st d =
     (case alookup st d of
        None \<Rightarrow> [(''.'', WError os_ErrNotExist)]
      | Some n \<Rightarrow>
          (''.'', n) # (if n = WDir then map (\<lambda>(p, n). (drop (length d + 1) p, n)) (filter (\<lambda>(p, n). under d p) st) else []))"

section \<open>The index\<close>

definition file_blob :: "crypto \<Rightarrow> string \<Rightarrow> string \<Rightarrow> PackageBlob" where
  "file_blob cr p raw = \<lparr>bl_Path = p, bl_Size = int (length raw), bl_DigestAlgorithm = ''sha-256'',
     bl_Digest = sha256_hex cr raw, bl_URL = []\<rparr>"

fun index_walk :: "crypto \<Rightarrow> stage \<Rightarrow> PackageBlob list res" where
  "index_walk cr [] = Inr []"
| "index_walk cr ((p, n) # es) =
     (case n of
        WError e \<Rightarrow> Inl e
      | WDir \<Rightarrow> index_walk cr es
      | WFile r \<Rightarrow>
          if p = packageManifestName \<or> p = packageSignatureName then index_walk cr es
          else and_then r (\<lambda>raw. and_then (index_walk cr es) (\<lambda>bs. Inr (file_blob cr p raw # bs)))
      | _ \<Rightarrow> Inl (Errorf ''package contains non-regular file %q'' [Q p]))"

definition packageFileBlobs :: "crypto \<Rightarrow> stage \<Rightarrow> PackageBlob list res" where
  "packageFileBlobs cr st =
     (case index_walk cr st of
        Inl err \<Rightarrow> Inl (Errorf ''index package files: %w'' [E err])
      | Inr bs \<Rightarrow> Inr (sort_key bl_Path bs))"

definition fileDigest :: "crypto \<Rightarrow> string res \<Rightarrow> string res" where
  "fileDigest cr source = and_then source (\<lambda>raw. Inr (sha256_hex cr raw))"

section \<open>Comparisons\<close>

text \<open>The loop of both comparisons, over two lists of blobs in step.\<close>

fun compare_blobs ::
  "(PackageBlob \<Rightarrow> msg) \<Rightarrow> (PackageBlob \<Rightarrow> msg) \<Rightarrow> (PackageBlob \<Rightarrow> PackageBlob \<Rightarrow> msg) \<Rightarrow>
     PackageBlob list \<Rightarrow> PackageBlob list \<Rightarrow> msg option"
where
  "compare_blobs added removed changed [] [] = None"
| "compare_blobs added removed changed [] (a # as) = Some (added a)"
| "compare_blobs added removed changed (e # es) [] = Some (removed e)"
| "compare_blobs added removed changed (e # es) (a # as) =
     (if e \<noteq> a then Some (changed e a) else compare_blobs added removed changed es as)"

definition assertEvaluatedInputsMatch :: "PackageBlob list \<Rightarrow> PackageBlob list \<Rightarrow> string list \<Rightarrow> msg option" where
  "assertEvaluatedInputsMatch blobs evaluated roots =
     compare_blobs
       (\<lambda>a. Errorf ''package input %q was not evaluated'' [Q (bl_Path a)])
       (\<lambda>e. Errorf ''evaluated input %q is absent from the package'' [Q (bl_Path e)])
       (\<lambda>e a. Errorf ''package input %q differs from the bytes evaluated'' [Q (bl_Path a)])
       evaluated
       (filter (\<lambda>b. list_ex (\<lambda>root. bl_Path b = root \<or> under root (bl_Path b)) roots) blobs)"

definition assertPackageInputBlobsMatch :: "PackageBlob list \<Rightarrow> PackageBlob list \<Rightarrow> string list \<Rightarrow> msg option" where
  "assertPackageInputBlobsMatch actual expected expectedNew =
     compare_blobs
       (\<lambda>a. Errorf ''a subprocess added package input %q'' [Q (bl_Path a)])
       (\<lambda>e. Errorf ''a subprocess removed package input %q'' [Q (bl_Path e)])
       (\<lambda>e a. Errorf ''a subprocess changed package input %q'' [Q (bl_Path e)])
       expected
       (filter (\<lambda>b. bl_Path b \<notin> set expectedNew) actual)"

definition assertCapturedPackageBlob :: "crypto \<Rightarrow> PackageBlob list \<Rightarrow> string \<Rightarrow> string \<Rightarrow> msg option" where
  "assertCapturedPackageBlob cr blobs p captured =
     (case find (\<lambda>b. bl_Path b = p) blobs of
        None \<Rightarrow> Some (Errorf ''package input %q is absent'' [Q p])
      | Some b \<Rightarrow>
          if b \<noteq> file_blob cr p captured then Some (Errorf ''a subprocess changed package input %q'' [Q p]) else None)"

section \<open>Keys of the package\<close>

text \<open>\<open>writeEmitPublicKey\<close>; it returns the fingerprint.\<close>

definition writeEmitPublicKey :: "crypto \<Rightarrow> string \<Rightarrow> stage \<Rightarrow> (string \<times> stage) res" where
  "writeEmitPublicKey cr pub st =
     (let fingerprint = sha256_hex cr pub in
      and_then (MkdirAll emitPackageKeysDir st) (\<lambda>st.
        case WriteFile (emitPackageKeysDir @ ''/'' @ fingerprint @ ''.pub'') (std_encode pub @ [CHR 0x0A]) st of
          Inl err \<Rightarrow> Inl (Errorf ''write package key: %w'' [E err])
        | Inr st \<Rightarrow> Inr (fingerprint, st)))"

section \<open>What a comparison gives\<close>

lemma compare_blobs_None_iff: "compare_blobs f g h es as = None \<longleftrightarrow> es = as"
  by (induction f g h es as rule: compare_blobs.induct) auto

text \<open>A comparison succeeds exactly when the lists are equal; the messages and their order only tell which
  entry failed.\<close>

lemma assertEvaluatedInputsMatch_iff:
  "assertEvaluatedInputsMatch blobs evaluated roots = None \<longleftrightarrow>
     evaluated = filter (\<lambda>b. list_ex (\<lambda>root. bl_Path b = root \<or> under root (bl_Path b)) roots) blobs"
  by (simp add: assertEvaluatedInputsMatch_def compare_blobs_None_iff)

lemma assertPackageInputBlobsMatch_iff:
  "assertPackageInputBlobsMatch actual expected new = None \<longleftrightarrow> expected = filter (\<lambda>b. bl_Path b \<notin> set new) actual"
  by (simp add: assertPackageInputBlobsMatch_def compare_blobs_None_iff)

lemma find_unique:
  "distinct (map f xs) \<Longrightarrow> find (\<lambda>x. f x = k) xs = Some y \<longleftrightarrow> y \<in> set xs \<and> f y = k"
  by (induction xs) auto

lemma assertCapturedPackageBlob_iff:
  assumes "distinct (map bl_Path blobs)"
  shows "assertCapturedPackageBlob cr blobs p captured = None \<longleftrightarrow> file_blob cr p captured \<in> set blobs"
proof -
  have "assertCapturedPackageBlob cr blobs p captured = None \<longleftrightarrow>
      find (\<lambda>b. bl_Path b = p) blobs = Some (file_blob cr p captured)"
    by (auto simp: assertCapturedPackageBlob_def split: option.splits)
  then show ?thesis by (simp add: find_unique [OF assms]) (simp add: file_blob_def)
qed

end
