(* ===== verification/Package_Facts.thy ===== *)
theory Package_Facts
  imports Package_Files Loaded
begin

text \<open>
  What an accepted package guarantees: safe paths, blobs that pin the bytes, roles that cannot be mixed, and
  a display state that says what the evaluation time and the status statement allow.
\<close>

lemmas package_try = and_try_def invalid_def require_ok_def

lemma and_try_simps [simp]:
  "and_try (Inl e) f = Inl e" "and_try (Inr x) f = f x"
  "invalid (Inl m) = Inl (Invalid m)" "invalid (Inr x) = Inr x"
  "require_ok (Some m) r = Inl (Invalid m)" "require_ok None r = r"
  "wrap_err g None = None" "wrap_err g (Some m) = Some (g m)"
  by (simp_all add: package_try wrap_err_def)

lemma and_try_Inr_iff: "and_try r f = Inr y \<longleftrightarrow> (\<exists>x. r = Inr x \<and> f x = Inr y)"
  by (cases r) auto

lemma invalid_Inr_iff [simp]: "invalid r = Inr x \<longleftrightarrow> r = Inr x"
  by (cases r) auto

lemma require_ok_Inr_iff: "require_ok e r = Inr y \<longleftrightarrow> e = None \<and> r = Inr y"
  by (cases e) auto

section \<open>Paths\<close>

definition good_part :: "string \<Rightarrow> bool" where
  "good_part p \<longleftrightarrow> p \<notin> {[], ''.'', ''..''}"

lemma clean_parts_good: "list_all good_part ps \<Longrightarrow> clean_parts rooted ps acc = rev acc @ ps"
  by (induction ps arbitrary: acc) (auto simp: good_part_def)

lemma path_Clean_good:
  assumes "list_all good_part (split_on (CHR ''/'') v)"
  shows "path_Clean v = v \<and> v \<noteq> [] \<and> \<not> has_prefix v ''/''"
proof -
  have ne: "v \<noteq> []" using assms by (cases v) (auto simp: good_part_def)
  have np: "\<not> has_prefix v ''/''"
  proof
    assume "has_prefix v ''/''"
    then obtain t where "v = CHR ''/'' # t" using ne by (cases v) (auto simp: has_prefix_def)
    then show False using assms by (simp add: good_part_def)
  qed
  show ?thesis
    using ne np clean_parts_good [OF assms, of False "[]"] join_split_on [of "CHR ''/''" v]
    by (simp add: path_Clean_def Let_def)
qed

lemma validatePackagePath_iff:
  "validatePackagePath v = None \<longleftrightarrow> CHR 0x5C \<notin> set v \<and> list_all good_part (split_on (CHR ''/'') v)"
  using path_Clean_good [of v]
  by (auto simp: validatePackagePath_def Let_def first_some_None_iff list_all_iff good_part_def split: if_splits)

lemma validatePackagePath_Clean: "validatePackagePath v = None \<Longrightarrow> path_Clean v = v"
  using path_Clean_good by (simp add: validatePackagePath_iff)

text \<open>C35: a path of a package is accepted exactly when it has no backslash and each of its components is a
  name: not empty, not a dot and not a double dot. So it is relative and stays inside the package, the
  test against \<open>path.Clean\<close> adds nothing, and the rule is the one of artifact paths.\<close>
theorem package_path_safe:
  "(validatePackagePath v = None \<longleftrightarrow>
     CHR 0x5C \<notin> set v \<and> list_all (\<lambda>p. p \<notin> {[], ''.'', ''..''}) (split_on (CHR ''/'') v))
   \<and> (validatePackagePath v = None \<longleftrightarrow> validateArtifactPath v = None)"
proof -
  have "validatePackagePath v = None \<longleftrightarrow> validateArtifactPath v = None"
    by (auto simp: validatePackagePath_def validateArtifactPath_def Let_def first_some_None_iff split: if_splits)
  then show ?thesis by (simp add: validatePackagePath_iff good_part_def [abs_def])
qed

section \<open>Sets of strings\<close>

lemma sameStringSet_iff: "sameStringSet left right \<longleftrightarrow> mset left = mset right"
proof
  assume s: "sameStringSet left right"
  then have "length left = length right" by (simp add: sameStringSet_def)
  then have "sort left = sort right"
    using s by (intro nth_equalityI) (auto simp: sameStringSet_def Let_def)
  then show "mset left = mset right" by (metis mset_sort)
next
  assume m: "mset left = mset right"
  then have "sort left = sort right" by (intro properties_for_sort) simp_all
  moreover have "length left = length right" using m by (rule mset_eq_length)
  ultimately show "sameStringSet left right" by (simp add: sameStringSet_def Let_def)
qed

section \<open>Outcomes\<close>

lemma equal_keys_if_subset:
  assumes "distinct (map fst g)" "distinct (map fst c)" "length g = length c" "fst ` set c \<subseteq> fst ` set g"
  shows "fst ` set c = fst ` set g"
proof (rule card_subset_eq)
  show "card (fst ` set c) = card (fst ` set g)"
    using assms(1-3) distinct_card [of "map fst g"] distinct_card [of "map fst c"] by simp
qed (use assms(4) in simp_all)

text \<open>When every check of the machine output has a status, the outcomes of a signed grade agree with it
  exactly when both are the same map from checks to statuses.\<close>
lemma samePackageOutcomes_same_map:
  assumes d: "distinct (map fst grades)" "distinct (map fst checks)"
    and named: "\<forall>(cid, out) \<in> set checks. mo_Status out \<noteq> []"
  shows "samePackageOutcomes grades checks \<longleftrightarrow> alookup grades = map_option mo_Status \<circ> alookup checks"
proof
  assume s: "samePackageOutcomes grades checks"
  have at: "alookup grades cid = Some (mo_Status out)" if "(cid, out) \<in> set checks" for cid out
    using that s named by (force simp: samePackageOutcomes_def list_all_iff split: option.splits)
  have "fst ` set checks \<subseteq> fst ` set grades"
  proof
    fix cid
    assume "cid \<in> fst ` set checks"
    then obtain out where "(cid, out) \<in> set checks" by auto
    then show "cid \<in> fst ` set grades" using at [THEN alookup_SomeD] by force
  qed
  moreover have "length grades = length checks" using s by (simp add: samePackageOutcomes_def)
  ultimately have keys: "fst ` set checks = fst ` set grades" using equal_keys_if_subset [OF d] by blast
  show "alookup grades = map_option mo_Status \<circ> alookup checks"
  proof
    fix cid
    show "alookup grades cid = (map_option mo_Status \<circ> alookup checks) cid"
    proof (cases "alookup checks cid")
      case None
      then have "alookup grades cid = None" using keys by (simp add: alookup_None_iff)
      with None show ?thesis by simp
    next
      case (Some out)
      then show ?thesis using at [OF alookup_SomeD [OF Some]] by simp
    qed
  qed
next
  assume e: "alookup grades = map_option mo_Status \<circ> alookup checks"
  have at: "alookup grades cid = Some (mo_Status out)" if "(cid, out) \<in> set checks" for cid out
    using that alookup_in_set [OF d(2)] by (simp add: e)
  have "fst ` set grades = fst ` set checks"
  proof -
    have "(k \<notin> fst ` set grades) = (k \<notin> fst ` set checks)" for k
      unfolding alookup_None_iff [symmetric] by (simp add: e)
    then show ?thesis by blast
  qed
  then have "card (set (map fst grades)) = card (set (map fst checks))" by simp
  then have "length grades = length checks"
    by (simp only: distinct_card [OF d(1)] distinct_card [OF d(2)] length_map)
  then show "samePackageOutcomes grades checks" using at by (auto simp: samePackageOutcomes_def list_all_iff)
qed

text \<open>Without that condition they can differ: a check with an empty status in the machine output stands for a
  passing one of another name in the grade.\<close>

lemma samePackageOutcomes_gap:
  "samePackageOutcomes [(''b'', ''PASS''), (''c'', ''PASS'')]
     [(''a'', \<lparr>mo_Status = [], mo_Message = []\<rparr>), (''b'', \<lparr>mo_Status = ''PASS'', mo_Message = []\<rparr>)]"
  by (simp add: samePackageOutcomes_def)

section \<open>Blobs\<close>

definition matches :: "crypto \<Rightarrow> PackageBlob \<Rightarrow> string \<Rightarrow> bool" where
  "matches cr blob raw \<longleftrightarrow> int (length raw) = bl_Size blob \<and> sha256_hex cr raw = bl_Digest blob"

definition shaped :: "PackageBlob \<Rightarrow> bool" where
  "shaped blob \<longleftrightarrow> validatePackagePath (bl_Path blob) = None \<and> 0 \<le> bl_Size blob
     \<and> bl_DigestAlgorithm blob = ''sha-256'' \<and> isSHA256 (bl_Digest blob)"

lemma validateBlobShape_iff: "validateBlobShape name blob = None \<longleftrightarrow> shaped blob"
  by (auto simp: validateBlobShape_def first_err_Cons_None shaped_def split: if_splits)

lemma normalized_iff:
  "normalizedPackageBlobPath name blob = Inr p \<longleftrightarrow> shaped blob \<and> p = bl_Path blob"
  using validatePackagePath_Clean
  by (auto simp: normalizedPackageBlobPath_def fail_if_Inr_iff validateBlobShape_iff shaped_def)

lemma declare_files_iff:
  "declare_files m blobs = Inr d \<longleftrightarrow>
     (\<forall>b \<in> set blobs. shaped b) \<and> distinct (map bl_Path blobs) \<and> fst ` set m \<inter> bl_Path ` set blobs = {}
     \<and> d = m @ map (\<lambda>b. (bl_Path b, b)) blobs"
proof (induction blobs arbitrary: m)
  case (Cons b blobs)
  show ?case
  proof (cases "shaped b \<and> bl_Path b \<notin> fst ` set m")
    case True
    then have "declare_files m (b # blobs) = declare_files (m @ [(bl_Path b, b)]) blobs"
      using normalized_iff [of "''file manifest entry''" b "bl_Path b"] by (simp add: has_key_iff aput_fresh)
    moreover have "fst ` set (m @ [(bl_Path b, b)]) \<inter> bl_Path ` set blobs = {} \<and> distinct (map bl_Path blobs) \<longleftrightarrow>
        fst ` set m \<inter> bl_Path ` set (b # blobs) = {} \<and> distinct (map bl_Path (b # blobs))"
      using True by auto
    ultimately show ?thesis using True by (simp only: Cons) auto
  next
    case False
    then show ?thesis by (auto simp: and_then_Inr_iff normalized_iff has_key_iff)
  qed
qed auto

lemma inputs_unique_iff:
  "inputs_unique seen blobs = None \<longleftrightarrow>
     (\<forall>b \<in> set blobs. shaped b) \<and> distinct (map bl_Path blobs) \<and> set seen \<inter> bl_Path ` set blobs = {}"
proof (induction blobs arbitrary: seen)
  case (Cons b blobs)
  show ?case
  proof (cases "normalizedPackageBlobPath ''verification input'' b")
    case (Inl e)
    then have "\<not> shaped b" using normalized_iff [of "''verification input''" b "bl_Path b"] by auto
    with Inl show ?thesis by simp
  next
    case (Inr p)
    then have "shaped b" "p = bl_Path b" by (simp_all add: normalized_iff)
    with Inr show ?thesis by (auto simp: Cons)
  qed
qed auto

text \<open>The file manifest describes the package: each file but the manifest and its signature is listed, with
  its size and digest, and each listed path is such a file; what the manifest refers to is listed as it is
  referred to.\<close>

definition listed :: "PackageManifest \<Rightarrow> PackageBlob \<Rightarrow> bool" where
  "listed m ref \<longleftrightarrow> shaped ref \<and> (\<exists>b \<in> set (pm_Files m). bl_Path b = bl_Path ref \<and> bl_Size b = bl_Size ref
     \<and> bl_DigestAlgorithm b = bl_DigestAlgorithm ref \<and> bl_Digest b = bl_Digest ref)"

definition described :: "crypto \<Rightarrow> tree \<Rightarrow> PackageManifest \<Rightarrow> bool" where
  "described cr t m \<longleftrightarrow>
     (\<forall>b \<in> set (pm_Files m). shaped b) \<and> distinct (map bl_Path (pm_Files m))
     \<and> (\<forall>b \<in> set (pm_VerificationInputs m). shaped b) \<and> distinct (map bl_Path (pm_VerificationInputs m))
     \<and> (\<forall>ref \<in> set (packageReferencedBlobs m). listed m ref)
     \<and> (\<forall>p raw. (p, File raw) \<in> set t \<and> is_blob (p, File raw) \<longrightarrow> (\<exists>b \<in> set (pm_Files m). bl_Path b = p \<and> matches cr b raw))
     \<and> (\<forall>b \<in> set (pm_Files m). \<exists>raw. (bl_Path b, File raw) \<in> set t \<and> is_blob (bl_Path b, File raw))"

lemma alookup_files:
  assumes "distinct (map bl_Path blobs)"
  shows "alookup (map (\<lambda>b. (bl_Path b, b)) blobs) p = Some b \<longleftrightarrow> b \<in> set blobs \<and> bl_Path b = p"
proof
  assume "alookup (map (\<lambda>b. (bl_Path b, b)) blobs) p = Some b"
  then show "b \<in> set blobs \<and> bl_Path b = p" using alookup_SomeD by fastforce
next
  assume b: "b \<in> set blobs \<and> bl_Path b = p"
  have "distinct (map fst (map (\<lambda>b. (bl_Path b, b)) blobs))" using assms by (simp add: comp_def)
  then show "alookup (map (\<lambda>b. (bl_Path b, b)) blobs) p = Some b" by (rule alookup_in_set) (use b in auto)
qed

lemma the_listed:
  assumes "distinct (map bl_Path blobs)" "alookup (map (\<lambda>b. (bl_Path b, b)) blobs) p = Some b"
  shows "(\<exists>b' \<in> set blobs. bl_Path b' = p \<and> P b') \<longleftrightarrow> P b"
proof -
  have b: "b \<in> set blobs" "bl_Path b = p" using assms(2) by (simp_all add: alookup_files [OF assms(1)])
  have "b' = b" if "b' \<in> set blobs" "bl_Path b' = p" for b'
    using that assms(2) alookup_files [OF assms(1)] by (metis option.inject)
  with b show ?thesis by blast
qed

lemma none_listed:
  assumes "distinct (map bl_Path blobs)" "alookup (map (\<lambda>b. (bl_Path b, b)) blobs) p = None"
  shows "\<forall>b' \<in> set blobs. bl_Path b' \<noteq> p"
  using assms(2) alookup_files [OF assms(1)] by (metis option.distinct(1))

lemma check_reference_iff:
  assumes "distinct (map bl_Path (pm_Files m))"
  shows "check_reference (map (\<lambda>b. (bl_Path b, b)) (pm_Files m)) ref = None \<longleftrightarrow> listed m ref"
proof (cases "normalizedPackageBlobPath ''referenced blob'' ref")
  case (Inl e)
  then have "\<not> shaped ref" using normalized_iff [of "''referenced blob''" ref "bl_Path ref"] by auto
  with Inl show ?thesis by (simp add: check_reference_def listed_def)
next
  case (Inr p)
  then have p: "shaped ref" "p = bl_Path ref" by (simp_all add: normalized_iff)
  show ?thesis
  proof (cases "alookup (map (\<lambda>b. (bl_Path b, b)) (pm_Files m)) p")
    case None
    then show ?thesis using Inr p none_listed [OF assms None] by (auto simp: check_reference_def listed_def)
  next
    case (Some b)
    then show ?thesis using Inr p the_listed [OF assms Some] by (simp add: check_reference_def listed_def)
  qed
qed

lemma check_file_iff:
  assumes "distinct (map bl_Path (pm_Files m))"
  shows "check_file cr (map (\<lambda>b. (bl_Path b, b)) (pm_Files m)) (p, n) = None \<longleftrightarrow>
    (\<forall>raw. n = File raw \<and> is_blob (p, File raw) \<longrightarrow> (\<exists>b \<in> set (pm_Files m). bl_Path b = p \<and> matches cr b raw))"
proof (cases n)
  case (File raw)
  show ?thesis
  proof (cases "alookup (map (\<lambda>b. (bl_Path b, b)) (pm_Files m)) p")
    case None
    then show ?thesis using File none_listed [OF assms None] by (auto simp: check_file_def)
  next
    case (Some b)
    then show ?thesis using File the_listed [OF assms Some] by (simp add: check_file_def matches_def)
  qed
qed (simp add: check_file_def)

lemma validatePackageBlobs_iff: "validatePackageBlobs cr t m = None \<longleftrightarrow> described cr t m"
proof (cases "declare_files [] (pm_Files m)")
  case (Inl e)
  then have "\<not> ((\<forall>b \<in> set (pm_Files m). shaped b) \<and> distinct (map bl_Path (pm_Files m)))"
    using declare_files_iff [of "[]" "pm_Files m" "map (\<lambda>b. (bl_Path b, b)) (pm_Files m)"] by auto
  with Inl show ?thesis by (auto simp: validatePackageBlobs_def described_def)
next
  case (Inr d)
  then have d: "\<forall>b \<in> set (pm_Files m). shaped b" "distinct (map bl_Path (pm_Files m))"
    "d = map (\<lambda>b. (bl_Path b, b)) (pm_Files m)" by (simp_all add: declare_files_iff)
  have present: "(\<forall>(name, b) \<in> set d. name \<in> fst ` set (filter is_blob t)) \<longleftrightarrow>
      (\<forall>b \<in> set (pm_Files m). \<exists>raw. (bl_Path b, File raw) \<in> set t \<and> is_blob (bl_Path b, File raw))"
  proof -
    have "p \<in> fst ` set (filter is_blob t) \<longleftrightarrow> (\<exists>raw. (p, File raw) \<in> set t \<and> is_blob (p, File raw))" for p
    proof -
      have "p \<in> fst ` set (filter is_blob t) \<longleftrightarrow> (\<exists>n. (p, n) \<in> set t \<and> is_blob (p, n))" by (force simp: image_iff)
      moreover have "is_blob (p, n) \<Longrightarrow> \<exists>raw. n = File raw" for n by (cases n) (simp_all add: is_blob_def is_file_def)
      ultimately show ?thesis by blast
    qed
    then show ?thesis by (simp add: d(3))
  qed
  have files: "first_some (check_file cr d) t = None \<longleftrightarrow>
      (\<forall>p raw. (p, File raw) \<in> set t \<and> is_blob (p, File raw) \<longrightarrow> (\<exists>b \<in> set (pm_Files m). bl_Path b = p \<and> matches cr b raw))"
  proof -
    have "first_some (check_file cr d) t = None \<longleftrightarrow> (\<forall>(p, n) \<in> set t. check_file cr d (p, n) = None)"
      by (auto simp: first_some_None_iff)
    then show ?thesis unfolding d(3) check_file_iff [OF d(2)] by blast
  qed
  have refs: "first_some (check_reference d) (packageReferencedBlobs m) = None \<longleftrightarrow>
      (\<forall>ref \<in> set (packageReferencedBlobs m). listed m ref)"
    by (simp add: first_some_None_iff d(3) check_reference_iff [OF d(2)])
  have pres: "first_some (\<lambda>(name, _). if name \<in> fst ` set (filter is_blob t) then None
               else Some (Errorf ''required blob %q is missing'' [Q name])) d = None \<longleftrightarrow>
      (\<forall>(name, b) \<in> set d. name \<in> fst ` set (filter is_blob t))"
    by (auto simp: first_some_None_iff split: if_splits)
  show ?thesis
    unfolding validatePackageBlobs_def Inr sum.case first_err_Cons_None files refs pres present
    using d by (simp add: inputs_unique_iff described_def conj_assoc)
qed

section \<open>The steps of a validation\<close>

lemma tree_read_iff: "tree_read t p = Inr raw \<longleftrightarrow> alookup t p = Some (File raw)"
  by (auto simp: tree_read_def tree_open_def read_all_def and_then_Inr_iff fail_if_Inr_iff split: option.splits node.splits)

lemma safePackagePath_iff: "safePackagePath rel = Inr p \<longleftrightarrow> validatePackagePath rel = None \<and> p = rel"
  by (auto simp: safePackagePath_def fail_if_Inr_iff)

lemma own_paths:
  "safePackagePath packageManifestName = Inr packageManifestName"
  "safePackagePath packageSignatureName = Inr packageSignatureName"
  by code_simp+

lemma validatePackageDir_iff:
  "validatePackageDir cr env opts t = Inr v \<longleftrightarrow>
     (\<exists>raw m. alookup t packageManifestName = Some (File raw) \<and> load_package_manifest raw = Inr m
        \<and> check_package cr env t raw m = Inr () \<and> package_display cr env opts m = Inr (val_DisplayState v)
        \<and> val_Kind v = pm_Kind m \<and> val_ID v = pm_ID m)"
proof -
  have r: "(case tree_read t packageManifestName of
      Inl err \<Rightarrow> Inl (Invalid (Errorf ''read package manifest: %w'' [E err])) | Inr raw \<Rightarrow> Inr raw) = Inr raw
    \<longleftrightarrow> alookup t packageManifestName = Some (File raw)" for raw
    using tree_read_iff [of t packageManifestName raw] by (auto split: sum.splits)
  have v: "\<lparr>val_Kind = k, val_ID = i, val_DisplayState = d\<rparr> = v \<longleftrightarrow>
      val_DisplayState v = d \<and> val_Kind v = k \<and> val_ID v = i" for k i d
    by (cases v) auto
  show ?thesis
    by (simp add: validatePackageDir_def own_paths and_try_Inr_iff r v)
qed

lemma ValidatePackage_iff:
  "ValidatePackage cr env opts src = Inr v \<longleftrightarrow>
     (\<exists>t. snapshotPackageDir src = Inr t \<and> validatePackageDir cr env opts t = Inr v)"
  by (auto simp: ValidatePackage_def and_try_Inr_iff)

lemma load_package_manifest_iff:
  "load_package_manifest raw = Inr m \<longleftrightarrow>
     IsCanonical raw \<and> validatePackageManifestSchema (parse_json raw) = None
     \<and> unmarshal dec_PackageManifest raw zero_PackageManifest = (m, None) \<and> validatePackageSemantics m = None"
proof (cases "unmarshal dec_PackageManifest raw zero_PackageManifest")
  case (Pair m' e)
  then show ?thesis by (cases e) (auto simp: load_package_manifest_def require_ok_Inr_iff)
qed

lemma check_package_iff:
  "check_package cr env t raw m = Inr () \<longleftrightarrow>
     (\<exists>ks. loadPackageTrustKeys cr (en_trust env) (packageSignerTrustRole m) = Inr ks
        \<and> verifyPackageSignature cr t raw (packageSignerKey m) ks = Inr ())
     \<and> described cr t m \<and> validatePackageInputKeys cr t m = None \<and> validateArtifactBinding cr t m = None
     \<and> (pm_Kind m = ''verification-record'' \<and> pe_ExitStatus (pm_ArtifactEvaluation m) \<in> {0, 4} \<longrightarrow>
          validatePackageGradesAgainstMachineOutput t m = None)"
  by (auto simp: check_package_def and_try_Inr_iff require_ok_Inr_iff validatePackageBlobs_iff)

section \<open>Signatures and roles\<close>

definition signed_under :: "crypto \<Rightarrow> keys \<Rightarrow> string \<Rightarrow> string \<Rightarrow> string \<Rightarrow> bool" where
  "signed_under cr ks key doc sigfile \<longleftrightarrow>
     (\<exists>pub sig. alookup ks (to_lower key) = Some pub \<and> std_decode (trim_space sigfile) = Some sig
        \<and> std_encode sig = trim_space (trim_space sigfile)
        \<and> length sig = SignatureSize \<and> ed25519_verify cr pub doc sig)"

lemma decodeStdBase64Field_iff:
  "decodeStdBase64Field name s = Inr sig \<longleftrightarrow> std_decode s = Some sig \<and> std_encode sig = trim_space s"
  by (auto simp: decodeStdBase64Field_def split: option.splits)

lemma verifyPackageSignature_iff:
  "verifyPackageSignature cr t raw key ks = Inr () \<longleftrightarrow>
     (\<exists>sigfile. alookup t packageSignatureName = Some (File sigfile) \<and> signed_under cr ks key raw sigfile)"
proof (cases "alookup ks (to_lower key)")
  case (Some pub)
  show ?thesis
  proof (cases "tree_read t packageSignatureName")
    case (Inl e)
    then have "\<not> (\<exists>sigfile. alookup t packageSignatureName = Some (File sigfile))"
      using tree_read_iff [of t packageSignatureName] by auto
    then show ?thesis using Some Inl by (simp add: verifyPackageSignature_def own_paths)
  next
    case (Inr sigfile)
    then show ?thesis
      using Some tree_read_iff [of t packageSignatureName sigfile]
      by (auto simp: verifyPackageSignature_def own_paths and_try_Inr_iff decodeStdBase64Field_iff signed_under_def)
  qed
qed (simp add: verifyPackageSignature_def signed_under_def)

lemma verifier_keys_iff:
  "loadPackageTrustKeys cr trust packageTrustVerifiers = Inr ks \<longleftrightarrow>
     loadPackageTrustRoleKeys cr trust packageTrustVerifiers = Inr ks
     \<and> (\<exists>oks. loadPackageTrustRoleKeys cr trust packageTrustOperators = Inr oks
          \<and> fst ` set ks \<inter> fst ` set oks = {})"
proof (cases "loadPackageTrustRoleKeys cr trust packageTrustVerifiers")
  case (Inr vks)
  show ?thesis
  proof (cases "loadPackageTrustRoleKeys cr trust packageTrustOperators")
    case (Inr oks)
    have "first_some (\<lambda>(fingerprint, _). if has_key oks fingerprint
            then Some (Errorf ''trusted verifier key %s is also trusted as an operator key'' [S fingerprint])
            else None) vks = None \<longleftrightarrow> fst ` set vks \<inter> fst ` set oks = {}"
    proof -
      have "(\<forall>x \<in> set vks. (case x of (fingerprint, _) \<Rightarrow> if has_key oks fingerprint
            then Some (Errorf ''trusted verifier key %s is also trusted as an operator key'' [S fingerprint])
            else None) = None) \<longleftrightarrow> (\<forall>x \<in> set vks. fst x \<notin> fst ` set oks)"
        by (intro ball_cong refl) (simp add: has_key_iff split: prod.split)
      also have "\<dots> \<longleftrightarrow> fst ` set vks \<inter> fst ` set oks = {}" by blast
      finally show ?thesis unfolding first_some_None_iff .
    qed
    then show ?thesis
      using \<open>loadPackageTrustRoleKeys cr trust packageTrustVerifiers = Inr vks\<close> Inr
      by (auto simp: loadPackageTrustKeys_def split: option.splits)
  qed (simp add: loadPackageTrustKeys_def Inr)
qed (simp add: loadPackageTrustKeys_def)

text \<open>C25: the verifier keys load exactly when both role directories load and no fingerprint is trusted in both
  roles: one shared key refuses the role, whichever key signed the record.\<close>
theorem verifier_role_is_separate:
  "loadPackageTrustKeys cr trust packageTrustVerifiers = Inr ks \<longleftrightarrow>
     loadPackageTrustRoleKeys cr trust packageTrustVerifiers = Inr ks
     \<and> (\<exists>oks. loadPackageTrustRoleKeys cr trust packageTrustOperators = Inr oks
          \<and> fst ` set ks \<inter> fst ` set oks = {})"
  by (rule verifier_keys_iff)

section \<open>The status over time\<close>

definition status_of :: "string \<Rightarrow> VerificationStatus \<Rightarrow> bool" where
  "status_of raw s \<longleftrightarrow> validateVerificationStatusSchema raw = None
     \<and> unmarshal dec_VerificationStatus raw zero_VerificationStatus = (s, None)"

lemma validateRFC3339_iff: "validateRFC3339 name v = None \<longleftrightarrow> (\<exists>t. parse_rfc3339 v = Some t)"
  by (auto simp: validateRFC3339_def split: option.splits)




lemma status_display_VERIFIED:
  "status_display now age s = Inr ''VERIFIED'' \<longleftrightarrow>
     (\<exists>issued due. parse_rfc3339 (st_IssuedAt s) = Some issued \<and> parse_rfc3339 (st_NextUpdate s) = Some due
        \<and> st_State s = ''current'' \<and> issued \<le> now \<and> now < due \<and> (age \<le> 0 \<or> now < issued + age))"
  by (auto simp: status_display_def dated_state_def split: option.splits if_splits)

section \<open>What VERIFIED means\<close>

definition independent_verifier :: "PackageManifest \<Rightarrow> bool" where
  "independent_verifier m \<longleftrightarrow> pm_Kind m = ''verification-record''
     \<and> (\<exists>v. pm_Verifier m = Some v \<and> pv_ID v \<noteq> pm_Producer m \<and> pv_ID v \<noteq> sg_ID (pm_Operator m))"

definition signed_by_verifier :: "crypto \<Rightarrow> package_env \<Rightarrow> tree \<Rightarrow> string \<Rightarrow> PackageManifest \<Rightarrow> bool" where
  "signed_by_verifier cr env t raw m \<longleftrightarrow>
     (\<exists>v vks oks sigfile. pm_Verifier m = Some v
        \<and> loadPackageTrustRoleKeys cr (en_trust env) packageTrustVerifiers = Inr vks
        \<and> loadPackageTrustRoleKeys cr (en_trust env) packageTrustOperators = Inr oks
        \<and> fst ` set vks \<inter> fst ` set oks = {}
        \<and> alookup t packageSignatureName = Some (File sigfile) \<and> signed_under cr vks (pv_Key v) raw sigfile)"

definition unexpired :: "instant \<Rightarrow> PackageManifest \<Rightarrow> bool" where
  "unexpired now m \<longleftrightarrow> pm_ExpiresAt m = [] \<or> (\<exists>expires. parse_rfc3339 (pm_ExpiresAt m) = Some expires \<and> now < expires)"

definition fresh_status :: "crypto \<Rightarrow> package_env \<Rightarrow> PackageValidationOptions \<Rightarrow> PackageManifest \<Rightarrow> bool" where
  "fresh_status cr env opts m \<longleftrightarrow>
     (\<exists>raw s ks sigfile issued due.
        opt_StatusPath opts \<noteq> [] \<and> opt_StatusSignaturePath opts \<noteq> []
        \<and> en_read env (opt_StatusPath opts) = Inr raw \<and> en_read env (opt_StatusSignaturePath opts) = Inr sigfile
        \<and> IsCanonical raw \<and> status_of raw s
        \<and> st_RecordID s = pm_ID m \<and> st_Authority s = sa_ID (pm_StatusAuthority m)
        \<and> loadPackageTrustRoleKeys cr (en_trust env) packageTrustStatus = Inr ks
        \<and> signed_under cr ks (sa_Key (pm_StatusAuthority m)) raw sigfile
        \<and> st_State s = ''current''
        \<and> parse_rfc3339 (st_IssuedAt s) = Some issued \<and> parse_rfc3339 (st_NextUpdate s) = Some due
        \<and> issued \<le> opt_EvaluationTime opts \<and> opt_EvaluationTime opts < due
        \<and> (opt_MaxStatusAge opts = 0 \<or> opt_EvaluationTime opts < issued + opt_MaxStatusAge opts))"

lemma status_keys: "loadPackageTrustKeys cr trust packageTrustStatus = Inr ks \<longleftrightarrow>
    loadPackageTrustRoleKeys cr trust packageTrustStatus = Inr ks"
  by (auto simp: loadPackageTrustKeys_def packageTrustStatus_def packageTrustVerifiers_def split: sum.splits)

lemma validateVerificationStatus_iff:
  "validateVerificationStatus cr os_read m p q ks = Inr s \<longleftrightarrow>
     (\<exists>raw sigfile. os_read p = Inr raw \<and> os_read q = Inr sigfile \<and> IsCanonical raw \<and> status_of raw s
        \<and> st_RecordID s = pm_ID m \<and> st_Authority s = sa_ID (pm_StatusAuthority m)
        \<and> signed_under cr ks (sa_Key (pm_StatusAuthority m)) raw sigfile)"
proof (cases "os_read p")
  case (Inr raw)
  obtain s' e where u: "unmarshal dec_VerificationStatus raw zero_VerificationStatus = (s', e)" by fastforce
  show ?thesis
  proof (cases "IsCanonical raw \<and> validateVerificationStatusSchema raw = None \<and> e = None")
    case True
    then show ?thesis
      using Inr u by (cases "alookup ks (to_lower (sa_Key (pm_StatusAuthority m)))"; cases "os_read q")
        (auto simp: validateVerificationStatus_def status_of_def signed_under_def and_try_Inr_iff decodeStdBase64Field_iff)
  next
    case False
    then show ?thesis
      using Inr u by (cases e) (auto simp: validateVerificationStatus_def status_of_def require_ok_Inr_iff)
  qed
qed (simp add: validateVerificationStatus_def)

lemma record_display_VERIFIED:
  "record_display cr env opts m = Inr ''VERIFIED'' \<longleftrightarrow>
     0 \<le> opt_MaxStatusAge opts \<and> opt_EvaluationTime opts \<noteq> zero_time \<and> unexpired (opt_EvaluationTime opts) m
     \<and> fresh_status cr env opts m"
proof -
  let ?now = "opt_EvaluationTime opts"
  let ?r = "and_try (loadPackageTrustKeys cr (en_trust env) packageTrustStatus)
    (validateVerificationStatus cr (en_read env) m (opt_StatusPath opts) (opt_StatusSignaturePath opts))"
  have e: "expired ?now m = Inr False \<longleftrightarrow> unexpired ?now m"
    by (auto simp: expired_def unexpired_def split: option.splits)
  have over: "and_try (expired ?now m) f = Inr ''VERIFIED'' \<longleftrightarrow> unexpired ?now m \<and> f False = Inr ''VERIFIED''"
    if "f True = Inr ''EXPIRED''" for f
    using that e by (cases "expired ?now m") (auto split: bool.splits)
  have r: "?r = Inr s \<longleftrightarrow> (\<exists>ks. loadPackageTrustRoleKeys cr (en_trust env) packageTrustStatus = Inr ks \<and>
      validateVerificationStatus cr (en_read env) m (opt_StatusPath opts) (opt_StatusSignaturePath opts) ks = Inr s)" for s
    by (simp add: and_try_Inr_iff status_keys)
  have c: "(case ?r of Inl _ \<Rightarrow> Inr ''STATUS-UNKNOWN'' | Inr s \<Rightarrow> status_display ?now (opt_MaxStatusAge opts) s) = Inr ''VERIFIED''
    \<longleftrightarrow> (\<exists>s. ?r = Inr s \<and> status_display ?now (opt_MaxStatusAge opts) s = Inr ''VERIFIED'')"
    by (cases ?r) simp_all
  have f: "fresh_status cr env opts m \<longleftrightarrow> opt_StatusPath opts \<noteq> [] \<and> opt_StatusSignaturePath opts \<noteq> [] \<and>
      (\<exists>s. ?r = Inr s \<and> status_display ?now (opt_MaxStatusAge opts) s = Inr ''VERIFIED'')"
    if "0 \<le> opt_MaxStatusAge opts"
  proof -
    have le: "opt_MaxStatusAge opts \<le> 0 \<longleftrightarrow> opt_MaxStatusAge opts = 0" using that by simp
    show ?thesis unfolding r validateVerificationStatus_iff status_display_VERIFIED fresh_status_def le by blast
  qed
  show ?thesis
    using f c by (auto simp: record_display_def hasConsumerEvaluationTime_def over Let_def)
qed

section \<open>The kind of a package\<close>

lemma package_field_kind: "pm_Kind (fst (package_field n j m)) = (if n = ''kind'' then fst (dec_string j (pm_Kind m)) else pm_Kind m)"
  by (simp add: package_field_def set_field_fst)

lemma validateObjectSchema_keys:
  assumes "validateObjectSchema (Inr (JObj ms)) known required = None"
  shows "fst ` set ms \<subseteq> set known"
proof -
  have "first_some (\<lambda>(key, val). if key \<notin> set known then Some (Errorf ''unknown top-level key %q'' [Q key])
      else if key = ''ext'' \<and> \<not> isJSONObject val then Some (Errorf ''ext must be an object'' []) else None) (obj_map ms) = None"
    using assms by (simp add: validateObjectSchema_def raw_map_def Let_def first_err_Cons_None)
  then have "fst x \<in> set known" if "x \<in> set (obj_map ms)" for x
    using that by (cases x) (force simp: first_some_None_iff split: if_splits)
  then have "fst ` set (obj_map ms) \<subseteq> set known" by blast
  then show ?thesis by simp
qed

lemma schema_kind:
  assumes "validatePackageManifestSchema (Inr j) = None"
  shows "\<exists>ms k. j = JObj ms \<and> alookup (obj_map ms) ''kind'' = Some (JStr k) \<and> k \<in> {''evaluation-package'', ''verification-record''}
    \<and> fst ` set ms \<subseteq> set (packageCommonKeys @ [''verifier'', ''grades''])"
proof -
  obtain root kr k where r: "raw_root (Inr j) = Inr root" "alookup root ''kind'' = Some kr" "dec_string kr [] = (k, None)"
    using assms by (auto simp: validatePackageManifestSchema_def split: sum.splits option.splits prod.splits)
  have k: "k = ''evaluation-package'' \<and> validateObjectSchema (Inr j) packageCommonKeys package_required = None
    \<or> k = ''verification-record'' \<and> validateObjectSchema (Inr j) (packageCommonKeys @ [''verifier'', ''grades''])
        (package_required @ [''verifier'', ''grades'']) = None"
    using assms r by (auto simp: validatePackageManifestSchema_def first_err_Cons_None split: if_splits)
  obtain ms where ms: "j = JObj ms" "root = obj_map ms"
    using r(1,2) by (cases j) (auto simp: raw_root_def raw_map_def)
  have "fst ` set ms \<subseteq> set (packageCommonKeys @ [''verifier'', ''grades''])"
    using k validateObjectSchema_keys unfolding ms by fastforce
  moreover have "kr = JStr k" using r(3) k by (auto simp: dec_string_def split: json.splits)
  ultimately show ?thesis using ms r(2) k by blast
qed

lemma manifest_kind:
  assumes "load_package_manifest raw = Inr m"
  shows "pm_Kind m \<in> {''evaluation-package'', ''verification-record''}"
proof -
  have l: "IsCanonical raw" "validatePackageManifestSchema (parse_json raw) = None"
    "unmarshal dec_PackageManifest raw zero_PackageManifest = (m, None)"
    using assms by (simp_all add: load_package_manifest_iff)
  obtain j where j: "parse_json raw = Inr j" "dec_PackageManifest j zero_PackageManifest = (m, None)"
    using l(3) by (auto simp: unmarshal_def split: sum.splits)
  obtain ms k where k: "j = JObj ms" "alookup (obj_map ms) ''kind'' = Some (JStr k)"
    "k \<in> {''evaluation-package'', ''verification-record''}" "fst ` set ms \<subseteq> set (packageCommonKeys @ [''verifier'', ''grades''])"
    using schema_kind l(2) unfolding j(1) by blast
  have d: "distinct (map fst ms)" using canonical_members [OF l(1)] j(1) k(1) by simp
  have "(''kind'', JStr k) \<in> set ms" using alookup_SomeD [OF k(2)] by (simp add: obj_map_distinct [OF d])
  then obtain xs ys where ms: "ms = xs @ (''kind'', JStr k) # ys" by (meson split_list)
  let ?names = "[''kind'', ''package_format'', ''id'', ''run'', ''producer'', ''operator'', ''verifier'', ''verification_custody'',
      ''evidence_coverage'', ''artifact_binding'', ''files'', ''verification_inputs'', ''spec'', ''checker'',
      ''artifact_evaluation'', ''conformance'', ''grades'', ''issued_at'', ''expires_at'', ''status_authority'']"
  have exact: "field_for ?names (fst x) = Some (fst x)" if "x \<in> set ms" for x
  proof -
    have "fst x \<in> set (packageCommonKeys @ [''verifier'', ''grades''])" using that k(4) by blast
    moreover have "set (packageCommonKeys @ [''verifier'', ''grades'']) \<subseteq> set ?names" by (simp add: packageCommonKeys_def)
    ultimately show ?thesis by (intro field_for_exact) blast
  qed
  have "fst (dec_PackageManifest j zero_PackageManifest) = m" using j(2) by simp
  then have m: "m = fst (dec_members package_field ?names ms zero_PackageManifest)"
    by (simp only: dec_PackageManifest_def dec_struct_def k(1) json.case)
  have "pm_Kind (fst (dec_members package_field ?names ms zero_PackageManifest)) = pm_Kind (fst (package_field ''kind'' (JStr k) (fst (dec_members package_field ?names xs zero_PackageManifest))))"
    unfolding ms
  proof (rule dec_members_last)
    show "field_for ?names ''kind'' = Some ''kind''" by (simp add: field_for_def)
    fix key v n x
    assume y: "(key, v) \<in> set ys" "field_for ?names key = Some n"
    have "''kind'' \<notin> fst ` set ys" using d unfolding ms by simp
    moreover have "key \<in> fst ` set ys" using y(1) by force
    ultimately have "key \<noteq> ''kind''" by blast
    moreover have "field_for ?names key = Some key" using exact [of "(key, v)"] y(1) unfolding ms by simp
    ultimately have "n = key" "key \<noteq> ''kind''" using y(2) by simp_all
    then show "pm_Kind (fst (package_field n v x)) = pm_Kind x" by (simp add: package_field_kind)
  qed
  then have "pm_Kind m = k" unfolding m package_field_kind by (simp add: dec_string_def)
  then show ?thesis using k(3) by simp
qed

lemma manifest_verifier:
  assumes "load_package_manifest raw = Inr m" "pm_Kind m = ''verification-record''"
  shows "independent_verifier m"
proof -
  have "validate_parties m = None"
    using assms(1) by (simp add: load_package_manifest_iff validatePackageSemantics_def first_err_Cons_None)
  then show ?thesis
    using assms(2) by (auto simp: validate_parties_def validate_verifier_def independent_verifier_def Let_def
      split: if_splits option.splits)
qed

definition succeeded :: "PackageManifest \<Rightarrow> bool" where
  "succeeded m \<longleftrightarrow> pe_ExitStatus (pm_ArtifactEvaluation m) = 0 \<and> cf_ExitStatus (pm_Conformance m) = 0"

lemma package_display_VERIFIED:
  "package_display cr env opts m = Inr ''VERIFIED'' \<longleftrightarrow>
     succeeded m \<and> pm_Kind m \<noteq> ''evaluation-package'' \<and> record_display cr env opts m = Inr ''VERIFIED''"
  by (auto simp: package_display_def succeeded_def evaluationDisplayState_def)

lemma signed_record:
  assumes "load_package_manifest raw = Inr m" "pm_Kind m = ''verification-record''"
  shows "(\<exists>ks. loadPackageTrustKeys cr (en_trust env) (packageSignerTrustRole m) = Inr ks
        \<and> verifyPackageSignature cr t raw (packageSignerKey m) ks = Inr ()) \<longleftrightarrow> signed_by_verifier cr env t raw m"
proof -
  obtain v where v: "pm_Verifier m = Some v" using manifest_verifier [OF assms] by (auto simp: independent_verifier_def)
  have "packageSignerTrustRole m = packageTrustVerifiers" "packageSignerKey m = pv_Key v"
    using assms(2) v by (simp_all add: packageSignerTrustRole_def packageSignerKey_def)
  then show ?thesis using v by (simp add: verifier_keys_iff verifyPackageSignature_iff signed_by_verifier_def) blast
qed

definition verified_package :: "crypto \<Rightarrow> package_env \<Rightarrow> PackageValidationOptions \<Rightarrow> tree \<Rightarrow> PackageManifest \<Rightarrow> bool" where
  "verified_package cr env opts t m \<longleftrightarrow>
     (\<exists>raw. alookup t packageManifestName = Some (File raw) \<and> load_package_manifest raw = Inr m
        \<and> signed_by_verifier cr env t raw m)
     \<and> independent_verifier m \<and> described cr t m
     \<and> validatePackageInputKeys cr t m = None \<and> validateArtifactBinding cr t m = None
     \<and> validatePackageGradesAgainstMachineOutput t m = None \<and> succeeded m
     \<and> 0 \<le> opt_MaxStatusAge opts \<and> opt_EvaluationTime opts \<noteq> zero_time
     \<and> unexpired (opt_EvaluationTime opts) m \<and> fresh_status cr env opts m"

lemma VERIFIED_iff:
  "(\<exists>v. validatePackageDir cr env opts t = Inr v \<and> val_DisplayState v = ''VERIFIED'' \<and> val_ID v = i) \<longleftrightarrow>
     (\<exists>m. pm_ID m = i \<and> verified_package cr env opts t m)"
  (is "?L \<longleftrightarrow> ?R")
proof
  assume ?L
  then obtain raw m where a: "alookup t packageManifestName = Some (File raw)" "load_package_manifest raw = Inr m"
    "check_package cr env t raw m = Inr ()" "package_display cr env opts m = Inr ''VERIFIED''" "pm_ID m = i"
    by (auto simp: validatePackageDir_iff)
  have k: "pm_Kind m = ''verification-record''"
    using manifest_kind [OF a(2)] a(4) by (simp add: package_display_VERIFIED)
  have "verified_package cr env opts t m"
    using a(1-4) signed_record [OF a(2) k, of cr env t] manifest_verifier [OF a(2) k] k
    by (auto simp: verified_package_def check_package_iff package_display_VERIFIED record_display_VERIFIED succeeded_def)
  then show ?R using a(5) by blast
next
  assume ?R
  then obtain m where m: "pm_ID m = i" "verified_package cr env opts t m" by blast
  then obtain raw where raw: "alookup t packageManifestName = Some (File raw)" "load_package_manifest raw = Inr m"
    "signed_by_verifier cr env t raw m" by (auto simp: verified_package_def)
  have k: "pm_Kind m = ''verification-record''" using m(2) by (simp add: verified_package_def independent_verifier_def)
  have "check_package cr env t raw m = Inr ()"
    using m(2) raw(3) signed_record [OF raw(2) k, of cr env t]
    by (simp add: verified_package_def check_package_iff)
  moreover have "package_display cr env opts m = Inr ''VERIFIED''"
    using m(2) k by (simp add: verified_package_def package_display_VERIFIED record_display_VERIFIED)
  ultimately have "validatePackageDir cr env opts t = Inr \<lparr>val_Kind = pm_Kind m, val_ID = i, val_DisplayState = ''VERIFIED''\<rparr>"
    using raw(1,2) m(1) by (auto simp: validatePackageDir_iff)
  then show ?L by auto
qed

text \<open>C3: what VERIFIED takes, all of it. A package displays VERIFIED exactly when these conditions hold. It has
  no link or special file, and its manifest.json is canonical and keeps the schema and the semantic rules. It is a
  verification record whose verifier is neither its producer nor its operator; the verifier's key is in the consumer's
  verifier role and signed the manifest, and no key is in both the verifier and the operator role. Every file is
  listed once with its size and digest and every reference is listed; the verification inputs name every key file of
  the artifact and hold the keys of the verifier and of the status authority; the artifact that is bound and the
  machine output agree with the manifest; evaluation and conformance exited 0. The consumer gives an evaluation time
  and a maximal age that is not negative, and the record is not expired at that time. A status and its signature are
  given; the status is canonical, keeps its schema, is for this record and the authority it names, and at the
  evaluation time it is current, has begun, is not overdue and, if the maximal age is not 0, is within it. It is
  signed under the key that the manifest names for its authority, and the consumer's status role holds that
  key.\<close>
theorem VERIFIED_sound_and_complete:
  "(\<exists>v. ValidatePackage cr env opts src = Inr v \<and> val_DisplayState v = ''VERIFIED'' \<and> val_ID v = i) \<longleftrightarrow>
     (\<exists>t m. snapshotPackageDir src = Inr t \<and> pm_ID m = i \<and> verified_package cr env opts t m)"
  using VERIFIED_iff [of cr env opts _ i] unfolding ValidatePackage_iff by blast

section \<open>The exit status of the command\<close>

text \<open>Exit status 0 of the validation: a package that passed every check and whose evaluation and conformance exited 0; it is an
  evaluation package, or it displays VERIFIED.\<close>

lemma validate_zero:
  assumes "fst (aelpackage cr env encode args src) = 0"
  shows "\<exists>opts t raw m. package_options args = Some opts \<and> snapshotPackageDir src = Inr t
    \<and> alookup t packageManifestName = Some (File raw) \<and> load_package_manifest raw = Inr m
    \<and> check_package cr env t raw m = Inr () \<and> succeeded m
    \<and> (pm_Kind m = ''evaluation-package'' \<or> verified_package cr env opts t m)"
proof -
  obtain opts v where o: "package_options args = Some opts" "ValidatePackage cr env opts src = Inr v"
    "packageExitCode (val_DisplayState v) = 0"
    using assms by (auto simp: aelpackage_def split: if_splits option.splits sum.splits)
  obtain t raw m where t: "snapshotPackageDir src = Inr t" "alookup t packageManifestName = Some (File raw)"
    "load_package_manifest raw = Inr m" "check_package cr env t raw m = Inr ()"
    "package_display cr env opts m = Inr (val_DisplayState v)" "val_ID v = pm_ID m"
    and dir: "validatePackageDir cr env opts t = Inr v"
    using o(2) by (auto simp: ValidatePackage_iff validatePackageDir_iff)
  have s: "val_DisplayState v = ''VERIFIED'' \<or> val_DisplayState v = ''EVALUATED''"
    using o(3) by (auto simp: packageExitCode_def exitNotCurrent_def split: if_splits)
  have never: "record_display cr env opts m \<noteq> Inr ''EVALUATED''"
  proof
    assume r: "record_display cr env opts m = Inr ''EVALUATED''"
    have no: "status_display now age st \<noteq> Inr ''EVALUATED''" for now age st
      by (auto simp: status_display_def dated_state_def split: option.splits if_splits)
    show False
      using r no by (auto simp: record_display_def Let_def and_try_Inr_iff split: if_splits sum.splits)
  qed
  have m: "succeeded m" "pm_Kind m = ''evaluation-package'' \<or> val_DisplayState v = ''VERIFIED''"
    using t(5) s never by (auto simp: package_display_def evaluationDisplayState_def succeeded_def split: if_splits)
  have "\<exists>m'. pm_ID m' = pm_ID m \<and> verified_package cr env opts t m'" if "val_DisplayState v = ''VERIFIED''"
    using VERIFIED_iff [of cr env opts t "pm_ID m"] that dir t(6) by blast
  moreover have "m' = m" if "verified_package cr env opts t m'" for m'
    using that t(2,3) by (auto simp: verified_package_def)
  ultimately show ?thesis using o(1) t m by blast
qed

section \<open>The manifest pins the package\<close>

text \<open>The bytes of the files that a manifest lists.\<close>

definition blobs :: "tree \<Rightarrow> string set" where
  "blobs t = {raw. \<exists>p. (p, File raw) \<in> set t \<and> is_blob (p, File raw)}"

lemma described_pins:
  assumes "described cr t m" "described cr t' m" "distinct (map fst t')"
    and "inj_on (sha256_hex cr) (blobs t \<union> blobs t')"
    and "alookup t p = Some (File raw)" "p \<noteq> packageManifestName" "p \<noteq> packageSignatureName"
  shows "alookup t' p = Some (File raw)"
proof -
  have in_t: "(p, File raw) \<in> set t" using assms(5) by (rule alookup_SomeD)
  have blob: "is_blob (p, File raw)" using assms(6,7) by (simp add: is_blob_def is_file_def)
  then obtain b where b: "b \<in> set (pm_Files m)" "bl_Path b = p" "matches cr b raw"
    using assms(1) in_t unfolding described_def by blast
  then obtain raw' where raw': "(p, File raw') \<in> set t'" "is_blob (p, File raw')"
    using assms(2) unfolding described_def by blast
  then obtain b' where b': "b' \<in> set (pm_Files m)" "bl_Path b' = p" "matches cr b' raw'"
    using assms(2) unfolding described_def by blast
  have "distinct (map bl_Path (pm_Files m))" using assms(1) by (simp add: described_def)
  then have "b = b'" using b(1,2) b'(1,2) by (metis distinct_map inj_onD)
  then have "sha256_hex cr raw = sha256_hex cr raw'" using b(3) b'(3) by (simp add: matches_def)
  moreover have "raw \<in> blobs t" "raw' \<in> blobs t'" using in_t blob raw' unfolding blobs_def by blast+
  ultimately have "raw = raw'" using inj_onD [OF assms(4)] by blast
  then show ?thesis using alookup_in_set [OF assms(3) raw'(1)] by simp
qed

text \<open>C13: the signed manifest pins the package. Two directories that validate, under whatever trust, options and
  time, with the same manifest hold the same files with the same bytes, but for the detached signature,
  unless two of their files collide under SHA-256: nothing can be changed, added, removed or renamed.\<close>
theorem manifest_pins_package:
  assumes "validatePackageDir cr env opts t = Inr v" "validatePackageDir cr env' opts' t' = Inr v'"
    and "alookup t packageManifestName = alookup t' packageManifestName"
    and "distinct (map fst t)" "distinct (map fst t')"
    and "inj_on (sha256_hex cr) (blobs t \<union> blobs t')"
    and "p \<noteq> packageSignatureName"
  shows "alookup t p = Some (File raw) \<longleftrightarrow> alookup t' p = Some (File raw)"
proof (cases "p = packageManifestName")
  case False
  obtain doc m where d: "alookup t packageManifestName = Some (File doc)" "load_package_manifest doc = Inr m" "described cr t m"
    using assms(1) by (auto simp: validatePackageDir_iff check_package_iff)
  moreover obtain doc' m' where d': "alookup t' packageManifestName = Some (File doc')" "load_package_manifest doc' = Inr m'"
    "described cr t' m'"
    using assms(2) by (auto simp: validatePackageDir_iff check_package_iff)
  ultimately have "m' = m" using assms(3) by simp
  then have m: "described cr t m" "described cr t' m" using d(3) d'(3) by simp_all
  have "blobs t' \<union> blobs t = blobs t \<union> blobs t'" by blast
  then show ?thesis
    using described_pins [OF m assms(5,6) _ False assms(7)] described_pins [OF m(2,1) assms(4) _ _ False assms(7)] assms(6)
    by metis
qed (use assms(3) in simp)

section \<open>The bound artifact\<close>

lemma LoadArtifact_manifest:
  assumes "LoadArtifact cr fs = Inr art"
  shows "\<exists>f. fs_open fs ''manifest.json'' = Inr f \<and> art_ManifestRaw art = f_data f \<and> length (f_data f) \<le> maxManifestBytes"
proof -
  obtain raw where raw: "readBoundedArtifactFile fs ''manifest.json'' maxManifestBytes = Inr raw"
    using assms by (cases "readBoundedArtifactFile fs ''manifest.json'' maxManifestBytes")
      (auto simp: LoadArtifact_def and_then_Inr_iff)
  obtain ks m logs a' where l: "loadPolicies cr fs ((new_Artifact ks raw m)\<lparr>art_RecorderLogs := logs\<rparr>) = Inr a'"
    "art = loadCounterparty cr fs (loadAnchors fs a')"
    using assms raw by (auto simp: LoadArtifact_def and_then_Inr_iff)
  have "art_ManifestRaw (fold (load_policy cr) es b) = art_ManifestRaw b" for es b
  proof (induction es arbitrary: b)
    case (Cons e es)
    have "art_ManifestRaw (load_policy cr e b) = art_ManifestRaw b" by (simp add: load_policy_def Let_def split: sum.split)
    then show ?case using Cons by simp
  qed simp
  then have "art_ManifestRaw a' = raw"
    using l(1) by (auto simp: loadPolicies_def new_Artifact_def split: sum.splits if_splits)
  then have m: "art_ManifestRaw art = raw"
    unfolding l(2) by (simp add: loadCounterparty_def loadAnchors_def Let_def split: option.split sum.split prod.split)
  obtain f where f: "openArtifactFile fs ''manifest.json'' = Inr f" "read_limited (maxManifestBytes + 1) f = Inr raw"
    "length raw \<le> maxManifestBytes"
    using raw by (auto simp: readBoundedArtifactFile_def and_then_Inr_iff split: if_splits)
  have "fs_open fs ''manifest.json'' = Inr f"
    using f(1) by (auto simp: openArtifactFile_def fail_if_Inr_iff split: sum.splits)
  moreover have "raw = f_data f"
    using f(2,3) by (auto simp: read_limited_def read_all_def fail_if_Inr_iff split: if_splits)
  ultimately show ?thesis using m f(3) by blast
qed

definition nonempty_runs :: "Artifact \<Rightarrow> string list" where
  "nonempty_runs art = filter (\<lambda>run. run \<noteq> []) (artifactRuns art)"

lemma discoveredPackageRuns_mset: "mset (discoveredPackageRuns (Evaluate cr art)) = mset (nonempty_runs art)"
  by (simp add: discoveredPackageRuns_def nonempty_runs_def res_Run_Evaluate)

definition binds_artifact :: "crypto \<Rightarrow> tree \<Rightarrow> PackageManifest \<Rightarrow> Artifact \<Rightarrow> bool" where
  "binds_artifact cr t m art \<longleftrightarrow>
     (let b = pm_ArtifactBinding m in
      LoadArtifact cr (tree_fs t (bd_Root b) (bd_KeysDir b)) = Inr art
      \<and> bl_Path (bd_Manifest b) = bd_Root b @ ''/manifest.json''
      \<and> mset (bd_DiscoveredRuns b) = mset (nonempty_runs art) \<and> pm_Run m \<in> set (nonempty_runs art)
      \<and> (pm_Kind m = ''verification-record'' \<longrightarrow> mset (map pg_Run (pm_Grades m)) = mset (nonempty_runs art)))"

lemma validateArtifactBinding_None:
  assumes "validateArtifactBinding cr t m = None"
  shows "\<exists>art. binds_artifact cr t m art"
proof -
  let ?b = "pm_ArtifactBinding m"
  have paths: "safePackagePath (bd_Root ?b) = Inr (bd_Root ?b)" "safePackagePath (bd_KeysDir ?b) = Inr (bd_KeysDir ?b)"
    using assms by (auto simp: validateArtifactBinding_def safePackagePath_iff Let_def split: sum.splits)
  obtain art where art: "LoadArtifact cr (tree_fs t (bd_Root ?b) (bd_KeysDir ?b)) = Inr art"
    using assms by (auto simp: validateArtifactBinding_def paths Let_def split: sum.splits if_splits)
  let ?runs = "discoveredPackageRuns (Evaluate cr art)"
  have r: "bl_Path (bd_Manifest ?b) = bd_Root ?b @ ''/'' @ packageManifestName" "sameStringSet ?runs (bd_DiscoveredRuns ?b)"
    "pm_Run m \<in> set ?runs" "pm_Kind m = ''verification-record'' \<Longrightarrow> sameStringSet ?runs (map pg_Run (pm_Grades m))"
    using assms by (auto simp: validateArtifactBinding_def paths art Let_def split: if_splits)
  have "set ?runs = set (nonempty_runs art)" using discoveredPackageRuns_mset by (rule mset_eq_setD)
  then show ?thesis
    using r art discoveredPackageRuns_mset [of cr art]
    by (auto simp: binds_artifact_def Let_def sameStringSet_iff packageManifestName_def)
qed

text \<open>C14: what is hashed is what is evaluated. Let a package whose entries have distinct names validate, and
  \<open>m\<close> be what its manifest.json loads to. Then the artifact that \<open>m\<close> binds loads from the
  package, and the manifest the checker evaluates, the manifest.json right under the bound root, is the very file
  whose path, size and digest \<open>m\<close> declares. The discovered runs that \<open>m\<close> lists are the
  non-empty runs of that artifact, each as often, the package is about one of them, and a verification record grades
  each of them once.\<close>
theorem package_binds_artifact:
  assumes "validatePackageDir cr env opts t = Inr v" "distinct (map fst t)"
  shows "\<exists>raw m art. alookup t packageManifestName = Some (File raw) \<and> load_package_manifest raw = Inr m
    \<and> val_ID v = pm_ID m \<and> val_Kind v = pm_Kind m \<and> binds_artifact cr t m art
    \<and> alookup t (bl_Path (bd_Manifest (pm_ArtifactBinding m))) = Some (File (art_ManifestRaw art))
    \<and> matches cr (bd_Manifest (pm_ArtifactBinding m)) (art_ManifestRaw art)"
proof -
  obtain top m where m: "val_ID v = pm_ID m" "described cr t m" "validateArtifactBinding cr t m = None"
    and own: "alookup t packageManifestName = Some (File top)" "load_package_manifest top = Inr m" "val_Kind v = pm_Kind m"
    using assms(1) by (auto simp: validatePackageDir_iff check_package_iff)
  obtain art where art: "binds_artifact cr t m art" using validateArtifactBinding_None [OF m(3)] by blast
  let ?b = "pm_ArtifactBinding m" and ?man = "bd_Manifest (pm_ArtifactBinding m)"
  have path: "bl_Path ?man = bd_Root ?b @ ''/manifest.json''" using art by (simp add: binds_artifact_def Let_def)
  have "listed m ?man" using m(2) by (simp add: described_def packageReferencedBlobs_def)
  then obtain b where b: "b \<in> set (pm_Files m)" "bl_Path b = bl_Path ?man" "bl_Size b = bl_Size ?man" "bl_Digest b = bl_Digest ?man"
    unfolding listed_def by blast
  then obtain raw where raw: "(bl_Path ?man, File raw) \<in> set t" "is_blob (bl_Path ?man, File raw)"
    using m(2) unfolding described_def by (metis (no_types, lifting))
  then obtain b' where b': "b' \<in> set (pm_Files m)" "bl_Path b' = bl_Path ?man" "matches cr b' raw"
    using m(2) unfolding described_def by blast
  have "distinct (map bl_Path (pm_Files m))" using m(2) by (simp add: described_def)
  then have "b' = b" using b(1,2) b'(1,2) by (metis distinct_map inj_onD)
  then have ok: "matches cr ?man raw" using b b'(3) by (simp add: matches_def)
  have at: "alookup t (bl_Path ?man) = Some (File raw)" using alookup_in_set [OF assms(2) raw(1)] .
  obtain f where "fs_open (tree_fs t (bd_Root ?b) (bd_KeysDir ?b)) ''manifest.json'' = Inr f" "art_ManifestRaw art = f_data f"
    using LoadArtifact_manifest art by (force simp: binds_artifact_def Let_def)
  then have "art_ManifestRaw art = raw" using at path by (auto simp: tree_fs_def tree_open_def)
  then show ?thesis using m(1) own art at ok by blast
qed

end
