(* ===== verification/Emit_Paths.thy ===== *)
theory Emit_Paths
  imports Package_Facts "HOL-Library.Sublist"
begin

text \<open>
  \<open>checker/internal/ael/emit.go\<close>, the directories on disk: the output must not overlap an input, the package is
  assembled beside the output and renamed into place. What the operating system answers is an argument.
\<close>

section \<open>Overlap\<close>

text \<open>\<open>filepath.Abs\<close>, \<open>os.Lstat\<close> and \<open>filepath.EvalSymlinks\<close>.\<close>

record resolve_env =
  ro_abs :: "string \<Rightarrow> string res"
  ro_lstat :: "string \<Rightarrow> unit res"
  ro_eval :: "string \<Rightarrow> string res"

definition abs_path :: "string list \<Rightarrow> string" where
  "abs_path parts = CHR ''/'' # join_with ''/'' parts"

text \<open>The probing loop. An absolute clean path is its components, innermost first: \<open>filepath.Dir\<close> drops the first of
  them, \<open>filepath.Base\<close> is that component, and the root is its own parent.\<close>

definition rejoin :: "string \<Rightarrow> string list \<Rightarrow> string" where
  "rejoin resolved missing = foldr (\<lambda>part path. path_Clean (path @ ''/'' @ part)) missing resolved"

fun probe_up :: "resolve_env \<Rightarrow> string \<Rightarrow> string list \<Rightarrow> string list \<Rightarrow> string res" where
  "probe_up env value missing parts =
     (case ro_lstat env (abs_path (rev parts)) of
        Inr _ \<Rightarrow> and_then (ro_eval env (abs_path (rev parts))) (\<lambda>resolved. Inr (rejoin resolved missing))
      | Inl err \<Rightarrow>
          if err \<noteq> os_ErrNotExist then Inl err
          else
            (case parts of
               [] \<Rightarrow> Inl (Errorf ''no existing parent for %q'' [Q value])
             | part # upper \<Rightarrow> probe_up env value (missing @ [part]) upper))"

declare probe_up.simps [simp del]

definition resolveEmitPath :: "resolve_env \<Rightarrow> string \<Rightarrow> string res" where
  "resolveEmitPath env value =
     and_then (ro_abs env value) (\<lambda>abs. probe_up env value [] (rev (filter (\<lambda>p. p \<noteq> []) (split_on (CHR ''/'') abs))))"

definition pathWithin :: "string \<Rightarrow> string \<Rightarrow> bool" where
  "pathWithin candidate ancestor \<longleftrightarrow> candidate = ancestor \<or> has_prefix candidate (ancestor @ ''/'')"

definition path_overlap :: "resolve_env \<Rightarrow> string \<Rightarrow> string \<Rightarrow> string \<times> string \<Rightarrow> msg option" where
  "path_overlap env outDir out input =
     (case resolveEmitPath env (snd input) of
        Inl err \<Rightarrow> Some (Errorf ''resolve %s: %w'' [S (fst input), E err])
      | Inr resolved \<Rightarrow>
          if pathWithin out resolved
          then Some (Errorf ''output directory %q is inside the %s %q'' [Q outDir, S (fst input), Q (snd input)])
          else if pathWithin resolved out
          then Some (Errorf ''%s %q is inside the output directory %q'' [S (fst input), Q (snd input), Q outDir])
          else None)"

definition validateEmitPaths :: "resolve_env \<Rightarrow> string \<Rightarrow> string \<Rightarrow> string \<Rightarrow> msg option" where
  "validateEmitPaths env outDir artifactDir keysDir =
     (case resolveEmitPath env outDir of
        Inl err \<Rightarrow> Some (Errorf ''resolve output directory: %w'' [E err])
      | Inr out \<Rightarrow>
          first_some (path_overlap env outDir out)
            [(''artifact directory'', artifactDir), (''artifact keys directory'', keysDir)])"

section \<open>The output directory\<close>

text \<open>What the operating system answers about the output: \<open>od_stat\<close> tells whether it is a directory,
  \<open>od_names\<close> what it holds; \<open>od_mkdir\<close>, \<open>od_temp\<close>, \<open>od_chmod\<close>, \<open>od_remove\<close> and \<open>od_rename\<close> are the errors of
  those calls.\<close>

record out_dir =
  od_mkdir :: "msg option"
  od_stat :: "bool res"
  od_names :: "string list res"
  od_temp :: "msg option"

record out_end =
  od_chmod :: "msg option"
  od_lstat :: "unit res"
  od_left :: "string list res"
  od_remove :: "msg option"
  od_rename :: "msg option"

definition directoryIsEmpty :: "string list res \<Rightarrow> bool res" where
  "directoryIsEmpty entries = and_then entries (\<lambda>es. Inr (length es = 0))"

definition createEmitStagingDir :: "out_dir \<Rightarrow> string \<Rightarrow> msg option" where
  "createEmitStagingDir od out =
     first_err
       [wrap_err (\<lambda>e. Errorf ''create package parent: %w'' [E e]) (od_mkdir od),
        (case od_stat od of
           Inr isdir \<Rightarrow>
             if \<not> isdir then Some (Errorf ''package directory %q is not a directory'' [Q out])
             else
               (case directoryIsEmpty (od_names od) of
                  Inl e \<Rightarrow> Some e
                | Inr clear \<Rightarrow> if \<not> clear then Some (Errorf ''package directory %q is not empty'' [Q out]) else None)
         | Inl err \<Rightarrow> if err \<noteq> os_ErrNotExist then Some (Errorf ''inspect package directory: %w'' [E err]) else None),
        wrap_err (\<lambda>e. Errorf ''create package staging directory: %w'' [E e]) (od_temp od)]"

definition publishEmitPackage :: "out_end \<Rightarrow> string \<Rightarrow> msg option" where
  "publishEmitPackage od out =
     first_err
       [wrap_err (\<lambda>e. Errorf ''set package directory mode: %w'' [E e]) (od_chmod od),
        (case od_lstat od of
           Inr _ \<Rightarrow>
             (case directoryIsEmpty (od_left od) of
                Inl e \<Rightarrow> Some (Errorf ''inspect package directory before publish: %w'' [E e])
              | Inr clear \<Rightarrow>
                  if \<not> clear then Some (Errorf ''package directory %q became non-empty before publish'' [Q out])
                  else wrap_err (\<lambda>e. Errorf ''clear empty package directory before publish: %w'' [E e]) (od_remove od))
         | Inl err \<Rightarrow>
             if err \<noteq> os_ErrNotExist then Some (Errorf ''inspect package directory before publish: %w'' [E err]) else None),
        wrap_err (\<lambda>e. Errorf ''publish package: %w'' [E e]) (od_rename od)]"

section \<open>Overlap, by components\<close>

definition path_parts :: "string list \<Rightarrow> bool" where
  "path_parts cs \<longleftrightarrow> list_all (\<lambda>p. p \<noteq> [] \<and> CHR ''/'' \<notin> set p) cs"

lemma has_prefix_iff: "has_prefix s p \<longleftrightarrow> (\<exists>t. s = p @ t)"
  by (metis append_eq_conv_conj append_take_drop_id has_prefix_def)

lemma join_with_append:
  "xs \<noteq> [] \<Longrightarrow> ys \<noteq> [] \<Longrightarrow> join_with sep (xs @ ys) = join_with sep xs @ sep @ join_with sep ys"
proof (induction sep xs rule: join_with.induct)
  case (2 sep x)
  then show ?case by (cases ys) auto
qed auto

lemma split_on_append: "split_on c (s @ c # t) = split_on c s @ split_on c t"
proof (induction s)
  case (Cons d s)
  then show ?case by (cases "split_on c s") auto
qed simp

lemma split_join: "cs \<noteq> [] \<Longrightarrow> path_parts cs \<Longrightarrow> split_on (CHR ''/'') (join_with ''/'' cs) = cs"
proof (induction "''/''" cs rule: join_with.induct)
  case (3 x y xs)
  then show ?case by (simp add: split_on_append split_on_no_sep path_parts_def)
qed (simp_all add: path_parts_def split_on_no_sep)

lemma split_abs_path: "cs \<noteq> [] \<Longrightarrow> path_parts cs \<Longrightarrow> split_on (CHR ''/'') (abs_path cs) = [] # cs"
  by (simp add: abs_path_def split_join)

lemma pathWithin_parts:
  assumes "path_parts cs" "path_parts ds" "ds \<noteq> []"
  shows "pathWithin (abs_path cs) (abs_path ds) \<longleftrightarrow> prefix ds cs"
proof
  assume p: "prefix ds cs"
  then obtain es where es: "cs = ds @ es" by (auto simp: prefix_def)
  show "pathWithin (abs_path cs) (abs_path ds)"
  proof (cases "es = []")
    case False
    have "abs_path cs = (abs_path ds @ ''/'') @ join_with ''/'' es"
      using join_with_append [OF assms(3) False, of "''/''"] by (simp add: abs_path_def es)
    then show ?thesis by (simp add: pathWithin_def has_prefix_def)
  qed (simp add: pathWithin_def es)
next
  assume "pathWithin (abs_path cs) (abs_path ds)"
  then consider "abs_path cs = abs_path ds" | t where "abs_path cs = abs_path ds @ CHR ''/'' # t"
    by (auto simp: pathWithin_def has_prefix_iff)
  then show "prefix ds cs"
  proof cases
    case 1
    have "cs \<noteq> []" using 1 assms(2,3) by (cases ds rule: remdups_adj.cases) (auto simp: abs_path_def path_parts_def)
    then have "[] # cs = [] # ds" using 1 split_abs_path assms by metis
    then show ?thesis by simp
  next
    case 2
    then have "cs \<noteq> []" by (auto simp: abs_path_def)
    then have "[] # cs = ([] # ds) @ split_on (CHR ''/'') t"
      using 2 split_abs_path [OF _ assms(1)] split_abs_path [OF assms(3,2)] by (simp add: split_on_append)
    then show ?thesis by simp
  qed
qed

lemma join_hd: "path_parts cs \<Longrightarrow> cs \<noteq> [] \<Longrightarrow> \<exists>c t. join_with ''/'' cs = c # t \<and> c \<noteq> CHR ''/''"
  by (cases cs rule: remdups_adj.cases) (auto simp: path_parts_def neq_Nil_conv)

lemma pathWithin_root: "path_parts cs \<Longrightarrow> pathWithin (abs_path cs) (abs_path []) \<longleftrightarrow> cs = []"
  using join_hd [of cs] by (cases "cs = []") (auto simp: pathWithin_def abs_path_def has_prefix_iff)

lemma path_overlap_None:
  assumes "resolveEmitPath env (snd input) = Inr (abs_path ds)" "path_parts cs" "path_parts ds" "cs \<noteq> []" "ds \<noteq> []"
  shows "path_overlap env outDir (abs_path cs) input = None \<longleftrightarrow> \<not> prefix ds cs \<and> \<not> prefix cs ds"
  using assms by (simp add: path_overlap_def pathWithin_parts)

text \<open>C30: the output never overlaps an input. When the output, the artifact and the keys resolve to paths below the root, the
  emitter accepts exactly the outputs that neither hold an input nor are held by one, component by component: a
  directory whose name only begins like an input's is accepted.\<close>
theorem validateEmitPaths_iff:
  assumes "resolveEmitPath env out = Inr (abs_path os)" "resolveEmitPath env artifactDir = Inr (abs_path as)"
    "resolveEmitPath env keysDir = Inr (abs_path ks)"
    and "path_parts os" "path_parts as" "path_parts ks" "os \<noteq> []" "as \<noteq> []" "ks \<noteq> []"
  shows "validateEmitPaths env out artifactDir keysDir = None \<longleftrightarrow>
    \<not> prefix as os \<and> \<not> prefix os as \<and> \<not> prefix ks os \<and> \<not> prefix os ks"
  using assms by (simp add: validateEmitPaths_def first_some_None_iff path_overlap_None del: first_some.simps)

theorem validateEmitPaths_iff_witness:
  "validateEmitPaths \<lparr>ro_abs = Inr, ro_lstat = (\<lambda>_. Inr ()), ro_eval = Inr\<rparr> ''/d/art2'' ''/d/art'' ''/k'' = None"
proof -
  let ?env = "\<lparr>ro_abs = Inr, ro_lstat = (\<lambda>_. Inr ()), ro_eval = Inr\<rparr>"
  have "resolveEmitPath ?env ''/d/art2'' = Inr (abs_path [''d'', ''art2''])"
    "resolveEmitPath ?env ''/d/art'' = Inr (abs_path [''d'', ''art''])" "resolveEmitPath ?env ''/k'' = Inr (abs_path [''k''])"
    by code_simp+
  from validateEmitPaths_iff [OF this] show ?thesis by (simp add: path_parts_def prefix_def)
qed

text \<open>The root is the one input the test misses: no path but the root itself is found to be inside it
  (\<open>pathWithin_root\<close>).\<close>

lemma root_not_overlapping:
  "validateEmitPaths \<lparr>ro_abs = Inr, ro_lstat = (\<lambda>_. Inr ()), ro_eval = Inr\<rparr> ''/d/out'' ''/'' ''/k'' = None"
  by code_simp

end
