(* ===== verification/Emit_Run.thy ===== *)
theory Emit_Run
  imports Emit_Files Emit_Paths
begin

text \<open>
  \<open>checker/internal/ael/emit.go\<close>, the options, the processes and the steps around them. Other processes may act on
  the staging directory: \<open>ev_other n\<close> is what they do to it before the emitter's \<open>n\<close>-th step, where a step is the
  copy of one tree or file, the index of the files, or one write. Nothing is assumed of it. The replica that the
  checker runs in is private to the emitter and the checker.
\<close>

section \<open>Options\<close>

record EmitOptions =
  eo_ArtifactDir :: string
  eo_ArtifactKeysDir :: string
  eo_CheckerPath :: string
  eo_CheckerName :: string
  eo_SourceRevision :: string
  eo_PackageID :: string
  eo_ProducerID :: string
  eo_OperatorID :: string
  eo_OperatorKey :: string
  eo_StatusAuthorityID :: string
  eo_StatusPublicKey :: string
  eo_Custody :: PackageCustody
  eo_Coverage :: PackageCoverage
  eo_SpecVersion :: string
  eo_SpecPath :: string
  eo_CorpusVersion :: string
  eo_CorpusDigestPath :: string
  eo_ConformanceCommand :: "string list"
  eo_ConformanceDir :: string
  eo_CommandTimeout :: int
  eo_Run :: string
  eo_IssuedAt :: instant
  eo_OutDir :: string

definition PrivateKeySize :: nat where
  "PrivateKeySize = 64"

definition emit_required :: "EmitOptions \<Rightarrow> (string \<times> string) list" where
  "emit_required opts =
     [(''artifact directory'', eo_ArtifactDir opts), (''artifact keys directory'', eo_ArtifactKeysDir opts),
      (''checker path'', eo_CheckerPath opts), (''checker name'', eo_CheckerName opts),
      (''source revision'', eo_SourceRevision opts), (''package id'', eo_PackageID opts),
      (''producer id'', eo_ProducerID opts), (''operator id'', eo_OperatorID opts),
      (''status authority id'', eo_StatusAuthorityID opts), (''specification version'', eo_SpecVersion opts),
      (''specification path'', eo_SpecPath opts), (''corpus version'', eo_CorpusVersion opts),
      (''corpus digest path'', eo_CorpusDigestPath opts), (''output directory'', eo_OutDir opts)]"

definition validateEmitOptions :: "EmitOptions \<Rightarrow> msg option" where
  "validateEmitOptions opts =
     first_err
       [first_some (\<lambda>(name, value). if trim_space value = [] then Some (Errorf ''%s is required'' [S name]) else None)
          (emit_required opts),
        if CHR ''/'' \<in> set (eo_CheckerName opts) \<or> CHR 0x5C \<in> set (eo_CheckerName opts)
        then Some (Errorf ''checker name must be a bare file name'' []) else None,
        if length (eo_OperatorKey opts) \<noteq> PrivateKeySize
        then Some (Errorf ''operator key must be a %d-byte ed25519 private key'' [D (int PrivateKeySize)]) else None,
        if length (eo_StatusPublicKey opts) \<noteq> PublicKeySize
        then Some (Errorf ''status authority public key must be a %d-byte ed25519 public key'' [D (int PublicKeySize)]) else None,
        if eo_ConformanceCommand opts = [] then Some (Errorf ''conformance command is required'' []) else None,
        (let c = eo_Custody opts in
         if \<not> packageTextPresent [pc_Acquisition c, pc_Replay c, pc_Review c, pc_Issuance c]
         then Some (Errorf ''verification custody fields are required'' []) else None),
        (let c = eo_Coverage opts in
         if \<not> packageTextPresent [pcv_Scope c, pcv_Disclosure c]
         then Some (Errorf ''evidence coverage fields are required'' []) else None),
        if eo_IssuedAt opts = zero_time then Some (Errorf ''issued-at time is required'' []) else None]"

section \<open>Processes\<close>

text \<open>
  How a command ran: the sizes of its two capture files at every tick of the watchdog and after its end (\<open>None\<close>
  where \<open>Stat\<close> fails), whether the deadline passed, what the files hold when they are read, and the exit
  status; a command that could not be run has an error instead. A process killed by a signal has the status \<open>-1\<close>,
  as \<open>ExitCode\<close> reports it.
\<close>

record process =
  pr_polls :: "int option list list"
  pr_final :: "int option list"
  pr_late :: bool
  pr_out :: string
  pr_err :: string
  pr_end :: "int res"

definition maxSubprocessStdout :: nat where "maxSubprocessStdout = 67108864"
definition maxSubprocessStderr :: nat where "maxSubprocessStderr = 4194304"

definition overLimit :: "int option list \<Rightarrow> bool" where
  "overLimit sizes =
     list_ex (\<lambda>(size, limit). case size of None \<Rightarrow> False | Some n \<Rightarrow> n > int limit)
       (zip sizes [maxSubprocessStdout, maxSubprocessStderr])"

fun watch :: "int option list list \<Rightarrow> bool" where
  "watch [] = False"
| "watch (sizes # ticks) = (if overLimit sizes then True else watch ticks)"

definition halt :: "bool \<Rightarrow> int option list \<Rightarrow> bool" where
  "halt over sizes = (if overLimit sizes then True else over)"

definition exceeded :: "process \<Rightarrow> bool" where
  "exceeded pr = halt (watch (pr_polls pr)) (pr_final pr)"

definition minute :: int where "minute = 60 * second"
definition defaultCommandTimeout :: int where "defaultCommandTimeout = 30 * minute"

definition command_timeout :: "int \<Rightarrow> int" where
  "command_timeout timeout = (if timeout \<le> 0 then defaultCommandTimeout else timeout)"

definition readCapturedFile :: "string \<Rightarrow> nat \<Rightarrow> string res" where
  "readCapturedFile raw limit =
     (let kept = take (limit + 1) raw in
      if length kept > limit then Inl (Errorf ''subprocess output grew past the accepted limit %d'' [D (int limit)])
      else Inr kept)"

text \<open>\<open>timeout\<close> is the effective one; its text in the message is kept in nanoseconds.\<close>

definition runChecker :: "process \<Rightarrow> string \<Rightarrow> string list \<Rightarrow> int \<Rightarrow> (string \<times> string \<times> int) res" where
  "runChecker pr checker args timeout =
     (if exceeded pr then
        Inl (Errorf ''command %s %v produced more output than the emitter accepts (stdout limit %d, stderr limit %d)''
          [S checker, L args, D (int maxSubprocessStdout), D (int maxSubprocessStderr)])
      else if pr_late pr then Inl (Errorf ''command %s %v did not finish within %s'' [S checker, L args, D timeout])
      else
        and_then (readCapturedFile (pr_out pr) maxSubprocessStdout) (\<lambda>out.
        and_then (readCapturedFile (pr_err pr) maxSubprocessStderr) (\<lambda>err.
          case pr_end pr of
            Inl e \<Rightarrow> Inl (Errorf ''run checker %v: %w'' [L args, E e])
          | Inr status \<Rightarrow> Inr (out, err, status))))"

section \<open>Steps\<close>

text \<open>
  What the emitter reads and runs outside the stage: \<open>ev_read n\<close> are the files as of step \<open>n\<close>, \<open>ev_link\<close> what a
  symlink in the stage leads to, \<open>ev_run\<close> the conformance command in its directory, \<open>ev_checker\<close> the copied
  executable in the replica, \<open>ev_sign\<close> the Ed25519 signature under a private key.
\<close>

record emit_env =
  ev_resolve :: resolve_env
  ev_out :: out_dir
  ev_end :: out_end
  ev_walk :: "string \<Rightarrow> (string \<times> walk_node) list"
  ev_read :: "nat \<Rightarrow> string \<Rightarrow> string res"
  ev_link :: "nat \<Rightarrow> string \<Rightarrow> string res"
  ev_other :: "nat \<Rightarrow> stage \<Rightarrow> stage"
  ev_getwd :: "string res"
  ev_run :: "string \<Rightarrow> string list \<Rightarrow> int \<Rightarrow> process"
  ev_checker :: "stage \<Rightarrow> string \<Rightarrow> string list \<Rightarrow> int \<Rightarrow> process"
  ev_sign :: "string \<Rightarrow> string \<Rightarrow> string"

record world =
  ew_stage :: stage
  ew_time :: nat

type_synonym 'a emit = "world \<Rightarrow> ('a \<times> world) res"

definition ret :: "'a \<Rightarrow> 'a emit" where
  "ret x w = Inr (x, w)"

definition emit_then :: "'a emit \<Rightarrow> ('a \<Rightarrow> 'b emit) \<Rightarrow> 'b emit" where
  "emit_then m k w = and_then (m w) (\<lambda>(x, w'). k x w')"

definition lift_res :: "'a res \<Rightarrow> 'a emit" where
  "lift_res r w = and_then r (\<lambda>x. Inr (x, w))"

definition require :: "msg option \<Rightarrow> unit emit" where
  "require e w = fail_if e (Inr ((), w))"

definition step :: "emit_env \<Rightarrow> (nat \<Rightarrow> stage \<Rightarrow> ('a \<times> stage) res) \<Rightarrow> 'a emit" where
  "step env f w =
     and_then (f (ew_time w) (ev_other env (ew_time w) (ew_stage w)))
       (\<lambda>(x, st). Inr (x, \<lparr>ew_stage = st, ew_time = Suc (ew_time w)\<rparr>))"

definition change :: "emit_env \<Rightarrow> (nat \<Rightarrow> stage \<Rightarrow> stage res) \<Rightarrow> unit emit" where
  "change env f = step env (\<lambda>n st. and_then (f n st) (\<lambda>st'. Inr ((), st')))"

definition inspect :: "emit_env \<Rightarrow> (nat \<Rightarrow> stage \<Rightarrow> 'a res) \<Rightarrow> 'a emit" where
  "inspect env f = step env (\<lambda>n st. and_then (f n st) (\<lambda>x. Inr (x, st)))"

definition wrap_res :: "(msg \<Rightarrow> msg) \<Rightarrow> 'a res \<Rightarrow> 'a res" where
  "wrap_res f r = (case r of Inl e \<Rightarrow> Inl (f e) | Inr x \<Rightarrow> Inr x)"

section \<open>Before the evaluation\<close>

definition checker_relative :: "EmitOptions \<Rightarrow> string" where
  "checker_relative opts = emitCheckerDir @ ''/'' @ eo_CheckerName opts"

text \<open>\<open>OperatorKey.Public()\<close>: the last 32 bytes of an Ed25519 private key.\<close>

definition operator_public :: "EmitOptions \<Rightarrow> string" where
  "operator_public opts = drop 32 (eo_OperatorKey opts)"

text \<open>The copies (a bare name can still be a dot or two, which \<open>filepath.Join\<close> cleans away), the published keys, and the snapshot of the inputs; returns the two fingerprints and the snapshot.\<close>

definition emit_inputs :: "crypto \<Rightarrow> emit_env \<Rightarrow> EmitOptions \<Rightarrow> (string \<times> string \<times> PackageBlob list) emit" where
  "emit_inputs cr env opts =
     emit_then (change env (\<lambda>n st. wrap_res (\<lambda>e. Errorf ''copy artifact: %w'' [E e])
       (copyTree emitArtifactDir (ev_walk env (eo_ArtifactDir opts)) st))) (\<lambda>_.
     emit_then (change env (\<lambda>n st. wrap_res (\<lambda>e. Errorf ''copy artifact keys: %w'' [E e])
       (copyTree emitKeysDir (ev_walk env (eo_ArtifactKeysDir opts)) st))) (\<lambda>_.
     emit_then (step env (\<lambda>n. writeEmitPublicKey cr (operator_public opts))) (\<lambda>operatorFingerprint.
     emit_then (step env (\<lambda>n. writeEmitPublicKey cr (eo_StatusPublicKey opts))) (\<lambda>statusFingerprint.
     emit_then (change env (\<lambda>n st. wrap_res (\<lambda>e. Errorf ''copy checker executable: %w'' [E e])
       (copyFile (ev_read env n (eo_CheckerPath opts)) (path_Clean (checker_relative opts)) st))) (\<lambda>_.
     emit_then (change env (\<lambda>n st. wrap_res (\<lambda>e. Errorf ''copy specification: %w'' [E e])
       (copyFile (ev_read env n (eo_SpecPath opts)) emitSpecPath st))) (\<lambda>_.
     emit_then (inspect env (\<lambda>n. packageFileBlobs cr)) (\<lambda>inputs.
       ret (operatorFingerprint, statusFingerprint, inputs))))))))"

section \<open>Conformance\<close>

definition diagnosis :: "string \<Rightarrow> string \<Rightarrow> string" where
  "diagnosis otherwise err = (if trim_space err = [] then otherwise else trim_space err)"

definition conformance_run :: "emit_env \<Rightarrow> EmitOptions \<Rightarrow> (int \<times> string) res" where
  "conformance_run env opts =
     and_then (if eo_ConformanceDir opts = []
       then wrap_res (\<lambda>e. Errorf ''resolve conformance directory: %w'' [E e]) (ev_getwd env) else Inr (eo_ConformanceDir opts))
       (\<lambda>directory.
     and_then (wrap_res (\<lambda>e. Errorf ''run conformance command %v: %w'' [L (eo_ConformanceCommand opts), E e])
       (runChecker (ev_run env directory (eo_ConformanceCommand opts) (command_timeout (eo_CommandTimeout opts)))
          (hd (eo_ConformanceCommand opts)) (tl (eo_ConformanceCommand opts)) (command_timeout (eo_CommandTimeout opts))))
       (\<lambda>(out, err, exitStatus).
     if length out = 0
     then Inl (Errorf ''conformance command exited %d and produced no result: %s''
       [D exitStatus, S (diagnosis ''no diagnostic output'' err)])
     else Inr (exitStatus, out)))"

definition put_result :: "(msg \<Rightarrow> msg) \<Rightarrow> string \<Rightarrow> string \<Rightarrow> stage \<Rightarrow> stage res" where
  "put_result f p raw st = and_then (mkdirs (parents p) st) (\<lambda>st. wrap_res f (WriteFile p raw st))"

definition runConformance :: "emit_env \<Rightarrow> EmitOptions \<Rightarrow> (int \<times> string) emit" where
  "runConformance env opts =
     emit_then (lift_res (conformance_run env opts)) (\<lambda>(exitStatus, result).
     emit_then (change env (\<lambda>n. put_result (\<lambda>e. Errorf ''write conformance result: %w'' [E e]) emitConformancePath result)) (\<lambda>_.
       ret (exitStatus, result)))"

section \<open>The evaluation in a replica\<close>

record emitEvaluation =
  ee_arguments :: "string list"
  ee_exitStatus :: int
  ee_machineOutput :: string
  ee_stderr :: string
  ee_inputs :: "PackageBlob list"
  ee_inputRoots :: "string list"

definition replicate_tree :: "emit_env \<Rightarrow> string \<Rightarrow> stage \<Rightarrow> stage emit" where
  "replicate_tree env relative replica =
     inspect env (\<lambda>n st. wrap_res (\<lambda>e. Errorf ''replicate %s: %w'' [S relative, E e])
       (copyTree relative (stage_walk st relative) replica))"

definition replicateForEvaluation :: "crypto \<Rightarrow> emit_env \<Rightarrow> string \<Rightarrow> (stage \<times> PackageBlob list) emit" where
  "replicateForEvaluation cr env checkerRelative =
     emit_then (replicate_tree env emitArtifactDir []) (\<lambda>replica.
     emit_then (replicate_tree env emitKeysDir replica) (\<lambda>replica.
     emit_then (inspect env (\<lambda>n st. wrap_res (\<lambda>e. Errorf ''replicate checker: %w'' [E e])
       (copyFile (stage_read (ev_link env n) st (path_Clean checkerRelative)) (path_Clean checkerRelative) replica))) (\<lambda>replica.
     emit_then (lift_res (wrap_res (\<lambda>e. Errorf ''index evaluation replica: %w'' [E e]) (packageFileBlobs cr replica))) (\<lambda>inputs.
       ret (replica, inputs)))))"

definition emit_arguments :: "string list" where
  "emit_arguments = [''--json'', ''--keys'', emitKeysDir, emitArtifactDir]"

definition runEmitEvaluationInReplica :: "crypto \<Rightarrow> emit_env \<Rightarrow> string \<Rightarrow> int \<Rightarrow> emitEvaluation emit" where
  "runEmitEvaluationInReplica cr env checkerRelative timeout =
     emit_then (replicateForEvaluation cr env checkerRelative) (\<lambda>(replica, inputs).
     emit_then (lift_res (runChecker (ev_checker env replica (''./'' @ checkerRelative) emit_arguments (command_timeout timeout))
       (''./'' @ checkerRelative) emit_arguments (command_timeout timeout))) (\<lambda>(out, err, exitStatus).
     ret \<lparr>ee_arguments = emit_arguments, ee_exitStatus = exitStatus, ee_machineOutput = out, ee_stderr = err,
       ee_inputs = inputs, ee_inputRoots = [emitArtifactDir, emitKeysDir, checkerRelative]\<rparr>))"

definition writeEvaluationResults :: "emit_env \<Rightarrow> emitEvaluation \<Rightarrow> unit emit" where
  "writeEvaluationResults env ev =
     emit_then (change env (\<lambda>n. put_result (\<lambda>e. Errorf ''write %s: %w'' [S emitMachineOutput, E e])
       emitMachineOutput (ee_machineOutput ev))) (\<lambda>_.
     change env (\<lambda>n. put_result (\<lambda>e. Errorf ''write %s: %w'' [S emitStderrPath, E e]) emitStderrPath (ee_stderr ev)))"

section \<open>Success\<close>

text \<open>What a successful step, sequence or check tells; the proofs about the emitter unfold it with these alone.\<close>

named_theorems emit_success "successful runs of the emitter"

lemma emit_then_Inr [emit_success]:
  "emit_then m k w = Inr (y, w'') \<longleftrightarrow> (\<exists>x w'. m w = Inr (x, w') \<and> k x w' = Inr (y, w''))"
  by (auto simp: emit_then_def and_then_Inr_iff)

lemma ret_Inr [emit_success]: "ret x w = Inr (y, w') \<longleftrightarrow> y = x \<and> w' = w"
  by (auto simp: ret_def)

lemma lift_res_Inr [emit_success]: "lift_res r w = Inr (x, w') \<longleftrightarrow> r = Inr x \<and> w' = w"
  by (auto simp: lift_res_def and_then_Inr_iff)

lemma require_Inr [emit_success]: "require e w = Inr (x, w') \<longleftrightarrow> e = None \<and> w' = w"
  by (auto simp: require_def fail_if_Inr_iff)

lemma wrap_res_Inr [emit_success]: "wrap_res f r = Inr x \<longleftrightarrow> r = Inr x"
  by (auto simp: wrap_res_def split: sum.splits)

definition seen :: "emit_env \<Rightarrow> world \<Rightarrow> stage" where
  "seen env w = ev_other env (ew_time w) (ew_stage w)"

definition after :: "world \<Rightarrow> stage \<Rightarrow> world" where
  "after w st = \<lparr>ew_stage = st, ew_time = Suc (ew_time w)\<rparr>"

lemma after_simps [simp]: "ew_stage (after w st) = st" "ew_time (after w st) = Suc (ew_time w)"
  by (simp_all add: after_def)

lemma step_Inr [emit_success]:
  "step env f w = Inr (x, w') \<longleftrightarrow> (\<exists>st. f (ew_time w) (seen env w) = Inr (x, st) \<and> w' = after w st)"
  by (auto simp: step_def seen_def after_def and_then_Inr_iff)

lemma change_Inr [emit_success]:
  "change env f w = Inr (x, w') \<longleftrightarrow> (\<exists>st. f (ew_time w) (seen env w) = Inr st \<and> w' = after w st)"
  by (auto simp: change_def step_Inr and_then_Inr_iff)

lemma inspect_Inr [emit_success]:
  "inspect env f w = Inr (x, w') \<longleftrightarrow> f (ew_time w) (seen env w) = Inr x \<and> w' = after w (seen env w)"
  by (auto simp: inspect_def step_Inr and_then_Inr_iff)

lemma readCapturedFile_Inr: "readCapturedFile raw limit = Inr out \<longleftrightarrow> length raw \<le> limit \<and> out = raw"
  by (auto simp: readCapturedFile_def Let_def)

text \<open>A command that is accepted ran to its end within its limits, and its whole output was captured.\<close>

lemma runChecker_Inr:
  "runChecker pr checker args timeout = Inr (out, err, status) \<longleftrightarrow>
     \<not> exceeded pr \<and> \<not> pr_late pr \<and> pr_end pr = Inr status \<and> out = pr_out pr \<and> err = pr_err pr
     \<and> length (pr_out pr) \<le> maxSubprocessStdout \<and> length (pr_err pr) \<le> maxSubprocessStderr"
  by (auto simp: runChecker_def and_then_Inr_iff readCapturedFile_Inr split: sum.splits)

end
