(* ===== verification/Go_Format.thy ===== *)
theory Go_Format
  imports Go_Time
begin

text \<open>
  \<open>t.UTC().Format(time.RFC3339)\<close>: the civil date of an instant and its text. \<open>parse_format\<close> reads the text back, for
  the years that RFC 3339 can write.
\<close>

section \<open>The date of a day\<close>

text \<open>Years in cycles of 400, 100, 4 and 1; the day within the year counts from 0.\<close>

definition civil_year :: "int \<Rightarrow> int \<times> int" where
  "civil_year n =
     (let d = n + 719162;
          d1 = d mod 146097; c = min 3 (d1 div 36524);
          d2 = d1 - 36524 * c; d3 = d2 mod 1461; e = min 3 (d3 div 365)
      in (400 * (d div 146097) + 100 * c + 4 * (d2 div 1461) + e + 1, d3 - 365 * e))"

function civil_month :: "int \<Rightarrow> int \<Rightarrow> int \<Rightarrow> int \<times> int" where
  "civil_month y m d = (if 12 \<le> m \<or> d < days_in m y then (m, d + 1) else civil_month y (m + 1) (d - days_in m y))"
  by pat_completeness auto
termination
  by (relation "measure (\<lambda>(y, m, d). nat (12 - m))") auto

declare civil_month.simps [simp del]

section \<open>The text\<close>

definition digit_char :: "int \<Rightarrow> char" where
  "digit_char n = chr (nat (48 + n))"

definition two_digits :: "int \<Rightarrow> string" where
  "two_digits n = [digit_char (n div 10), digit_char (n mod 10)]"

definition year_text :: "int \<Rightarrow> string" where
  "year_text y =
     (if 0 \<le> y \<and> y < 10000 then two_digits (y div 100) @ two_digits (y mod 100)
      else if y < 0 then (let s = show_nat (nat (- y)) in CHR ''-'' # replicate (4 - length s) (CHR ''0'') @ s)
      else show_nat (nat y))"

definition format_rfc3339 :: "instant \<Rightarrow> string" where
  "format_rfc3339 t =
     (let secs = t div second; days = secs div 86400; r = secs mod 86400;
          (y, yday) = civil_year days; (m, d) = civil_month y 1 yday
      in year_text y @ ''-'' @ two_digits m @ ''-'' @ two_digits d @ ''T'' @ two_digits (r div 3600) @ '':''
         @ two_digits (r div 60 mod 60) @ '':'' @ two_digits (r mod 60) @ ''Z'')"

section \<open>The date is the day's\<close>

lemma civil_year_days:
  assumes "civil_year n = (y, k)"
  shows "civil_days y 1 1 + k = n" "0 \<le> k" "k < 365 + (if is_leap y then 1 else 0)"
proof -
  define d where "d = n + 719162"
  define a where "a = d div 146097"
  define d1 where "d1 = d mod 146097"
  define c where "c = min 3 (d1 div 36524)"
  define d2 where "d2 = d1 - 36524 * c"
  define q where "q = d2 div 1461"
  define d3 where "d3 = d2 mod 1461"
  define e where "e = min 3 (d3 div 365)"
  have "civil_year n = (400 * a + 100 * c + 4 * q + e + 1, d3 - 365 * e)"
    unfolding civil_year_def Let_def d_def a_def d1_def c_def d2_def q_def d3_def e_def by (rule refl)
  then have y: "y = 400 * a + 100 * c + 4 * q + e + 1" "k = d3 - 365 * e" using assms by simp_all
  have b1: "0 \<le> d1" "d1 < 146097" "d = 146097 * a + d1" by (simp_all add: d1_def a_def)
  have b2: "0 \<le> c" "c \<le> 3" "0 \<le> d2" "d2 \<le> 36524" "c < 3 \<Longrightarrow> d2 < 36524"
    using b1(1,2) unfolding c_def d2_def by linarith+
  have b3: "0 \<le> d3" "d3 < 1461" "d2 = 1461 * q + d3" by (simp_all add: d3_def q_def)
  have b4: "0 \<le> q" "q \<le> 24" using b2(3,4) unfolding q_def by linarith+
  have b5: "0 \<le> e" "e \<le> 3" "0 \<le> k" "k \<le> 365" "e < 3 \<Longrightarrow> k < 365"
    using b3(1,2) unfolding e_def y(2) by linarith+
  let ?p = "y - 1"
  have p: "?p = 400 * a + 100 * c + 4 * q + e" using y(1) by simp
  have "?p div 4 = 100 * a + 25 * c + q" "?p div 100 = 4 * a + c" "?p div 400 = a"
    using p b2(1,2) b4 b5(1,2) by linarith+
  then have "365 * ?p + ?p div 4 - ?p div 100 + ?p div 400 = 146097 * a + 36524 * c + 1461 * q + 365 * e"
    using p by simp
  moreover have "d = 146097 * a + 36524 * c + 1461 * q + 365 * e + k"
    using b1(3) b3(3) y(2) unfolding d2_def by linarith
  ultimately show "civil_days y 1 1 + k = n"
    by (simp add: civil_days_def Let_def days_before_month_def d_def)
  show "0 \<le> k" by (rule b5)
  show "k < 365 + (if is_leap y then 1 else 0)"
  proof (cases "is_leap y \<or> k < 365")
    case False
    then have k: "k = 365" "e = 3" using b5 by force+
    have y': "y = 400 * a + 100 * c + 4 * (q + 1)" using y(1) k(2) by simp
    have "q \<noteq> 24 \<or> c = 3"
    proof (rule ccontr)
      assume "\<not> (q \<noteq> 24 \<or> c = 3)"
      then have "q = 24" "c < 3" using b2(2) by auto
      then have "d3 < 1460" using b2(5) b3(3) by simp
      then show False using y(2) k by simp
    qed
    moreover have "y = 4 * (100 * a + 25 * c + q + 1)" using y' by simp
    then have "y mod 4 = 0" by (metis mod_mult_self1_is_0)
    moreover have "y mod 100 \<noteq> 0" if "q \<noteq> 24"
    proof -
      have "y = 4 * (q + 1) + 100 * (4 * a + c)" using y' by simp
      then have "y mod 100 = 4 * (q + 1) mod 100" by (simp only: mod_mult_self2)
      also have "\<dots> = 4 * (q + 1)" using that b4 by (intro mod_pos_pos_trivial) auto
      finally show ?thesis using b4 by simp
    qed
    moreover have "y mod 400 = 0" if "q = 24" "c = 3" using y' that by simp
    ultimately have "is_leap y" unfolding is_leap_def by (cases "q = 24") auto
    then show ?thesis using False by simp
  qed (use b5 in auto)
qed

lemma days_before_Suc: "1 \<le> m \<Longrightarrow> days_before_month (m + 1) y = days_before_month m y + days_in m y"
  using upto_rec2 [of 1 m] by (simp add: days_before_month_def)

lemma civil_month_days:
  assumes "civil_month y m k = (m', d)" "1 \<le> m" "m \<le> 12" "0 \<le> k" "days_before_month m y + k < days_before_month 13 y"
  shows "m \<le> m' \<and> m' \<le> 12 \<and> 1 \<le> d \<and> d \<le> days_in m' y \<and> days_before_month m' y + (d - 1) = days_before_month m y + k"
  using assms
proof (induction y m k rule: civil_month.induct)
  case (1 y m k)
  show ?case
  proof (cases "12 \<le> m \<or> k < days_in m y")
    case True
    then have e: "m' = m" "d = k + 1" using "1.prems"(1) by (simp_all add: civil_month.simps [of y m k])
    have "k < days_in m y"
    proof (cases "12 \<le> m")
      case True
      then show ?thesis using "1.prems"(3,5) days_before_Suc [of 12 y] by simp
    qed (use True in simp)
    then show ?thesis using e "1.prems" by simp
  next
    case False
    then have "civil_month y (m + 1) (k - days_in m y) = (m', d)"
      using "1.prems"(1) by (simp add: civil_month.simps [of y m k])
    then show ?thesis
      using "1.IH" [OF False] "1.prems" False days_before_Suc [of m y] by auto
  qed
qed

lemma days_of_year: "days_before_month 13 y = 365 + (if is_leap y then 1 else 0)"
  by (simp add: days_before_month_def upto_rec1 days_in_def)

lemma civil_date:
  assumes "civil_year n = (y, k)" "civil_month y 1 k = (m, d)"
  shows "civil_days y m d = n" "1 \<le> m" "m \<le> 12" "1 \<le> d" "d \<le> days_in m y"
proof -
  have b: "days_before_month 1 y = 0" by (simp add: days_before_month_def)
  have "1 \<le> m \<and> m \<le> 12 \<and> 1 \<le> d \<and> d \<le> days_in m y \<and> days_before_month m y + (d - 1) = days_before_month 1 y + k"
    by (rule civil_month_days [OF assms(2)]) (use civil_year_days [OF assms(1)] days_of_year b in simp_all)
  moreover from this have "civil_days y m d = civil_days y 1 1 + k"
    by (simp add: civil_days_def Let_def b)
  ultimately show "civil_days y m d = n" "1 \<le> m" "m \<le> 12" "1 \<le> d" "d \<le> days_in m y"
    using civil_year_days(1) [OF assms(1)] by simp_all
qed

section \<open>The text is read back\<close>

lemma digit_char: "0 \<le> n \<Longrightarrow> n < 10 \<Longrightarrow> is_digit (digit_char n) \<and> digit (digit_char n) = n"
  by (auto simp: digit_char_def is_digit_def digit_def code_chr nat_le_iff)

lemma getnum_two: "0 \<le> n \<Longrightarrow> n < 100 \<Longrightarrow> getnum (two_digits n @ s) fixed = Some (n, s)"
  by (simp add: getnum_def two_digits_def digit_char)

lemma get_year_text: "0 \<le> y \<Longrightarrow> y < 10000 \<Longrightarrow> get_year (year_text y @ s) = Some (y, s)"
  by (simp add: get_year_def year_text_def two_digits_def digit_char)

lemma days_in_le: "days_in m y \<le> 31" by (simp add: days_in_def)

lemma div_next: "0 < n \<Longrightarrow> (p + 1) div n = p div n + (if (p + 1) mod n = 0 then 1 else 0)" for p n :: int
proof -
  assume n: "0 < n"
  have e: "p + 1 = n * (p div n) + (p mod n + 1)" by simp
  have b: "0 \<le> p mod n" "p mod n < n" using n by simp_all
  show ?thesis
  proof (cases "p mod n + 1 = n")
    case True
    then have "p + 1 = n * (p div n + 1)" using e by (simp add: distrib_left)
    then show ?thesis using n by (metis mod_mult_self1_is_0 nonzero_mult_div_cancel_left less_irrefl)
  next
    case False
    then have "(p + 1) div n = p div n" "(p + 1) mod n = p mod n + 1"
      using b e int_div_pos_eq [OF e] int_mod_pos_eq [OF e] by simp_all
    then show ?thesis using b by simp
  qed
qed

lemma div_pred: "0 < n \<Longrightarrow> y div n = (y - 1) div n + (if y mod n = 0 then 1 else 0)" for y n :: int
  using div_next [of n "y - 1"] by simp

lemma clock_parts:
  fixes r :: int
  assumes "0 \<le> r" "r < 86400"
  shows "r div 3600 < 24" "0 \<le> r div 3600" "r div 3600 * 3600 + r div 60 mod 60 * 60 + r mod 60 = r"
proof -
  define u where "u = r div 60"
  have h: "r div 3600 = u div 60" using zdiv_zmult2_eq [of 60 r 60] by (simp add: u_def)
  have e: "u * 60 + r mod 60 = r" "u div 60 * 60 + u mod 60 = u" unfolding u_def by (rule div_mult_mod_eq)+
  have b: "0 \<le> r mod 60" "0 \<le> u mod 60" by simp_all
  show "r div 3600 < 24" "0 \<le> r div 3600" using assms by linarith+
  show "r div 3600 * 3600 + r div 60 mod 60 * 60 + r mod 60 = r"
    unfolding h u_def [symmetric] using e by linarith
qed

lemma leap_count:
  "(c \<Longrightarrow> b) \<Longrightarrow> (b \<Longrightarrow> a) \<Longrightarrow>
    (if a \<and> (\<not> b \<or> c) then 1 else 0) = (if a then 1 else 0) - (if b then 1 else 0) + (if c then 1 else (0 :: int))"
  by (cases a; cases b; cases c) simp_all

lemma add_years:
  fixes a b c i j k l y n :: int
  assumes "a' = a + i" "b' = b + j" "c' = c + k" "l = i - j + k"
  shows "365 * y + a' - b' + c' - n = 365 * (y - 1) + a - b + c - n + 365 + l"
  using assms by simp

lemma civil_days_first: "civil_days y 1 1 = 365 * (y - 1) + (y - 1) div 4 - (y - 1) div 100 + (y - 1) div 400 - 719162"
  by (simp add: civil_days_def Let_def days_before_month_def)

lemma civil_days_next: "civil_days (y + 1) 1 1 = civil_days y 1 1 + 365 + (if is_leap y then 1 else 0)"
proof -
  have "y div 4 = (y - 1) div 4 + (if y mod 4 = 0 then 1 else 0)"
    "y div 100 = (y - 1) div 100 + (if y mod 100 = 0 then 1 else 0)"
    "y div 400 = (y - 1) div 400 + (if y mod 400 = 0 then 1 else 0)"
    by (rule div_pred, simp)+
  moreover have "(if is_leap y then 1 else 0) = (if y mod 4 = 0 then 1 else 0) - (if y mod 100 = 0 then 1 else 0)
      + (if y mod 400 = 0 then 1 else (0 :: int))"
    unfolding is_leap_def
  proof (rule leap_count)
    show "y mod 100 = 0" if "y mod 400 = 0" using that dvd_trans [of 100 400 y] by (simp add: mod_eq_0_iff_dvd)
    show "y mod 4 = 0" if "y mod 100 = 0" using that dvd_trans [of 4 100 y] by (simp add: mod_eq_0_iff_dvd)
  qed
  ultimately show ?thesis
    unfolding civil_days_first [of y] civil_days_first [of "y + 1"] add_diff_cancel_right' by (rule add_years)
qed

lemma civil_days_mono: "y \<le> z \<Longrightarrow> civil_days y 1 1 \<le> civil_days z 1 1"
proof (induction z rule: int_ge_induct)
  case (step z)
  then show ?case using civil_days_next [of z] by simp
qed simp

lemma civil_year_range:
  assumes "civil_year n = (y, k)" "civil_days 0 1 1 \<le> n" "n < civil_days 10000 1 1"
  shows "0 \<le> y" "y < 10000"
proof -
  note len = civil_days_next [of y]
  have k: "civil_days y 1 1 + k = n" "0 \<le> k" "k < 365 + (if is_leap y then 1 else 0)"
    using civil_year_days [OF assms(1)] by simp_all
  show "0 \<le> y"
  proof (rule ccontr)
    assume "\<not> 0 \<le> y"
    then have "civil_days (y + 1) 1 1 \<le> civil_days 0 1 1" by (intro civil_days_mono) simp
    then show False using len k assms(2) by simp
  qed
  show "y < 10000"
  proof (rule ccontr)
    assume "\<not> y < 10000"
    then have "civil_days 10000 1 1 \<le> civil_days y 1 1" by (intro civil_days_mono) simp
    then show False using k assms(3) by simp
  qed
qed

lemma get_fraction_Z: "get_fraction ''Z'' = (0, ''Z'')" "get_zone ''Z'' = Some (0, [])"
  by (simp_all add: get_fraction_def get_zone_def)

lemma parse_fields:
  assumes "0 \<le> y" "y < 10000" "1 \<le> m" "m \<le> 12" "1 \<le> d" "d \<le> days_in m y"
    and "0 \<le> h" "h < 24" "0 \<le> mi" "mi < 60" "0 \<le> se" "se < 60"
  shows "parse_rfc3339 (year_text y @ ''-'' @ two_digits m @ ''-'' @ two_digits d @ ''T'' @ two_digits h @ '':''
      @ two_digits mi @ '':'' @ two_digits se @ ''Z'')
    = Some ((civil_days y m d * 86400 + h * 3600 + mi * 60 + se) * 1000000000)"
  using assms days_in_le [of m y]
  by (simp add: parse_rfc3339_def get_year_text getnum_two skip_def get_fraction_Z not_less)

lemma parse_format:
  assumes "civil_days 0 1 1 \<le> t div second div 86400" "t div second div 86400 < civil_days 10000 1 1"
  shows "parse_rfc3339 (format_rfc3339 t) = Some (t div second * second)"
proof -
  define secs where "secs = t div second"
  obtain y k where y: "civil_year (secs div 86400) = (y, k)" by fastforce
  obtain m d where m: "civil_month y 1 k = (m, d)" by fastforce
  have date: "civil_days y m d = secs div 86400" "1 \<le> m" "m \<le> 12" "1 \<le> d" "d \<le> days_in m y"
    using civil_date [OF y m] by simp_all
  have range: "0 \<le> y" "y < 10000" using civil_year_range [OF y] assms by (simp_all add: secs_def)
  let ?r = "secs mod 86400"
  have r: "0 \<le> ?r" "?r < 86400" by simp_all
  note parts = clock_parts [OF r]
  have written: "format_rfc3339 t = year_text y @ ''-'' @ two_digits m @ ''-'' @ two_digits d @ ''T'' @ two_digits (?r div 3600)
      @ '':'' @ two_digits (?r div 60 mod 60) @ '':'' @ two_digits (?r mod 60) @ ''Z''"
    using y m by (simp add: format_rfc3339_def secs_def Let_def)
  have total: "civil_days y m d * 86400 + ?r div 3600 * 3600 + ?r div 60 mod 60 * 60 + ?r mod 60 = secs"
    using parts(3) date(1) div_mult_mod_eq [of secs 86400] by linarith
  have "parse_rfc3339 (format_rfc3339 t)
      = Some ((civil_days y m d * 86400 + ?r div 3600 * 3600 + ?r div 60 mod 60 * 60 + ?r mod 60) * 1000000000)"
    unfolding written by (rule parse_fields) (use range date(2-5) parts(1,2) in simp_all)
  then show ?thesis unfolding total by (simp add: secs_def second_def)
qed

end
