(* ===== verification/Emit.thy ===== *)
theory Emit
  imports Emit_Run Go_Marshal Go_Format
begin

text \<open>
  \<open>checker/internal/ael/emit.go\<close>, the manifest and \<open>EmitEvaluationPackage\<close>.
\<close>

section \<open>The document of a manifest\<close>

text \<open>The members in the order of the structs; a member marked \<open>omitempty\<close> is left out when it is empty.\<close>

definition member_unless_empty :: "string \<Rightarrow> string \<Rightarrow> (string \<times> cvalue) list" where
  "member_unless_empty n s = (if s = [] then [] else [(n, CStr s)])"

definition doc_blob :: "PackageBlob \<Rightarrow> cvalue" where
  "doc_blob b = CObj ([(''path'', CStr (bl_Path b)), (''size'', CInt (bl_Size b)),
     (''digest_algorithm'', CStr (bl_DigestAlgorithm b)), (''digest'', CStr (bl_Digest b))]
     @ member_unless_empty ''url'' (bl_URL b))"

definition doc_signer :: "PackageSigner \<Rightarrow> cvalue" where
  "doc_signer s = CObj [(''id'', CStr (sg_ID s)), (''key'', CStr (sg_Key s))]"

definition doc_verifier :: "PackageVerifier \<Rightarrow> cvalue" where
  "doc_verifier v = CObj [(''id'', CStr (pv_ID v)), (''key'', CStr (pv_Key v)),
     (''relationship_to_producer'', CStr (pv_RelationshipToProducer v)),
     (''relationship_to_operator'', CStr (pv_RelationshipToOperator v))]"

definition doc_custody :: "PackageCustody \<Rightarrow> cvalue" where
  "doc_custody c = CObj [(''acquisition'', CStr (pc_Acquisition c)), (''replay'', CStr (pc_Replay c)),
     (''review'', CStr (pc_Review c)), (''issuance'', CStr (pc_Issuance c))]"

definition doc_coverage :: "PackageCoverage \<Rightarrow> cvalue" where
  "doc_coverage c = CObj [(''scope'', CStr (pcv_Scope c)), (''disclosure'', CStr (pcv_Disclosure c))]"

definition doc_binding :: "PackageBinding \<Rightarrow> cvalue" where
  "doc_binding b = CObj [(''root'', CStr (bd_Root b)), (''keys_dir'', CStr (bd_KeysDir b)),
     (''manifest'', doc_blob (bd_Manifest b)), (''discovered_runs'', doc_strings (bd_DiscoveredRuns b))]"

definition doc_sum :: "PackageVersionedSum \<Rightarrow> cvalue" where
  "doc_sum v = CObj [(''version'', CStr (vs_Version v)), (''digest_algorithm'', CStr (vs_DigestAlgorithm v)),
     (''digest'', CStr (vs_Digest v))]"

definition doc_checker :: "PackageChecker \<Rightarrow> cvalue" where
  "doc_checker c = CObj [(''name'', CStr (ck_Name c)), (''source_revision'', CStr (ck_SourceRevision c)),
     (''executable'', doc_blob (ck_Executable c))]"

definition doc_evaluation :: "PackageEvaluation \<Rightarrow> cvalue" where
  "doc_evaluation e = CObj [(''arguments'', doc_strings (pe_Arguments e)), (''exit_status'', CInt (pe_ExitStatus e)),
     (''machine_output'', doc_blob (pe_MachineOutput e)), (''stdout'', doc_blob (pe_Stdout e)),
     (''stderr'', doc_blob (pe_Stderr e))]"

definition doc_conformance :: "PackageConformance \<Rightarrow> cvalue" where
  "doc_conformance c = CObj [(''corpus'', doc_sum (cf_Corpus c)), (''command'', doc_strings (cf_Command c)),
     (''exit_status'', CInt (cf_ExitStatus c)), (''result'', doc_blob (cf_Result c))]"

text \<open>The keys of a Go map are written in their order as bytes.\<close>

definition doc_grade :: "PackageGrade \<Rightarrow> cvalue" where
  "doc_grade g =
     (let a = pg_Annotations g in
      CObj [(''run'', CStr (pg_Run g)), (''line'', CStr (pg_Line g)),
        (''annotations'', CObj [(''coverage'', CStr (ga_Coverage a)), (''custody'', CStr (ga_Custody a)),
           (''anchor'', CStr (ga_Anchor a)), (''retention'', CStr (ga_Retention a))]),
        (''outcomes'', CObj (map (\<lambda>(k, s). (k, CStr s)) (sort_key fst (pg_Outcomes g))))])"

definition doc_authority :: "PackageStatusAuthority \<Rightarrow> cvalue" where
  "doc_authority a = CObj ([(''id'', CStr (sa_ID a)), (''key'', CStr (sa_Key a)), (''record_id'', CStr (sa_RecordID a))]
     @ member_unless_empty ''url'' (sa_URL a))"

definition doc_manifest :: "PackageManifest \<Rightarrow> cvalue" where
  "doc_manifest m = CObj
     ([(''kind'', CStr (pm_Kind m)), (''package_format'', CInt (pm_PackageFormat m)), (''id'', CStr (pm_ID m)),
       (''run'', CStr (pm_Run m)), (''producer'', CObj [(''id'', CStr (pm_Producer m))]),
       (''operator'', doc_signer (pm_Operator m))]
      @ (case pm_Verifier m of None \<Rightarrow> [] | Some v \<Rightarrow> [(''verifier'', doc_verifier v)])
      @ [(''verification_custody'', doc_custody (pm_VerificationCustody m)),
         (''evidence_coverage'', doc_coverage (pm_EvidenceCoverage m)),
         (''artifact_binding'', doc_binding (pm_ArtifactBinding m)),
         (''files'', CArr (map doc_blob (pm_Files m))),
         (''verification_inputs'', CArr (map doc_blob (pm_VerificationInputs m))),
         (''spec'', doc_sum (pm_Spec m)), (''checker'', doc_checker (pm_Checker m)),
         (''artifact_evaluation'', doc_evaluation (pm_ArtifactEvaluation m)),
         (''conformance'', doc_conformance (pm_Conformance m))]
      @ (if pm_Grades m = [] then [] else [(''grades'', CArr (map doc_grade (pm_Grades m)))])
      @ [(''issued_at'', CStr (pm_IssuedAt m))]
      @ member_unless_empty ''expires_at'' (pm_ExpiresAt m)
      @ [(''status_authority'', doc_authority (pm_StatusAuthority m))])"

definition writeSignedManifest :: "crypto \<Rightarrow> emit_env \<Rightarrow> PackageManifest \<Rightarrow> string \<Rightarrow> unit emit" where
  "writeSignedManifest cr env m signer =
     emit_then (lift_res (wrap_res (\<lambda>e. Errorf ''canonicalize manifest: %w'' [E e])
       (Canonicalize (json_Marshal (doc_manifest m))))) (\<lambda>canonical.
     emit_then (change env (\<lambda>n st. wrap_res (\<lambda>e. Errorf ''write manifest: %w'' [E e])
       (WriteFile packageManifestName canonical st))) (\<lambda>_.
     change env (\<lambda>n st. wrap_res (\<lambda>e. Errorf ''write manifest signature: %w'' [E e])
       (WriteFile packageSignatureName (std_encode (ev_sign env signer canonical) @ [CHR 0x0A]) st))))"

section \<open>The report of the checker\<close>

text \<open>\<open>json.Unmarshal\<close> into a \<open>Report\<close>. The grade of a result has no field name: the member is ignored.\<close>

definition dec_ReportRun :: "json \<Rightarrow> packageMachineRun \<Rightarrow> packageMachineRun decoded" where
  "dec_ReportRun = dec_struct machine_field
     [''run'', ''r'', ''checks'', ''coverage'', ''custody'', ''anchor'', ''retention'', ''open'', ''open_status'', ''notes'']"

definition dec_Report :: "json \<Rightarrow> packageMachineRun list \<Rightarrow> packageMachineRun list decoded" where
  "dec_Report = dec_struct (\<lambda>n j rs. dec_slice dec_ReportRun zero_MachineRun j rs) [''runs'']"

definition discovered_runs :: "packageMachineRun list \<Rightarrow> string list" where
  "discovered_runs rs = sort (filter (\<lambda>run. run \<noteq> []) (map mrun_Run rs))"

definition select_run :: "EmitOptions \<Rightarrow> emitEvaluation \<Rightarrow> (string list \<times> string) res" where
  "select_run opts ev =
     (case unmarshal dec_Report (ee_machineOutput ev) [] of
        (_, Some _) \<Rightarrow>
          Inl (Errorf ''checker exited %d without a usable report: %s''
            [D (ee_exitStatus ev), S (diagnosis ''checker produced no diagnostic output'' (ee_stderr ev))])
      | (rs, None) \<Rightarrow>
          (let discovered = discovered_runs rs in
           if discovered = [] then Inl (Errorf ''checker reported no runs; nothing to package'' [])
           else if eo_Run opts = [] then Inr (discovered, hd discovered)
           else if eo_Run opts \<in> set discovered then Inr (discovered, eo_Run opts)
           else Inl (Errorf ''requested run %q is not among discovered runs %v'' [Q (eo_Run opts), L discovered])))"

section \<open>The bindings\<close>

definition bind_files :: "crypto \<Rightarrow> PackageBlob list \<Rightarrow> PackageBlob list \<Rightarrow> string \<Rightarrow> emitEvaluation \<Rightarrow> msg option" where
  "bind_files cr bs inputs result ev =
     first_err
       [assertPackageInputBlobsMatch bs inputs [emitConformancePath, emitMachineOutput, emitStderrPath],
        assertCapturedPackageBlob cr bs emitConformancePath result,
        assertCapturedPackageBlob cr bs emitMachineOutput (ee_machineOutput ev),
        assertCapturedPackageBlob cr bs emitStderrPath (ee_stderr ev),
        assertEvaluatedInputsMatch bs (ee_inputs ev) (ee_inputRoots ev)]"

definition blob_named :: "PackageBlob list \<Rightarrow> string \<Rightarrow> PackageBlob res" where
  "blob_named bs name =
     (case alookup (fold (\<lambda>b m. aput (bl_Path b) b m) bs []) name of
        Some b \<Rightarrow> Inr b | None \<Rightarrow> Inl (Errorf ''expected package file %q is absent'' [Q name]))"

definition verification_inputs :: "PackageBlob list \<Rightarrow> PackageBlob list" where
  "verification_inputs bs = filter (\<lambda>b. under emitKeysDir (bl_Path b) \<or> under emitPackageKeysDir (bl_Path b)) bs"

text \<open>What the manifest takes from the run, beside the options.\<close>

record emit_facts =
  ef_operator :: string
  ef_status :: string
  ef_spec :: string
  ef_corpus :: string
  ef_discovered :: "string list"
  ef_run :: string
  ef_evaluation :: emitEvaluation
  ef_conformance :: int
  ef_files :: "PackageBlob list"

definition emit_manifest :: "EmitOptions \<Rightarrow> emit_facts \<Rightarrow> PackageManifest res" where
  "emit_manifest opts ef =
     (let bs = ef_files ef; ev = ef_evaluation ef in
      and_then (blob_named bs (emitArtifactDir @ ''/'' @ packageManifestName)) (\<lambda>artifactManifest.
      and_then (blob_named bs (checker_relative opts)) (\<lambda>executable.
      and_then (blob_named bs emitMachineOutput) (\<lambda>machineOutput.
      and_then (blob_named bs emitStderrPath) (\<lambda>stderr.
      and_then (blob_named bs emitConformancePath) (\<lambda>conformanceResult.
      Inr \<lparr>pm_Kind = ''evaluation-package'', pm_PackageFormat = 1, pm_ID = eo_PackageID opts, pm_Run = ef_run ef,
        pm_Producer = eo_ProducerID opts, pm_Operator = \<lparr>sg_ID = eo_OperatorID opts, sg_Key = ef_operator ef\<rparr>,
        pm_Verifier = None, pm_VerificationCustody = eo_Custody opts, pm_EvidenceCoverage = eo_Coverage opts,
        pm_ArtifactBinding = \<lparr>bd_Root = emitArtifactDir, bd_KeysDir = emitKeysDir, bd_Manifest = artifactManifest,
          bd_DiscoveredRuns = ef_discovered ef\<rparr>,
        pm_Files = bs, pm_VerificationInputs = verification_inputs bs,
        pm_Spec = \<lparr>vs_Version = eo_SpecVersion opts, vs_DigestAlgorithm = ''sha-256'', vs_Digest = ef_spec ef\<rparr>,
        pm_Checker = \<lparr>ck_Name = eo_CheckerName opts, ck_SourceRevision = eo_SourceRevision opts, ck_Executable = executable\<rparr>,
        pm_ArtifactEvaluation = \<lparr>pe_Arguments = ee_arguments ev, pe_ExitStatus = ee_exitStatus ev,
          pe_MachineOutput = machineOutput, pe_Stdout = machineOutput, pe_Stderr = stderr\<rparr>,
        pm_Conformance = \<lparr>cf_Corpus = \<lparr>vs_Version = eo_CorpusVersion opts, vs_DigestAlgorithm = ''sha-256'',
            vs_Digest = ef_corpus ef\<rparr>,
          cf_Command = eo_ConformanceCommand opts, cf_ExitStatus = ef_conformance ef, cf_Result = conformanceResult\<rparr>,
        pm_Grades = [], pm_IssuedAt = format_rfc3339 (eo_IssuedAt opts), pm_ExpiresAt = [],
        pm_StatusAuthority = \<lparr>sa_ID = eo_StatusAuthorityID opts, sa_Key = ef_status ef, sa_RecordID = eo_PackageID opts,
          sa_URL = []\<rparr>\<rparr>))))))"

section \<open>The emission\<close>

record EmitResult =
  er_PackageDir :: string
  er_PackageID :: string
  er_Run :: string
  er_DiscoveredRuns :: "string list"
  er_ExitStatus :: int
  er_ConformanceExitStatus :: int

text \<open>From the empty staging directory to the manifest, in the code's order.\<close>

definition emit_run :: "crypto \<Rightarrow> emit_env \<Rightarrow> EmitOptions \<Rightarrow> (PackageManifest \<times> emit_facts) emit" where
  "emit_run cr env opts =
     emit_then (emit_inputs cr env opts) (\<lambda>(operatorFingerprint, statusFingerprint, inputs).
     emit_then (runConformance env opts) (\<lambda>(conformanceExit, result).
     emit_then (inspect env (\<lambda>n st. wrap_res (\<lambda>e. Errorf ''digest corpus: %w'' [E e])
       (fileDigest cr (ev_read env n (eo_CorpusDigestPath opts))))) (\<lambda>corpusDigest.
     emit_then (runEmitEvaluationInReplica cr env (checker_relative opts) (eo_CommandTimeout opts)) (\<lambda>ev.
     emit_then (writeEvaluationResults env ev) (\<lambda>_.
     emit_then (lift_res (select_run opts ev)) (\<lambda>(discovered, run).
     emit_then (inspect env (\<lambda>n st. wrap_res (\<lambda>e. Errorf ''digest specification: %w'' [E e])
       (fileDigest cr (stage_read (ev_link env n) st emitSpecPath)))) (\<lambda>specDigest.
     emit_then (inspect env (\<lambda>n. packageFileBlobs cr)) (\<lambda>bs.
     emit_then (require (bind_files cr bs inputs result ev)) (\<lambda>_.
     (let ef = \<lparr>ef_operator = operatorFingerprint, ef_status = statusFingerprint, ef_spec = specDigest,
        ef_corpus = corpusDigest, ef_discovered = discovered, ef_run = run, ef_evaluation = ev,
        ef_conformance = conformanceExit, ef_files = bs\<rparr> in
      emit_then (lift_res (emit_manifest opts ef)) (\<lambda>m. ret (m, ef))))))))))))"

definition emit_stage :: "crypto \<Rightarrow> emit_env \<Rightarrow> EmitOptions \<Rightarrow> (PackageManifest \<times> emit_facts) emit" where
  "emit_stage cr env opts =
     emit_then (emit_run cr env opts) (\<lambda>(m, ef).
     emit_then (writeSignedManifest cr env m (eo_OperatorKey opts)) (\<lambda>_. ret (m, ef)))"

text \<open>\<open>EmitEvaluationPackage\<close>: the result and the package that is published, with what the manifest was made from. A
  failure removes the staging directory and publishes nothing.\<close>

definition emit_package :: "crypto \<Rightarrow> emit_env \<Rightarrow> EmitOptions \<Rightarrow> (EmitResult \<times> stage \<times> PackageManifest \<times> emit_facts) res" where
  "emit_package cr env options =
     (let opts = options\<lparr>eo_OutDir := path_Clean (eo_OutDir options)\<rparr> in
      fail_if (first_err
        [validateEmitOptions options,
         validateEmitPaths (ev_resolve env) (eo_OutDir opts) (eo_ArtifactDir opts) (eo_ArtifactKeysDir opts),
         createEmitStagingDir (ev_out env) (eo_OutDir opts)])
      (and_then (emit_stage cr env opts \<lparr>ew_stage = [], ew_time = 0\<rparr>) (\<lambda>((m, ef), w).
        fail_if (publishEmitPackage (ev_end env) (eo_OutDir opts))
          (Inr (\<lparr>er_PackageDir = eo_OutDir opts, er_PackageID = eo_PackageID opts, er_Run = ef_run ef,
              er_DiscoveredRuns = ef_discovered ef, er_ExitStatus = ee_exitStatus (ef_evaluation ef),
              er_ConformanceExitStatus = ef_conformance ef\<rparr>,
            ev_other env (ew_time w) (ew_stage w), m, ef)))))"

definition EmitEvaluationPackage :: "crypto \<Rightarrow> emit_env \<Rightarrow> EmitOptions \<Rightarrow> (EmitResult \<times> stage) res" where
  "EmitEvaluationPackage cr env options =
     and_then (emit_package cr env options) (\<lambda>(result, published, _, _). Inr (result, published))"

end
