(* ===== verification/Package_Codec.thy ===== *)
theory Package_Codec
  imports Emit
begin

text \<open>
  A package manifest written by \<open>json.Marshal\<close> and canonicalized is read back by \<open>json.Unmarshal\<close>, part by part: each
  part of the manifest has a decoder that reads what its encoder wrote.
\<close>

section \<open>Reading documents\<close>

definition json_doc :: "cvalue \<Rightarrow> json" where
  "json_doc v = json_of (sortv v)"

lemma json_doc_simps [simp]:
  "json_doc (CStr s) = JStr s"
  "json_doc (CInt n) = JNum (show_int n)"
  "json_doc (CArr vs) = JArr (map json_doc vs)"
  by (simp_all add: json_doc_def comp_def)

text \<open>The members of each part, in the order of their names.\<close>

lemma json_doc_parts [simp]:
  "json_doc (CObj [(''id'', a)]) = JObj [(''id'', json_doc a)]"
  "json_doc (CObj [(''id'', a), (''key'', b)]) = JObj [(''id'', json_doc a), (''key'', json_doc b)]"
  "json_doc (CObj [(''path'', a), (''size'', b), (''digest_algorithm'', c), (''digest'', d)])
     = JObj [(''digest'', json_doc d), (''digest_algorithm'', json_doc c), (''path'', json_doc a), (''size'', json_doc b)]"
  "json_doc (CObj [(''path'', a), (''size'', b), (''digest_algorithm'', c), (''digest'', d), (''url'', e)])
     = JObj [(''digest'', json_doc d), (''digest_algorithm'', json_doc c), (''path'', json_doc a), (''size'', json_doc b),
         (''url'', json_doc e)]"
  "json_doc (CObj [(''acquisition'', a), (''replay'', b), (''review'', c), (''issuance'', d)])
     = JObj [(''acquisition'', json_doc a), (''issuance'', json_doc d), (''replay'', json_doc b), (''review'', json_doc c)]"
  "json_doc (CObj [(''scope'', a), (''disclosure'', b)]) = JObj [(''disclosure'', json_doc b), (''scope'', json_doc a)]"
  "json_doc (CObj [(''root'', a), (''keys_dir'', b), (''manifest'', c), (''discovered_runs'', d)])
     = JObj [(''discovered_runs'', json_doc d), (''keys_dir'', json_doc b), (''manifest'', json_doc c), (''root'', json_doc a)]"
  "json_doc (CObj [(''version'', a), (''digest_algorithm'', b), (''digest'', c)])
     = JObj [(''digest'', json_doc c), (''digest_algorithm'', json_doc b), (''version'', json_doc a)]"
  "json_doc (CObj [(''name'', a), (''source_revision'', b), (''executable'', c)])
     = JObj [(''executable'', json_doc c), (''name'', json_doc a), (''source_revision'', json_doc b)]"
  "json_doc (CObj [(''arguments'', a), (''exit_status'', b), (''machine_output'', c), (''stdout'', d), (''stderr'', e)])
     = JObj [(''arguments'', json_doc a), (''exit_status'', json_doc b), (''machine_output'', json_doc c), (''stderr'', json_doc e),
         (''stdout'', json_doc d)]"
  "json_doc (CObj [(''corpus'', a), (''command'', b), (''exit_status'', c), (''result'', d)])
     = JObj [(''command'', json_doc b), (''corpus'', json_doc a), (''exit_status'', json_doc c), (''result'', json_doc d)]"
  "json_doc (CObj [(''id'', a), (''key'', b), (''record_id'', c)])
     = JObj [(''id'', json_doc a), (''key'', json_doc b), (''record_id'', json_doc c)]"
  "json_doc (CObj [(''id'', a), (''key'', b), (''record_id'', c), (''url'', d)])
     = JObj [(''id'', json_doc a), (''key'', json_doc b), (''record_id'', json_doc c), (''url'', json_doc d)]"
  unfolding json_doc_def by code_simp+

definition manifest_members ::
  "'a \<Rightarrow> 'a \<Rightarrow> 'a \<Rightarrow> 'a \<Rightarrow> 'a \<Rightarrow> 'a \<Rightarrow> 'a \<Rightarrow> 'a \<Rightarrow> 'a \<Rightarrow> 'a \<Rightarrow> 'a \<Rightarrow> 'a \<Rightarrow> 'a \<Rightarrow> 'a \<Rightarrow> 'a \<Rightarrow> 'a \<Rightarrow> 'a list \<Rightarrow> 'a \<Rightarrow> (string \<times> 'a) list"
where
  "manifest_members v_kind v_fmt v_ident v_run v_producer v_operator v_custody v_coverage v_binding v_fs v_inputs v_spec v_checker v_evaluation
     v_conformance v_issued v_expires v_authority =
     [(''artifact_binding'', v_binding), (''artifact_evaluation'', v_evaluation), (''checker'', v_checker),
      (''conformance'', v_conformance), (''evidence_coverage'', v_coverage)]
     @ map (Pair ''expires_at'') v_expires
     @ [(''files'', v_fs), (''id'', v_ident), (''issued_at'', v_issued), (''kind'', v_kind), (''operator'', v_operator),
      (''package_format'', v_fmt), (''producer'', v_producer), (''run'', v_run), (''spec'', v_spec), (''status_authority'', v_authority),
      (''verification_custody'', v_custody), (''verification_inputs'', v_inputs)]"

lemma json_doc_manifest:
  "json_doc (CObj ([(''kind'', a), (''package_format'', b), (''id'', c), (''run'', d), (''producer'', e), (''operator'', f),
      (''verification_custody'', g), (''evidence_coverage'', h), (''artifact_binding'', i), (''files'', j),
      (''verification_inputs'', k), (''spec'', l), (''checker'', m), (''artifact_evaluation'', n), (''conformance'', p),
      (''issued_at'', q), (''status_authority'', r)]))
   = JObj (manifest_members (json_doc a) (json_doc b) (json_doc c) (json_doc d) (json_doc e) (json_doc f) (json_doc g) (json_doc h)
      (json_doc i) (json_doc j) (json_doc k) (json_doc l) (json_doc m) (json_doc n) (json_doc p) (json_doc q) [] (json_doc r))"
  "json_doc (CObj ([(''kind'', a), (''package_format'', b), (''id'', c), (''run'', d), (''producer'', e), (''operator'', f),
      (''verification_custody'', g), (''evidence_coverage'', h), (''artifact_binding'', i), (''files'', j),
      (''verification_inputs'', k), (''spec'', l), (''checker'', m), (''artifact_evaluation'', n), (''conformance'', p),
      (''issued_at'', q), (''expires_at'', s), (''status_authority'', r)]))
   = JObj (manifest_members (json_doc a) (json_doc b) (json_doc c) (json_doc d) (json_doc e) (json_doc f) (json_doc g) (json_doc h)
      (json_doc i) (json_doc j) (json_doc k) (json_doc l) (json_doc m) (json_doc n) (json_doc p) (json_doc q) [json_doc s]
      (json_doc r))"
  unfolding json_doc_def manifest_members_def by code_simp+

lemma dec_int_doc: "good (CInt n) \<Longrightarrow> dec_int (JNum (show_int n)) old = (n, None)"
  by (simp add: dec_int_def parse_int64_show in64_def maxSafeInteger_def)

section \<open>Encoders and decoders\<close>

text \<open>A part of the manifest: the decoder, started at the zero value, reads what the encoder wrote.\<close>

locale codec =
  fixes enc :: "'a \<Rightarrow> cvalue" and dec :: "json \<Rightarrow> 'a \<Rightarrow> 'a decoded" and zero :: 'a
  assumes decodes: "good (enc x) \<Longrightarrow> dec (json_doc (enc x)) zero = (x, None)"
    and flat: "shallow 3 (enc x)"
begin

lemma decode_items: "list_all (\<lambda>x. good (enc x)) xs \<Longrightarrow> dec_items dec zero (map (\<lambda>x. json_doc (enc x)) xs) [] = (xs, None)"
  by (induction xs) (auto simp: decodes)

lemma decode_slice: "list_all (\<lambda>x. good (enc x)) xs \<Longrightarrow> dec_slice dec zero (json_doc (CArr (map enc xs))) [] = (xs, None)"
  by (simp add: dec_slice_def decode_items comp_def)

lemma flat_deep: "shallow 4 (enc x)"
  using shallow_mono [OF flat] by simp

lemma flat_items: "shallow 4 (CArr (map enc xs))"
  using flat by (simp add: list_all_iff)

end

lemmas dec_part = dec_struct_def field_for_def set_field_def dec_string_def dec_int_doc

interpretation text_codec: codec CStr dec_string "[]"
  by unfold_locales (simp_all add: dec_string_def)

interpretation blob_codec: codec doc_blob dec_Blob zero_Blob
proof
  show "dec_Blob (json_doc (doc_blob b)) zero_Blob = (b, None)" if "good (doc_blob b)" for b
    using that by (cases b) (simp add: doc_blob_def member_unless_empty_def dec_Blob_def dec_part zero_Blob_def keep_first_def split: if_splits)
qed (simp add: doc_blob_def member_unless_empty_def)

lemma sub_codecs:
  "good (doc_strings ss) \<Longrightarrow> dec_slice dec_string [] (json_doc (doc_strings ss)) [] = (ss, None)"
  "shallow 4 (doc_strings ss)"
  "good (CArr (map doc_blob bs)) \<Longrightarrow> dec_slice dec_Blob zero_Blob (json_doc (CArr (map doc_blob bs))) [] = (bs, None)"
  "shallow 4 (CArr (map doc_blob bs))"
  using text_codec.decode_slice [of ss] text_codec.flat_items [of ss] blob_codec.decode_slice [of bs] blob_codec.flat_items [of bs]
  by (simp_all add: doc_strings_def list_all_iff)

lemmas dec_sub = dec_part keep_first_def blob_codec.decodes sub_codecs(1,3)

interpretation signer_codec: codec doc_signer dec_Signer "\<lparr>sg_ID = [], sg_Key = []\<rparr>"
proof
  show "dec_Signer (json_doc (doc_signer s)) \<lparr>sg_ID = [], sg_Key = []\<rparr> = (s, None)" if "good (doc_signer s)" for s
    using that by (cases s) (simp add: doc_signer_def dec_Signer_def dec_sub)
qed (simp add: doc_signer_def)

interpretation custody_codec: codec doc_custody dec_Custody "pm_VerificationCustody zero_PackageManifest"
proof
  show "dec_Custody (json_doc (doc_custody c)) (pm_VerificationCustody zero_PackageManifest) = (c, None)" if "good (doc_custody c)" for c
    using that by (cases c) (simp add: doc_custody_def dec_Custody_def dec_sub zero_PackageManifest_def)
qed (simp add: doc_custody_def)

interpretation coverage_codec: codec doc_coverage dec_Coverage "pm_EvidenceCoverage zero_PackageManifest"
proof
  show "dec_Coverage (json_doc (doc_coverage c)) (pm_EvidenceCoverage zero_PackageManifest) = (c, None)" if "good (doc_coverage c)" for c
    using that by (cases c) (simp add: doc_coverage_def dec_Coverage_def dec_sub zero_PackageManifest_def)
qed (simp add: doc_coverage_def)

interpretation binding_codec: codec doc_binding dec_Binding "pm_ArtifactBinding zero_PackageManifest"
proof
  show "dec_Binding (json_doc (doc_binding b)) (pm_ArtifactBinding zero_PackageManifest) = (b, None)" if "good (doc_binding b)" for b
    using that by (cases b) (simp add: doc_binding_def dec_Binding_def dec_sub zero_PackageManifest_def)
qed (use shallow_mono [OF blob_codec.flat] in \<open>simp add: doc_binding_def doc_strings_def doc_blob_def member_unless_empty_def list_all_iff\<close>)

interpretation sum_codec: codec doc_sum dec_Sum zero_Sum
proof
  show "dec_Sum (json_doc (doc_sum v)) zero_Sum = (v, None)" if "good (doc_sum v)" for v
    using that by (cases v) (simp add: doc_sum_def dec_Sum_def dec_sub zero_Sum_def)
qed (simp add: doc_sum_def)

interpretation checker_codec: codec doc_checker dec_Checker "pm_Checker zero_PackageManifest"
proof
  show "dec_Checker (json_doc (doc_checker c)) (pm_Checker zero_PackageManifest) = (c, None)" if "good (doc_checker c)" for c
    using that by (cases c) (simp add: doc_checker_def dec_Checker_def dec_sub zero_PackageManifest_def)
qed (simp add: doc_checker_def doc_blob_def member_unless_empty_def)

interpretation evaluation_codec: codec doc_evaluation dec_Evaluation "pm_ArtifactEvaluation zero_PackageManifest"
proof
  show "dec_Evaluation (json_doc (doc_evaluation e)) (pm_ArtifactEvaluation zero_PackageManifest) = (e, None)"
    if "good (doc_evaluation e)" for e
    using that by (cases e) (simp add: doc_evaluation_def dec_Evaluation_def dec_sub zero_PackageManifest_def)
qed (simp add: doc_evaluation_def doc_strings_def doc_blob_def member_unless_empty_def list_all_iff)

interpretation conformance_codec: codec doc_conformance dec_Conformance "pm_Conformance zero_PackageManifest"
proof
  show "dec_Conformance (json_doc (doc_conformance c)) (pm_Conformance zero_PackageManifest) = (c, None)"
    if "good (doc_conformance c)" for c
    using that by (cases c)
      (simp add: doc_conformance_def dec_Conformance_def dec_sub sum_codec.decodes zero_PackageManifest_def)
qed (simp add: doc_conformance_def doc_strings_def doc_blob_def doc_sum_def member_unless_empty_def list_all_iff)

interpretation authority_codec: codec doc_authority dec_StatusAuthority "pm_StatusAuthority zero_PackageManifest"
proof
  show "dec_StatusAuthority (json_doc (doc_authority a)) (pm_StatusAuthority zero_PackageManifest) = (a, None)"
    if "good (doc_authority a)" for a
    using that by (cases a)
      (simp add: doc_authority_def member_unless_empty_def dec_StatusAuthority_def dec_sub zero_PackageManifest_def split: if_splits)
qed (simp add: doc_authority_def member_unless_empty_def)

section \<open>The manifest\<close>

text \<open>An evaluation package names no verifier and has no grades.\<close>

definition plain_manifest :: "PackageManifest \<Rightarrow> bool" where
  "plain_manifest m \<longleftrightarrow> pm_Verifier m = None \<and> pm_Grades m = []"

definition manifest_json :: "PackageManifest \<Rightarrow> json" where
  "manifest_json m = JObj (manifest_members (JStr (pm_Kind m)) (JNum (show_int (pm_PackageFormat m))) (JStr (pm_ID m))
     (JStr (pm_Run m)) (JObj [(''id'', JStr (pm_Producer m))]) (json_doc (doc_signer (pm_Operator m)))
     (json_doc (doc_custody (pm_VerificationCustody m))) (json_doc (doc_coverage (pm_EvidenceCoverage m)))
     (json_doc (doc_binding (pm_ArtifactBinding m))) (json_doc (CArr (map doc_blob (pm_Files m))))
     (json_doc (CArr (map doc_blob (pm_VerificationInputs m)))) (json_doc (doc_sum (pm_Spec m)))
     (json_doc (doc_checker (pm_Checker m))) (json_doc (doc_evaluation (pm_ArtifactEvaluation m)))
     (json_doc (doc_conformance (pm_Conformance m))) (JStr (pm_IssuedAt m))
     (if pm_ExpiresAt m = [] then [] else [JStr (pm_ExpiresAt m)]) (json_doc (doc_authority (pm_StatusAuthority m))))"

lemma json_doc_doc_manifest: "plain_manifest m \<Longrightarrow> json_doc (doc_manifest m) = manifest_json m"
  by (simp add: doc_manifest_def plain_manifest_def member_unless_empty_def manifest_json_def json_doc_manifest del: json_doc_simps(3)
      split del: if_split) (simp add: json_doc_manifest del: json_doc_simps(3))

lemma zero_manifest_fields:
  "pm_Operator zero_PackageManifest = \<lparr>sg_ID = [], sg_Key = []\<rparr>" "pm_Files zero_PackageManifest = []"
  "pm_VerificationInputs zero_PackageManifest = []" "pm_Spec zero_PackageManifest = zero_Sum"
  by (simp_all add: zero_PackageManifest_def zero_Sum_def)

lemma good_manifest_parts:
  assumes "good (doc_manifest m)"
  shows "good (CInt (pm_PackageFormat m))" "good (doc_signer (pm_Operator m))" "good (doc_custody (pm_VerificationCustody m))"
    "good (doc_coverage (pm_EvidenceCoverage m))" "good (doc_binding (pm_ArtifactBinding m))"
    "good (CArr (map doc_blob (pm_Files m)))" "good (CArr (map doc_blob (pm_VerificationInputs m)))"
    "good (doc_sum (pm_Spec m))" "good (doc_checker (pm_Checker m))" "good (doc_evaluation (pm_ArtifactEvaluation m))"
    "good (doc_conformance (pm_Conformance m))" "good (doc_authority (pm_StatusAuthority m))"
  using assms unfolding doc_manifest_def good.simps(4) by (simp_all del: good.simps(1,3,4))

lemma manifest_decodes:
  assumes "good (doc_manifest m)" "plain_manifest m"
  shows "dec_PackageManifest (json_doc (doc_manifest m)) zero_PackageManifest = (m, None)"
proof -
  note decs = signer_codec.decodes custody_codec.decodes coverage_codec.decodes binding_codec.decodes sub_codecs(3) sum_codec.decodes
    checker_codec.decodes evaluation_codec.decodes conformance_codec.decodes authority_codec.decodes
  show ?thesis
    using good_manifest_parts [OF assms(1)] assms(2) unfolding json_doc_doc_manifest [OF assms(2)]
    by (cases m, simp add: dec_PackageManifest_def manifest_json_def manifest_members_def dec_part package_field_def dec_Party_def
        decs zero_manifest_fields keep_first_def plain_manifest_def del: json_doc_simps good.simps,
      simp add: zero_PackageManifest_def)
qed

section \<open>The schema\<close>

lemma string_array_doc: "validateStringArraySchema (Inr (json_doc (doc_strings ss))) field = None"
proof -
  have "any_items False (map (\<lambda>s. JStr s) ss) = (map VString ss, None)" by (induction ss) simp_all
  then show ?thesis
    by (simp add: validateStringArraySchema_def doc_strings_def comp_def first_some_None_iff)
qed

lemma integer_doc: "good (CInt n) \<Longrightarrow> 0 \<le> n \<Longrightarrow> validateNonNegativeIntegerSchema (Inr (JNum (show_int n))) field = None"
  by (simp add: validateNonNegativeIntegerSchema_def number_Int64_def parse_int64_show in64_def maxSafeInteger_def)

lemmas schema_doc = validateObjectSchema_def raw_map_def obj_map_def requireField_def has_key_def raw_field_def Let_def

lemma raw_struct_doc [simp]:
  "raw_struct [''size''] (Inr (JObj [(''digest'', a), (''digest_algorithm'', b), (''path'', c), (''size'', d)])) = Inr [(''size'', d)]"
  "raw_struct [''size''] (Inr (JObj [(''digest'', a), (''digest_algorithm'', b), (''path'', c), (''size'', d), (''url'', e)]))
     = Inr [(''size'', d)]"
  "raw_struct [''manifest''] (Inr (JObj [(''discovered_runs'', a), (''keys_dir'', b), (''manifest'', c), (''root'', d)]))
     = Inr [(''manifest'', c)]"
  "raw_struct [''executable''] (Inr (JObj [(''executable'', a), (''name'', b), (''source_revision'', c)])) = Inr [(''executable'', a)]"
  "raw_struct [''arguments'', ''exit_status'', ''machine_output'', ''stdout'', ''stderr'']
      (Inr (JObj [(''arguments'', a), (''exit_status'', b), (''machine_output'', c), (''stderr'', d), (''stdout'', e)]))
     = Inr [(''arguments'', a), (''exit_status'', b), (''machine_output'', c), (''stderr'', d), (''stdout'', e)]"
  "raw_struct [''corpus'', ''command'', ''exit_status'', ''result'']
      (Inr (JObj [(''command'', a), (''corpus'', b), (''exit_status'', c), (''result'', d)]))
     = Inr [(''command'', a), (''corpus'', b), (''exit_status'', c), (''result'', d)]"
  by code_simp+

lemma blob_schema_doc: "good (doc_blob b) \<Longrightarrow> 0 \<le> bl_Size b \<Longrightarrow> validatePackageBlobSchema (Inr (json_doc (doc_blob b))) = None"
  by (simp add: validatePackageBlobSchema_def doc_blob_def member_unless_empty_def schema_doc integer_doc split: if_splits)

lemma each_blob_doc:
  assumes "list_all (\<lambda>b. good (doc_blob b) \<and> 0 \<le> bl_Size b) bs"
  shows "validate_each field validatePackageBlobSchema (Inr (json_doc (CArr (map doc_blob bs)))) = None"
proof -
  have "dec_items dec_raw JNull js [] = (js, None)" for js by (induction js) (simp_all add: dec_raw_def)
  then have "raw_items (Inr (json_doc (CArr (map doc_blob bs)))) = Inr (map (json_doc \<circ> doc_blob) bs)"
    by (simp add: raw_items_def dec_slice_def)
  then show ?thesis using assms by (simp add: validate_each_def first_some_None_iff list_all_length blob_schema_doc)
qed

lemma nested_doc:
  assumes "obj_map ms = ms" "alookup ms field = Some (JObj vs)" "distinct (map fst vs)" "set (map fst vs) = set names"
    "''ext'' \<notin> set names"
  shows "nested_exact (Inr (JObj ms)) field names = None"
proof -
  have vs: "obj_map vs = vs" using assms(3) by (rule obj_map_distinct)
  have key: "k \<in> set names \<and> k \<noteq> ''ext''" if "(k, v) \<in> set vs" for k v
    using that assms(4,5) by (metis fst_conv image_eqI image_set)
  have "has_key vs k" if "k \<in> set names" for k using that assms(4) by (simp add: has_key_iff)
  then have "validateObjectSchema (Inr (JObj vs)) names names = None"
    using key by (auto simp: validateObjectSchema_def raw_map_def vs first_err_None_iff first_some_None_iff requireField_def)
  then show ?thesis
    using assms(1,2) by (simp add: validateNestedObjectSchema_def raw_map_def isJSONObject_def prefix_err_def wrap_err_def)
qed

definition manifest_fields :: "PackageManifest \<Rightarrow> (string \<times> json) list" where
  "manifest_fields m = manifest_members (JStr (pm_Kind m)) (JNum (show_int (pm_PackageFormat m))) (JStr (pm_ID m))
     (JStr (pm_Run m)) (JObj [(''id'', JStr (pm_Producer m))]) (json_doc (doc_signer (pm_Operator m)))
     (json_doc (doc_custody (pm_VerificationCustody m))) (json_doc (doc_coverage (pm_EvidenceCoverage m)))
     (json_doc (doc_binding (pm_ArtifactBinding m))) (json_doc (CArr (map doc_blob (pm_Files m))))
     (json_doc (CArr (map doc_blob (pm_VerificationInputs m)))) (json_doc (doc_sum (pm_Spec m)))
     (json_doc (doc_checker (pm_Checker m))) (json_doc (doc_evaluation (pm_ArtifactEvaluation m)))
     (json_doc (doc_conformance (pm_Conformance m))) (JStr (pm_IssuedAt m))
     (if pm_ExpiresAt m = [] then [] else [JStr (pm_ExpiresAt m)]) (json_doc (doc_authority (pm_StatusAuthority m)))"

lemma manifest_fields_map [simp]: "obj_map (manifest_fields m) = manifest_fields m"
  by (rule obj_map_distinct) (simp add: manifest_fields_def manifest_members_def)

lemma manifest_fields_at:
  "alookup (manifest_fields m) ''kind'' = Some (JStr (pm_Kind m))"
  "alookup (manifest_fields m) ''producer'' = Some (JObj [(''id'', JStr (pm_Producer m))])"
  "alookup (manifest_fields m) ''operator'' = Some (json_doc (doc_signer (pm_Operator m)))"
  "alookup (manifest_fields m) ''verification_custody'' = Some (json_doc (doc_custody (pm_VerificationCustody m)))"
  "alookup (manifest_fields m) ''evidence_coverage'' = Some (json_doc (doc_coverage (pm_EvidenceCoverage m)))"
  "alookup (manifest_fields m) ''artifact_binding'' = Some (json_doc (doc_binding (pm_ArtifactBinding m)))"
  "alookup (manifest_fields m) ''files'' = Some (json_doc (CArr (map doc_blob (pm_Files m))))"
  "alookup (manifest_fields m) ''verification_inputs'' = Some (json_doc (CArr (map doc_blob (pm_VerificationInputs m))))"
  "alookup (manifest_fields m) ''spec'' = Some (json_doc (doc_sum (pm_Spec m)))"
  "alookup (manifest_fields m) ''checker'' = Some (json_doc (doc_checker (pm_Checker m)))"
  "alookup (manifest_fields m) ''artifact_evaluation'' = Some (json_doc (doc_evaluation (pm_ArtifactEvaluation m)))"
  "alookup (manifest_fields m) ''conformance'' = Some (json_doc (doc_conformance (pm_Conformance m)))"
  "alookup (manifest_fields m) ''status_authority'' = Some (json_doc (doc_authority (pm_StatusAuthority m)))"
  by (simp_all add: manifest_fields_def manifest_members_def del: json_doc_simps)

text \<open>The parts of the manifest are objects with the required keys.\<close>

lemma nested_parts:
  "nested_exact (Inr (JObj (manifest_fields m))) ''producer'' [''id''] = None"
  "nested_exact (Inr (JObj (manifest_fields m))) ''operator'' [''id'', ''key''] = None"
  "nested_exact (Inr (JObj (manifest_fields m))) ''verification_custody'' [''acquisition'', ''replay'', ''review'', ''issuance''] = None"
  "nested_exact (Inr (JObj (manifest_fields m))) ''evidence_coverage'' [''scope'', ''disclosure''] = None"
  "nested_exact (Inr (JObj (manifest_fields m))) ''artifact_binding'' [''root'', ''keys_dir'', ''manifest'', ''discovered_runs''] = None"
  "nested_exact (Inr (JObj (manifest_fields m))) ''spec'' [''version'', ''digest_algorithm'', ''digest''] = None"
  "nested_exact (Inr (JObj (manifest_fields m))) ''checker'' [''name'', ''source_revision'', ''executable''] = None"
  "nested_exact (Inr (JObj (manifest_fields m))) ''artifact_evaluation''
     [''arguments'', ''exit_status'', ''machine_output'', ''stdout'', ''stderr''] = None"
  "nested_exact (Inr (JObj (manifest_fields m))) ''conformance'' [''corpus'', ''command'', ''exit_status'', ''result''] = None"
  by (rule nested_doc, simp, simp add: manifest_fields_at doc_signer_def doc_custody_def doc_coverage_def doc_binding_def doc_sum_def
      doc_checker_def doc_evaluation_def doc_conformance_def del: json_doc_simps(3), simp, auto)+

lemma prefix_err_None [simp]: "prefix_err n None = None"
  by (simp add: prefix_err_def)

lemma nested_authority:
  "prefix_err ''status_authority'' (validateNestedObjectSchema (Inr (JObj (manifest_fields m))) ''status_authority''
     [''id'', ''key'', ''record_id'', ''url''] [''id'', ''key'', ''record_id'']) = None"
proof -
  have "validateObjectSchema (Inr (json_doc (doc_authority a))) [''id'', ''key'', ''record_id'', ''url''] [''id'', ''key'', ''record_id'']
      = None" "isJSONObject (json_doc (doc_authority a))" for a
    by (simp_all add: doc_authority_def member_unless_empty_def schema_doc isJSONObject_def)
  then show ?thesis
    by (simp add: prefix_err_def wrap_err_def validateNestedObjectSchema_def raw_map_def manifest_fields_at)
qed

definition written_keys :: "bool \<Rightarrow> string list" where
  "written_keys expires = [''artifact_binding'', ''artifact_evaluation'', ''checker'', ''conformance'', ''evidence_coverage'']
      @ (if expires then [''expires_at''] else [])
      @ [''files'', ''id'', ''issued_at'', ''kind'', ''operator'', ''package_format'', ''producer'', ''run'', ''spec'',
         ''status_authority'', ''verification_custody'', ''verification_inputs'']"

lemma written_keys_known:
  "list_all (\<lambda>k. k \<in> set packageCommonKeys \<and> k \<noteq> ''ext'') (written_keys expires)"
  "list_all (\<lambda>k. k \<in> set (written_keys expires)) package_required"
proof -
  have "list_all (\<lambda>k. k \<in> set packageCommonKeys \<and> k \<noteq> ''ext'') (written_keys True)"
    "list_all (\<lambda>k. k \<in> set packageCommonKeys \<and> k \<noteq> ''ext'') (written_keys False)"
    "list_all (\<lambda>k. k \<in> set (written_keys True)) package_required"
    "list_all (\<lambda>k. k \<in> set (written_keys False)) package_required"
    by code_simp+
  then show "list_all (\<lambda>k. k \<in> set packageCommonKeys \<and> k \<noteq> ''ext'') (written_keys expires)"
    "list_all (\<lambda>k. k \<in> set (written_keys expires)) package_required"
    by (cases expires, simp_all only:)+
qed

lemma top_schema:
  "validateObjectSchema (Inr (JObj (manifest_fields m))) packageCommonKeys package_required = None"
proof -
  have "map fst (manifest_fields m) = written_keys (pm_ExpiresAt m \<noteq> [])"
    by (simp add: manifest_fields_def manifest_members_def written_keys_def del: json_doc_simps)
  then have k: "fst ` set (manifest_fields m) = set (written_keys (pm_ExpiresAt m \<noteq> []))" by (metis set_map)
  have "requireField (manifest_fields m) f = None" if "f \<in> set package_required" for f
    using that written_keys_known(2) by (simp add: requireField_def has_key_iff list_all_iff k)
  moreover have "key \<in> set packageCommonKeys \<and> key \<noteq> ''ext''" if "(key, v) \<in> set (manifest_fields m)" for key v
    using image_eqI [of key fst "(key, v)", OF _ that] written_keys_known(1) [of "pm_ExpiresAt m \<noteq> []"] by (auto simp: list_all_iff k)
  ultimately show ?thesis
    by (auto simp: validateObjectSchema_def raw_map_def first_err_None_iff first_some_None_iff Let_def)
qed

lemma manifest_schema_doc:
  assumes g: "good (doc_manifest m)" and p: "plain_manifest m" and k: "pm_Kind m = ''evaluation-package''"
    and e: "0 \<le> pe_ExitStatus (pm_ArtifactEvaluation m)" "0 \<le> cf_ExitStatus (pm_Conformance m)"
    and sizes: "\<forall>b \<in> set (pm_Files m) \<union> set (packageReferencedBlobs m). 0 \<le> bl_Size b"
  shows "validatePackageManifestSchema (Inr (json_doc (doc_manifest m))) = None"
proof -
  note parts = good_manifest_parts [OF g]
  have j: "json_doc (doc_manifest m) = JObj (manifest_fields m)"
    using json_doc_doc_manifest [OF p] by (simp add: manifest_json_def manifest_fields_def)
  have each: "validate_each field validatePackageBlobSchema (Inr (json_doc (CArr (map doc_blob bs)))) = None"
    if "good (CArr (map doc_blob bs))" "\<forall>b \<in> set bs. 0 \<le> bl_Size b" for field bs
    using that by (intro each_blob_doc) (auto simp: list_all_iff)
  have blobs: "validatePackageBlobSchema (Inr (json_doc (doc_blob (bd_Manifest (pm_ArtifactBinding m))))) = None"
    "validatePackageBlobSchema (Inr (json_doc (doc_blob (ck_Executable (pm_Checker m))))) = None"
    "validatePackageBlobSchema (Inr (json_doc (doc_blob (pe_MachineOutput (pm_ArtifactEvaluation m))))) = None"
    "validatePackageBlobSchema (Inr (json_doc (doc_blob (pe_Stdout (pm_ArtifactEvaluation m))))) = None"
    "validatePackageBlobSchema (Inr (json_doc (doc_blob (pe_Stderr (pm_ArtifactEvaluation m))))) = None"
    "validatePackageBlobSchema (Inr (json_doc (doc_blob (cf_Result (pm_Conformance m))))) = None"
    using parts sizes by (auto intro!: blob_schema_doc simp: packageReferencedBlobs_def doc_binding_def doc_checker_def
        doc_evaluation_def doc_conformance_def)
  have ev: "validateEvaluationSchema (Inr (JObj (manifest_fields m))) (manifest_fields m) = None"
    using blobs parts(10) e(1)
    by (simp add: validateEvaluationSchema_def nested_parts raw_field_def manifest_fields_at doc_evaluation_def string_array_doc
        integer_doc del: json_doc_simps(3))
  have cf: "validateConformanceSchema (Inr (JObj (manifest_fields m))) (manifest_fields m) = None"
    using blobs parts(11) e(2)
    by (simp add: validateConformanceSchema_def nested_parts raw_field_def manifest_fields_at doc_conformance_def string_array_doc
        integer_doc doc_sum_def del: json_doc_simps(3)) (simp add: schema_doc)
  have "validatePackageNestedSchema (Inr (JObj (manifest_fields m))) ''evaluation-package'' = None"
    using blobs parts(6,7) sizes each
    by (simp add: validatePackageNestedSchema_def raw_root_def raw_map_def nested_parts nested_authority ev cf raw_field_def
        manifest_fields_at doc_binding_def doc_checker_def packageReferencedBlobs_def del: json_doc_simps(3))
  then show ?thesis
    by (simp add: validatePackageManifestSchema_def j raw_root_def raw_map_def manifest_fields_at k dec_string_def top_schema)
qed

section \<open>The round trip\<close>

lemma shallow_sortv: "shallow d v \<Longrightarrow> shallow d (sortv v)"
  by (induction d v rule: shallow.induct) (auto simp: list_all_iff)

lemma doc_manifest_shallow: "shallow max_depth (sortv (doc_manifest m))" if "plain_manifest m"
proof -
  note s = signer_codec.flat_deep custody_codec.flat_deep coverage_codec.flat_deep binding_codec.flat_deep sub_codecs(4)
    sum_codec.flat_deep checker_codec.flat_deep evaluation_codec.flat_deep conformance_codec.flat_deep authority_codec.flat_deep
  have "shallow 5 (doc_manifest m)"
    unfolding doc_manifest_def shallow.simps(2)
    using that s by (simp add: plain_manifest_def member_unless_empty_def del: shallow.simps(1))
  then show ?thesis by (intro shallow_sortv) (erule shallow_mono, simp add: max_depth_def)
qed

lemma semantic_bounds:
  assumes "validatePackageSemantics m = None"
  shows "0 \<le> pe_ExitStatus (pm_ArtifactEvaluation m)" "0 \<le> cf_ExitStatus (pm_Conformance m)"
    "\<forall>b \<in> set (packageReferencedBlobs m) - set (pm_VerificationInputs m). 0 \<le> bl_Size b"
proof -
  have "validate_declarations m = None" using assms by (simp add: validatePackageSemantics_def first_err_Cons_None)
  then show "0 \<le> pe_ExitStatus (pm_ArtifactEvaluation m)" "0 \<le> cf_ExitStatus (pm_Conformance m)"
    by (simp_all add: validate_declarations_def Let_def split: if_splits)
  have "shaped (bd_Manifest (pm_ArtifactBinding m))" "shaped (ck_Executable (pm_Checker m))"
    "shaped (pe_MachineOutput (pm_ArtifactEvaluation m))" "shaped (pe_Stdout (pm_ArtifactEvaluation m))"
    "shaped (pe_Stderr (pm_ArtifactEvaluation m))" "shaped (cf_Result (pm_Conformance m))"
    using assms by (simp_all add: validatePackageSemantics_def first_err_Cons_None first_some_None_iff validateBlobShape_iff
        del: first_some.simps)
  then show "\<forall>b \<in> set (packageReferencedBlobs m) - set (pm_VerificationInputs m). 0 \<le> bl_Size b"
    by (auto simp: packageReferencedBlobs_def shaped_def)
qed

lemma manifest_written:
  assumes g: "good (doc_manifest m)" and p: "plain_manifest m" and k: "pm_Kind m = ''evaluation-package''"
    and sizes: "\<forall>b \<in> set (pm_Files m) \<union> set (pm_VerificationInputs m). 0 \<le> bl_Size b" and sem: "validatePackageSemantics m = None"
  shows "Canonicalize (json_Marshal (doc_manifest m)) = Inr (render (sortv (doc_manifest m)))"
    "load_package_manifest (render (sortv (doc_manifest m))) = Inr m"
proof -
  let ?v = "sortv (doc_manifest m)"
  have c: "IsCanonical (render ?v)" using g by (intro IsCanonical_render good_sortv sortv_idem)
  have raw: "parse_json (render ?v) = Inr (json_doc (doc_manifest m))"
    using parse_json_render [OF good_sortv [OF g] doc_manifest_shallow [OF p]] by (simp add: json_doc_def)
  have "validatePackageManifestSchema (Inr (json_doc (doc_manifest m))) = None"
    using semantic_bounds [OF sem] sizes by (intro manifest_schema_doc g p k) auto
  then show "load_package_manifest (render ?v) = Inr m"
    by (simp add: load_package_manifest_def c raw unmarshal_def manifest_decodes [OF g p] sem)
qed (rule Canonicalize_marshal [OF g])

text \<open>C29: what the emitter signs is what the validator reads. An evaluation manifest without a verifier and
  grades, with sizes that are not negative, that satisfies the semantic rules and whose strings are valid UTF-8 and
  numbers safe integers, is marshalled, canonicalized, read back and accepted as the very same manifest. An invalid
  byte would be written as U+FFFD and read back as another manifest.\<close>
theorem manifest_roundtrip:
  assumes "good (doc_manifest m)" "plain_manifest m" "pm_Kind m = ''evaluation-package''"
    and "\<forall>b \<in> set (pm_Files m) \<union> set (pm_VerificationInputs m). 0 \<le> bl_Size b" "validatePackageSemantics m = None"
  shows "\<exists>raw. Canonicalize (json_Marshal (doc_manifest m)) = Inr raw \<and> load_package_manifest raw = Inr m"
  using manifest_written [OF assms] by blast

end
