(* ===== verification/Gen_Payload.thy ===== *)
theory Gen_Payload
  imports Gen_Corpus Package_Codec
begin

text \<open>
  The records of an honest recorder, as the generator makes them, and the checker: every check of one log passes. It is the
  completeness that goes with the soundness of the checks.
\<close>

section \<open>Honest logs\<close>

text \<open>What happens between the open and the close: an event, with a decision (policy, request fingerprint, inputs, vd) or
  without, and a heartbeat.\<close>

datatype step = Event string string string string "(string \<times> string \<times> (string \<times> cvalue) list \<times> string) option" | Beat string

definition decision_members :: "string \<times> string \<times> (string \<times> cvalue) list \<times> string \<Rightarrow> (string \<times> cvalue) list" where
  "decision_members d = (case d of (policy, request, inputs, vd) \<Rightarrow>
     [(''policy'', CStr policy), (''request_fp'', CStr request), (''inputs'', CObj inputs), (''verdict'', CStr vd)])"

fun step_plan :: "step \<Rightarrow> recordPlan" where
  "step_plan (Event ts cls ident dir decision) = activity ts cls ident dir (map_option decision_members decision) None"
| "step_plan (Beat ts) = heartbeat ts"

fun step_ts :: "step \<Rightarrow> string" where
  "step_ts (Event ts cls ident dir decision) = ts"
| "step_ts (Beat ts) = ts"

definition first_plan :: "string \<Rightarrow> int \<Rightarrow> int \<Rightarrow> string option \<Rightarrow> recordPlan" where
  "first_plan ts hmax htol nonce = (case nonce of None \<Rightarrow> open_plan ts hmax htol | Some n \<Rightarrow> openNonce ts hmax htol n)"

definition log_plans :: "string \<Rightarrow> int \<Rightarrow> int \<Rightarrow> string option \<Rightarrow> step list \<Rightarrow> string \<Rightarrow> recordPlan list" where
  "log_plans ts hmax htol nonce steps ts' = first_plan ts hmax htol nonce # map step_plan steps @ [closePlan ts' None []]"

section \<open>The documents\<close>

definition common_json :: "string \<Rightarrow> string \<Rightarrow> string \<Rightarrow> nat \<Rightarrow> string \<Rightarrow> string \<Rightarrow> string \<Rightarrow> (string \<times> json) list" where
  "common_json run recorder fp i prev ts typ =
     [(''key'', JStr fp), (''prev'', JStr prev), (''recorder'', JStr recorder), (''run'', JStr run), (''seq'', JNum (show_int (int i))),
      (''ts'', JStr ts), (''type'', JStr typ), (''v'', JNum (show_int 1))]"

lemma json_doc_records:
  "json_doc (CObj [(''v'', a), (''type'', b), (''run'', c), (''recorder'', d), (''key'', e), (''seq'', f), (''prev'', g), (''ts'', h)])
     = JObj [(''key'', json_doc e), (''prev'', json_doc g), (''recorder'', json_doc d), (''run'', json_doc c), (''seq'', json_doc f),
         (''ts'', json_doc h), (''type'', json_doc b), (''v'', json_doc a)]"
  "json_doc (CObj [(''v'', a), (''type'', b), (''run'', c), (''recorder'', d), (''key'', e), (''seq'', f), (''prev'', g), (''ts'', h),
      (''hmax'', i), (''htol'', j)])
     = JObj [(''hmax'', json_doc i), (''htol'', json_doc j), (''key'', json_doc e), (''prev'', json_doc g), (''recorder'', json_doc d),
         (''run'', json_doc c), (''seq'', json_doc f), (''ts'', json_doc h), (''type'', json_doc b), (''v'', json_doc a)]"
  "json_doc (CObj [(''v'', a), (''type'', b), (''run'', c), (''recorder'', d), (''key'', e), (''seq'', f), (''prev'', g), (''ts'', h),
      (''hmax'', i), (''htol'', j), (''cp_nonce'', k)])
     = JObj [(''cp_nonce'', json_doc k), (''hmax'', json_doc i), (''htol'', json_doc j), (''key'', json_doc e), (''prev'', json_doc g),
         (''recorder'', json_doc d), (''run'', json_doc c), (''seq'', json_doc f), (''ts'', json_doc h), (''type'', json_doc b), (''v'', json_doc a)]"
  "json_doc (CObj [(''v'', a), (''type'', b), (''run'', c), (''recorder'', d), (''key'', e), (''seq'', f), (''prev'', g), (''ts'', h),
      (''event'', i)])
     = JObj [(''event'', json_doc i), (''key'', json_doc e), (''prev'', json_doc g), (''recorder'', json_doc d), (''run'', json_doc c),
         (''seq'', json_doc f), (''ts'', json_doc h), (''type'', json_doc b), (''v'', json_doc a)]"
  "json_doc (CObj [(''v'', a), (''type'', b), (''run'', c), (''recorder'', d), (''key'', e), (''seq'', f), (''prev'', g), (''ts'', h),
      (''event'', i), (''decision'', j)])
     = JObj [(''decision'', json_doc j), (''event'', json_doc i), (''key'', json_doc e), (''prev'', json_doc g), (''recorder'', json_doc d),
         (''run'', json_doc c), (''seq'', json_doc f), (''ts'', json_doc h), (''type'', json_doc b), (''v'', json_doc a)]"
  "json_doc (CObj [(''v'', a), (''type'', b), (''run'', c), (''recorder'', d), (''key'', e), (''seq'', f), (''prev'', g), (''ts'', h),
      (''count'', i), (''head'', j)])
     = JObj [(''count'', json_doc i), (''head'', json_doc j), (''key'', json_doc e), (''prev'', json_doc g), (''recorder'', json_doc d),
         (''run'', json_doc c), (''seq'', json_doc f), (''ts'', json_doc h), (''type'', json_doc b), (''v'', json_doc a)]"
  "json_doc (CObj [(''class'', a), (''id'', b), (''dir'', c)]) = JObj [(''class'', json_doc a), (''dir'', json_doc c), (''id'', json_doc b)]"
  "json_doc (CObj [(''policy'', a), (''request_fp'', b), (''inputs'', c), (''verdict'', d)])
     = JObj [(''inputs'', json_doc c), (''policy'', json_doc a), (''request_fp'', json_doc b), (''verdict'', json_doc d)]"
  unfolding json_doc_def by code_simp+

text \<open>The members that a kind of record has beside the common ones.\<close>

fun own_json :: "step \<Rightarrow> (string \<times> json) list" where
  "own_json (Event ts cls ident dir decision) =
     (case decision of None \<Rightarrow> []
      | Some (policy, request, inputs, vd) \<Rightarrow>
          [(''decision'', JObj [(''inputs'', json_doc (CObj inputs)), (''policy'', JStr policy), (''request_fp'', JStr request),
             (''verdict'', JStr vd)])])
     @ [(''event'', JObj [(''class'', JStr cls), (''dir'', JStr dir), (''id'', JStr ident)])]"
| "own_json (Beat ts) = []"

lemmas plan_defs = plan_payload_def put_all_def put_default_def first_plan_def open_plan_def openNonce_def activity_def heartbeat_def
  closePlan_def eventExtra_def plan_def decision_members_def

lemma payload_json:
  "json_doc (CObj (plan_payload run recorder fp n i prev (first_plan ts hmax htol nonce)))
     = JObj ((case nonce of None \<Rightarrow> [] | Some c \<Rightarrow> [(''cp_nonce'', JStr c)])
         @ [(''hmax'', JNum (show_int hmax)), (''htol'', JNum (show_int htol))] @ common_json run recorder fp i prev ts ''open'')"
  "json_doc (CObj (plan_payload run recorder fp n i prev (step_plan st)))
     = JObj (own_json st @ common_json run recorder fp i prev (step_ts st) (case st of Beat _ \<Rightarrow> ''heartbeat'' | _ \<Rightarrow> ''activity''))"
  "json_doc (CObj (plan_payload run recorder fp n i prev (closePlan ts None [])))
     = JObj ([(''count'', JNum (show_int (int n))), (''head'', JStr prev)] @ common_json run recorder fp i prev ts ''close'')"
proof -
  show "json_doc (CObj (plan_payload run recorder fp n i prev (first_plan ts hmax htol nonce)))
     = JObj ((case nonce of None \<Rightarrow> [] | Some c \<Rightarrow> [(''cp_nonce'', JStr c)])
         @ [(''hmax'', JNum (show_int hmax)), (''htol'', JNum (show_int htol))] @ common_json run recorder fp i prev ts ''open'')"
    by (simp add: plan_defs json_doc_records common_json_def split: option.split)
  show "json_doc (CObj (plan_payload run recorder fp n i prev (step_plan st)))
     = JObj (own_json st @ common_json run recorder fp i prev (step_ts st) (case st of Beat _ \<Rightarrow> ''heartbeat'' | _ \<Rightarrow> ''activity''))"
    by (cases st) (simp_all add: plan_defs json_doc_records common_json_def split: option.split prod.split)
  show "json_doc (CObj (plan_payload run recorder fp n i prev (closePlan ts None [])))
     = JObj ([(''count'', JNum (show_int (int n))), (''head'', JStr prev)] @ common_json run recorder fp i prev ts ''close'')"
    by (simp add: plan_defs json_doc_records common_json_def has_key_def)
qed

section \<open>What an honest recorder writes\<close>

definition scalar :: "cvalue \<Rightarrow> bool" where
  "scalar v \<longleftrightarrow> (case v of CStr _ \<Rightarrow> True | CInt _ \<Rightarrow> True | CBool _ \<Rightarrow> True | _ \<Rightarrow> False)"

definition honest_decision :: "string \<times> string \<times> (string \<times> cvalue) list \<times> string \<Rightarrow> bool" where
  "honest_decision d \<longleftrightarrow> (case d of (policy, request, inputs, vd) \<Rightarrow>
     is_sha256_hex policy \<and> valid_utf8 request \<and> good (CObj inputs) \<and> list_all (\<lambda>(_, v). scalar v) inputs
     \<and> length inputs \<le> maxDecisionInputFields \<and> vd \<in> {''allow'', ''block'', ''defer''})"

fun honest_step :: "step \<Rightarrow> bool" where
  "honest_step (Event ts cls ident dir decision) \<longleftrightarrow>
     valid_utf8 cls \<and> valid_utf8 ident \<and> dir \<in> {''out'', ''in'', ''internal''}
     \<and> (case decision of None \<Rightarrow> True | Some d \<Rightarrow> honest_decision d)"
| "honest_step (Beat ts) \<longleftrightarrow> True"

definition timestamp :: "string \<Rightarrow> bool" where
  "timestamp ts \<longleftrightarrow> valid_utf8 ts \<and> parse_rfc3339 ts \<noteq> None"

definition named :: "string \<Rightarrow> string \<Rightarrow> string \<Rightarrow> bool" where
  "named run recorder fp \<longleftrightarrow> valid_utf8 run \<and> run \<noteq> [] \<and> valid_utf8 recorder \<and> recorder \<noteq> [] \<and> is_sha256_hex fp"

text \<open>The value is read back from its canonical text.\<close>

lemma canonicalValue_good:
  assumes "good v" "shallow 4 v"
  shows "\<exists>raw. canonicalValue v = Inr raw \<and> Canonicalize raw = Inr raw \<and> parse_json raw = Inr (json_doc v)"
proof (intro exI conjI)
  have s: "shallow max_depth (sortv v)" using assms(2) by (intro shallow_sortv) (erule shallow_mono, simp add: max_depth_def)
  show "canonicalValue v = Inr (render (sortv v))" using Canonicalize_marshal [OF assms(1)] by (simp add: canonicalValue_def)
  show "Canonicalize (render (sortv v)) = Inr (render (sortv v))"
    using parseDocument_render [OF good_sortv [OF assms(1)]] writeCanonical_render [OF good_sortv [OF assms(1)]] sortv_idem [OF assms(1)]
    by (simp add: Canonicalize_def)
  show "parse_json (render (sortv v)) = Inr (json_doc v)"
    using parse_json_render [OF good_sortv [OF assms(1)] s] by (simp add: json_doc_def)
qed

lemma utf8_ascii: "list_all (\<lambda>c. code c < 128) s \<Longrightarrow> valid_utf8 s"
  unfolding valid_utf8_iff
proof (intro exI conjI)
  assume a: "list_all (\<lambda>c. code c < 128) s"
  then show "list_all valid_rune (map code s)" by (auto simp: list_all_iff valid_rune_def is_surrogate_def)
  show "s = encode_runes (map code s)" using a by (induction s) (auto simp: encode_rune_ascii)
qed

lemma sha256_hex_utf8: "is_sha256_hex s \<Longrightarrow> valid_utf8 s"
  by (rule utf8_ascii) (auto simp: is_sha256_hex_def list_all_iff is_digit_def)

lemma small_ints: "good (CInt 1)" "n \<le> nat maxSafeInteger \<Longrightarrow> good (CInt (int n))"
  by (auto simp: maxSafeInteger_def)

lemma good_payload:
  assumes "named run recorder fp" "is_sha256_hex prev" "i < n" "n \<le> nat maxSafeInteger"
  shows "valid_utf8 ts \<Longrightarrow> good (CInt hmax) \<Longrightarrow> good (CInt htol) \<Longrightarrow> (\<forall>c. nonce = Some c \<longrightarrow> valid_utf8 c)
      \<Longrightarrow> good (CObj (plan_payload run recorder fp n i prev (first_plan ts hmax htol nonce)))"
    and "valid_utf8 (step_ts st) \<Longrightarrow> honest_step st \<Longrightarrow> good (CObj (plan_payload run recorder fp n i prev (step_plan st)))"
    and "valid_utf8 ts \<Longrightarrow> good (CObj (plan_payload run recorder fp n i prev (closePlan ts None [])))"
proof -
  have ascii: "valid_utf8 k" if "list_all (\<lambda>c. code c < 128) k" for k using utf8_ascii that .
  have names: "list_all valid_utf8 [''v'', ''type'', ''run'', ''recorder'', ''key'', ''seq'', ''prev'', ''ts'', ''hmax'', ''htol'', ''cp_nonce'',
    ''event'', ''decision'', ''class'', ''id'', ''dir'', ''policy'', ''request_fp'', ''inputs'', ''verdict'', ''count'', ''head'',
    ''open'', ''activity'', ''heartbeat'', ''close'', ''out'', ''in'', ''internal'', ''allow'', ''block'', ''defer'']"
    by (simp add: ascii)
  have common: "valid_utf8 run" "valid_utf8 recorder" "valid_utf8 fp" "valid_utf8 prev" "good (CInt (int i))" "good (CInt (int n))"
    using assms small_ints(2) [of i] small_ints(2) [of n] by (auto simp: named_def sha256_hex_utf8)
  note parts = common names [simplified] small_ints(1)
  show "good (CObj (plan_payload run recorder fp n i prev (first_plan ts hmax htol nonce)))"
    if "valid_utf8 ts" "good (CInt hmax)" "good (CInt htol)" "\<forall>c. nonce = Some c \<longrightarrow> valid_utf8 c"
    using parts that by (simp add: plan_defs del: good.simps(1) split: option.split)
  show "good (CObj (plan_payload run recorder fp n i prev (step_plan st)))" if "valid_utf8 (step_ts st)" "honest_step st"
    using parts that
    by (cases st) (auto simp: plan_defs honest_decision_def sha256_hex_utf8 simp del: good.simps(1) split: option.splits)
  show "good (CObj (plan_payload run recorder fp n i prev (closePlan ts None [])))" if "valid_utf8 ts"
    using parts that by (simp add: plan_defs has_key_def del: good.simps(1))
qed

section \<open>The checker reads it\<close>

definition base_payload :: "string \<Rightarrow> string \<Rightarrow> string \<Rightarrow> nat \<Rightarrow> string \<Rightarrow> string \<Rightarrow> string \<Rightarrow> Payload" where
  "base_payload run recorder fp i prev ts typ =
     zero_Payload\<lparr>pl_V := 1, pl_Type := typ, pl_Run := run, pl_Recorder := recorder, pl_Key := fp, pl_Seq := int i, pl_Prev := prev,
       pl_TS := ts\<rparr>"

lemma scalar_any:
  assumes "scalar v" "good v"
  shows "\<exists>x. any_of False (json_doc v) = (x, None)" "validateDecisionInputValue (json_doc v) = None"
proof -
  show "\<exists>x. any_of False (json_doc v) = (x, None)"
  proof (cases v)
    case (CInt n)
    have "float_as_int (show_int n) = Some n" using assms(2) CInt by (intro float_as_int_show_int) (auto simp: maxSafeInteger_def)
    then have "float64_of (show_int n) \<noteq> None" unfolding float_as_int_def by (cases "float64_of (show_int n)") auto
    then show ?thesis using CInt by simp
  qed (use assms in \<open>simp_all add: scalar_def json_doc_def\<close>)
  show "validateDecisionInputValue (json_doc v) = None"
    using assms by (cases v) (simp_all add: scalar_def json_doc_def validateDecisionInputValue_def number_Int64_def parse_int64_show
        in64_def maxSafeInteger_def)
qed

lemma json_doc_obj: "json_doc (CObj ms) = JObj (map (\<lambda>(k, v). (k, json_doc v)) (sort_members ms))"
  unfolding json_doc_def sortv.simps
  using sort_members_map [of sortv ms] by (simp add: split_def comp_def)

lemma inputs_decode:
  assumes "good (CObj inputs)" "list_all (\<lambda>(_, v). scalar v) inputs"
  shows "\<exists>m. dec_map (dec_any False) VNil (json_doc (CObj inputs)) old = (m, None)"
proof -
  have "\<exists>m'. dec_entries (dec_any False) VNil (map (\<lambda>(k, v). (k, json_doc v)) ms) m = (m', None)"
    if "\<forall>(k, v) \<in> set ms. scalar v \<and> good v" for ms m
    using that
  proof (induction ms arbitrary: m)
    case (Cons e ms)
    obtain k v where e: "e = (k, v)" by fastforce
    obtain x where "dec_any False (json_doc v) VNil = (x, None)" using scalar_any(1) Cons.prems e by (auto simp: dec_any_def)
    moreover obtain m' where "dec_entries (dec_any False) VNil (map (\<lambda>(k, v). (k, json_doc v)) ms) (aput k x m) = (m', None)"
      using Cons by fastforce
    ultimately show ?case by (simp add: e keep_first_def)
  qed simp
  moreover have "\<forall>(k, v) \<in> set (sort_members inputs). scalar v \<and> good v" using assms by (auto simp: list_all_iff)
  ultimately show ?thesis by (simp add: dec_map_def json_doc_obj)
qed

lemmas dec_record = dec_Payload_def dec_part payload_field_def base_payload_def common_json_def zero_Payload_def keep_first_def

lemma payload_decodes:
  assumes "i < n" "n \<le> nat maxSafeInteger"
  shows "good (CInt hmax) \<Longrightarrow> good (CInt htol) \<Longrightarrow>
    dec_Payload (json_doc (CObj (plan_payload run recorder fp n i prev (first_plan ts hmax htol nonce)))) zero_Payload
      = ((base_payload run recorder fp i prev ts ''open'')\<lparr>pl_HMax := hmax, pl_HTol := htol,
           pl_CPNonce := (case nonce of None \<Rightarrow> [] | Some c \<Rightarrow> c)\<rparr>, None)"
    and "dec_Payload (json_doc (CObj (plan_payload run recorder fp n i prev (closePlan ts None [])))) zero_Payload
      = ((base_payload run recorder fp i prev ts ''close'')\<lparr>pl_Count := int n, pl_Head := prev\<rparr>, None)"
    and "dec_Payload (json_doc (CObj (plan_payload run recorder fp n i prev (step_plan (Beat ts))))) zero_Payload
      = (base_payload run recorder fp i prev ts ''heartbeat'', None)"
    and "honest_step (Event ts cls ident dir decision) \<Longrightarrow>
      \<exists>d. dec_Payload (json_doc (CObj (plan_payload run recorder fp n i prev (step_plan (Event ts cls ident dir decision))))) zero_Payload
      = ((base_payload run recorder fp i prev ts ''activity'')\<lparr>pl_Event := Some \<lparr>ev_Class = cls, ev_ID = ident, ev_Dir = dir\<rparr>,
           pl_Decision := d\<rparr>, None)"
proof -
  have ints: "good (CInt (int i))" "good (CInt (int n))" using assms by (auto simp: maxSafeInteger_def)
  note dec = dec_int_doc [OF ints(1)] dec_int_doc [OF ints(2)] dec_int_doc [OF small_ints(1)]
  show "dec_Payload (json_doc (CObj (plan_payload run recorder fp n i prev (first_plan ts hmax htol nonce)))) zero_Payload
      = ((base_payload run recorder fp i prev ts ''open'')\<lparr>pl_HMax := hmax, pl_HTol := htol,
           pl_CPNonce := (case nonce of None \<Rightarrow> [] | Some c \<Rightarrow> c)\<rparr>, None)" if "good (CInt hmax)" "good (CInt htol)"
    using that by (cases nonce) (simp_all add: payload_json dec_record dec del: good.simps)
  show "dec_Payload (json_doc (CObj (plan_payload run recorder fp n i prev (closePlan ts None [])))) zero_Payload
      = ((base_payload run recorder fp i prev ts ''close'')\<lparr>pl_Count := int n, pl_Head := prev\<rparr>, None)"
    by (simp add: payload_json dec_record dec del: good.simps)
  show "dec_Payload (json_doc (CObj (plan_payload run recorder fp n i prev (step_plan (Beat ts))))) zero_Payload
      = (base_payload run recorder fp i prev ts ''heartbeat'', None)"
    unfolding payload_json by (simp add: dec_record dec del: good.simps)
  show "\<exists>d. dec_Payload (json_doc (CObj (plan_payload run recorder fp n i prev (step_plan (Event ts cls ident dir decision))))) zero_Payload
      = ((base_payload run recorder fp i prev ts ''activity'')\<lparr>pl_Event := Some \<lparr>ev_Class = cls, ev_ID = ident, ev_Dir = dir\<rparr>,
           pl_Decision := d\<rparr>, None)" if h: "honest_step (Event ts cls ident dir decision)"
  proof (cases decision)
    case None
    then show ?thesis
      unfolding payload_json by (simp add: dec_record dec dec_ptr_def dec_Event_def zero_Event_def del: good.simps)
  next
    case (Some d)
    obtain policy request inputs vd where d: "d = (policy, request, inputs, vd)" by (cases d) auto
    obtain m where m: "dec_map (dec_any False) VNil (json_doc (CObj inputs)) [] = (m, None)"
      using inputs_decode [of inputs "[]"] h Some d by (auto simp: honest_decision_def)
    show ?thesis
      unfolding payload_json Some d
      by (simp add: dec_record dec dec_ptr_def dec_Event_def zero_Event_def dec_Decision_def zero_Decision_def m del: good.simps)
  qed
qed

lemma integer_field:
  "raw_map j = Inr (Some obj) \<Longrightarrow> alookup obj field = Some (JNum (show_int n)) \<Longrightarrow> good (CInt n) \<Longrightarrow>
     integerField (Inr j) field = Inr n"
  by (simp add: integerField_def isJSONNull_def dec_number_def number_Int64_def parse_int64_show in64_def maxSafeInteger_def)

lemma decision_schema:
  assumes "honest_decision (policy, request, inputs, vd)"
  shows "validateDecisionSchema (Inr (JObj [(''inputs'', json_doc (CObj inputs)), (''policy'', JStr policy),
    (''request_fp'', JStr request), (''verdict'', JStr vd)])) = None"
proof -
  have d: "distinct (map fst inputs)" and g: "\<forall>(k, v) \<in> set inputs. scalar v \<and> good v"
    using assms by (auto simp: honest_decision_def list_all_iff)
  let ?ins = "map (\<lambda>(k, v). (k, json_doc v)) (sort_members inputs)"
  have "map fst ?ins = map fst (sort_members inputs)" by (simp add: comp_def split_def)
  then have o: "obj_map ?ins = ?ins" using d by (intro obj_map_distinct) (simp only: distinct_keys_sort)
  have v: "\<forall>(k, v) \<in> set inputs. validateDecisionInputValue (json_doc v) = None"
    using g scalar_any(2) by auto
  have "closedObjectFields (Inr (JObj [(''inputs'', i), (''policy'', JStr policy), (''request_fp'', JStr request), (''verdict'', JStr vd)]))
      ''decision'' [''policy'', ''request_fp'', ''inputs'', ''verdict'']
      = Inr [(''inputs'', i), (''policy'', JStr policy), (''request_fp'', JStr request), (''verdict'', JStr vd)]" for i
    by (simp add: closedObjectFields_def objectFields_def raw_map_def obj_map_def)
  moreover have "objectFields (Inr (json_doc (CObj inputs))) ''decision.inputs'' = Inr ?ins"
    by (simp add: objectFields_def json_doc_obj raw_map_def o)
  moreover have "first_some (\<lambda>(key, value).
      wrap_err (\<lambda>e. Errorf ''decision.inputs.%s: %w'' [S key, E e]) (validateDecisionInputValue value)) ?ins = None"
    unfolding first_some_None_iff using v by auto
  ultimately show ?thesis
    using assms
    by (simp add: validateDecisionSchema_def requireField_def has_key_def requiredSHA256Hex_def requiredString_def isJSONNull_def
        dec_string_def raw_field_def validateEnumRaw_def honest_decision_def not_le [symmetric])
qed

lemma payload_schema:
  assumes "named run recorder fp" "is_sha256_hex prev" "i < n" "n \<le> nat maxSafeInteger" "timestamp ts"
  shows "good (CInt hmax) \<Longrightarrow> 0 \<le> hmax \<Longrightarrow> good (CInt htol) \<Longrightarrow> 0 \<le> htol \<Longrightarrow>
      parse_json raw = Inr (json_doc (CObj (plan_payload run recorder fp n i prev (first_plan ts hmax htol nonce)))) \<Longrightarrow>
      validateRecordPayloadSchema raw ''open'' = None"
    and "2 \<le> n \<Longrightarrow> parse_json raw = Inr (json_doc (CObj (plan_payload run recorder fp n i prev (closePlan ts None [])))) \<Longrightarrow>
      validateRecordPayloadSchema raw ''close'' = None"
    and "parse_json raw = Inr (json_doc (CObj (plan_payload run recorder fp n i prev (step_plan (Beat ts))))) \<Longrightarrow>
      validateRecordPayloadSchema raw ''heartbeat'' = None"
    and "honest_step (Event ts cls ident dir decision) \<Longrightarrow>
      parse_json raw = Inr (json_doc (CObj (plan_payload run recorder fp n i prev (step_plan (Event ts cls ident dir decision))))) \<Longrightarrow>
      validateRecordPayloadSchema raw ''activity'' = None"
proof -
  have t: "parse_rfc3339 ts \<noteq> None" using assms(5) by (simp add: timestamp_def)
  have ints: "good (CInt (int i))" "good (CInt (int n))" using assms by (auto simp: maxSafeInteger_def)
  note nm = assms(1)[unfolded named_def]
  note field = integer_field [OF _ _ ints(1)] integer_field [OF _ _ ints(2)] integer_field [OF _ _ small_ints(1)]
  note schema = validateRecordPayloadSchema_def objectFields_def raw_map_def obj_map_def common_json_def common_record_fields_def
    record_type_fields_def requireField_def has_key_def requiredString_def isJSONNull_def dec_string_def requiredSHA256Hex_def
    requiredRFC3339_def validateExactIntegerField_def validateMinimumIntegerField_def integerField_def dec_number_def number_Int64_def
  have num: "parse_int64 (show_int m) = Some m" if "good (CInt m)" for m
    using that by (simp add: parse_int64_show in64_def maxSafeInteger_def)
  show "validateRecordPayloadSchema raw ''open'' = None"
    if "good (CInt hmax)" "0 \<le> hmax" "good (CInt htol)" "0 \<le> htol"
      "parse_json raw = Inr (json_doc (CObj (plan_payload run recorder fp n i prev (first_plan ts hmax htol nonce))))"
    using that nm assms(2) t
    by (cases nonce) (simp_all add: payload_json schema num [OF ints(1)] num [OF small_ints(1)] num del: good.simps)
  show "validateRecordPayloadSchema raw ''close'' = None"
    if "2 \<le> n" "parse_json raw = Inr (json_doc (CObj (plan_payload run recorder fp n i prev (closePlan ts None []))))"
    using that nm assms(2) t
    by (simp add: payload_json schema num [OF ints(1)] num [OF ints(2)] num [OF small_ints(1)] del: good.simps)
  show "validateRecordPayloadSchema raw ''heartbeat'' = None"
    if "parse_json raw = Inr (json_doc (CObj (plan_payload run recorder fp n i prev (step_plan (Beat ts)))))"
    using that nm assms(2) t unfolding payload_json
    by (simp add: schema num [OF ints(1)] num [OF small_ints(1)] del: good.simps)
  have event: "validateEventSchema (Inr (JObj [(''class'', JStr cls), (''dir'', JStr dir), (''id'', JStr ident)])) = None"
    if "dir \<in> {''out'', ''in'', ''internal''}"
    using that by (auto simp: validateEventSchema_def closedObjectFields_def objectFields_def raw_map_def obj_map_def requireField_def
        has_key_def requiredString_def isJSONNull_def dec_string_def raw_field_def validateEnumRaw_def)
  show "validateRecordPayloadSchema raw ''activity'' = None"
    if h: "honest_step (Event ts cls ident dir decision)"
      and r: "parse_json raw = Inr (json_doc (CObj (plan_payload run recorder fp n i prev (step_plan (Event ts cls ident dir decision)))))"
  proof (cases decision)
    case None
    then show ?thesis
      using r h nm assms(2) t event unfolding payload_json
      by (simp add: schema num [OF ints(1)] num [OF small_ints(1)] raw_field_def del: good.simps)
  next
    case (Some d)
    obtain policy request inputs vd where d: "d = (policy, request, inputs, vd)" by (cases d) auto
    have "validateDecisionSchema (Inr (JObj [(''inputs'', json_doc (CObj inputs)), (''policy'', JStr policy),
      (''request_fp'', JStr request), (''verdict'', JStr vd)])) = None"
      using h Some d by (intro decision_schema) simp
    then show ?thesis
      using r h nm assms(2) t event unfolding payload_json Some d
      by (simp add: schema num [OF ints(1)] num [OF small_ints(1)] raw_field_def del: good.simps)
  qed
qed

end
