(* ===== verification/Gen_Facts.thy ===== *)
theory Gen_Facts
  imports Gen_Payload
begin

text \<open>
  The log of an honest recorder: the generator can always make it, the loader reads back every record, and each record
  climbs the whole ladder and takes its place in the chain.
\<close>

section \<open>The chain\<close>

lemma build_from_nth:
  assumes "build_from cr sign run recorder fp len i prev plans = Inr recs" "\<forall>p \<in> set plans. rp_patch p = None"
  shows "length recs = length plans \<and> (\<forall>j < length recs.
     canonicalValue (CObj (plan_payload run recorder fp len (i + j) (if j = 0 then prev else sha256_hex cr (sr_payload (recs ! (j - 1))))
       (plans ! j))) = Inr (sr_payload (recs ! j))
     \<and> sr_sig (recs ! j) = sign (sr_payload (recs ! j)))"
  using assms
proof (induction plans arbitrary: i prev recs)
  case (Cons p plans)
  obtain raw out where r: "canonicalValue (CObj (plan_payload run recorder fp len i prev p)) = Inr raw"
    "build_from cr sign run recorder fp len (Suc i) (sha256_hex cr raw) plans = Inr out"
    "recs = \<lparr>sr_payload = raw, sr_sig = sign raw\<rparr> # out"
    using Cons.prems by (auto simp: and_then_Inr_iff Let_def)
  have "\<forall>p \<in> set plans. rp_patch p = None" using Cons.prems(2) by simp
  note IH = Cons.IH [OF r(2) this]
  show ?case
  proof (intro conjI allI impI)
    show "length recs = length (p # plans)" using IH Cons.prems(2) r(3) by simp
    fix j
    assume j: "j < length recs"
    show "canonicalValue (CObj (plan_payload run recorder fp len (i + j) (if j = 0 then prev else sha256_hex cr (sr_payload (recs ! (j - 1))))
       ((p # plans) ! j))) = Inr (sr_payload (recs ! j))" "sr_sig (recs ! j) = sign (sr_payload (recs ! j))"
    proof -
      have "canonicalValue (CObj (plan_payload run recorder fp len (i + j) (if j = 0 then prev else sha256_hex cr (sr_payload (recs ! (j - 1))))
       ((p # plans) ! j))) = Inr (sr_payload (recs ! j)) \<and> sr_sig (recs ! j) = sign (sr_payload (recs ! j))"
      proof (cases j)
        case (Suc k)
        have "recs ! k = (if k = 0 then \<lparr>sr_payload = raw, sr_sig = sign raw\<rparr> else out ! (k - 1))" using r(3) by (cases k) auto
        moreover have "k < length out" using j r(3) Suc by simp
        note conjunct2 [OF IH, rule_format, OF this]
        ultimately show ?thesis using r(3) Suc by (cases k) simp_all
      qed (use r in simp)
      then show "canonicalValue (CObj (plan_payload run recorder fp len (i + j) (if j = 0 then prev else sha256_hex cr (sr_payload (recs ! (j - 1))))
       ((p # plans) ! j))) = Inr (sr_payload (recs ! j))" "sr_sig (recs ! j) = sign (sr_payload (recs ! j))" by auto
    qed
  qed
qed auto

lemma build_from_ok:
  assumes "\<And>j prev. j < length plans \<Longrightarrow> is_sha256_hex prev \<Longrightarrow>
      \<exists>raw. canonicalValue (CObj (plan_payload run recorder fp len (i + j) prev (plans ! j))) = Inr raw"
    and "is_sha256_hex prev" "\<forall>p \<in> set plans. rp_patch p = None" "\<And>s. is_sha256_hex (sha256_hex cr s)"
  shows "\<exists>recs. build_from cr sign run recorder fp len i prev plans = Inr recs"
  using assms(1-3)
proof (induction plans arbitrary: i prev)
  case (Cons p plans)
  obtain raw where raw: "canonicalValue (CObj (plan_payload run recorder fp len i prev p)) = Inr raw"
    using Cons.prems(1) [of 0 prev] Cons.prems(2) by auto
  have "\<exists>recs. build_from cr sign run recorder fp len (Suc i) (sha256_hex cr raw) plans = Inr recs"
  proof (rule Cons.IH)
    fix j pr
    assume "j < length plans" "is_sha256_hex pr"
    then show "\<exists>raw. canonicalValue (CObj (plan_payload run recorder fp len (Suc i + j) pr (plans ! j))) = Inr raw"
      using Cons.prems(1) [of "Suc j" pr] by simp
  qed (use Cons.prems(3) assms(4) in auto)
  then show ?case using raw Cons.prems(3) by auto
qed simp

lemma hex_encode_chars: "list_all (\<lambda>c. is_digit c \<or> (97 \<le> code c \<and> code c \<le> 102)) (hex_encode s)"
proof -
  have "is_digit (hex_digit n) \<or> (97 \<le> code (hex_digit n) \<and> code (hex_digit n) \<le> 102)" if "n < 16" for n
    using that by (auto simp: hex_digit_def is_digit_def)
  moreover have "code c div 16 < 16" "code c mod 16 < 16" for c using code_bound [of c] by auto
  ultimately show ?thesis by (induction s) auto
qed

lemma is_sha256_hex_hash: "hash_width cr \<Longrightarrow> is_sha256_hex (sha256_hex cr s)"
  using hex_encode_chars [of "sha256 cr s"] by (simp add: is_sha256_hex_def sha256_hex_def hash_width_def)

lemma is_sha256_hex_zero: "is_sha256_hex zeroHash"
  by (simp add: is_sha256_hex_def zeroHash_def list_all_iff) (simp add: is_digit_def)

section \<open>Honest recorders\<close>

text \<open>The key of the recorder is published and its signatures verify; the hash has the width of SHA-256.\<close>

definition honest_key :: "crypto \<Rightarrow> keys \<Rightarrow> string \<Rightarrow> (string \<Rightarrow> string) \<Rightarrow> bool" where
  "honest_key cr ks fp sign \<longleftrightarrow> hash_width cr
     \<and> (\<exists>pub. alookup ks fp = Some pub \<and> (\<forall>m. length (sign m) = SignatureSize \<and> ed25519_verify cr pub m (sign m)))"

record recording =
  hl_run :: string
  hl_recorder :: string
  hl_fp :: string
  hl_open :: string
  hl_hmax :: int
  hl_htol :: int
  hl_nonce :: "string option"
  hl_steps :: "step list"
  hl_close :: string

definition hl_size :: "recording \<Rightarrow> nat" where
  "hl_size h = length (hl_steps h) + 2"

definition hl_plans :: "recording \<Rightarrow> recordPlan list" where
  "hl_plans h = log_plans (hl_open h) (hl_hmax h) (hl_htol h) (hl_nonce h) (hl_steps h) (hl_close h)"

definition hl_times :: "recording \<Rightarrow> string list" where
  "hl_times h = hl_open h # map step_ts (hl_steps h) @ [hl_close h]"

definition within :: "int \<Rightarrow> string \<Rightarrow> string \<Rightarrow> bool" where
  "within limit t u \<longleftrightarrow>
     (case (parse_rfc3339 t, parse_rfc3339 u) of (Some a, Some b) \<Rightarrow> a \<le> b \<and> time_sub b a \<le> limit | _ \<Rightarrow> False)"

text \<open>A recording that keeps the rules: it opens with a heartbeat interval, has a heartbeat, and no gap is longer than the
  interval and its tolerance.\<close>

definition honest :: "recording \<Rightarrow> bool" where
  "honest h \<longleftrightarrow> named (hl_run h) (hl_recorder h) (hl_fp h) \<and> list_all timestamp (hl_times h)
     \<and> 0 < hl_hmax h \<and> hl_hmax h \<le> maxSafeInteger \<and> 0 \<le> hl_htol h \<and> hl_htol h \<le> maxSafeInteger
     \<and> (case hl_nonce h of None \<Rightarrow> True | Some c \<Rightarrow> valid_utf8 c) \<and> list_all honest_step (hl_steps h)
     \<and> hl_size h \<le> nat maxSafeInteger \<and> list_ex (\<lambda>st. case st of Beat _ \<Rightarrow> True | _ \<Rightarrow> False) (hl_steps h)
     \<and> (\<forall>i < length (hl_steps h) + 1. within (heartbeat_limit (hl_hmax h) (hl_htol h)) (hl_times h ! i) (hl_times h ! Suc i))"

lemma hl_plans_at:
  "length (hl_plans h) = hl_size h" "\<forall>p \<in> set (hl_plans h). rp_patch p = None"
  "hl_plans h ! 0 = first_plan (hl_open h) (hl_hmax h) (hl_htol h) (hl_nonce h)"
  "j < length (hl_steps h) \<Longrightarrow> hl_plans h ! Suc j = step_plan (hl_steps h ! j)"
  "hl_plans h ! Suc (length (hl_steps h)) = closePlan (hl_close h) None []"
proof -
  have "rp_patch (step_plan st) = None" for st
    by (cases st) (simp_all add: activity_def heartbeat_def plan_def)
  then show "\<forall>p \<in> set (hl_plans h). rp_patch p = None"
    by (auto simp: hl_plans_def log_plans_def first_plan_def open_plan_def openNonce_def closePlan_def plan_def split: option.split)
qed (simp_all add: hl_plans_def log_plans_def hl_size_def nth_append)

text \<open>What the payload at each place says.\<close>

definition payload_ok :: "recording \<Rightarrow> nat \<Rightarrow> string \<Rightarrow> Payload \<Rightarrow> bool" where
  "payload_ok h i prev p \<longleftrightarrow>
     pl_V p = 1 \<and> pl_Run p = hl_run h \<and> pl_Recorder p = hl_recorder h \<and> pl_Key p = hl_fp h \<and> pl_Seq p = int i \<and> pl_Prev p = prev
     \<and> pl_TS p = hl_times h ! i
     \<and> (if i = 0 then pl_Type p = ''open'' \<and> pl_HMax p = hl_hmax h \<and> pl_HTol p = hl_htol h
            \<and> pl_CPNonce p = (case hl_nonce h of None \<Rightarrow> [] | Some c \<Rightarrow> c)
        else if i = Suc (length (hl_steps h)) then pl_Type p = ''close'' \<and> pl_Count p = int (hl_size h) \<and> pl_Head p = prev
        else
          (case hl_steps h ! (i - 1) of
             Event ts cls ident dir decision \<Rightarrow>
               pl_Type p = ''activity'' \<and> pl_Event p = Some \<lparr>ev_Class = cls, ev_ID = ident, ev_Dir = dir\<rparr>
           | Beat ts \<Rightarrow> pl_Type p = ''heartbeat''))"

lemma honest_doc:
  assumes "honest h" "i < hl_size h" "is_sha256_hex prev"
  defines "doc \<equiv> CObj (plan_payload (hl_run h) (hl_recorder h) (hl_fp h) (hl_size h) i prev (hl_plans h ! i))"
  shows "good doc" "shallow 4 doc"
proof -
  have h: "named (hl_run h) (hl_recorder h) (hl_fp h)" "\<forall>ts \<in> set (hl_times h). timestamp ts" "hl_size h \<le> nat maxSafeInteger"
    "good (CInt (hl_hmax h))" "good (CInt (hl_htol h))" "\<forall>c. hl_nonce h = Some c \<longrightarrow> valid_utf8 c"
    "\<forall>st \<in> set (hl_steps h). honest_step st"
    using assms(1) by (auto simp: honest_def list_all_iff maxSafeInteger_def)
  have t: "valid_utf8 ts" if "ts \<in> set (hl_times h)" for ts using h(2) that by (simp add: timestamp_def)
  note base = h(1) assms(3,2) h(3)
  consider (first) "i = 0" | (last) "i = Suc (length (hl_steps h))" | (mid) k where "i = Suc k" "k < length (hl_steps h)"
    using assms(2) by (cases i) (auto simp: hl_size_def less_Suc_eq)
  then have "good doc \<and> shallow 4 doc"
  proof cases
    case first
    then have p: "hl_plans h ! i = first_plan (hl_open h) (hl_hmax h) (hl_htol h) (hl_nonce h)" using hl_plans_at(3) by simp
    have "valid_utf8 (hl_open h)" using t by (simp add: hl_times_def)
    then show ?thesis
      using good_payload(1) [OF base, of "hl_open h"] h by (auto simp: doc_def p plan_defs split: option.split)
  next
    case last
    then have p: "hl_plans h ! i = closePlan (hl_close h) None []" using hl_plans_at(5) by simp
    have "valid_utf8 (hl_close h)" using t by (simp add: hl_times_def)
    then show ?thesis using good_payload(3) [OF base, of "hl_close h"] by (auto simp: doc_def p plan_defs has_key_def)
  next
    case mid
    let ?st = "hl_steps h ! k"
    have p: "hl_plans h ! i = step_plan ?st" using mid hl_plans_at(4) by simp
    have st: "honest_step ?st" "valid_utf8 (step_ts ?st)" using h(7) mid t by (simp_all add: hl_times_def)
    have sh: "list_all (\<lambda>(k, v). shallow d v) inputs" if "list_all (\<lambda>(_, v). scalar v) inputs" for d inputs
      using that by (fastforce simp: list_all_iff scalar_def split: cvalue.splits)
    have "shallow 4 doc"
      unfolding doc_def p using st(1) sh by (cases ?st) (auto simp: plan_defs honest_decision_def sh split: option.splits)
    then show ?thesis using good_payload(2) [OF base st(2,1)] by (auto simp: doc_def p)
  qed
  then show "good doc" "shallow 4 doc" by simp_all
qed

lemma honest_payload:
  assumes "honest h" "i < hl_size h" "is_sha256_hex prev"
  obtains raw p where
    "canonicalValue (CObj (plan_payload (hl_run h) (hl_recorder h) (hl_fp h) (hl_size h) i prev (hl_plans h ! i))) = Inr raw"
    "Canonicalize raw = Inr raw" "unmarshal dec_Payload raw zero_Payload = (p, None)"
    "validateRecordPayloadSchema raw (pl_Type p) = None" "payload_ok h i prev p"
proof -
  have h: "named (hl_run h) (hl_recorder h) (hl_fp h)" "\<forall>ts \<in> set (hl_times h). timestamp ts" "hl_size h \<le> nat maxSafeInteger"
    "good (CInt (hl_hmax h))" "0 \<le> hl_hmax h" "good (CInt (hl_htol h))" "0 \<le> hl_htol h" "\<forall>c. hl_nonce h = Some c \<longrightarrow> valid_utf8 c"
    "\<forall>st \<in> set (hl_steps h). honest_step st"
    using assms(1) by (auto simp: honest_def list_all_iff maxSafeInteger_def)
  note base = h(1) assms(3,2) h(3) and doc = honest_doc [OF assms]
  let ?doc = "CObj (plan_payload (hl_run h) (hl_recorder h) (hl_fp h) (hl_size h) i prev (hl_plans h ! i))"
  have len: "length (hl_times h) = hl_size h" by (simp add: hl_times_def hl_size_def)
  then have t: "timestamp (hl_times h ! i)" using h(2) assms(2) by simp
  note result = that
  have ends: thesis
    if "canonicalValue ?doc = Inr raw" "Canonicalize raw = Inr raw" "parse_json raw = Inr (json_doc ?doc)"
      "dec_Payload (json_doc ?doc) zero_Payload = (p, None)" "validateRecordPayloadSchema raw (pl_Type p) = None" "payload_ok h i prev p"
    for raw p
    using that by (intro result [of raw p]) (simp_all add: unmarshal_def)
  consider (first) "i = 0" | (last) "i = Suc (length (hl_steps h))" | (mid) k where "i = Suc k" "k < length (hl_steps h)"
    using assms(2) by (cases i) (auto simp: hl_size_def less_Suc_eq)
  then show thesis
  proof cases
    case first
    have ts: "hl_times h ! i = hl_open h" using first by (simp add: hl_times_def)
    have p: "hl_plans h ! i = first_plan (hl_open h) (hl_hmax h) (hl_htol h) (hl_nonce h)" using first hl_plans_at(3) by simp
    from canonicalValue_good [OF doc] obtain raw where raw: "canonicalValue ?doc = Inr raw" "Canonicalize raw = Inr raw"
      "parse_json raw = Inr (json_doc ?doc)" by auto
    note dec = payload_decodes(1) [OF assms(2) h(3) h(4,6), of "hl_run h" "hl_recorder h" "hl_fp h" prev "hl_open h" "hl_nonce h", folded p]
    have schema: "validateRecordPayloadSchema raw ''open'' = None"
      using payload_schema(1) [OF base t [unfolded ts] h(4-7)] raw(3) unfolding p by blast
    show thesis
      by (rule ends [OF raw dec]) (use schema first ts in \<open>simp_all add: payload_ok_def base_payload_def zero_Payload_def\<close>)
  next
    case last
    have ts: "hl_times h ! i = hl_close h" using last by (simp add: hl_times_def nth_append)
    have p: "hl_plans h ! i = closePlan (hl_close h) None []" using last hl_plans_at(5) by simp
    from canonicalValue_good [OF doc] obtain raw where raw: "canonicalValue ?doc = Inr raw" "Canonicalize raw = Inr raw"
      "parse_json raw = Inr (json_doc ?doc)" by auto
    note dec = payload_decodes(2) [OF assms(2) h(3), of "hl_run h" "hl_recorder h" "hl_fp h" prev "hl_close h", folded p]
    have "2 \<le> hl_size h" by (simp add: hl_size_def)
    then have schema: "validateRecordPayloadSchema raw ''close'' = None"
      using payload_schema(2) [OF base t [unfolded ts]] raw(3) unfolding p by blast
    show thesis
      by (rule ends [OF raw dec]) (use schema last ts in \<open>simp_all add: payload_ok_def base_payload_def zero_Payload_def\<close>)
  next
    case mid
    let ?st = "hl_steps h ! k"
    have ts: "hl_times h ! i = step_ts ?st" using mid by (simp add: hl_times_def nth_append)
    have p: "hl_plans h ! i = step_plan ?st" using mid hl_plans_at(4) by simp
    have st: "honest_step ?st" using h(9) mid by simp
    from canonicalValue_good [OF doc] obtain raw where raw: "canonicalValue ?doc = Inr raw" "Canonicalize raw = Inr raw"
      "parse_json raw = Inr (json_doc ?doc)" by auto
    show thesis
    proof (cases ?st)
      case (Event ts' cls ident dir decision)
      obtain d where dec: "dec_Payload (json_doc ?doc) zero_Payload
          = ((base_payload (hl_run h) (hl_recorder h) (hl_fp h) i prev ts' ''activity'')
              \<lparr>pl_Event := Some \<lparr>ev_Class = cls, ev_ID = ident, ev_Dir = dir\<rparr>, pl_Decision := d\<rparr>, None)"
        using payload_decodes(4) [OF assms(2) h(3) st [unfolded Event]] unfolding p Event by blast
      have "validateRecordPayloadSchema raw ''activity'' = None"
        using payload_schema(4) [OF base t [unfolded ts Event step_ts.simps] st [unfolded Event]] raw(3) unfolding p Event by blast
      then show thesis
        by (intro ends [OF raw dec]) (use mid ts Event in \<open>simp_all add: payload_ok_def base_payload_def zero_Payload_def\<close>)
    next
      case (Beat ts')
      note dec = payload_decodes(3) [OF assms(2) h(3), of "hl_run h" "hl_recorder h" "hl_fp h" prev ts', folded Beat, folded p]
      have "validateRecordPayloadSchema raw ''heartbeat'' = None"
        using payload_schema(3) [OF base t [unfolded ts Beat step_ts.simps]] raw(3) unfolding p Beat by blast
      then show thesis
        by (intro ends [OF raw dec]) (use mid ts Beat in \<open>simp_all add: payload_ok_def base_payload_def zero_Payload_def\<close>)
    qed
  qed
qed

section \<open>The records\<close>

definition hl_prev :: "crypto \<Rightarrow> signedRecord list \<Rightarrow> nat \<Rightarrow> string" where
  "hl_prev cr recs i = (if i = 0 then zeroHash else sha256_hex cr (sr_payload (recs ! (i - 1))))"

definition record_ok :: "crypto \<Rightarrow> (string \<Rightarrow> string) \<Rightarrow> recording \<Rightarrow> signedRecord list \<Rightarrow> nat \<Rightarrow> Payload \<Rightarrow> bool" where
  "record_ok cr sign h recs i p \<longleftrightarrow>
     (let raw = sr_payload (recs ! i) in
      sr_sig (recs ! i) = sign raw \<and> Canonicalize raw = Inr raw \<and> unmarshal dec_Payload raw zero_Payload = (p, None)
      \<and> validateRecordPayloadSchema raw (pl_Type p) = None \<and> payload_ok h i (hl_prev cr recs i) p)"

lemma honest_records:
  assumes "honest h" "hash_width cr"
  obtains recs where "buildRecords cr sign (hl_run h) (hl_recorder h) (hl_fp h) (hl_plans h) = Inr recs" "length recs = hl_size h"
    "\<And>i. i < hl_size h \<Longrightarrow> \<exists>p. record_ok cr sign h recs i p"
proof -
  have "\<exists>recs. build_from cr sign (hl_run h) (hl_recorder h) (hl_fp h) (hl_size h) 0 zeroHash (hl_plans h) = Inr recs"
  proof (rule build_from_ok)
    fix j prev
    assume "j < length (hl_plans h)" "is_sha256_hex prev"
    then show "\<exists>raw. canonicalValue (CObj (plan_payload (hl_run h) (hl_recorder h) (hl_fp h) (hl_size h) (0 + j) prev (hl_plans h ! j))) = Inr raw"
      using honest_payload [OF assms(1), of j prev] hl_plans_at(1) [of h] by auto
  qed (use is_sha256_hex_zero hl_plans_at(2) is_sha256_hex_hash assms(2) in auto)
  then obtain recs where r: "build_from cr sign (hl_run h) (hl_recorder h) (hl_fp h) (hl_size h) 0 zeroHash (hl_plans h) = Inr recs" by blast
  note nth = build_from_nth [OF r hl_plans_at(2)]
  show thesis
  proof (rule that)
    show "buildRecords cr sign (hl_run h) (hl_recorder h) (hl_fp h) (hl_plans h) = Inr recs"
      using r by (simp add: buildRecords_def hl_plans_at(1))
    show len: "length recs = hl_size h" using nth hl_plans_at(1) by simp
    fix i
    assume i: "i < hl_size h"
    have "is_sha256_hex (hl_prev cr recs i)" by (simp add: hl_prev_def is_sha256_hex_zero is_sha256_hex_hash assms(2))
    from honest_payload [OF assms(1) i this] obtain raw p where
      "canonicalValue (CObj (plan_payload (hl_run h) (hl_recorder h) (hl_fp h) (hl_size h) i (hl_prev cr recs i) (hl_plans h ! i))) = Inr raw"
      "Canonicalize raw = Inr raw" "unmarshal dec_Payload raw zero_Payload = (p, None)"
      "validateRecordPayloadSchema raw (pl_Type p) = None" "payload_ok h i (hl_prev cr recs i) p" .
    moreover have "canonicalValue (CObj (plan_payload (hl_run h) (hl_recorder h) (hl_fp h) (hl_size h) i (hl_prev cr recs i) (hl_plans h ! i)))
        = Inr (sr_payload (recs ! i))" "sr_sig (recs ! i) = sign (sr_payload (recs ! i))"
      using conjunct2 [OF nth, rule_format, of i] i len by (simp_all add: hl_prev_def)
    ultimately show "\<exists>p. record_ok cr sign h recs i p" by (auto simp: record_ok_def Let_def)
  qed
qed

lemma ParseRecordLine_line:
  assumes "sr_payload r \<noteq> []" "sr_sig r \<noteq> []" "unmarshal dec_Payload (sr_payload r) zero_Payload = (p, None)"
  shows "ParseRecordLine cr (line r) file n = (new_Record (line r) file n)
     \<lparr>rec_PayloadRaw := sr_payload r, rec_Signature := sr_sig r, rec_Hash := sha256_hex cr (sr_payload r), rec_Payload := p\<rparr>"
proof -
  have l: "line r = record_line (sr_payload r) (sr_sig r)" by (simp add: line_def record_line_def)
  have "new_Record l f n\<lparr>rec_ParseErr := None\<rparr> = new_Record l f n" for l f by (simp add: new_Record_def)
  then show ?thesis
    using assms unfolding l
    by (simp add: ParseRecordLine_def Let_def compactLineRE_def split_record_line rawurl_encode_compact decodeCompactBase64_encode
        new_Record_def)
qed

text \<open>A key is written in lower case.\<close>

lemma to_lower_hex: "is_sha256_hex s \<Longrightarrow> to_lower s = s"
  unfolding to_lower_def by (rule map_idI) (auto simp: is_sha256_hex_def list_all_iff is_digit_def lower_char_def)

lemma parse_json_Nil: "parse_json [] \<noteq> Inr j"
  by (simp add: parse_json_def)

definition checked :: "crypto \<Rightarrow> keys \<Rightarrow> string \<Rightarrow> signedRecord list \<Rightarrow> nat \<Rightarrow> Record" where
  "checked cr ks path recs i = Verify cr ks (ParseRecordLine cr (line (recs ! i)) path (int i + 1))"

lemma checked_record:
  assumes "record_ok cr sign h recs i p" "honest_key cr ks (hl_fp h) sign" "is_sha256_hex (hl_fp h)"
  shows "parsed (checked cr ks path recs i)" "authentic (checked cr ks path recs i)" "rec_CanonicalOK (checked cr ks path recs i)"
    "rec_SchemaOK (checked cr ks path recs i)" "rec_Payload (checked cr ks path recs i) = p"
    "rec_Hash (checked cr ks path recs i) = sha256_hex cr (sr_payload (recs ! i))"
    "rec_PayloadRaw (checked cr ks path recs i) = sr_payload (recs ! i)"
proof -
  let ?r = "recs ! i"
  let ?rec = "(new_Record (line ?r) path (int i + 1))
     \<lparr>rec_PayloadRaw := sr_payload ?r, rec_Signature := sr_sig ?r, rec_Hash := sha256_hex cr (sr_payload ?r), rec_Payload := p\<rparr>"
  have r: "sr_sig ?r = sign (sr_payload ?r)" "Canonicalize (sr_payload ?r) = Inr (sr_payload ?r)"
    "unmarshal dec_Payload (sr_payload ?r) zero_Payload = (p, None)" "validateRecordPayloadSchema (sr_payload ?r) (pl_Type p) = None"
    "pl_Key p = hl_fp h"
    using assms(1) by (auto simp: record_ok_def Let_def payload_ok_def)
  obtain pub where pub: "alookup ks (to_lower (hl_fp h)) = Some pub" "length (sr_sig ?r) = SignatureSize"
    "ed25519_verify cr pub (sr_payload ?r) (sr_sig ?r)"
    using assms(2) r(1) by (auto simp: honest_key_def to_lower_hex [OF assms(3)])
  have "sr_payload ?r \<noteq> []" using r(3) parse_json_Nil by (auto simp: unmarshal_def split: sum.splits)
  moreover have "sr_sig ?r \<noteq> []" using pub(2) by (auto simp: SignatureSize_def)
  ultimately have line: "ParseRecordLine cr (line ?r) path (int i + 1) = ?rec" using r(3) by (rule ParseRecordLine_line)
  have u: "unverified ?rec" by (simp add: unverified_def new_Record_def)
  have sb: "signed_by cr ks ?rec" using pub r(5) by (simp add: signed_by_def new_Record_def)
  have "IsCanonical (sr_payload ?r)" using r(2) by (simp add: IsCanonical_def)
  then show "authentic (checked cr ks path recs i)" "rec_CanonicalOK (checked cr ks path recs i)" "rec_SchemaOK (checked cr ks path recs i)"
    using sb pub(1) r(4,5) u
    by (simp_all add: checked_def line authentic_def Verify_SignatureOK Verify_SignatureUV Verify_CanonicalOK Verify_SchemaOK)
  show "parsed (checked cr ks path recs i)" "rec_Payload (checked cr ks path recs i) = p"
    "rec_Hash (checked cr ks path recs i) = sha256_hex cr (sr_payload ?r)" "rec_PayloadRaw (checked cr ks path recs i) = sr_payload ?r"
    by (simp_all add: checked_def line parsed_def new_Record_def)
qed

section \<open>The log\<close>

definition checked_log :: "crypto \<Rightarrow> keys \<Rightarrow> recording \<Rightarrow> string \<Rightarrow> signedRecord list \<Rightarrow> RecorderLog" where
  "checked_log cr ks h path recs =
     \<lparr>log_ID = hl_recorder h, log_Run = hl_run h, log_Key = hl_fp h, log_File = path,
      log_Records = map (checked cr ks path recs) [0..<length recs]\<rparr>"

lemma line_chars: "c \<in> set (line r) \<Longrightarrow> compact_char c \<or> c = CHR ''.''" "line r \<noteq> []"
  using rawurl_encode_compact(1) [of "sr_payload r"] rawurl_encode_compact(1) [of "sr_sig r"]
  by (auto simp: line_def list_all_iff)

lemma line_breaks: "CHR 0x0A \<notin> set (line r)" "drop_cr (line r) = line r" "trim_right_cr (line r) = line r"
proof -
  have n: "\<not> (compact_char (CHR 0x0A) \<or> CHR 0x0A = CHR ''.'')" "\<not> (compact_char (CHR 0x0D) \<or> CHR 0x0D = CHR ''.'')" by code_simp+
  then show "CHR 0x0A \<notin> set (line r)" using line_chars(1) by metis
  have l: "last (line r) \<noteq> CHR 0x0D" using n(2) line_chars(1) [of "CHR 0x0D" r] line_chars(2) [of r] last_in_set by metis
  then show "drop_cr (line r) = line r"
    using line_chars(2) [of r] by (auto simp: drop_cr_def trim_suffix_def has_suffix_def last_conv_nth Cons_nth_drop_Suc [symmetric])
  have "dropWhile (\<lambda>c. c = CHR 0x0D) (rev (line r)) = rev (line r)"
    using l line_chars(2) [of r] by (cases "rev (line r)") (auto simp: hd_rev [symmetric])
  then show "trim_right_cr (line r) = line r" by (simp add: trim_right_cr_def)
qed

lemma scan_log_text:
  assumes "recs \<noteq> []" "\<forall>r \<in> set recs. length (line r) < max_scan_token"
  shows "scan_lines \<lparr>f_data = log_text recs, f_err = None\<rparr> = (map line recs, None)"
proof -
  have split: "split_on (CHR 0x0A) (log_text recs) = map line recs @ [[]]" if "recs \<noteq> []" for recs
    using that
  proof (induction recs)
    case (Cons r rs)
    then show ?case
      using line_breaks(1) [of r]
      by (cases rs) (simp_all add: log_text_def newline_def split_on_sep_append split_on_no_sep)
  qed simp
  have "scan_parts (map line recs @ [[]]) = (map line recs, None)" using assms(2)
  proof (induction recs)
    case (Cons r rs)
    then show ?case by (cases rs) (simp_all add: line_breaks(2) max_scan_token_def)
  qed (simp add: max_scan_token_def)
  then show ?thesis using split [OF assms(1)] by (simp add: scan_lines_def keep_first_def)
qed

lemma numbered_log: "numbered_lines n (map line recs) = map (\<lambda>i. (n + int i, line (recs ! i))) [0..<length recs]"
proof (induction recs arbitrary: n)
  case (Cons r rs)
  have "[0..<length (r # rs)] = 0 # map Suc [0..<length rs]" by (simp add: map_Suc_upt upt_conv_Cons del: upt_Suc)
  then show ?case using Cons line_chars(2) [of r] by (simp add: line_breaks(3) comp_def algebra_simps)
qed simp

lemma honest_log_loads:
  assumes "recs \<noteq> []" "\<forall>r \<in> set recs. length (line r) < max_scan_token" "is_sha256_hex (hl_fp h)"
    and "openArtifactFile fs path = Inr \<lparr>f_data = log_text recs, f_err = None\<rparr>"
  shows "\<exists>l. loadRecorderLog cr fs \<lparr>mr_ID = hl_recorder h, mr_Run = hl_run h, mr_Key = hl_fp h, mr_File = path\<rparr> = Inr l
    \<and> verify_log cr ks l = checked_log cr ks h path recs"
  using assms(4) scan_log_text [OF assms(1,2)]
  by (simp add: loadRecorderLog_def numbered_log verify_log_def checked_log_def checked_def comp_def to_lower_hex assms(3) algebra_simps)

text \<open>A log that fulfils the whole contract of one recorder.\<close>

definition whole_log :: "RecorderLog \<Rightarrow> bool" where
  "whole_log log \<longleftrightarrow>
     (\<forall>r \<in> set (log_Records log). authentic r \<and> rec_CanonicalOK r \<and> rec_SchemaOK r)
     \<and> every ordered_at log \<and> every linked_at log \<and> opened log \<and> (\<forall>i < length (log_Records log). numbered_at log i)
     \<and> beating log \<and> closed_log log \<and> close_only_last log"

lemma honest_log_whole:
  assumes h: "honest h" and key: "honest_key cr ks (hl_fp h) sign" and len: "length recs = hl_size h"
    and ok: "\<And>i. i < hl_size h \<Longrightarrow> \<exists>p. record_ok cr sign h recs i p"
  shows "whole_log (checked_log cr ks h path recs)"
proof -
  let ?log = "checked_log cr ks h path recs" and ?m = "length (hl_steps h)"
  have fp: "is_sha256_hex (hl_fp h)" using h by (simp add: honest_def named_def)
  have n: "length (log_Records ?log) = hl_size h" "hl_size h = Suc (Suc ?m)" using len by (simp_all add: checked_log_def hl_size_def)
  have at: "log_Records ?log ! i = checked cr ks path recs i" if "i < hl_size h" for i
    using that len by (simp add: checked_log_def)
  have good: "parsed (log_Records ?log ! i)" "authentic (log_Records ?log ! i)" "rec_CanonicalOK (log_Records ?log ! i)"
    "rec_SchemaOK (log_Records ?log ! i)" "payload_ok h i (hl_prev cr recs i) (payload_at ?log i)"
    "rec_Hash (log_Records ?log ! i) = sha256_hex cr (sr_payload (recs ! i))" if i: "i < hl_size h" for i
  proof -
    obtain p where p: "record_ok cr sign h recs i p" using ok i by blast
    note c = checked_record [OF p key fp, of path]
    show "parsed (log_Records ?log ! i)" "authentic (log_Records ?log ! i)" "rec_CanonicalOK (log_Records ?log ! i)"
      "rec_SchemaOK (log_Records ?log ! i)" "rec_Hash (log_Records ?log ! i) = sha256_hex cr (sr_payload (recs ! i))"
      using c at [OF i] by simp_all
    show "payload_ok h i (hl_prev cr recs i) (payload_at ?log i)"
      using c(5) at [OF i] p by (simp add: record_ok_def Let_def)
  qed
  note pay = good(5)[unfolded payload_ok_def]
  have ids: "log_ID ?log = hl_recorder h" "log_Run ?log = hl_run h" by (simp_all add: checked_log_def)
  have prev: "hl_prev cr recs i = (if i = 0 then zeroPrev else rec_Hash (log_Records ?log ! (i - 1)))" if "i < hl_size h" for i
    using that good(6) [of "i - 1"] by (auto simp: hl_prev_def zeroHash_def zeroPrev_def)
  have ne: "log_Records ?log \<noteq> []" using n by auto
  have all: "(\<forall>r \<in> set (log_Records ?log). P r) \<longleftrightarrow> (\<forall>i < hl_size h. P (log_Records ?log ! i))" for P
    by (metis in_set_conv_nth n(1))
  have "\<forall>r \<in> set (log_Records ?log). authentic r \<and> rec_CanonicalOK r \<and> rec_SchemaOK r"
    using good(2-4) unfolding all by blast
  moreover have "every ordered_at ?log"
    using ne pay good(1) by (auto simp: every_def ordered_at_def Let_def n(1) ids)
  moreover have "every linked_at ?log"
    using ne pay good(1) prev by (auto simp: every_def linked_at_def n(1))
  moreover have "opened ?log" using ne pay [of 0] h n by (simp add: opened_def honest_def)
  moreover have "\<forall>i < length (log_Records ?log). numbered_at ?log i" using pay good(1) by (simp add: numbered_at_def n(1))
  moreover have "beating ?log"
  proof -
    have "spaced_at ?log (heartbeat_limit (hl_hmax h) (hl_htol h)) i" if "1 \<le> i" "i < hl_size h" for i
    proof -
      have "within (heartbeat_limit (hl_hmax h) (hl_htol h)) (hl_times h ! (i - 1)) (hl_times h ! Suc (i - 1))"
      proof -
        have "\<forall>j < length (hl_steps h) + 1. within (heartbeat_limit (hl_hmax h) (hl_htol h)) (hl_times h ! j) (hl_times h ! Suc j)"
          using h unfolding honest_def by blast
        moreover have "i - 1 < length (hl_steps h) + 1" using that n(2) by simp
        ultimately show ?thesis by blast
      qed
      moreover have "Suc (i - 1) = i" using that by simp
      ultimately show ?thesis
        using pay [of "i - 1"] pay [of i] that by (simp add: spaced_at_def within_def Time_def split: option.splits)
    qed
    moreover have "\<exists>k ts. k < ?m \<and> hl_steps h ! k = Beat ts"
    proof -
      obtain st where "st \<in> set (hl_steps h)" "case st of Beat _ \<Rightarrow> True | _ \<Rightarrow> False"
        using h by (auto simp: honest_def list_ex_iff)
      moreover obtain k where "k < ?m" "hl_steps h ! k = st" using calculation(1) by (metis in_set_conv_nth)
      ultimately show ?thesis by - (cases st, auto)
    qed
    then obtain k ts where k: "k < ?m" "hl_steps h ! k = Beat ts" by blast
    then have "pl_Type (payload_at ?log (Suc k)) = ''heartbeat''" using pay [of "Suc k"] n(2) by simp
    moreover have "log_Records ?log ! Suc k \<in> set (tl (log_Records ?log))"
      using k(1) n by (metis Suc_less_eq length_tl diff_Suc_1 less_SucI nth_mem nth_tl)
    ultimately show ?thesis using ne pay [of 0] n by (auto simp: beating_def)
  qed
  moreover have "closed_log ?log"
    using pay [of "Suc ?m"] prev [of "Suc ?m"] n by (simp add: closed_log_def Let_def)
  moreover have "close_only_last ?log"
    unfolding close_only_last_def
  proof (intro allI impI)
    fix i
    assume "i < length (log_Records ?log) - 1"
    then have "i < hl_size h" "i \<noteq> Suc ?m" using n by simp_all
    then show "pl_Type (payload_at ?log i) \<noteq> ''close''" using pay [of i] by (auto split: if_splits step.splits)
  qed
  ultimately show ?thesis by (simp add: whole_log_def)
qed

end
