(* ===== verification/Gen_Lines.thy ===== *)
theory Gen_Lines
  imports Gen_Facts
begin

text \<open>
  How long the lines of a log are: a bound on the canonical text of a value, and recordings whose records fit the loader's
  scanner.
\<close>

section \<open>How long a line is\<close>

text \<open>A bound for the canonical text of a value: every byte of a string takes six at most.\<close>

fun text_bound :: "cvalue \<Rightarrow> nat" where
  "text_bound CNull = 4"
| "text_bound (CBool b) = 5"
| "text_bound (CStr s) = 6 * length s + 2"
| "text_bound (CInt n) = length (show_int n)"
| "text_bound (CArr vs) = sum_list (map (\<lambda>v. text_bound v + 1) vs) + 2"
| "text_bound (CObj ms) = sum_list (map (\<lambda>(k, v). 6 * length k + text_bound v + 4) ms) + 2"

lemma length_write_body: "length (write_body s) \<le> 6 * length s"
proof (induction s rule: write_body.induct)
  case (2 c s)
  let ?n = "snd (decode_rune (c # s))"
  have e: "length (escape_byte c) \<le> 6" by (simp add: escape_byte_def)
  consider "code c < 128" | "\<not> code c < 128" "decode_rune (c # s) = (rune_error, 1)" | "\<not> code c < 128" "decode_rune (c # s) \<noteq> (rune_error, 1)"
    by blast
  then show ?case
  proof cases
    case 1
    then show ?thesis using 2(1) e by (simp add: write_body.simps(2))
  next
    case 2
    then show ?thesis using "2.IH"(2) by (simp add: write_body.simps(2))
  next
    case 3
    have "length (write_body (drop ?n (c # s))) \<le> 6 * length (drop ?n (c # s))" using "2.IH"(3) 3 by blast
    moreover have "length (take ?n (c # s)) + length (drop ?n (c # s)) = length (c # s)" by (metis append_take_drop_id length_append)
    ultimately show ?thesis using 3 unfolding write_body.simps(2) by simp
  qed
qed simp

lemma length_seps: "length (seps xs) \<le> sum_list (map (\<lambda>x. length x + 1) xs)"
  by (induction xs rule: seps.induct) auto

lemma length_render: "length (render v) \<le> text_bound v"
proof (induction v)
  case (CStr s)
  then show ?case using length_write_body [of s] by (simp add: writeJSONString_def)
next
  case (CArr vs)
  have "sum_list (map (\<lambda>x. length x + 1) (map render vs)) \<le> sum_list (map (\<lambda>v. text_bound v + 1) vs)"
    unfolding map_map using CArr by (intro sum_list_mono) simp
  then show ?case using length_seps [of "map render vs"] by simp
next
  case (CObj ms)
  let ?f = "\<lambda>(k, v). writeJSONString k @ '':'' @ render v"
  have "length (?f m) + 1 \<le> (case m of (k, v) \<Rightarrow> 6 * length k + text_bound v + 4)" if m: "m \<in> set ms" for m
  proof -
    obtain k v where kv: "m = (k, v)" by fastforce
    have "length (render v) \<le> text_bound v" using CObj [OF m, of v] by (simp add: kv)
    then show ?thesis using length_write_body [of k] by (simp add: kv writeJSONString_def)
  qed
  then have "sum_list (map (\<lambda>x. length x + 1) (map ?f ms)) \<le> sum_list (map (\<lambda>(k, v). 6 * length k + text_bound v + 4) ms)"
    unfolding map_map by (intro sum_list_mono) simp
  then show ?case using length_seps [of "map ?f ms"] by simp
qed simp_all

lemma text_bound_sortv: "text_bound (sortv v) = text_bound v"
proof (induction v)
  case (CObj ms)
  let ?f = "\<lambda>(k, v). 6 * length k + text_bound v + 4"
  have "sum_list (map ?f (sort_members xs)) = sum_list (map ?f xs)" for xs
  proof -
    have "mset (map ?f (sort_members xs)) = mset (map ?f xs)" by simp
    then show ?thesis by (simp only: sum_mset_sum_list [symmetric])
  qed
  moreover have "text_bound (sortv v) = text_bound v" if "(k, v) \<in> set ms" for k v using CObj [OF that, of v] by simp
  then have "map ?f (map (\<lambda>(k, v). (k, sortv v)) ms) = map ?f ms" by auto
  ultimately show ?case by (simp only: sortv.simps text_bound.simps)
next
  case (CArr vs)
  then have "map (\<lambda>v. text_bound v + 1) (map sortv vs) = map (\<lambda>v. text_bound v + 1) vs" by simp
  then show ?case by (simp only: sortv.simps text_bound.simps)
qed simp_all

lemma length_canonicalValue: "canonicalValue v = Inr raw \<Longrightarrow> good v \<Longrightarrow> length raw \<le> text_bound v"
  using length_render [of "sortv v"] Canonicalize_marshal [of v] by (simp add: canonicalValue_def text_bound_sortv)

lemma length_b64: "length (b64_encode url False s) \<le> 2 * length s + 1"
  by (induction url "False" s rule: b64_encode.induct) simp_all

text \<open>Every record of the log fits a line of the loader's scanner; the hash of the predecessor has 64 characters, whatever it is.\<close>

definition fits :: "recording \<Rightarrow> bool" where
  "fits h \<longleftrightarrow> list_all (\<lambda>i. text_bound (CObj (plan_payload (hl_run h) (hl_recorder h) (hl_fp h) (hl_size h) i zeroHash (hl_plans h ! i)))
     \<le> 32000) [0..<hl_size h]"

lemma text_bound_prev:
  assumes "length prev = 64" "i < hl_size h"
  shows "text_bound (CObj (plan_payload (hl_run h) (hl_recorder h) (hl_fp h) n i prev (hl_plans h ! i)))
    = text_bound (CObj (plan_payload (hl_run h) (hl_recorder h) (hl_fp h) n i zeroHash (hl_plans h ! i)))"
proof -
  have z: "length zeroHash = 64" by (simp add: zeroHash_def)
  consider "i = 0" | "i = Suc (length (hl_steps h))" | k where "i = Suc k" "k < length (hl_steps h)"
    using assms(2) by (cases i) (auto simp: hl_size_def less_Suc_eq)
  then show ?thesis
  proof cases
    case (3 k)
    then show ?thesis using assms z hl_plans_at(4) [of k h] by (cases "hl_steps h ! k") (simp_all add: plan_defs split: option.split)
  qed (use assms z in \<open>simp_all add: hl_plans_at plan_defs has_key_def split: option.split\<close>)
qed

lemma honest_lines_fit:
  assumes "honest h" "honest_key cr ks (hl_fp h) sign" "fits h"
    and "buildRecords cr sign (hl_run h) (hl_recorder h) (hl_fp h) (hl_plans h) = Inr recs"
  shows "\<forall>r \<in> set recs. length (line r) < max_scan_token"
proof
  fix r
  assume "r \<in> set recs"
  have width: "hash_width cr" and sig: "length (sign m) = 64" for m
    using assms(2) by (auto simp: honest_key_def SignatureSize_def)
  have r: "build_from cr sign (hl_run h) (hl_recorder h) (hl_fp h) (hl_size h) 0 zeroHash (hl_plans h) = Inr recs"
    using assms(4) by (simp add: buildRecords_def hl_plans_at(1))
  note nth = build_from_nth [OF r hl_plans_at(2)]
  obtain i where i: "i < hl_size h" "r = recs ! i" using \<open>r \<in> set recs\<close> nth hl_plans_at(1) by (metis in_set_conv_nth)
  let ?prev = "hl_prev cr recs i"
  let ?doc = "CObj (plan_payload (hl_run h) (hl_recorder h) (hl_fp h) (hl_size h) i ?prev (hl_plans h ! i))"
  have c: "canonicalValue ?doc = Inr (sr_payload r)" "sr_sig r = sign (sr_payload r)"
    using conjunct2 [OF nth, rule_format, of i] i conjunct1 [OF nth] by (simp_all add: hl_prev_def hl_plans_at(1))
  have prev: "is_sha256_hex ?prev" by (simp add: hl_prev_def is_sha256_hex_zero is_sha256_hex_hash width)
  have "length (sr_payload r) \<le> text_bound ?doc" using c(1) honest_doc(1) [OF assms(1) i(1) prev] by (rule length_canonicalValue)
  also have "\<dots> \<le> 32000"
    using assms(3) i(1) prev by (simp add: text_bound_prev is_sha256_hex_def fits_def list_all_iff del: text_bound.simps)
  finally have "length (sr_payload r) \<le> 32000" .
  then show "length (line r) < max_scan_token"
    using length_b64 [of True "sr_payload r"] length_b64 [of True "sr_sig r"] sig by (simp add: line_def max_scan_token_def c(2))
qed

end
