(* ===== verification/Examples.thy ===== *)
theory Examples
  imports Grade
begin

text \<open>
  Concrete values for the witnesses: stand-ins for SHA-256 and Ed25519, a file system that holds a
  small artifact, and a view with the logs of two recorders that see the same event, with the witnesses of
  the theorems about checks.
\<close>

section \<open>A small artifact\<close>

text \<open>The last 32 bytes stand for the hash, a prefix test for the signature check.\<close>

definition ex_crypto :: crypto where
  "ex_crypto = \<lparr>sha256 = (\<lambda>s. take 32 (rev s @ replicate 32 (CHR 0x00))), ed25519_verify = (\<lambda>pub m sig. take 1 pub = take 1 sig)\<rparr>"

definition quoted :: "string \<Rightarrow> string" where
  "quoted s = CHR 0x22 # s @ [CHR 0x22]"

definition tiny_payload :: "string \<Rightarrow> nat \<Rightarrow> string" where
  "tiny_payload prev seq =
     ''{'' @ quoted ''prev'' @ '':'' @ quoted prev @ '','' @ quoted ''recorder'' @ '':'' @ quoted ''A'' @ '',''
     @ quoted ''run'' @ '':'' @ quoted ''r'' @ '','' @ quoted ''seq'' @ '':'' @ show_nat seq @ '','' @ quoted ''v'' @ '':1}''"

definition tiny_log :: string where
  "tiny_log = (let p = tiny_payload zeroPrev 0 in
     record_line p ''s'' @ [CHR 0x0A] @ record_line (tiny_payload (sha256_hex ex_crypto p) 1) ''s'' @ [CHR 0x0A])"

definition tiny_manifest :: string where
  "tiny_manifest =
     ''{'' @ quoted ''ael_format'' @ '':1,'' @ quoted ''recorders'' @ '':[{''
     @ quoted ''file'' @ '':'' @ quoted ''A'' @ '','' @ quoted ''id'' @ '':'' @ quoted ''A'' @ '','' @ quoted ''run'' @ '':'' @ quoted ''r''
     @ ''}],'' @ quoted ''runs'' @ '':['' @ quoted ''r'' @ '']}''"

definition tiny_fs :: artifact_fs where
  "tiny_fs = \<lparr>fs_root = None,
     fs_open = (\<lambda>name. if name = ''manifest.json'' then Inr \<lparr>f_data = tiny_manifest, f_err = None\<rparr>
       else if name = ''A'' then Inr \<lparr>f_data = tiny_log, f_err = None\<rparr>
       else Inl os_ErrNotExist),
     fs_policy = Inl os_ErrNotExist, fs_keys = Inr []\<rparr>"

section \<open>A view with two recorders\<close>

definition ex_hash :: "char \<Rightarrow> nat \<Rightarrow> string" where
  "ex_hash c seq = c # show_nat seq"

definition ex_payload :: "char \<Rightarrow> nat \<Rightarrow> string \<Rightarrow> Payload" where
  "ex_payload c seq typ = zero_Payload
     \<lparr>pl_V := 1, pl_Type := typ, pl_Run := ''r1'', pl_Recorder := [c], pl_Key := ''key'' @ [c], pl_Seq := int seq,
      pl_Prev := (if seq = 0 then zeroPrev else ex_hash c (seq - 1)),
      pl_TS := ''2026-01-01T00:00:'' @ show_nat seq @ ''0Z''\<rparr>"

definition ex_record :: "char \<Rightarrow> nat \<Rightarrow> Payload \<Rightarrow> Record" where
  "ex_record c seq p = (new_Record [] ([c] @ ''.jsonl'') (int seq + 1))
     \<lparr>rec_PayloadRaw := ex_hash c seq, rec_Payload := p, rec_CanonicalOK := True, rec_SchemaOK := True,
      rec_SignatureOK := True, rec_Hash := ex_hash c seq\<rparr>"

definition ex_log :: "char \<Rightarrow> RecorderLog" where
  "ex_log c = \<lparr>log_ID = [c], log_Run = ''r1'', log_Key = [], log_File = [c] @ ''.jsonl'', log_Records =
     [ex_record c 0 ((ex_payload c 0 ''open'')\<lparr>pl_HMax := 30, pl_HTol := 5, pl_CPNonce := ''n1''\<rparr>),
      ex_record c 1 ((ex_payload c 1 ''activity'')\<lparr>pl_Event := Some \<lparr>ev_Class = ''net'', ev_ID = ''e1'', ev_Dir = ''out''\<rparr>\<rparr>),
      ex_record c 2 (ex_payload c 2 ''heartbeat''),
      ex_record c 3 ((ex_payload c 3 ''close'')\<lparr>pl_Count := 4, pl_Head := ex_hash c 2\<rparr>)]\<rparr>"

definition ex_manifest :: Manifest where
  "ex_manifest = zero_Manifest\<lparr>man_AELFormat := 1, man_Runs := [''r1''],
     man_Correspondence := Some \<lparr>co_Classes = [''net''], co_Match = ''id''\<rparr>\<rparr>"

definition ex_art :: Artifact where
  "ex_art = (new_Artifact [] [] ex_manifest)\<lparr>art_RecorderLogs := [ex_log (CHR ''A''), ex_log (CHR ''B'')]\<rparr>"

definition ex_art1 :: Artifact where
  "ex_art1 = (new_Artifact [] [] ex_manifest)\<lparr>art_RecorderLogs := [ex_log (CHR ''A'')]\<rparr>"

section \<open>Witnesses: tampering\<close>

lemma tiny_evaluates:
  "case LoadArtifact ex_crypto tiny_fs of
     Inl _ \<Rightarrow> False
   | Inr a \<Rightarrow> Status (checkSequenceOrder a) = Pass \<and> Status (checkPredecessorLinks a) = Pass
       \<and> (case art_RecorderLogs a of
            [log] \<Rightarrow> length (bytes log) = 2 \<and> distinct (bytes log) \<and> distinct (map (sha256 ex_crypto) (bytes log))
          | _ \<Rightarrow> False)"
  by code_simp

theorem head_pins_history_witness:
  "\<exists>a log. LoadArtifact ex_crypto tiny_fs = Inr a \<and> log \<in> set (art_RecorderLogs a) \<and> length (bytes log) = 2
     \<and> take 2 (bytes log) = take 2 (bytes log)"
proof -
  obtain a log where a: "LoadArtifact ex_crypto tiny_fs = Inr a" "Status (checkSequenceOrder a) = Pass"
    "Status (checkPredecessorLinks a) = Pass" "art_RecorderLogs a = [log]" "length (bytes log) = 2"
    "distinct (map (sha256 ex_crypto) (bytes log))"
    using tiny_evaluates by (auto split: sum.splits list.splits)
  have "inj_on (sha256 ex_crypto) (set (bytes log) \<union> set (bytes log))" using a(6) by (simp add: distinct_map)
  then have "take 2 (bytes log) = take 2 (bytes log)"
    using head_pins_history [OF a(1) a(1) a(2,3,2,3), of log log 1 1] a(4,5) by (simp add: numeral_2_eq_2)
  then show ?thesis using a by auto
qed

theorem heartbeat_bounds_gaps_witness:
  "\<exists>t u. Time (payload_at (ex_log (CHR ''A'')) 1) = Some t \<and> Time (payload_at (ex_log (CHR ''A'')) 2) = Some u
     \<and> u - t \<le> 35 * 1000000000"
proof -
  have "Status (checkHeartbeat ex_art) = Pass" by code_simp
  moreover have "ex_log (CHR ''A'') \<in> set (art_RecorderLogs ex_art)" by (simp add: ex_art_def)
  moreover have "pl_HMax (payload_at (ex_log (CHR ''A'')) 0) = 30" "pl_HTol (payload_at (ex_log (CHR ''A'')) 0) = 5"
    "length (log_Records (ex_log (CHR ''A''))) = 4" by (simp_all add: ex_log_def ex_record_def)
  ultimately show ?thesis
    using heartbeat_bounds_gaps [of ex_art "ex_log (CHR ''A'')" 2] by (auto simp: in64_def)
qed

definition ex_long_log :: RecorderLog where
  "ex_long_log = (ex_log (CHR ''A''))
     \<lparr>log_Records := [ex_record (CHR ''A'') 0 ((ex_payload (CHR ''A'') 0 ''open'')\<lparr>pl_HMax := 9223372037\<rparr>),
        ex_record (CHR ''A'') 1 (ex_payload (CHR ''A'') 1 ''heartbeat'')]\<rparr>"

theorem heartbeat_limit_overflow_witness: "Status (checkHeartbeatLog ex_long_log) \<noteq> Pass"
  by (rule heartbeat_limit_overflow) (simp_all add: ex_long_log_def ex_record_def ex_payload_def zero_Payload_def)

section \<open>Witnesses: the grade\<close>

theorem recorderAEL1_contract_witness:
  "Status (recorderAEL1 (ex_log (CHR ''A''))) = Pass \<and> Status (checkHeartbeat ex_art1) = Pass"
proof -
  have "\<forall>r \<in> set (log_Records (ex_log (CHR ''A''))). parsed r"
    by (simp add: ex_log_def ex_record_def parsed_def new_Record_def)
  moreover have "art_RecorderLogs ex_art1 = [ex_log (CHR ''A'')]" by (simp add: ex_art1_def)
  moreover have "Status (checkSignatures ex_art1) = Pass" "Status (checkCanonicalPayloads ex_art1) = Pass"
    "Status (checkPredecessorLinks ex_art1) = Pass" "Status (checkOpen ex_art1) = Pass"
    "Status (checkContiguous ex_art1) = Pass" "Status (checkHeartbeat ex_art1) = Pass"
    "Status (checkCloseCount ex_art1) = Pass" by code_simp+
  ultimately show ?thesis using recorderAEL1_contract by blast
qed

lemma ex_art_checks:
  "allPass (run_checks ex_crypto ex_art) (grade_checks 2)" "Status (check (run_checks ex_crypto ex_art) ''j'') = Pass"
  by code_simp+

theorem computeGrade_ladder_witness: "2 \<le> res_Grade (computeGrade (ungraded_result ex_crypto ex_art))"
proof -
  have "allPass (res_Checks (ungraded_result ex_crypto ex_art)) (grade_checks 2)"
    using ex_art_checks(1) by (simp add: ungraded_result_def)
  moreover have "\<not> res_Ungraded (ungraded_result ex_crypto ex_art)" "res_Grade (ungraded_result ex_crypto ex_art) = 0"
    "\<not> res_Open (ungraded_result ex_crypto ex_art)" by (simp_all add: ungraded_result_def)
  moreover have "(2::nat) \<in> {1..4}" by simp
  ultimately have "int 2 \<le> res_Grade (computeGrade (ungraded_result ex_crypto ex_art))"
    using computeGrade_ladder [of "ungraded_result ex_crypto ex_art"] by blast
  then show ?thesis by simp
qed

end
