(* ===== verification/Tamper_Examples.thy ===== *)
theory Tamper_Examples
  imports Gen_Lines Examples
begin

text \<open>
  An artifact with three closed logs: A and B have the same lines in two files, C has another close record. It is the witness of the
  theorem about closed logs.
\<close>

section \<open>Three closed logs\<close>

definition tp_open :: string where
  "tp_open = tiny_payload zeroPrev 0"

definition tp_head :: string where
  "tp_head = sha256_hex ex_crypto tp_open"

definition tp_close :: "string \<Rightarrow> string" where
  "tp_close ts =
     ''{'' @ quoted ''count'' @ '':2,'' @ quoted ''head'' @ '':'' @ quoted tp_head @ '','' @ quoted ''prev'' @ '':'' @ quoted tp_head @ '',''
     @ quoted ''recorder'' @ '':'' @ quoted ''A'' @ '','' @ quoted ''run'' @ '':'' @ quoted ''r'' @ '','' @ quoted ''seq'' @ '':1,''
     @ quoted ''ts'' @ '':'' @ quoted ts @ '','' @ quoted ''type'' @ '':'' @ quoted ''close'' @ '','' @ quoted ''v'' @ '':1}''"

definition tp_log :: "string \<Rightarrow> signedRecord list" where
  "tp_log ts = [\<lparr>sr_payload = tp_open, sr_sig = ''s''\<rparr>, \<lparr>sr_payload = tp_close ts, sr_sig = ''s''\<rparr>]"

definition tp_entry :: "string \<Rightarrow> string" where
  "tp_entry name = ''{'' @ quoted ''file'' @ '':'' @ quoted name @ '','' @ quoted ''id'' @ '':'' @ quoted ''A'' @ '','' @ quoted ''run'' @ '':''
     @ quoted ''r'' @ ''}''"

definition tp_manifest :: string where
  "tp_manifest = ''{'' @ quoted ''ael_format'' @ '':1,'' @ quoted ''recorders'' @ '':['' @ tp_entry ''A'' @ '','' @ tp_entry ''B'' @ '',''
     @ tp_entry ''C'' @ ''],'' @ quoted ''runs'' @ '':['' @ quoted ''r'' @ '']}''"

definition tp_fs :: artifact_fs where
  "tp_fs = \<lparr>fs_root = None,
     fs_open = (\<lambda>name. if name = ''manifest.json'' then Inr \<lparr>f_data = tp_manifest, f_err = None\<rparr>
       else Inr \<lparr>f_data = log_text (tp_log (if name = ''C'' then ''2'' else ''1'')), f_err = None\<rparr>),
     fs_policy = Inl os_ErrNotExist, fs_keys = Inr []\<rparr>"

section \<open>What is read\<close>

definition tp_open_payload :: Payload where
  "tp_open_payload = zero_Payload\<lparr>pl_V := 1, pl_Recorder := ''A'', pl_Run := ''r'', pl_Prev := zeroPrev\<rparr>"

definition tp_close_payload :: "string \<Rightarrow> Payload" where
  "tp_close_payload ts = zero_Payload\<lparr>pl_V := 1, pl_Type := ''close'', pl_Recorder := ''A'', pl_Run := ''r'', pl_Seq := 1,
     pl_Prev := tp_head, pl_TS := ts, pl_Count := 2, pl_Head := tp_head\<rparr>"

lemma tp_reads:
  "unmarshal dec_Payload tp_open zero_Payload = (tp_open_payload, None)"
  "unmarshal dec_Payload (tp_close ''1'') zero_Payload = (tp_close_payload ''1'', None)"
  "unmarshal dec_Payload (tp_close ''2'') zero_Payload = (tp_close_payload ''2'', None)"
  by code_simp+

lemma tp_sizes: "length tp_open \<le> 1000" "length (tp_close ''1'') \<le> 1000" "length (tp_close ''2'') \<le> 1000"
  by code_simp+

lemma tp_apart: "distinct (map (sha256 ex_crypto) [tp_open, tp_close ''1'', tp_close ''2''])"
  by code_simp

lemma tp_manifest_loads: "case loadManifest tp_manifest of Inl _ \<Rightarrow> False | Inr m \<Rightarrow>
    man_Recorders m = map (\<lambda>f. \<lparr>mr_ID = ''A'', mr_Run = ''r'', mr_Key = [], mr_File = f\<rparr>) [''A'', ''B'', ''C'']
    \<and> man_Anchor m = None \<and> man_Counterparty m = None"
  by code_simp

lemma tp_opens: "openArtifactFile tp_fs ''A'' = Inr \<lparr>f_data = log_text (tp_log ''1''), f_err = None\<rparr>"
  "openArtifactFile tp_fs ''B'' = Inr \<lparr>f_data = log_text (tp_log ''1''), f_err = None\<rparr>"
  "openArtifactFile tp_fs ''C'' = Inr \<lparr>f_data = log_text (tp_log ''2''), f_err = None\<rparr>"
  "readBoundedArtifactFile tp_fs ''manifest.json'' maxManifestBytes = Inr tp_manifest"
proof -
  have p: "validateArtifactPath ''A'' = None" "validateArtifactPath ''B'' = None" "validateArtifactPath ''C'' = None"
    "validateArtifactPath ''manifest.json'' = None" by code_simp+
  show "openArtifactFile tp_fs ''A'' = Inr \<lparr>f_data = log_text (tp_log ''1''), f_err = None\<rparr>"
    "openArtifactFile tp_fs ''B'' = Inr \<lparr>f_data = log_text (tp_log ''1''), f_err = None\<rparr>"
    "openArtifactFile tp_fs ''C'' = Inr \<lparr>f_data = log_text (tp_log ''2''), f_err = None\<rparr>"
    by (simp_all add: openArtifactFile_def tp_fs_def p)
  have "length tp_manifest \<le> 1000" by code_simp
  then show "readBoundedArtifactFile tp_fs ''manifest.json'' maxManifestBytes = Inr tp_manifest"
    by (simp add: readBoundedArtifactFile_def openArtifactFile_def tp_fs_def p read_limited_def read_all_def and_then_def maxManifestBytes_def)
qed

definition tp_loaded :: "string \<Rightarrow> string \<Rightarrow> RecorderLog" where
  "tp_loaded f ts = verify_log ex_crypto [] \<lparr>log_ID = ''A'', log_Run = ''r'', log_Key = [], log_File = f,
     log_Records = map (\<lambda>i. ParseRecordLine ex_crypto (line (tp_log ts ! i)) f (1 + int i)) [0, 1]\<rparr>"

lemma tp_log_loads:
  assumes "ts = ''1'' \<or> ts = ''2''" "openArtifactFile tp_fs f = Inr \<lparr>f_data = log_text (tp_log ts), f_err = None\<rparr>"
  shows "map_sum id (verify_log ex_crypto []) (loadRecorderLog ex_crypto tp_fs \<lparr>mr_ID = ''A'', mr_Run = ''r'', mr_Key = [], mr_File = f\<rparr>)
    = Inr (tp_loaded f ts)"
proof -
  have "length (line r) < max_scan_token" if "r \<in> set (tp_log ts)" for r
    using length_b64 [of True "sr_payload r"] length_b64 [of True "sr_sig r"] that assms(1) tp_sizes
    by (auto simp: line_def max_scan_token_def tp_log_def)
  then have "scan_lines \<lparr>f_data = log_text (tp_log ts), f_err = None\<rparr> = (map line (tp_log ts), None)"
    by (intro scan_log_text) (simp_all add: tp_log_def)
  then show ?thesis
    using assms(2) by (simp add: loadRecorderLog_def tp_loaded_def numbered_log to_lower_def) (simp add: tp_log_def)
qed

section \<open>The checks\<close>

lemma tp_records:
  assumes "ts = ''1'' \<or> ts = ''2''"
  shows "length (log_Records (tp_loaded f ts)) = 2" "log_ID (tp_loaded f ts) = ''A''" "log_Run (tp_loaded f ts) = ''r''"
    "parsed (log_Records (tp_loaded f ts) ! 0)" "parsed (log_Records (tp_loaded f ts) ! 1)"
    "payload_at (tp_loaded f ts) 0 = tp_open_payload" "payload_at (tp_loaded f ts) 1 = tp_close_payload ts"
    "rec_Hash (log_Records (tp_loaded f ts) ! 0) = tp_head" "bytes (tp_loaded f ts) = [tp_open, tp_close ts]"
proof -
  have ne: "tp_open \<noteq> []" "tp_close ts \<noteq> []" by (simp_all add: tp_open_def tiny_payload_def tp_close_def)
  have open_line: "ParseRecordLine ex_crypto (line (tp_log ts ! 0)) f n = (new_Record (line (tp_log ts ! 0)) f n)
     \<lparr>rec_PayloadRaw := tp_open, rec_Signature := ''s'', rec_Hash := tp_head, rec_Payload := tp_open_payload\<rparr>" for n
    using ParseRecordLine_line [of "tp_log ts ! 0"] ne tp_reads by (simp add: tp_log_def tp_head_def)
  have close_line: "ParseRecordLine ex_crypto (line (tp_log ts ! 1)) f n = (new_Record (line (tp_log ts ! 1)) f n)
     \<lparr>rec_PayloadRaw := tp_close ts, rec_Signature := ''s'', rec_Hash := sha256_hex ex_crypto (tp_close ts),
      rec_Payload := tp_close_payload ts\<rparr>" for n
    using ParseRecordLine_line [of "tp_log ts ! 1"] ne tp_reads assms by (auto simp: tp_log_def)
  note defs = tp_loaded_def verify_log_def open_line close_line [simplified] parsed_def new_Record_def bytes_def
  show "length (log_Records (tp_loaded f ts)) = 2" "log_ID (tp_loaded f ts) = ''A''" "log_Run (tp_loaded f ts) = ''r''"
    "parsed (log_Records (tp_loaded f ts) ! 0)" "parsed (log_Records (tp_loaded f ts) ! 1)"
    "payload_at (tp_loaded f ts) 0 = tp_open_payload" "payload_at (tp_loaded f ts) 1 = tp_close_payload ts"
    "rec_Hash (log_Records (tp_loaded f ts) ! 0) = tp_head" "bytes (tp_loaded f ts) = [tp_open, tp_close ts]"
    by (simp_all add: defs)
qed

lemma tp_whole:
  assumes "ts = ''1'' \<or> ts = ''2''"
  shows "every ordered_at (tp_loaded f ts)" "every linked_at (tp_loaded f ts)"
    "\<forall>i < length (log_Records (tp_loaded f ts)). numbered_at (tp_loaded f ts) i" "closed_log (tp_loaded f ts)"
    "close_only_last (tp_loaded f ts)"
proof -
  have two: "i < 2 \<longleftrightarrow> i = 0 \<or> i = 1" for i :: nat by auto
  note r = tp_records [OF assms, of f]
  show "every ordered_at (tp_loaded f ts)" "every linked_at (tp_loaded f ts)"
    "\<forall>i < length (log_Records (tp_loaded f ts)). numbered_at (tp_loaded f ts) i" "closed_log (tp_loaded f ts)"
    "close_only_last (tp_loaded f ts)"
    using r by (auto simp: every_def ordered_at_def linked_at_def numbered_at_def closed_log_def close_only_last_def two Let_def
        tp_open_payload_def tp_close_payload_def zero_Payload_def)
qed

lemma tp_loads: "\<exists>a. LoadArtifact ex_crypto tp_fs = Inr a
    \<and> art_RecorderLogs a = [tp_loaded ''A'' ''1'', tp_loaded ''B'' ''1'', tp_loaded ''C'' ''2'']"
proof -
  obtain m where m: "loadManifest tp_manifest = Inr m" "man_Anchor m = None" "man_Counterparty m = None"
    "man_Recorders m = map (\<lambda>f. \<lparr>mr_ID = ''A'', mr_Run = ''r'', mr_Key = [], mr_File = f\<rparr>) [''A'', ''B'', ''C'']"
    using tp_manifest_loads by (auto split: sum.splits)
  have "load_logs ex_crypto tp_fs [] (man_Recorders m) = Inr [tp_loaded ''A'' ''1'', tp_loaded ''B'' ''1'', tp_loaded ''C'' ''2'']"
    using tp_log_loads [OF _ tp_opens(1)] tp_log_loads [OF _ tp_opens(2)] tp_log_loads [OF _ tp_opens(3)]
    by (auto simp: m(4) and_then_def map_sum_def split: sum.splits)
  moreover have "loadKeys ex_crypto tp_fs = Inr []" "fs_policy tp_fs = Inl os_ErrNotExist" by (simp_all add: loadKeys_def tp_fs_def)
  ultimately show ?thesis
    by (simp add: LoadArtifact_def tp_opens(4) m(1) and_then_def loadPolicies_def loadAnchors_def loadCounterparty_def new_Artifact_def m)
qed

theorem omission_detected_witness:
  "bytes (tp_loaded ''B'' ''1'') = bytes (tp_loaded ''A'' ''1'')
   \<and> butlast (bytes (tp_loaded ''C'' ''2'')) = butlast (bytes (tp_loaded ''A'' ''1'')) \<and> bytes (tp_loaded ''C'' ''2'') \<noteq> bytes (tp_loaded ''A'' ''1'')"
proof -
  obtain a where a: "LoadArtifact ex_crypto tp_fs = Inr a"
    "art_RecorderLogs a = [tp_loaded ''A'' ''1'', tp_loaded ''B'' ''1'', tp_loaded ''C'' ''2'']" using tp_loads by blast
  have c: "Status (checkSequenceOrder a) = Pass" "Status (checkPredecessorLinks a) = Pass" "Status (checkContiguous a) = Pass"
    "Status (checkCloseCount a) = Pass"
    using tp_whole [of "''1''"] tp_whole [of "''2''"] by (simp_all add: pass_simps a(2))
  note t = omission_detected [OF a(1) a(1) c _ c, unfolded a(2), of "tp_loaded ''A'' ''1''"]
  note r = tp_records(1,7,9) [of "''1''"] tp_records(1,7,9) [of "''2''"]
  have "set (bytes (tp_loaded ''B'' ''1'')) \<subseteq> set (bytes (tp_loaded ''A'' ''1''))" using r by simp
  then have "bytes (tp_loaded ''B'' ''1'') = bytes (tp_loaded ''A'' ''1'')" using t [of "tp_loaded ''B'' ''1''"] by simp
  moreover have "inj_on (sha256 ex_crypto) (set (bytes (tp_loaded ''A'' ''1'')) \<union> set (bytes (tp_loaded ''C'' ''2'')))"
    using tp_apart r by (auto simp: inj_on_def)
  then have "butlast (bytes (tp_loaded ''C'' ''2'')) = butlast (bytes (tp_loaded ''A'' ''1''))"
    using t [of "tp_loaded ''C'' ''2''"] r by (simp add: tp_close_payload_def)
  moreover have "bytes (tp_loaded ''C'' ''2'') \<noteq> bytes (tp_loaded ''A'' ''1'')" using tp_apart r by auto
  ultimately show ?thesis by blast
qed

end
