(* ===== verification/Gov_Examples.thy ===== *)
theory Gov_Examples
  imports Gov_Facts Examples
begin

text \<open>
  Concrete views for the governability theorems: the witnesses, and two findings, where the coverage
  gate answers OK against what the comments of \<open>gov.go\<close> promise.
\<close>

section \<open>Views\<close>

definition gov_policy :: string where
  "gov_policy = ''{'' @ quoted ''reversibility'' @ '':{'' @ quoted ''net'' @ '':'' @ quoted ''reversible'' @ ''}}''"

definition gov_record :: "char \<Rightarrow> string \<Rightarrow> string \<Rightarrow> Record" where
  "gov_record c cls pol = ex_record c 1 ((ex_payload c 1 ''activity'')
     \<lparr>pl_Event := Some \<lparr>ev_Class = cls, ev_ID = ''e1'', ev_Dir = ''out''\<rparr>,
      pl_Decision := Some \<lparr>de_Policy = pol, de_RequestFP = [], de_Inputs = [], de_Verdict = ''allow''\<rparr>\<rparr>)"

definition gov_view :: "Record list \<Rightarrow> Artifact" where
  "gov_view rs = (new_Artifact [] [] ex_manifest)
     \<lparr>art_PolicyRaw := [(sha256_hex ex_crypto gov_policy, gov_policy)],
      art_RecorderLogs := map (\<lambda>r. (ex_log (CHR ''A''))\<lparr>log_Records := [r]\<rparr>) rs\<rparr>"

text \<open>A record that a hash-verified policy calls reversible, one no source classifies, and one whose
  schema failed because its event has no class.\<close>

definition bound_record :: Record where
  "bound_record = gov_record (CHR ''A'') ''net'' (sha256_hex ex_crypto gov_policy)"

definition plain_record :: Record where
  "plain_record = gov_record (CHR ''B'') ''net'' []"

definition broken_record :: Record where
  "broken_record = (gov_record (CHR ''C'') [] [])\<lparr>rec_SchemaOK := False\<rparr>"

definition classless_record :: Record where
  "classless_record = gov_record (CHR ''D'') [] []"

definition coverage_status :: "Record list \<Rightarrow> string option" where
  "coverage_status rs = map_option (\<lambda>gr. gc_Status (gr_Coverage gr)) (governRun ex_crypto (gov_view rs) ''r1'')"

lemma AllRecords_gov_view [simp]: "AllRecords (gov_view rs) = rs"
  by (simp add: gov_view_def AllRecords_def comp_def)

section \<open>Witnesses\<close>

lemma governed_examples: "governed bound_record" "governed plain_record" "governed broken_record"
  by code_simp+

lemma mixed_evaluates:
  "case governRun ex_crypto (gov_view [bound_record, broken_record]) ''r1'' of
     None \<Rightarrow> False | Some gr \<Rightarrow> map ge_EventID (gr_Events gr) = [''e1'']"
  "case governRun ex_crypto (gov_view [bound_record, plain_record]) ''r1'' of
     None \<Rightarrow> False | Some gr \<Rightarrow> gc_Status (gr_Coverage gr) = ''OK''"
  by code_simp+

theorem governRun_keeps_worst_witness:
  "\<exists>gr ev. governRun ex_crypto (gov_view [bound_record, broken_record]) ''r1'' = Some gr \<and> ev \<in> set (gr_Events gr)
     \<and> ge_Status ev = GovUnassessable \<and> ge_Class ev = ''irreversible''"
proof -
  obtain gr where gr: "governRun ex_crypto (gov_view [bound_record, broken_record]) ''r1'' = Some gr"
    using mixed_evaluates(1) by (auto split: option.splits)
  have "broken_record \<in> set (AllRecords (gov_view [bound_record, broken_record]))" "\<not> rec_SchemaOK broken_record"
    by (simp_all add: broken_record_def)
  then show ?thesis using governRun_keeps_worst [OF gr _ governed_examples(3)] gr by blast
qed

theorem coverage_OK_sound_witness:
  "\<exists>gr co. governRun ex_crypto (gov_view [bound_record, plain_record]) ''r1'' = Some gr
     \<and> man_Correspondence (art_Manifest (gov_view [bound_record, plain_record])) = Some co"
proof -
  obtain gr where gr: "governRun ex_crypto (gov_view [bound_record, plain_record]) ''r1'' = Some gr"
    "gc_Status (gr_Coverage gr) = ''OK''"
    using mixed_evaluates(2) by (auto split: option.splits)
  have "plain_record \<in> set (AllRecords (gov_view [bound_record, plain_record]))" by simp
  then show ?thesis using coverage_OK_sound [OF gr _ governed_examples(2)] gr by blast
qed

section \<open>Findings\<close>

text \<open>The gate depends on the order of the records. Two records of one event id, one with a failed
  schema and no class to recover, one unclassified with a covered class: the coverage is UNASSESSABLE
  when the first comes first and OK when it comes second. The comments say that record order cannot
  flip coverage and that an unrecoverable class is never OK; the merge keeps the first of two equally severe
  findings, and only the kept one is asked for its class.\<close>
lemma coverage_depends_on_order:
  "coverage_status [broken_record, plain_record] = Some ''UNASSESSABLE''
   \<and> coverage_status [plain_record, broken_record] = Some ''OK''"
  by code_simp

text \<open>An empty event class passes the gate. The schema allows \<open>event.class\<close> to be empty; a
  record with such a class that no source classifies is reported irreversible, and yet its run's
  coverage is OK, because only non-empty classes are collected.\<close>
lemma empty_class_escapes_gate:
  "validateEventSchema (Inr (JObj [(''class'', JStr []), (''dir'', JStr ''out''), (''id'', JStr ''e1'')])) = None
   \<and> map_option (\<lambda>f. (ge_Class f, ge_Status f)) (classifyEvent ex_crypto (gov_view [classless_record]) classless_record)
       = Some (''irreversible'', GovUnclassified)
   \<and> coverage_status [classless_record] = Some ''OK''"
  by code_simp

end
