(* ===== verification/Decides.thy ===== *)
theory Decides
  imports Loaded Cli
begin

text \<open>
  Every check of every run of a loaded artifact ends with a verdict, and the governability report of a loaded
  artifact always exists.
\<close>

section \<open>The checks of one recorder\<close>

lemma verdict_keep [verdicts]: "Status (out\<lparr>Message := m\<rparr>) \<noteq> ZeroStatus \<Longrightarrow> verdict (out\<lparr>Message := m\<rparr>)"
  by (simp add: verdict_def)

lemma early_parse_failure [verdicts]: "early_verdict (parse_failure r)"
  by (simp add: parse_failure_def early_verdict_def verdict_def)

lemma early_no_records [verdicts]: "early_verdict (no_records log)"
  by (simp add: no_records_def early_verdict_def verdict_def)

lemma early_signature [verdicts]: "early_verdict (signature_failure r)"
  by (simp add: signature_failure_def early_verdict_def verdict_def)

lemma early_map_fail [verdicts]: "early_verdict (map_option (outcome Fail) m)"
  by (auto simp: early_verdict_def verdict_def)

lemma early_order_at [verdicts]: "early_verdict (order_at log i)"
  unfolding order_at_def Let_def by (intro verdicts) simp_all

lemma early_link_at [verdicts]: "early_verdict (link_at log i)"
  unfolding link_at_def Let_def by (intro verdicts) simp_all

lemma early_spacing_at [verdicts]: "early_verdict (spacing_at log limit i)"
  unfolding spacing_at_def Let_def by (intro verdicts) simp_all

lemma early_close_failure [verdicts]: "early_verdict (close_failure log)"
  unfolding close_failure_def Let_def by (intro verdicts) simp_all

lemma early_ael1_at [verdicts]: "early_verdict (ael1_at log i)"
  unfolding ael1_at_def Let_def by (intro verdicts) simp_all

lemma verdict_heartbeat [verdicts]: "verdict (checkHeartbeatLog log)"
  unfolding checkHeartbeatLog_def Let_def by (intro verdicts) simp_all

lemma verdict_recorderAEL1 [verdicts]: "verdict (recorderAEL1 log)"
  unfolding recorderAEL1_def Let_def by (intro verdicts) simp_all

lemma verdict_single [verdicts]:
  "verdict (checkSignatures art)"
  "verdict (checkCanonicalPayloads art)"
  "verdict (checkClosedSchemas art)"
  "verdict (checkSequenceOrder art)"
  "verdict (checkPredecessorLinks art)"
  "verdict (checkOpen art)"
  "verdict (checkContiguous art)"
  "verdict (checkCloseCount art)"
  "verdict (checkOpenEnd art)"
  "verdict (checkHeartbeat art)"
  unfolding checkSignatures_def checkCanonicalPayloads_def checkClosedSchemas_def checkSequenceOrder_def checkPredecessorLinks_def checkOpen_def checkContiguous_def checkCloseCount_def checkOpenEnd_def checkHeartbeat_def Let_def
  by (intro verdicts; simp)+

lemma verdict_byteflip [verdicts]: "verdict out \<Longrightarrow> verdict (checkByteflipDuty out)"
  unfolding checkByteflipDuty_def by (intro verdicts) simp_all

section \<open>The checks across recorders\<close>

lemma recorder_key_verdict: "recorder_key log key rs = Inl out \<Longrightarrow> verdict out"
  by (induction rs arbitrary: key) (auto simp: Let_def verdict_def split: if_splits)

lemma verdict_verifiedRecorderKey [verdicts]: "verdict (snd (verifiedRecorderKey log))"
  using recorder_key_verdict [of log "[]" "log_Records log"]
  by (auto simp: verifiedRecorderKey_def verdict_def split: sum.split)

lemma nonce_scan_verdict: "nonce_scan run nonce who logs = Inl out \<Longrightarrow> verdict out"
  by (induction logs arbitrary: nonce who) (auto simp: Let_def verdict_def split: if_splits)

lemma verdict_runNonce [verdicts]: "verdict (snd (runNonce art run))"
  using nonce_scan_verdict [of run "[]" "[]" "logsForArtifactRun art"]
  by (auto simp: runNonce_def verdict_def split: sum.split)

lemma verdict_prod [verdicts]: "(\<And>a b. p = (a, b) \<Longrightarrow> verdict (f a b)) \<Longrightarrow> verdict (case p of (a, b) \<Rightarrow> f a b)"
  "(\<And>a b. p' = (a, b) \<Longrightarrow> early_verdict (g a b)) \<Longrightarrow> early_verdict (case p' of (a, b) \<Rightarrow> g a b)"
  by (simp_all split: prod.split)

lemma verdict_with_anchors [verdicts]:
  "(\<And>decl anchors. art_Anchors art = Some anchors \<Longrightarrow> verdict (f decl anchors)) \<Longrightarrow> verdict (with_anchors art f)"
  unfolding with_anchors_def by (intro verdicts) simp_all

lemma verdict_TwoRecorders [verdicts]: "verdict (checkTwoRecorders art)"
  using verdict_recorderAEL1
  unfolding checkTwoRecorders_def Let_def by (intro verdicts) (simp_all add: verdict_def)

lemma verdict_KeysDiffer [verdicts]: "verdict (checkKeysDiffer art)"
  unfolding checkKeysDiffer_def Let_def by (intro verdicts) simp_all

lemma verdict_CrossAudit [verdicts]: "verdict (checkCrossAudit art)"
  unfolding checkCrossAudit_def Let_def by (intro verdicts) simp_all

lemma verdict_TreeHead [verdicts]: "verdict (checkTreeHead cr art)"
  unfolding checkTreeHead_def Let_def by (intro verdicts) simp_all

lemma verdict_AnchorLeaves [verdicts]: "verdict (checkAnchorLeaves cr art)"
  unfolding checkAnchorLeaves_def Let_def by (intro verdicts) simp_all

lemma verdict_UnanchoredWindow [verdicts]: "verdict (checkUnanchoredWindow art)"
  unfolding checkUnanchoredWindow_def Let_def by (intro verdicts) simp_all

lemma early_key_clash [verdicts]: "early_verdict (recorder_key_clash art key f)"
proof -
  have "verdict o'" if "verifiedRecorderKey log = (k, o')" for log k o'
    using verdict_verifiedRecorderKey [of log] that by simp
  then show ?thesis unfolding recorder_key_clash_def Let_def by (intro verdicts) auto
qed

lemma verdict_LogKey [verdicts]: "verdict (checkLogKeyIndependent art)"
  unfolding checkLogKeyIndependent_def Let_def by (intro verdicts) simp_all

lemma verdict_CounterpartyKey [verdicts]: "verdict (checkCounterpartyKeyIndependent art)"
  unfolding checkCounterpartyKeyIndependent_def Let_def by (intro verdicts) simp_all

lemma verdict_CounterpartySignatures [verdicts]: "verdict (checkCounterpartySignatures art)"
  unfolding checkCounterpartySignatures_def Let_def by (intro verdicts) simp_all

lemma verdict_nonce: "runNonce art run = (nonce, out) \<Longrightarrow> verdict out"
  using verdict_runNonce [of art run] by simp

lemma verdict_wrong_run [verdicts]: "verdict (wrong_run stmt run nonce)"
  unfolding wrong_run_def by (intro verdicts) simp_all

lemma verdict_CounterpartyBinding [verdicts]: "verdict (checkCounterpartyBinding art)"
  unfolding checkCounterpartyBinding_def Let_def by (intro verdicts) (auto dest: verdict_nonce)

lemma verdict_CounterpartyAudit [verdicts]: "verdict (checkCounterpartyAudit art)"
  unfolding checkCounterpartyAudit_def Let_def by (intro verdicts) simp_all

lemma early_replay [verdicts]: "early_verdict (replay_failure art rec)"
  unfolding replay_failure_def by (intro verdicts) simp_all

lemma verdict_R [verdicts]: "verdict (snd (checkR art))"
proof -
  have "verdict out" if "first_some (replay_failure art) (AllRecords art) = Some out" for out
    using that early_replay early_verdict_def by (metis first_some_SomeD)
  then show ?thesis by (auto simp: checkR_def Let_def verdict_def split: option.split)
qed

text \<open>Check o is the one that could hang; the size of a loaded tree head keeps it within its bound.\<close>

definition sized :: "Artifact \<Rightarrow> bool" where
  "sized a \<longleftrightarrow> (\<forall>an. art_Anchors a = Some an \<longrightarrow> th_Size (an_TreeHead an) \<le> maxSafeInteger)"

lemma inclusion_entry_verdict:
  assumes "inclusion_entry cr sz root e = Some early"
  shows "early_verdict early"
proof -
  have "early = None \<or> (\<exists>m. early = Some (outcome Fail m))"
  proof (cases "decodeHex32 (ae_Leaf e)")
    case (Inr leaf)
    show ?thesis
    proof (cases "decode_proof (ae_Proof e)")
      case p: (Inr nodes)
      obtain got where "merkleRootFromProof cr leaf (ae_Index e) sz nodes = Some got"
        using assms Inr p by (auto simp: inclusion_entry_def bind_eq_Some_conv)
      then show ?thesis using assms Inr p by (cases got) (auto simp: inclusion_entry_def Let_def split: if_splits)
    qed (use assms Inr in \<open>auto simp: inclusion_entry_def Let_def\<close>)
  qed (use assms in \<open>auto simp: inclusion_entry_def Let_def\<close>)
  then show ?thesis by (auto intro: verdicts)
qed

lemma inclusion_entries_verdict: "inclusion_entries cr sz root es = Some early \<Longrightarrow> early_verdict early"
proof (induction es)
  case (Cons e es)
  then obtain o' where o': "inclusion_entry cr sz root e = Some o'"
    "(case o' of Some out \<Rightarrow> Some (Some out) | None \<Rightarrow> inclusion_entries cr sz root es) = Some early"
    by (auto simp: bind_eq_Some_conv)
  then show ?case using Cons.IH inclusion_entry_verdict [OF o'(1)] by (cases o') auto
qed (simp add: early_verdict_def)

lemma verdict_Inclusion:
  assumes "sized art"
  shows "verdict (checkInclusion cr art)"
proof -
  have "verdict stuck" if "art_Anchors art = Some anchors" "inclusion_entries cr (th_Size (an_TreeHead anchors)) root es = None"
    for anchors root es
    using inclusion_entries_return [of "th_Size (an_TreeHead anchors)" cr root es] that assms by (simp add: sized_def)
  then show ?thesis unfolding checkInclusion_def
    by (intro verdicts) (blast intro: inclusion_entries_verdict, simp_all add: inclusion_entries_verdict)
qed

lemma run_checks_decide:
  assumes "sized art"
  shows "\<forall>(cid, out) \<in> set (run_checks cr art). verdict out"
  unfolding run_checks_def using verdict_Inclusion [OF assms] by (simp add: verdicts)

lemma LoadArtifact_sized: "LoadArtifact cr fs = Inr a \<Longrightarrow> sized (ForRun a run)"
  using LoadArtifact_size by (fastforce simp: sized_def ForRun_def)

text \<open>C22: grading a loaded artifact always ends, with a verdict for every check. Whatever files were loaded, each of the 24
  checks of each run is PASS, FAIL or UV; none hangs, although the code's own tree arithmetic diverges on
  sizes beyond 2^62.\<close>
theorem every_check_decides:
  assumes "LoadArtifact cr fs = Inr a" "res \<in> set (rep_Runs (Evaluate cr a))" "(cid, out) \<in> set (res_Checks res)"
  shows "Status out \<in> {Pass, Fail, UV} \<and> cid \<in> fst ` set check_order_table \<and> length (res_Checks res) = 24"
proof -
  obtain run where r: "res = evaluateRun cr (ForRun a run)" using assms(2) by (auto simp: Evaluate_def)
  then have c: "res_Checks res = run_checks cr (ForRun a run)" by (simp add: evaluateRun_def ungraded_result_def)
  have "verdict out" using run_checks_decide [OF LoadArtifact_sized [OF assms(1)]] assms(3) unfolding c by fast
  then have "Status out \<in> {Pass, Fail, UV}" unfolding verdict_def by (cases "Status out") auto
  moreover have "fst ` set (run_checks cr (ForRun a run)) \<subseteq> fst ` set check_order_table"
    by (simp add: run_checks_def check_order_table_def)
  then have "cid \<in> fst ` set check_order_table" using assms(3) unfolding c by force
  moreover have "length (res_Checks res) = 24" unfolding c by (simp add: run_checks_def)
  ultimately show ?thesis by blast
qed

section \<open>The event of an activity record\<close>

lemma activity_schema:
  assumes "validateRecordPayloadSchema raw ''activity'' = None"
  shows "\<exists>ms ev. parse_json raw = Inr (JObj ms) \<and> alookup (obj_map ms) ''event'' = Some (JObj ev)
    \<and> fst ` set ms \<subseteq> set (common_record_fields @ [''ext'', ''event'', ''decision''])"
proof -
  obtain obj where obj: "objectFields (parse_json raw) ''record payload'' = Inr obj"
    using assms by (auto simp: validateRecordPayloadSchema_def Let_def split: sum.splits)
  then obtain ms where ms: "parse_json raw = Inr (JObj ms)" "obj = obj_map ms"
    by (auto simp: objectFields_def and_then_def raw_map_def split: sum.splits option.splits json.splits)
  have parts: "first_some (\<lambda>(field, _). if field \<in> set (common_record_fields @ ''ext'' # [''event'', ''decision'']) then None
      else Some (Errorf ''unknown top-level key %q'' [Q field])) obj = None"
    "validateEventSchema (raw_field obj ''event'') = None"
    using assms obj by (simp_all add: validateRecordPayloadSchema_def record_type_fields_def Let_def first_err_Cons_None disj_ac)
  have "fst ` set obj \<subseteq> set (common_record_fields @ [''ext'', ''event'', ''decision''])"
    using closed_keys [OF parts(1)] .
  moreover obtain ev where "alookup obj ''event'' = Some (JObj ev)"
    using parts(2) by (auto simp: validateEventSchema_def closedObjectFields_def objectFields_def raw_field_def and_then_def
        raw_map_def split: sum.splits option.splits json.splits)
  ultimately show ?thesis using ms by auto
qed

lemma payload_field_event:
  "pl_Event (fst (payload_field n j p)) = (if n = ''event'' then fst (dec_ptr dec_Event zero_Event j (pl_Event p)) else pl_Event p)"
  by (simp add: payload_field_def set_field_fst)

lemma activity_event:
  assumes "IsCanonical raw" "validateRecordPayloadSchema raw ''activity'' = None"
  shows "pl_Event (fst (unmarshal dec_Payload raw zero_Payload)) \<noteq> None"
proof -
  obtain ms ev where ms: "parse_json raw = Inr (JObj ms)" "alookup (obj_map ms) ''event'' = Some (JObj ev)"
    "fst ` set ms \<subseteq> set (common_record_fields @ [''ext'', ''event'', ''decision''])"
    using activity_schema [OF assms(2)] by blast
  have d: "distinct (map fst ms)" using canonical_members [OF assms(1) ms(1)] .
  have "(''event'', JObj ev) \<in> set ms" using alookup_SomeD [OF ms(2)] by (simp add: obj_map_distinct [OF d])
  then obtain xs ys where split: "ms = xs @ (''event'', JObj ev) # ys" by (meson split_list)
  let ?names = "[''v'', ''type'', ''run'', ''recorder'', ''key'', ''seq'', ''prev'', ''ts'', ''hmax'', ''htol'', ''cp_nonce'',
      ''event'', ''decision'', ''count'', ''head'']"
  have ext: "field_for ?names ''ext'' = None" by code_simp
  have exact: "field_for ?names key = Some key \<or> key = ''ext''" if "key \<in> fst ` set ms" for key
  proof -
    have "set (common_record_fields @ [''ext'', ''event'', ''decision'']) \<subseteq> insert ''ext'' (set ?names)"
      by (simp add: common_record_fields_def)
    then show ?thesis using that ms(3) field_for_exact [of key ?names] by blast
  qed
  have "pl_Event (fst (dec_members payload_field ?names ms zero_Payload))
      = pl_Event (fst (payload_field ''event'' (JObj ev) (fst (dec_members payload_field ?names xs zero_Payload))))"
    unfolding split
  proof (rule dec_members_last)
    show "field_for ?names ''event'' = Some ''event''" by (simp add: field_for_def)
    fix key v n x
    assume y: "(key, v) \<in> set ys" "field_for ?names key = Some n"
    have e: "''event'' \<notin> fst ` set ys" using d unfolding split by simp
    have k: "key \<in> fst ` set ys" using y(1) by force
    then have "key \<noteq> ''event''" using e by blast
    moreover have "key \<in> fst ` set ms" using k unfolding split by (simp add: image_Un)
    ultimately have "key \<in> fst ` set ms" "key \<noteq> ''event''" by blast+
    then have "n \<noteq> ''event''" using exact [of key] y(2) ext by auto
    then show "pl_Event (fst (payload_field n v x)) = pl_Event x" by (simp add: payload_field_event)
  qed
  then show ?thesis
    unfolding unmarshal_def ms(1) sum.case dec_Payload_def dec_struct_def json.case payload_field_event
    by (simp add: dec_ptr_def split: prod.split)
qed

section \<open>The governability report exists\<close>

lemma loaded_event:
  assumes "loaded_record cr r" "rec_SchemaOK r" "pl_Type (rec_Payload r) = ''activity''"
  shows "pl_Event (rec_Payload r) \<noteq> None"
proof -
  obtain ks line f n where r: "r = Verify cr ks (ParseRecordLine cr line f n)"
    using assms(1) by (auto simp: loaded_record_def)
  have ok: "signed_by cr ks (ParseRecordLine cr line f n)" "IsCanonical (rec_PayloadRaw r)"
    "validateRecordPayloadSchema (rec_PayloadRaw r) ''activity'' = None"
    using assms(2,3) by (simp_all add: r Verify_SchemaOK)
  then have "parsed r" by (simp add: signed_by_def parsed_def r)
  then have "rec_Payload r = fst (unmarshal dec_Payload (rec_PayloadRaw r) zero_Payload)"
    using loaded_record_payload assms(1) by blast
  then show ?thesis using activity_event [OF ok(2,3)] by simp
qed

lemma those_defined: "(\<And>x. x \<in> set xs \<Longrightarrow> f x \<noteq> None) \<Longrightarrow> \<exists>ys. those (map f xs) = Some ys"
  by (induction xs) fastforce+

lemma governRun_defined:
  assumes "\<forall>rec \<in> set (AllRecords art). loaded_record cr rec"
  shows "\<exists>gr. governRun cr art run = Some gr \<and> gr_Run gr = run"
proof -
  have "classifyEvent cr art rec \<noteq> None" if "rec \<in> set (filter governed (AllRecords art))" for rec
    using that assms loaded_event by (auto simp: classifyEvent_None governed_def)
  then obtain fs where fs: "those (map (classifyEvent cr art) (filter governed (AllRecords art))) = Some fs"
    using those_defined by blast
  let ?accs = "fold add_event fs []"
  have final: "finalizeEvent acc \<noteq> None" if "(i, acc) \<in> set ?accs" for i acc
  proof -
    from that obtain ev where ev: "ev \<in> set fs" "ge_EventID ev = i" "acc = accum_of (filter (\<lambda>ev. ge_EventID ev = i) fs)"
      by (auto simp: in_add_events)
    then have "filter (\<lambda>ev. ge_EventID ev = i) fs \<noteq> []" by (auto simp: filter_empty_conv)
    then show ?thesis using finalizeEvent_accum ev(3) by fastforce
  qed
  obtain events where e: "those (map (\<lambda>(i, acc). finalizeEvent acc) ?accs) = Some events"
    using those_defined [of ?accs "\<lambda>(i, acc). finalizeEvent acc"] final by fast
  obtain triples where "those (map (\<lambda>(i, acc). map_option (\<lambda>ev. (i, acc, ev)) (finalizeEvent acc)) ?accs) = Some triples"
    using those_defined [of ?accs "\<lambda>(i, acc). map_option (\<lambda>ev. (i, acc, ev)) (finalizeEvent acc)"] final by fast
  then obtain cov where "coverage art ?accs = Some cov" by (auto simp: coverage_def Let_def)
  then show ?thesis using fs e by (simp add: governRun_def Let_def)
qed

lemma Governability_defined:
  assumes "LoadArtifact cr fs = Inr a"
  shows "\<exists>grs. Governability cr a = Some grs \<and> map gr_Run grs = man_Runs (art_Manifest a)"
proof -
  have loaded: "\<forall>rec \<in> set (AllRecords (ForRun a run)). loaded_record cr rec" for run
    using LoadArtifact_loaded [OF assms] by (auto simp: AllRecords_def ForRun_def)
  have "\<exists>grs. those (map (\<lambda>run. governRun cr (ForRun a run) run) runs) = Some grs \<and> map gr_Run grs = runs" for runs
  proof (induction runs)
    case (Cons run runs)
    obtain gr where "governRun cr (ForRun a run) run = Some gr" "gr_Run gr = run"
      using governRun_defined [OF loaded] by blast
    then show ?case using Cons by auto
  qed simp
  then show ?thesis by (simp add: Governability_def)
qed

lemma aelcheck_cases:
  "\<exists>out. aelcheck cr encode args fs =
     Some (if \<not> usage_ok args then 2
           else
             (case LoadArtifact cr fs of
                Inl _ \<Rightarrow> 1
              | Inr art \<Rightarrow> if arg_json args \<and> encode \<noteq> None then 1 else conformanceExit (Evaluate cr art) (arg_minGrade args)), out)"
proof (cases "LoadArtifact cr fs")
  case (Inr art)
  obtain grs where "Governability cr art = Some grs" using Governability_defined [OF Inr] by blast
  then show ?thesis using Inr by (simp add: aelcheck_def Let_def)
qed (simp add: aelcheck_def)

text \<open>C21: the program always ends with one of its documented exit statuses: 0, 1, 2, 3 or 4, whatever its arguments are and
  the directories hold. No input makes it panic: the governability report dereferences the event of every classified record,
  and a loaded record whose schema holds has one.\<close>
theorem aelcheck_total:
  "\<exists>status out. aelcheck_main cr host arguments = Some (status, out) \<and> status \<in> {0, 1, 2, 3, 4}"
proof -
  have r: "conformanceExit report g \<in> {0, 1, 2, 3, 4}" for report g using conformanceExit_range [of report g] by blast
  have "\<exists>status out. aelcheck cr e args fs = Some (status, out) \<and> status \<in> {0, 1, 2, 3, 4}" for e args fs
  proof -
    obtain status out where run: "aelcheck cr e args fs = Some (status, out)"
      and status: "status = (if \<not> usage_ok args then 2
           else
             (case LoadArtifact cr fs of
                Inl _ \<Rightarrow> 1
              | Inr art \<Rightarrow> if arg_json args \<and> e \<noteq> None then 1 else conformanceExit (Evaluate cr art) (arg_minGrade args)))"
      using aelcheck_cases [of cr e args fs] by blast
    have "status \<in> {0, 1, 2, 3, 4}" unfolding status using r by (simp split: sum.split)
    then show ?thesis using run by blast
  qed
  then show ?thesis by (auto simp: aelcheck_main_def flag_exit_def Let_def split: sum.split)
qed

text \<open>C2: what \<open>aelcheck --min-grade g\<close> vouches for with status 0, from the arguments of the
  program on, where the flags parse and the arguments are not \<open>--version\<close> alone. It is the exit status
  exactly when a key directory and one artifact directory are given, \<open>g\<close> is one of 0 to 4, the artifact
  loads, the report, if it is asked for as JSON, is encoded without an error, and every run the artifact declares or
  has logs of, each judged on its own records, passes every check of the rungs 0 to \<open>g\<close> and is not open:
  no recorder of it whose first record promises heartbeats (a positive hmax) ends without a close record. A log that
  promises none may end without one.\<close>
theorem aelcheck_zero_sound:
  assumes "parse_flags check_flags arguments = Inr (sets, rest)" "arguments \<noteq> [''--version'']"
  shows "(\<exists>out. aelcheck_main cr host arguments = Some (0, out)) \<longleftrightarrow>
    (\<exists>dir art g. rest = [dir] \<and> flag_string sets ''keys'' [] \<noteq> [] \<and> flag_int sets ''min-grade'' 0 = int g \<and> g \<le> 4
      \<and> LoadArtifact cr (ch_fs host dir (flag_string sets ''keys'' [])) = Inr art
      \<and> \<not> (flag_bool sets ''json'' \<and> ch_encode host \<noteq> None)
      \<and> (\<forall>run \<in> set (artifactRuns art). Status (checkOpenEnd (ForRun art run)) = Pass
           \<and> allPass (run_checks cr (ForRun art run)) (grade_checks g)))"
proof -
  let ?args = "check_args sets rest" and ?fs = "ch_fs host (hd rest) (flag_string sets ''keys'' [])"
  have main: "aelcheck_main cr host arguments = aelcheck cr (ch_encode host) ?args ?fs"
    using assms by (simp add: aelcheck_main_def Let_def check_args_def)
  have fields: "arg_keys ?args = flag_string sets ''keys'' []" "arg_rest ?args = rest"
    "arg_minGrade ?args = flag_int sets ''min-grade'' 0" "arg_json ?args = flag_bool sets ''json''"
    by (simp_all add: check_args_def)
  have usage: "usage_ok ?args \<longleftrightarrow> flag_string sets ''keys'' [] \<noteq> [] \<and> (\<exists>dir. rest = [dir])
      \<and> (\<exists>g. flag_int sets ''min-grade'' 0 = int g \<and> g \<le> 4)"
  proof -
    have "(\<exists>g. n = int g \<and> g \<le> 4) \<longleftrightarrow> 0 \<le> n \<and> n \<le> 4" for n by (cases n) auto
    then show ?thesis unfolding usage_ok_def fields by (auto simp: length_Suc_conv not_less)
  qed
  show ?thesis
  proof (cases "usage_ok ?args")
    case True
    then obtain dir g where u: "rest = [dir]" "flag_string sets ''keys'' [] \<noteq> []" "flag_int sets ''min-grade'' 0 = int g" "g \<le> 4"
      using usage by blast
    have ok: "usage_ok (check_args sets [dir])" using True u(1) by simp
    show ?thesis
      using aelcheck_cases [of cr "ch_encode host" ?args ?fs] conforms_iff [OF u(4), of cr] u(2,4)
      unfolding main fields u(1,3) by (auto simp: ok fields [unfolded u(1,3)] split: sum.splits if_splits)
  next
    case False
    then have "\<not> (\<exists>out. aelcheck_main cr host arguments = Some (0, out))"
      using aelcheck_cases [of cr "ch_encode host" ?args ?fs] by (auto simp: main)
    moreover have "\<not> (\<exists>dir g. rest = [dir] \<and> flag_string sets ''keys'' [] \<noteq> [] \<and> flag_int sets ''min-grade'' 0 = int g \<and> g \<le> 4)"
      using False usage by blast
    ultimately show ?thesis by blast
  qed
qed

end
