(* ===== verification/Multi_Examples.thy ===== *)
theory Multi_Examples
  imports Decides Examples Document
begin

text \<open>
  A run of grade AEL-4: the two recorders of \<open>Examples\<close>, the heads of their logs under a signed tree head
  of size 2, and a statement of the counterparty about the one outbound event; a run whose decision replays.
  They are the witnesses of \<open>Multi_Facts\<close>.
\<close>

section \<open>An anchored run with a counterparty\<close>

definition full_leaf :: "char \<Rightarrow> string" where
  "full_leaf c = merkleLeaf ex_crypto (ex_hash c 3)"

definition full_root :: string where
  "full_root = merkleNode ex_crypto (full_leaf (CHR ''A'')) (full_leaf (CHR ''B''))"

definition full_signed :: cvalue where
  "full_signed = CObj [(''log'', CStr ''L''), (''root'', CStr (hex_encode full_root)), (''size'', CInt 2)]"

definition full_entry :: "char \<Rightarrow> int \<Rightarrow> char \<Rightarrow> AnchorEntry" where
  "full_entry c i other = \<lparr>ae_Recorder = [c], ae_Run = ''r1'', ae_Seq = 3, ae_Leaf = hex_encode (full_leaf c), ae_Index = i,
     ae_Proof = [hex_encode (full_leaf other)]\<rparr>"

definition full_anchors :: "string \<Rightarrow> string \<Rightarrow> Anchors" where
  "full_anchors sig signed = \<lparr>an_Log = ''L'',
     an_TreeHead = \<lparr>th_Size = 2, th_Root = hex_encode full_root, th_Sig = sig,
       th_Signed = signed\<rparr>,
     an_Entries = [full_entry (CHR ''A'') 0 (CHR ''B''), full_entry (CHR ''B'') 1 (CHR ''A'')]\<rparr>"

text \<open>The document \<open>anchors.json\<close> of these anchors.\<close>

definition full_entry_doc :: "AnchorEntry \<Rightarrow> cvalue" where
  "full_entry_doc e = CObj [(''index'', CInt (ae_Index e)), (''leaf'', CStr (ae_Leaf e)), (''proof'', CArr (map CStr (ae_Proof e))),
     (''recorder'', CStr (ae_Recorder e)), (''run'', CStr (ae_Run e)), (''seq'', CInt (ae_Seq e))]"

definition full_anchors_doc :: "Anchors \<Rightarrow> cvalue" where
  "full_anchors_doc an = CObj [(''entries'', CArr (map full_entry_doc (an_Entries an))), (''log'', CStr (an_Log an)),
     (''tree_head'', let th = an_TreeHead an in
        CObj [(''root'', CStr (th_Root th)), (''sig'', CStr (th_Sig th)), (''signed'', CStr (th_Signed th)), (''size'', CInt (th_Size th))])]"

definition full_stmt :: CounterpartyStatement where
  "full_stmt = \<lparr>cs_Line = [], cs_File = ''counterparty.jsonl'', cs_LineNo = 1,
     cs_PayloadRaw = ''{'' @ quoted ''received'' @ '':{'' @ quoted ''event_id'' @ '':'' @ quoted ''e1'' @ ''}}'', cs_Signature = [],
     cs_Payload = \<lparr>cp_V = 1, cp_Type = ''received'', cp_Run = ''r1'', cp_Flow = ''net'', cp_Nonce = ''n1'',
       cp_Received = [(''event_id'', ''e1'')], cp_None = False\<rparr>,
     cs_LineErr = None, cs_ParseErr = None, cs_CanonicalErr = None, cs_CanonicalOK = True, cs_SchemaErr = None,
     cs_SchemaOK = True, cs_SignatureOK = True, cs_SignatureUV = False, cs_SignatureErr = None\<rparr>"

text \<open>The view, for any signature, head and bytes of \<open>anchors.json\<close>, and with the signed ones.\<close>

definition full_view :: "string \<Rightarrow> string \<Rightarrow> string \<Rightarrow> Artifact" where
  "full_view raw sig signed = ex_art
     \<lparr>art_Manifest := ex_manifest
        \<lparr>man_Anchor := Some \<lparr>ad_Log = ''L'', ad_LogKey = ''logkey'', ad_File = ''anchors.json''\<rparr>,
         man_Counterparty := Some \<lparr>cd_File = ''counterparty.jsonl'', cd_Flows = [''net''], cd_Key = ''cpkey''\<rparr>\<rparr>,
      art_Keys := [(''logkey'', replicate 32 (CHR ''k'')), (''cpkey'', replicate 32 (CHR ''c''))],
      art_Anchors := Some (full_anchors sig signed), art_AnchorsRaw := raw, art_Counterparty := [full_stmt]\<rparr>"

definition full_sig :: string where
  "full_sig = std_encode (replicate 64 (CHR ''k''))"

definition full_raw :: string where
  "full_raw = render (full_anchors_doc (full_anchors full_sig (std_encode (render full_signed))))"

definition full_art :: Artifact where
  "full_art = full_view full_raw full_sig (std_encode (render full_signed))"

lemma two_leaf_proof:
  "merkleRootFromProof cr l 0 2 [s] = Some (Inr (merkleNode cr l s))"
  "merkleRootFromProof cr l 1 2 [s] = Some (Inr (merkleNode cr s l))"
proof -
  have "largestPowerOfTwoLessThan 2 = Some 1"
    unfolding largestPowerOfTwoLessThan_def by (subst power_loop.simps) (simp add: shl1_def wrap64_def)
  moreover have "merkleRootFromProofAt cr l i 1 [s] = Some (Inr (l, 0))" for i
    by (subst merkleRootFromProofAt.simps) simp
  ultimately show "merkleRootFromProof cr l 0 2 [s] = Some (Inr (merkleNode cr l s))"
    "merkleRootFromProof cr l 1 2 [s] = Some (Inr (merkleNode cr s l))"
    unfolding merkleRootFromProof_def
    by (subst merkleRootFromProofAt.simps, simp add: sibling_def and_then_def)+
qed

lemma full_hex:
  "decodeHex32 (hex_encode (full_leaf (CHR ''A''))) = Inr (full_leaf (CHR ''A''))"
  "decodeHex32 (hex_encode (full_leaf (CHR ''B''))) = Inr (full_leaf (CHR ''B''))"
  "decodeHex32 (hex_encode full_root) = Inr full_root"
  by code_simp+

lemma full_inclusion: "Status (checkInclusion ex_crypto (full_view raw sig signed)) = Pass"
  by (simp add: checkInclusion_def with_anchors_def full_view_def ex_art_def new_Artifact_def full_anchors_def
      full_entry_def inclusion_entry_def full_hex two_leaf_proof or_pass_def and_then_def flip: full_root_def)

lemma closed_schemas_anchors:
  "validateAnchorSchemas (art_AnchorsRaw art) = None \<Longrightarrow> checkClosedSchemas (art\<lparr>art_Anchors := None\<rparr>) = checkClosedSchemas art"
  by (simp add: checkClosedSchemas_def AllRecords_def)

lemma full_schemas: "Status (checkClosedSchemas full_art) = Pass"
proof -
  let ?doc = "full_anchors_doc (full_anchors full_sig (std_encode (render full_signed)))"
  have "good ?doc" "shallow max_depth ?doc" by code_simp+
  then have raw: "parse_json full_raw = Inr (json_of ?doc)" unfolding full_raw_def by (rule parse_json_render)
  have "(case dec_anchor_root (json_of (full_anchors_doc (full_anchors sig signed))) \<lparr>ar_TreeHead = None, ar_Entries = []\<rparr> of
      (root, Some e) \<Rightarrow> Some e
    | (root, None) \<Rightarrow>
        (case ar_TreeHead root of
           None \<Rightarrow> Some (Errorf ''tree_head is absent'' [])
         | Some th \<Rightarrow>
             first_err
               [wrap_err (\<lambda>e. Errorf ''tree_head: %w'' [E e]) (validateTreeHeadObjectSchema th),
                first_some (\<lambda>i. wrap_err (\<lambda>e. Errorf ''entries[%d]: %w'' [D (int i), E e])
                   (validateObjectSchema (Inr (ar_Entries root ! i))
                     [''recorder'', ''run'', ''seq'', ''leaf'', ''index'', ''proof'', ''ext'']
                     [''recorder'', ''run'', ''seq'', ''leaf'', ''index'', ''proof'']))
                  [0..<length (ar_Entries root)]])) = None" for sig signed
    by code_simp
  then have "validateAnchorSchemas (art_AnchorsRaw full_art) = None"
    by (simp add: validateAnchorSchemas_def unmarshal_def raw full_art_def full_view_def)
  moreover have "Status (checkClosedSchemas ((full_view raw sig signed)\<lparr>art_Anchors := None\<rparr>)) = Pass" for raw sig signed
    by code_simp
  ultimately show ?thesis unfolding full_art_def using closed_schemas_anchors by metis
qed

lemma full_head: "Status (checkTreeHead ex_crypto full_art) = Pass"
proof -
  have v: "good full_signed" "shallow max_depth full_signed" "sortv full_signed = full_signed" by code_simp+
  have c: "Canonicalize (render full_signed) = Inr (render full_signed)"
    using IsCanonical_render [OF v(1,3)] by (simp add: IsCanonical_def split: sum.splits)
  have p: "parseSignedTreeHead (render full_signed) = Inr \<lparr>sth_Log = ''L'', sth_Root = hex_encode full_root, sth_Size = 2\<rparr>"
    unfolding parseSignedTreeHead_def unmarshal_def parse_json_render [OF v(1,2)] sum.case by code_simp
  have "alookup (art_Keys full_art) (to_lower ''logkey'') = Some (replicate 32 (CHR ''k''))"
    by (simp add: full_art_def full_view_def to_lower_def) code_simp
  moreover have "man_Anchor (art_Manifest full_art) = Some \<lparr>ad_Log = ''L'', ad_LogKey = ''logkey'', ad_File = ''anchors.json''\<rparr>"
    "art_AnchorsErr full_art = None" "art_Anchors full_art = Some (full_anchors full_sig (std_encode (render full_signed)))"
    by (simp_all add: full_art_def full_view_def ex_art_def new_Artifact_def)
  ultimately show ?thesis
    using c p by (simp add: checkTreeHead_def with_anchors_def full_anchors_def full_sig_def SignatureSize_def ex_crypto_def)
qed

lemma full_anchor_checks:
  "Status (checkAnchorLeaves ex_crypto (full_view raw sig signed)) = Pass"
  "Status (checkUnanchoredWindow (full_view raw sig signed)) = Pass" "Status (checkLogKeyIndependent (full_view raw sig signed)) = Pass"
  by code_simp+

lemma full_counterparty_checks:
  "Status (checkCounterpartySignatures (full_view raw sig signed)) = Pass" "Status (checkCounterpartyBinding (full_view raw sig signed)) = Pass"
  "Status (checkCounterpartyAudit (full_view raw sig signed)) = Pass" "Status (checkCounterpartyKeyIndependent (full_view raw sig signed)) = Pass"
  by code_simp+

text \<open>The checks of the logs see only the logs, which are those of \<open>ex_art\<close>.\<close>

lemma full_logs:
  "art_RecorderLogs (full_view raw sig signed) = art_RecorderLogs ex_art" "art_RecorderLogs ex_art \<noteq> []"
  "man_Runs (art_Manifest (full_view raw sig signed)) = man_Runs (art_Manifest ex_art)"
  "man_Correspondence (art_Manifest (full_view raw sig signed)) = man_Correspondence (art_Manifest ex_art)"
  by (simp_all add: full_view_def ex_art_def new_Artifact_def)

lemma full_log_checks:
  "Status (checkSignatures (full_view raw sig signed)) = Pass" "Status (checkCanonicalPayloads (full_view raw sig signed)) = Pass"
  "Status (checkSequenceOrder (full_view raw sig signed)) = Pass" "Status (checkPredecessorLinks (full_view raw sig signed)) = Pass"
  "Status (checkOpen (full_view raw sig signed)) = Pass" "Status (checkContiguous (full_view raw sig signed)) = Pass"
  "Status (checkHeartbeat (full_view raw sig signed)) = Pass" "Status (checkCloseCount (full_view raw sig signed)) = Pass"
  "Status (checkOpenEnd (full_view raw sig signed)) = Pass"
  "Status (checkTwoRecorders (full_view raw sig signed)) = Pass" "Status (checkKeysDiffer (full_view raw sig signed)) = Pass"
  "Status (checkCrossAudit (full_view raw sig signed)) = Pass"
proof -
  have run: "artifactRun (full_view raw sig signed) = artifactRun ex_art" by (simp only: artifactRun_def full_logs)
  then have logs: "logsForArtifactRun (full_view raw sig signed) = logsForArtifactRun ex_art" by (simp add: logsForArtifactRun_def full_logs)
  have all: "AllRecords (full_view raw sig signed) = AllRecords ex_art" by (simp add: AllRecords_def full_logs)
  note ex = ex_art_checks [unfolded grade_checks_def, simplified, unfolded allPass_Cons run_checks_at]
  show "Status (checkSignatures (full_view raw sig signed)) = Pass" "Status (checkCanonicalPayloads (full_view raw sig signed)) = Pass"
    using ex by (simp_all add: checkSignatures_def checkCanonicalPayloads_def all)
  show "Status (checkSequenceOrder (full_view raw sig signed)) = Pass" "Status (checkPredecessorLinks (full_view raw sig signed)) = Pass"
    "Status (checkOpen (full_view raw sig signed)) = Pass" "Status (checkContiguous (full_view raw sig signed)) = Pass"
    "Status (checkHeartbeat (full_view raw sig signed)) = Pass" "Status (checkCloseCount (full_view raw sig signed)) = Pass"
    "Status (checkOpenEnd (full_view raw sig signed)) = Pass"
    using ex by (simp_all add: checkSequenceOrder_def checkPredecessorLinks_def checkOpen_def checkContiguous_def
        checkHeartbeat_def checkCloseCount_def checkOpenEnd_def full_logs logs)
  show "Status (checkTwoRecorders (full_view raw sig signed)) = Pass" "Status (checkKeysDiffer (full_view raw sig signed)) = Pass"
    "Status (checkCrossAudit (full_view raw sig signed)) = Pass"
    using ex by (simp_all only: checkTwoRecorders_def checkKeysDiffer_def checkCrossAudit_def full_logs logs run)
qed

lemmas full_checks = full_schemas full_head
  full_log_checks [of full_raw full_sig "std_encode (render full_signed)", folded full_art_def]
  full_anchor_checks [of full_raw full_sig "std_encode (render full_signed)", folded full_art_def]
  full_counterparty_checks [of full_raw full_sig "std_encode (render full_signed)", folded full_art_def]
  full_inclusion [of full_raw full_sig "std_encode (render full_signed)", folded full_art_def]

lemma full_grade: "res_Grade (evaluateRun ex_crypto full_art) = 4"
proof -
  have j: "mark_open (ungraded_result ex_crypto full_art) = ungraded_result ex_crypto full_art"
    unfolding mark_open_def by (simp add: ungraded_result_def run_checks_at full_checks)
  show ?thesis
    unfolding evaluateRun_def j
    by (simp add: computeGrade_def rung_def ungraded_result_def allPass_Cons run_checks_at full_checks)
qed

lemma full_runs: "logsForArtifactRun full_art = [ex_log (CHR ''A''), ex_log (CHR ''B'')]"
proof -
  have "log_Run (ex_log c) = ''r1''" "log_ID (ex_log c) = [c]" for c by (simp_all add: ex_log_def)
  then show ?thesis
    by (simp add: logsForArtifactRun_def artifactRun_def full_art_def full_view_def ex_art_def new_Artifact_def ex_manifest_def)
qed

section \<open>Witnesses\<close>

theorem ael2_sound_witness: "distinct (map log_ID (logsForArtifactRun full_art)) \<and> length (logsForArtifactRun full_art) = 2"
  using ael2_sound [of ex_crypto full_art] full_grade by (simp add: Let_def full_runs)

theorem ael3_sound_witness: "\<exists>k. one_key (ex_log (CHR ''A'')) k \<and> k \<noteq> ''logkey''"
proof -
  obtain decl where d: "man_Anchor (art_Manifest full_art) = Some decl" and
    k: "\<forall>log \<in> set (logsForArtifactRun full_art). \<exists>k. one_key log k \<and> k \<noteq> to_lower (ad_LogKey decl)"
    using ael3_sound [of ex_crypto full_art] full_grade by fastforce
  have "ad_LogKey decl = ''logkey''" using d by (auto simp: full_art_def full_view_def)
  moreover have "to_lower ''logkey'' = ''logkey''" by code_simp
  ultimately show ?thesis using k by (simp add: full_runs)
qed

theorem ael4_sound_witness:
  "\<exists>nonce. authentic_stmt full_stmt \<and> bound_stmt ''r1'' nonce full_stmt \<and> nonce \<noteq> []"
proof -
  have "counterpartyStatementsForRun full_art = [full_stmt]" "artifactRun full_art = ''r1''"
    by (simp_all add: counterpartyStatementsForRun_def artifactRun_def full_art_def full_view_def ex_manifest_def full_stmt_def)
  then show ?thesis using ael4_sound [of ex_crypto full_art] full_grade by auto
qed

text \<open>An activity with a decision under a policy that allows by default.\<close>

definition decided_record :: Record where
  "decided_record = ex_record (CHR ''A'') 1 ((ex_payload (CHR ''A'') 1 ''activity'')
     \<lparr>pl_Decision := Some \<lparr>de_Policy = ''p'', de_RequestFP = [], de_Inputs = [], de_Verdict = ''allow''\<rparr>\<rparr>)"

definition decided_art :: Artifact where
  "decided_art = (new_Artifact [] [] ex_manifest)
     \<lparr>art_Policies := [(''p'', \<lparr>pd_V = 1, pd_Rules = [], pd_Default = ''allow'', pd_Hash = ''p''\<rparr>)],
      art_RecorderLogs := [(ex_log (CHR ''A''))\<lparr>log_Records := [decided_record]\<rparr>]\<rparr>"

theorem checkR_replays_witness: "is_activity decided_record \<and> replays decided_art decided_record"
proof -
  have "fst (checkR decided_art) = ''+R''" by code_simp
  moreover have "AllRecords decided_art = [decided_record]" by (simp add: AllRecords_def decided_art_def)
  ultimately show ?thesis using checkR_replays [of decided_art] by simp
qed

theorem every_check_decides_witness:
  "\<exists>a res out. LoadArtifact ex_crypto tiny_fs = Inr a \<and> res \<in> set (rep_Runs (Evaluate ex_crypto a))
     \<and> (''a'', out) \<in> set (res_Checks res) \<and> Status out \<in> {Pass, Fail, UV}"
proof -
  obtain a where a: "LoadArtifact ex_crypto tiny_fs = Inr a" using tiny_evaluates by (auto split: sum.splits)
  have "set (artifactRuns a) \<noteq> {}" using artifactRuns_set(2) [of a] by (simp add: Diff_eq_empty_iff del: set_empty)
  then have "artifactRuns a \<noteq> []" by simp
  then obtain res where res: "res \<in> set (rep_Runs (Evaluate ex_crypto a))"
    using res_Run_Evaluate [of ex_crypto a] by (cases "rep_Runs (Evaluate ex_crypto a)") auto
  then obtain run where "res = evaluateRun ex_crypto (ForRun a run)" by (auto simp: Evaluate_def)
  then have c: "(''a'', checkSignatures (ForRun a run)) \<in> set (res_Checks res)"
    by (simp add: evaluateRun_def ungraded_result_def run_checks_def)
  show ?thesis using every_check_decides [OF a res c] a res c by blast
qed

section \<open>Witnesses: documents\<close>

definition small_doc :: cvalue where
  "small_doc = CObj [(''b'', CInt 2), (''a'', CArr [CStr ''x'', CNull])]"

theorem writeCanonical_roundtrip_witness:
  "parse_json (render (sortv small_doc)) = Inr (JObj [(''a'', JArr [JStr ''x'', JNull]), (''b'', JNum ''2'')])"
proof -
  have "good small_doc" "shallow max_depth (sortv small_doc)"
    "writeCanonical small_doc = Inr (render (sortv small_doc))"
    "json_of (sortv small_doc) = JObj [(''a'', JArr [JStr ''x'', JNull]), (''b'', JNum ''2'')]" by code_simp+
  then show ?thesis using writeCanonical_roundtrip [of small_doc] by auto
qed

theorem canonical_readers_agree_witness:
  "\<exists>v. parseDocument ''[1,null]'' = Inr v \<and> json_of v = JArr [JNum ''1'', JNull]"
proof -
  have "IsCanonical ''[1,null]''" "parse_json ''[1,null]'' = Inr (JArr [JNum ''1'', JNull])" by code_simp+
  then show ?thesis using canonical_readers_agree by metis
qed

end
