(* ===== verification/Emit_Cli.thy ===== *)
theory Emit_Cli
  imports Emit Go_Flag "HOL-Library.Word"
begin

text \<open>
  \<open>checker/cmd/aelpackage/emit.go\<close>: the verb emit, from its arguments to its exit status. What the operating system answers
  about the key files, the public key of an Ed25519 seed, the clock and the emission itself are arguments; \<open>eh_stdout\<close> is
  how many bytes the standard output takes before a write fails, \<open>None\<close> where none fails.
\<close>

unbundle bit_operations_syntax

section \<open>Keys\<close>

record emit_host =
  eh_stat :: "string \<Rightarrow> 32 word res"
  eh_read :: "string \<Rightarrow> string res"
  eh_seed :: "string \<Rightarrow> string"
  eh_now :: instant
  eh_env :: emit_env
  eh_stdout :: "nat option"

definition SeedSize :: nat where
  "SeedSize = 32"

definition std_base64 :: "string \<Rightarrow> string \<Rightarrow> string res" where
  "std_base64 what raw =
     (case std_decode (trim_space raw) of
        None \<Rightarrow> Inl (Errorf ''%s must be standard base64: %w'' [S what, E (StdErr ''illegal base64 data'')])
      | Some decoded \<Rightarrow> Inr decoded)"

text \<open>\<open>Perm\<close> keeps the nine permission bits; the private key must give none to the group or to others. A key file holds the
  whole private key or its seed.\<close>

definition readPrivateKey :: "emit_host \<Rightarrow> string \<Rightarrow> string res" where
  "readPrivateKey host path =
     (if trim_space path = [] then Inl (StdErr ''--operator-key is required'')
      else
        and_then (wrap_res (\<lambda>e. Errorf ''operator key: %w'' [E e]) (eh_stat host path)) (\<lambda>mode.
        if (mode AND 0x1FF) AND 0x3F \<noteq> 0
        then Inl (Errorf ''operator key %s is accessible to other accounts (mode %04o); run: chmod 600 %s''
          [S path, D (uint (mode AND 0x1FF)), S path])
        else
          and_then (wrap_res (\<lambda>e. Errorf ''operator key: %w'' [E e]) (eh_read host path)) (\<lambda>raw.
          and_then (std_base64 ''operator key'' raw) (\<lambda>decoded.
          if length decoded = PrivateKeySize then Inr decoded
          else if length decoded = SeedSize then Inr (decoded @ eh_seed host decoded)
          else Inl (Errorf ''operator key must decode to %d or %d bytes, got %d''
            [D (int SeedSize), D (int PrivateKeySize), D (int (length decoded))])))))"

definition readPublicKey :: "emit_host \<Rightarrow> string \<Rightarrow> string res" where
  "readPublicKey host path =
     (if trim_space path = [] then Inl (StdErr ''--status-key is required'')
      else
        and_then (wrap_res (\<lambda>e. Errorf ''status key: %w'' [E e]) (eh_read host path)) (\<lambda>raw.
        and_then (std_base64 ''status key'' raw) (\<lambda>decoded.
        if length decoded \<noteq> PublicKeySize
        then Inl (Errorf ''status key must decode to %d bytes, got %d'' [D (int PublicKeySize), D (int (length decoded))])
        else Inr decoded)))"

section \<open>The flags\<close>

definition emit_flags :: "(string \<times> flag_kind) list" where
  "emit_flags = map (\<lambda>n. (n, TextFlag))
     [''artifact'', ''artifact-keys'', ''checker'', ''checker-name'', ''source-revision'', ''operator-key'', ''operator-id'',
      ''producer-id'', ''status-authority-id'', ''status-key'', ''spec'', ''spec-version'', ''corpus-digest-source'',
      ''corpus-version'', ''conformance-command'', ''conformance-dir'', ''custody-acquisition'', ''custody-replay'',
      ''custody-review'', ''custody-issuance'', ''coverage-scope'', ''coverage-disclosure'', ''id'', ''run'', ''issued-at'', ''out'']
     @ [(''json'', BoolFlag)]"

definition emit_options :: "(string \<times> string) list \<Rightarrow> string \<Rightarrow> string \<Rightarrow> instant \<Rightarrow> EmitOptions" where
  "emit_options sets operatorPrivate statusPublic issued =
     (let f = (\<lambda>name. flag_string sets name []) in
      \<lparr>eo_ArtifactDir = f ''artifact'', eo_ArtifactKeysDir = f ''artifact-keys'', eo_CheckerPath = f ''checker'',
       eo_CheckerName = flag_string sets ''checker-name'' ''aelcheck'', eo_SourceRevision = f ''source-revision'',
       eo_PackageID = f ''id'', eo_ProducerID = f ''producer-id'', eo_OperatorID = f ''operator-id'',
       eo_OperatorKey = operatorPrivate, eo_StatusAuthorityID = f ''status-authority-id'', eo_StatusPublicKey = statusPublic,
       eo_Custody = \<lparr>pc_Acquisition = f ''custody-acquisition'', pc_Replay = f ''custody-replay'',
         pc_Review = f ''custody-review'', pc_Issuance = f ''custody-issuance''\<rparr>,
       eo_Coverage = \<lparr>pcv_Scope = f ''coverage-scope'', pcv_Disclosure = f ''coverage-disclosure''\<rparr>,
       eo_SpecVersion = flag_string sets ''spec-version'' SpecificationVersion, eo_SpecPath = f ''spec'',
       eo_CorpusVersion = f ''corpus-version'', eo_CorpusDigestPath = f ''corpus-digest-source'',
       eo_ConformanceCommand = flag_list sets ''conformance-command'', eo_ConformanceDir = f ''conformance-dir'',
       eo_CommandTimeout = 0, eo_Run = f ''run'', eo_IssuedAt = issued, eo_OutDir = f ''out''\<rparr>)"

section \<open>The command\<close>

definition exitEmittedNonconforming :: int where "exitEmittedNonconforming = 3"
definition exitReportFailed :: int where "exitReportFailed = 4"

definition doc_result :: "EmitResult \<Rightarrow> cvalue" where
  "doc_result res = CObj [(''package_dir'', CStr (er_PackageDir res)), (''package_id'', CStr (er_PackageID res)),
     (''run'', CStr (er_Run res)), (''discovered_runs'', doc_strings (er_DiscoveredRuns res)),
     (''exit_status'', CInt (er_ExitStatus res)), (''conformance_exit_status'', CInt (er_ConformanceExitStatus res))]"

definition emit_report :: "EmitResult \<Rightarrow> string" where
  "emit_report res =
     msg_text (Errorf ''evaluation-package %s: run %s, checker exit %d, conformance exit %d''
       [S (er_PackageID res), S (er_Run res), D (er_ExitStatus res), D (er_ConformanceExitStatus res)]) @ [CHR 0x0A]"

text \<open>What the arguments ask for: whether the result is printed as JSON, and the options. Every way to fail here ends with the
  status 2.\<close>

definition emit_request :: "emit_host \<Rightarrow> string list \<Rightarrow> (bool \<times> EmitOptions) res" where
  "emit_request host arguments =
     and_then (parse_flags emit_flags arguments) (\<lambda>(sets, rest).
       if rest \<noteq> [] then Inl (Errorf ''unexpected argument %q'' [Q (hd rest)])
       else
         and_then (readPrivateKey host (flag_string sets ''operator-key'' [])) (\<lambda>operatorPrivate.
         and_then (readPublicKey host (flag_string sets ''status-key'' [])) (\<lambda>statusPublic.
         and_then
           (if flag_string sets ''issued-at'' [] = [] then Inr (eh_now host)
            else
              (case parse_rfc3339 (flag_string sets ''issued-at'' []) of
                 None \<Rightarrow> Inl (Errorf ''--issued-at: %v'' [E (StdErr ''parsing time'')])
               | Some issued \<Rightarrow> Inr issued)) (\<lambda>issued.
         Inr (flag_bool sets ''json'', emit_options sets operatorPrivate statusPublic issued)))))"

definition printed :: "emit_host \<Rightarrow> string \<Rightarrow> string" where
  "printed host text = (case eh_stdout host of None \<Rightarrow> text | Some n \<Rightarrow> take n text)"

text \<open>The exit status and what is printed, and the package if there is one. The encoder's error is looked at, the one of
  \<open>Printf\<close> is not.\<close>

definition runEmit :: "crypto \<Rightarrow> emit_host \<Rightarrow> string list \<Rightarrow> int \<times> string \<times> (EmitResult \<times> stage) option" where
  "runEmit cr host arguments =
     (case emit_request host arguments of
        Inl _ \<Rightarrow> (2, [], None)
      | Inr (json, options) \<Rightarrow>
          (case EmitEvaluationPackage cr (eh_env host) options of
             Inl _ \<Rightarrow> (1, [], None)
           | Inr (res, published) \<Rightarrow>
               if json \<and> eh_stdout host \<noteq> None
               then (exitReportFailed, printed host (json_Encode (doc_result res)), Some (res, published))
               else
                 (if er_ExitStatus res \<noteq> 0 \<or> er_ConformanceExitStatus res \<noteq> 0 then exitEmittedNonconforming else 0,
                  printed host (if json then json_Encode (doc_result res) else emit_report res),
                  Some (res, published))))"

text \<open>The result was asked for as JSON and could not be written.\<close>

definition unreported :: "emit_host \<Rightarrow> string list \<Rightarrow> bool" where
  "unreported host arguments \<longleftrightarrow> eh_stdout host \<noteq> None \<and> (\<exists>options. emit_request host arguments = Inr (True, options))"

text \<open>C38: the exit statuses of emit are a contract. A package is published exactly with the statuses 0, 3 and 4: 4 says that
  its result was asked for as JSON and could not be written; otherwise 0 says that the checker and the conformance command both
  succeeded and 3 that one of them did not, so also that the evaluated run is open. In the text form a failed write
  of the result is not noticed: 0 and 3 then do not say that it was reported. 2 is left to arguments that are refused before
  anything is done, 1 to emissions that fail, and neither leaves a package. Where the standard output works, something is
  printed exactly when a package is published.\<close>
theorem runEmit_contract:
  "case runEmit cr host arguments of
     (status, out, package) \<Rightarrow>
       status \<in> {0, 1, 2, 3, 4} \<and> (status \<in> {0, 3, 4} \<longleftrightarrow> package \<noteq> None)
       \<and> (status = 2 \<longleftrightarrow> (\<exists>e. emit_request host arguments = Inl e))
       \<and> (status = 0 \<longleftrightarrow> (\<exists>res published. package = Some (res, published) \<and> er_ExitStatus res = 0
            \<and> er_ConformanceExitStatus res = 0 \<and> \<not> unreported host arguments))
       \<and> (status = 3 \<longleftrightarrow> (\<exists>res published. package = Some (res, published)
            \<and> \<not> (er_ExitStatus res = 0 \<and> er_ConformanceExitStatus res = 0) \<and> \<not> unreported host arguments))
       \<and> (status = 4 \<longleftrightarrow> package \<noteq> None \<and> unreported host arguments)
       \<and> (eh_stdout host = None \<and> out \<noteq> [] \<longleftrightarrow> eh_stdout host = None \<and> package \<noteq> None)"
proof -
  have "emit_report res \<noteq> []" "json_Encode v \<noteq> []" for res v by (simp_all add: emit_report_def json_Encode_def)
  then show ?thesis
    by (auto simp: runEmit_def unreported_def printed_def exitReportFailed_def exitEmittedNonconforming_def
        split: sum.split prod.split)
qed

end
