(* ===== verification/Keygen.thy ===== *)
theory Keygen
  imports Emit_Files Go_Flag
begin

text \<open>
  \<open>checker/cmd/aelpackage/keygen.go\<close>: the verb keygen makes a key pair of a trust role. The disk is what \<open>os.Lstat\<close> answers
  under each cleaned name. Other processes may act on it before every step (\<open>kg_other\<close>), except on the temporary
  file, whose name is random. The temporary file, its mode and its synchronization matter only by their errors.
\<close>

section \<open>The disk\<close>

type_synonym disk = "(string \<times> walk_node) list"

definition lstat :: "disk \<Rightarrow> string \<Rightarrow> walk_node res" where
  "lstat d p = (case alookup d p of None \<Rightarrow> Inl os_ErrNotExist | Some (WError e) \<Rightarrow> Inl e | Some n \<Rightarrow> Inr n)"

definition unlink :: "string \<Rightarrow> disk \<Rightarrow> disk" where
  "unlink p d = filter (\<lambda>(q, _). q \<noteq> p) d"

definition path_Join :: "string \<Rightarrow> string \<Rightarrow> string" where
  "path_Join a b = path_Clean (a @ ''/'' @ b)"

text \<open>\<open>filepath.Dir\<close>: what is left of the last slash, cleaned.\<close>

definition path_Dir :: "string \<Rightarrow> string" where
  "path_Dir p = path_Clean (take (length p - length (base_name p)) p)"

text \<open>\<open>os.MkdirAll\<close>, from the outermost directory; a symlink is taken to lead to a directory.\<close>

fun make_dirs :: "string list \<Rightarrow> disk \<Rightarrow> disk res" where
  "make_dirs [] d = Inr d"
| "make_dirs (p # ps) d =
     (case alookup d p of
        None \<Rightarrow> make_dirs ps (d @ [(p, WDir)])
      | Some n \<Rightarrow> if n = WDir \<or> n = WSymlink then make_dirs ps d else Inl (StdErr ''not a directory''))"

definition dirs_to :: "string \<Rightarrow> string list" where
  "dirs_to p = filter (\<lambda>q. q \<noteq> []) (parents p) @ [p]"

section \<open>Steps\<close>

text \<open>Randomness and failures: the part of the temporary name, and the errors of the calls on the temporary file;
  a failing write leaves the first \<open>ki_written\<close> bytes.\<close>

record key_io =
  ki_temp :: "string res"
  ki_chmod :: "msg option"
  ki_written :: nat
  ki_write :: "msg option"
  ki_sync :: "msg option"
  ki_close :: "msg option"
  ki_link :: "msg option"
  ki_remove :: "msg option"

record keygen_env =
  kg_other :: "nat \<Rightarrow> disk \<Rightarrow> disk"
  kg_mkdir :: "msg option"
  kg_key :: "(string \<times> string) res"
  kg_private :: key_io
  kg_public :: key_io
  kg_remove :: "msg option"
  kg_print :: "msg option"

text \<open>The log has every step of this program: the disk before and after it, the newest first.\<close>

record keygen_world =
  kw_disk :: disk
  kw_time :: nat
  kw_log :: "(disk \<times> disk) list"

type_synonym 'a keygen = "keygen_world \<Rightarrow> 'a res \<times> keygen_world"

definition act :: "keygen_env \<Rightarrow> (disk \<Rightarrow> 'a res \<times> disk) \<Rightarrow> 'a keygen" where
  "act env f w =
     (let before = kg_other env (kw_time w) (kw_disk w); (r, d) = f before in
      (r, \<lparr>kw_disk = d, kw_time = Suc (kw_time w), kw_log = (before, d) # kw_log w\<rparr>))"

definition stop :: "'a res \<Rightarrow> 'a keygen" where
  "stop r w = (r, w)"

definition next_step :: "'a keygen \<Rightarrow> ('a \<Rightarrow> 'b keygen) \<Rightarrow> 'b keygen" where
  "next_step m k w = (case m w of (Inl e, w') \<Rightarrow> (Inl e, w') | (Inr x, w') \<Rightarrow> k x w')"

text \<open>A deferred step runs after a failure too; its own result is dropped.\<close>

definition deferred :: "unit keygen \<Rightarrow> 'a keygen \<Rightarrow> 'a keygen" where
  "deferred last_step m w = (let (r, w') = m w in (r, snd (last_step w')))"

definition done_if :: "msg option \<Rightarrow> unit res" where
  "done_if e = (case e of None \<Rightarrow> Inr () | Some e \<Rightarrow> Inl e)"

definition call :: "keygen_env \<Rightarrow> msg option \<Rightarrow> unit keygen" where
  "call env e = act env (\<lambda>d. (done_if e, d))"

section \<open>Key files\<close>

definition temp_path :: "string \<Rightarrow> string \<Rightarrow> string" where
  "temp_path path random = path_Join (path_Dir path) (''.'' @ base_name path @ ''.tmp-'' @ random)"

definition create_temp :: "string \<Rightarrow> disk \<Rightarrow> unit res \<times> disk" where
  "create_temp temp d =
     (if has_key d temp then (Inl (StdErr ''file exists''), d) else (Inr (), aput temp (WFile (Inr [])) d))"

definition write_temp :: "key_io \<Rightarrow> string \<Rightarrow> string \<Rightarrow> disk \<Rightarrow> unit res \<times> disk" where
  "write_temp io temp content d =
     (case ki_write io of
        None \<Rightarrow> (Inr (), aput temp (WFile (Inr content)) d)
      | Some e \<Rightarrow> (Inl e, aput temp (WFile (Inr (take (ki_written io) content))) d))"

text \<open>\<open>link(2)\<close> never replaces a name.\<close>

definition link_temp :: "key_io \<Rightarrow> string \<Rightarrow> string \<Rightarrow> disk \<Rightarrow> unit res \<times> disk" where
  "link_temp io temp path d =
     (if has_key d path then (Inl (Errorf ''refusing to overwrite existing key file %s'' [S path]), d)
      else
        (case ki_link io of
           Some e \<Rightarrow> (Inl e, d)
         | None \<Rightarrow>
             (case alookup d temp of
                None \<Rightarrow> (Inl os_ErrNotExist, d)
              | Some n \<Rightarrow> (Inr (), aput path n d))))"

text \<open>The deferred removal of the temporary file: its error is dropped, the file then stays.\<close>

definition remove_temp :: "key_io \<Rightarrow> string \<Rightarrow> disk \<Rightarrow> unit res \<times> disk" where
  "remove_temp io temp d = (case ki_remove io of None \<Rightarrow> (Inr (), unlink temp d) | Some e \<Rightarrow> (Inl e, d))"

definition writeKeyFileExclusive :: "keygen_env \<Rightarrow> key_io \<Rightarrow> string \<Rightarrow> string \<Rightarrow> unit keygen" where
  "writeKeyFileExclusive env io path content =
     next_step (stop (ki_temp io)) (\<lambda>random.
     next_step (act env (create_temp (temp_path path random))) (\<lambda>_.
     deferred (act env (remove_temp io (temp_path path random)))
       (next_step (call env (ki_chmod io)) (\<lambda>_.
        next_step (act env (write_temp io (temp_path path random) content)) (\<lambda>_.
        next_step (call env (ki_sync io)) (\<lambda>_.
        next_step (call env (ki_close io)) (\<lambda>_.
        act env (link_temp io (temp_path path random) path))))))))"

section \<open>A key pair\<close>

definition keygenRoleDirectory :: "string \<Rightarrow> string res" where
  "keygenRoleDirectory role =
     (if role = ''operator'' then Inr ''operators''
      else if role = ''verifier'' then Inr ''verifiers''
      else if role = ''status'' then Inr ''status''
      else Inl (StdErr ''--role must be operator, verifier, or status''))"

record keygenResult =
  kr_Fingerprint :: string
  kr_PrivatePath :: string
  kr_PublicPath :: string

definition real_root :: "string \<Rightarrow> disk \<Rightarrow> unit res" where
  "real_root cleanRoot d =
     (case lstat d cleanRoot of
        Inr n \<Rightarrow>
          if n \<noteq> WDir then Inl (Errorf ''trust root %s must be a real directory, not a symlink'' [S cleanRoot]) else Inr ()
      | Inl err \<Rightarrow> if err \<noteq> os_ErrNotExist then Inl (Errorf ''inspect trust root: %w'' [E err]) else Inr ())"

definition real_directory :: "string \<Rightarrow> string \<Rightarrow> disk \<Rightarrow> unit res" where
  "real_directory role dir d =
     (case lstat d dir of
        Inl err \<Rightarrow> Inl (Errorf ''inspect %s trust directory: %w'' [S role, E err])
      | Inr n \<Rightarrow> if n \<noteq> WDir then Inl (Errorf ''%s trust directory must be a real directory'' [S role]) else Inr ())"

definition make_directory :: "keygen_env \<Rightarrow> string \<Rightarrow> string \<Rightarrow> disk \<Rightarrow> unit res \<times> disk" where
  "make_directory env role dir d =
     (case and_then (done_if (kg_mkdir env)) (\<lambda>_. make_dirs (dirs_to dir) d) of
        Inl err \<Rightarrow> (Inl (Errorf ''create %s trust directory: %w'' [S role, E err]), d)
      | Inr d' \<Rightarrow> (Inr (), d'))"

definition private_path :: "string \<Rightarrow> string \<Rightarrow> string" where
  "private_path role trustRoot = path_Join (path_Dir (path_Clean trustRoot)) (role @ ''.key'')"

definition public_path :: "string \<Rightarrow> string \<Rightarrow> string" where
  "public_path dir fingerprint = path_Join dir (fingerprint @ ''.pub'')"

text \<open>The public key goes in place last: if it cannot, the private key is removed, by its name.\<close>

definition remove_private :: "keygen_env \<Rightarrow> string \<Rightarrow> msg \<Rightarrow> disk \<Rightarrow> unit res \<times> disk" where
  "remove_private env privatePath err d =
     (case if has_key d privatePath then kg_remove env else Some os_ErrNotExist of
        None \<Rightarrow> (Inr (), unlink privatePath d)
      | Some cleanupErr \<Rightarrow>
          (Inl (Errorf ''write public key and remove incomplete private key: %w''
            [E (Errorf (''%v'' @ [CHR 0x0A] @ ''%v'') [E err, E cleanupErr])]), d))"

definition write_public :: "keygen_env \<Rightarrow> string \<Rightarrow> string \<Rightarrow> string \<Rightarrow> unit keygen" where
  "write_public env privatePath publicPath publicText w =
     (case writeKeyFileExclusive env (kg_public env) publicPath publicText w of
        (Inr _, w') \<Rightarrow> (Inr (), w')
      | (Inl err, w') \<Rightarrow>
          next_step (act env (remove_private env privatePath err))
            (\<lambda>_. stop (Inl (Errorf ''write public key: %w'' [E err]))) w')"

definition wrap_step :: "(msg \<Rightarrow> msg) \<Rightarrow> 'a keygen \<Rightarrow> 'a keygen" where
  "wrap_step f m w = (case m w of (Inl e, w') \<Rightarrow> (Inl (f e), w') | (Inr x, w') \<Rightarrow> (Inr x, w'))"

definition generateTrustKeypair :: "crypto \<Rightarrow> keygen_env \<Rightarrow> string \<Rightarrow> string \<Rightarrow> keygenResult keygen" where
  "generateTrustKeypair cr env role trustRoot =
     next_step (stop (keygenRoleDirectory role)) (\<lambda>roleDirectory.
     next_step (act env (\<lambda>d. (real_root (path_Clean trustRoot) d, d))) (\<lambda>_.
     next_step (wrap_step (\<lambda>e. Errorf ''generate ed25519 key: %w'' [E e]) (stop (kg_key env))) (\<lambda>(public, private).
     let fingerprint = sha256_hex cr public;
         publicDirectory = path_Join trustRoot roleDirectory;
         publicPath = public_path publicDirectory fingerprint;
         privatePath = private_path role trustRoot
     in
       next_step (act env (make_directory env role publicDirectory)) (\<lambda>_.
       next_step (act env (\<lambda>d. (real_directory role publicDirectory d, d))) (\<lambda>_.
       next_step (wrap_step (\<lambda>e. Errorf ''write private key: %w'' [E e])
         (writeKeyFileExclusive env (kg_private env) privatePath (std_encode private @ [CHR 0x0A]))) (\<lambda>_.
       next_step (write_public env privatePath publicPath (std_encode public @ [CHR 0x0A])) (\<lambda>_.
       stop (Inr \<lparr>kr_Fingerprint = fingerprint, kr_PrivatePath = privatePath, kr_PublicPath = publicPath\<rparr>))))))))"

section \<open>The command\<close>

definition keygen_flags :: "(string \<times> flag_kind) list" where
  "keygen_flags = [(''role'', TextFlag), (''dir'', TextFlag)]"

definition keygen_report :: "keygenResult \<Rightarrow> string" where
  "keygen_report r =
     ''fingerprint: '' @ kr_Fingerprint r @ [CHR 0x0A] @ ''private key: '' @ kr_PrivatePath r @ [CHR 0x0A]
     @ ''public key: '' @ kr_PublicPath r @ [CHR 0x0A]"

definition runKeygen :: "crypto \<Rightarrow> keygen_env \<Rightarrow> string list \<Rightarrow> keygen_world \<Rightarrow> int \<times> string \<times> keygen_world" where
  "runKeygen cr env arguments w =
     (case parse_flags keygen_flags arguments of
        Inl _ \<Rightarrow> (2, [], w)
      | Inr (sets, rest) \<Rightarrow>
          if rest \<noteq> [] \<or> trim_space (flag_string sets ''dir'' []) = [] then (2, [], w)
          else
            (case keygenRoleDirectory (flag_string sets ''role'' []) of
               Inl _ \<Rightarrow> (2, [], w)
             | Inr _ \<Rightarrow>
                 (case generateTrustKeypair cr env (flag_string sets ''role'' []) (flag_string sets ''dir'' []) w of
                    (Inl _, w') \<Rightarrow> (1, [], w')
                  | (Inr result, w') \<Rightarrow>
                      if kg_print env \<noteq> None then (1, [], w') else (0, keygen_report result, w'))))"

end
