(* ===== verification/Package_Cli.thy ===== *)
theory Package_Cli
  imports Emit_Cli Keygen Cli
begin

text \<open>
  \<open>checker/cmd/aelpackage/main.go\<close>: the program, from its arguments; the verbs emit and keygen are dispatched before the flags
  are parsed. What the operating system shows it is an argument, as is \<open>time.ParseDuration\<close>, which rounds in
  floating point.
\<close>

record package_host =
  ph_version :: string
  ph_runtime :: string
  ph_encode :: "msg option"
  ph_duration :: "string \<Rightarrow> int res"
  ph_env :: "string \<Rightarrow> package_env"
  ph_source :: "string \<Rightarrow> package_source"
  ph_emit :: emit_host
  ph_keygen :: keygen_env

definition package_flags :: "(string \<times> flag_kind) list" where
  "package_flags = [(''json'', BoolFlag), (''keys'', TextFlag), (''status'', TextFlag), (''status-signature'', TextFlag),
     (''status-at'', TextFlag), (''max-status-age'', TextFlag)]"

definition validate_args :: "package_host \<Rightarrow> (string \<times> string) list \<Rightarrow> string list \<Rightarrow> package_args" where
  "validate_args host sets rest =
     (let age = flag_string sets ''max-status-age'' [] in
      \<lparr>pa_json = flag_bool sets ''json'', pa_keys = flag_string sets ''keys'' [], pa_status = flag_string sets ''status'' [],
       pa_signature = flag_string sets ''status-signature'' [], pa_at = flag_string sets ''status-at'' [],
       pa_maxAge = (if age = [] then None else Some (ph_duration host age)), pa_rest = rest\<rparr>)"

text \<open>What a run leaves behind: a package that emit published, the disk after keygen.\<close>

datatype left_behind = Nothing | Published "(EmitResult \<times> stage) option" | Keys keygen_world

definition aelpackage_main :: "crypto \<Rightarrow> package_host \<Rightarrow> string list \<Rightarrow> keygen_world \<Rightarrow> int \<times> string \<times> left_behind" where
  "aelpackage_main cr host arguments w =
     (if arguments = [''--version''] then (0, version_text ''aelpackage'' (ph_version host) (ph_runtime host), Nothing)
      else if arguments \<noteq> [] \<and> hd arguments = ''emit'' then
        (let (status, out, package) = runEmit cr (ph_emit host) (tl arguments) in (status, out, Published package))
      else if arguments \<noteq> [] \<and> hd arguments = ''keygen'' then
        (let (status, out, w') = runKeygen cr (ph_keygen host) (tl arguments) w in (status, out, Keys w'))
      else
        (case parse_flags package_flags arguments of
           Inl err \<Rightarrow> (flag_exit err, [], Nothing)
         | Inr (sets, rest) \<Rightarrow>
             (let args = validate_args host sets rest;
                  (status, out) = aelpackage cr (ph_env host (pa_keys args)) (ph_encode host) args (ph_source host (rest ! 1))
              in (status, out, Nothing))))"

text \<open>C24: \<open>aelpackage validate\<close>, from the arguments of the program on, exits 0 only for a package that passed every check and
  whose evaluation and conformance exited 0; it is an evaluation package, or it displays VERIFIED.\<close>
theorem aelpackage_zero:
  assumes "parse_flags package_flags arguments = Inr (sets, rest)" "hd arguments \<notin> {''emit'', ''keygen''}"
    and "aelpackage_main cr host arguments w = (0, out, left)"
  shows "\<exists>dir opts t raw m. rest = [''validate'', dir] \<and> flag_string sets ''keys'' [] \<noteq> []
    \<and> package_options (validate_args host sets rest) = Some opts \<and> snapshotPackageDir (ph_source host dir) = Inr t
    \<and> alookup t packageManifestName = Some (File raw) \<and> load_package_manifest raw = Inr m
    \<and> check_package cr (ph_env host (flag_string sets ''keys'' [])) t raw m = Inr () \<and> succeeded m
    \<and> (pm_Kind m = ''evaluation-package'' \<or> verified_package cr (ph_env host (flag_string sets ''keys'' [])) opts t m)
    \<and> left = Nothing"
proof -
  let ?args = "validate_args host sets rest" and ?keys = "flag_string sets ''keys'' []"
  have keys: "pa_keys ?args = ?keys" "pa_rest ?args = rest" by (simp_all add: validate_args_def Let_def)
  have "arguments \<noteq> [''--version'']"
  proof
    assume a: "arguments = [''--version'']"
    have "\<not> (case parse_flags package_flags [''--version''] of Inr _ \<Rightarrow> True | Inl _ \<Rightarrow> False)" by code_simp
    then show False using assms(1) a by simp
  qed
  then have run: "aelpackage cr (ph_env host ?keys) (ph_encode host) ?args (ph_source host (rest ! 1)) = (0, out)" "left = Nothing"
    using assms by (auto simp: aelpackage_main_def Let_def keys split: prod.splits if_splits)
  then have zero: "fst (aelpackage cr (ph_env host ?keys) (ph_encode host) ?args (ph_source host (rest ! 1))) = 0" by simp
  obtain dir where dir: "rest = [''validate'', dir]" "?keys \<noteq> []"
    using run(1) by (auto simp: aelpackage_def keys length_Suc_conv numeral_2_eq_2 split: if_splits)
  then show ?thesis using validate_zero [OF zero] run(2) by auto
qed

end
