(* ===== verification/Keygen_Facts.thy ===== *)
theory Keygen_Facts
  imports Keygen Emit_Cli
begin

text \<open>
  What keygen guarantees: under any interference it changes no file that is there, but may take back a private key that it put in
  place itself; undisturbed it makes both keys or, where its clean-up succeeds, neither, and a reader never sees a part
  of one.
\<close>

section \<open>A guarantee for every step\<close>

text \<open>Every step that \<open>m\<close> takes satisfies \<open>G\<close>, whatever happened before it.\<close>

definition logged :: "(disk \<Rightarrow> disk \<Rightarrow> bool) \<Rightarrow> (disk \<times> disk) list \<Rightarrow> (disk \<times> disk) list \<Rightarrow> bool" where
  "logged G log' log \<longleftrightarrow> (\<exists>steps. log' = steps @ log \<and> (\<forall>(b, a) \<in> set steps. G b a))"

definition guarantees :: "(disk \<Rightarrow> disk \<Rightarrow> bool) \<Rightarrow> 'a keygen \<Rightarrow> bool" where
  "guarantees G m \<longleftrightarrow> (\<forall>w. logged G (kw_log (snd (m w))) (kw_log w))"

lemma logged_refl [simp]: "logged G log log"
  by (simp add: logged_def)

lemma logged_Cons: "G b a \<Longrightarrow> logged G log' log \<Longrightarrow> logged G ((b, a) # log') log"
  by (auto simp: logged_def)

lemma logged_trans: "logged G log2 log1 \<Longrightarrow> logged G log1 log0 \<Longrightarrow> logged G log2 log0"
  by (auto simp: logged_def)

lemma logged_mono: "logged G log' log \<Longrightarrow> (\<And>b a. G b a \<Longrightarrow> H b a) \<Longrightarrow> logged H log' log"
  by (fastforce simp: logged_def)

named_theorems step_rules "rules for the guarantee of a sequence of steps"

lemma guarantees_stop [step_rules]: "guarantees G (stop r)"
  by (simp add: guarantees_def stop_def)

lemma guarantees_act [step_rules]:
  assumes "\<And>d. G d (snd (f d))"
  shows "guarantees G (act env f)"
  using assms by (auto simp: guarantees_def act_def Let_def split: prod.split intro!: logged_Cons) (metis snd_conv)

lemma guarantees_next [step_rules]:
  assumes "guarantees G m" "\<And>x. guarantees G (k x)"
  shows "guarantees G (next_step m k)"
  unfolding guarantees_def
proof
  fix w :: keygen_world
  obtain r w1 where m: "m w = (r, w1)" by fastforce
  then have "logged G (kw_log w1) (kw_log w)" using assms(1) by (metis guarantees_def snd_conv)
  then show "logged G (kw_log (snd (next_step m k w))) (kw_log w)"
    using assms(2) m by (cases r) (auto simp: next_step_def guarantees_def intro: logged_trans)
qed

lemma guarantees_deferred [step_rules]:
  assumes "guarantees G l" "guarantees G m"
  shows "guarantees G (deferred l m)"
  unfolding guarantees_def
proof
  fix w :: keygen_world
  obtain r w1 where m: "m w = (r, w1)" by fastforce
  then have "logged G (kw_log w1) (kw_log w)" using assms(2) by (metis guarantees_def snd_conv)
  then show "logged G (kw_log (snd (deferred l m w))) (kw_log w)"
    using assms(1) m by (auto simp: deferred_def guarantees_def intro: logged_trans)
qed

lemma guarantees_wrap [step_rules]:
  assumes "guarantees G m"
  shows "guarantees G (wrap_step f m)"
proof -
  have "snd (wrap_step f m w) = snd (m w)" for w by (simp add: wrap_step_def split: prod.split sum.split)
  then show ?thesis using assms by (simp add: guarantees_def)
qed

lemma stop_then: "next_step (stop (Inr x)) k = k x" "next_step (stop (Inl e)) k = stop (Inl e)"
  by (simp_all add: next_step_def stop_def fun_eq_iff)

lemma wrap_stop: "wrap_step f (stop (Inr x)) = stop (Inr x)"
  by (simp add: wrap_step_def stop_def fun_eq_iff)

section \<open>Nothing is overwritten\<close>

text \<open>The temporary names of a run, and those of them that stay because their removal fails.\<close>

definition temps_of :: "key_io \<Rightarrow> string \<Rightarrow> string set" where
  "temps_of io path = (case ki_temp io of Inl _ \<Rightarrow> {} | Inr random \<Rightarrow> {temp_path path random})"

definition left_of :: "key_io \<Rightarrow> string \<Rightarrow> string set" where
  "left_of io path = (if ki_remove io = None then {} else temps_of io path)"

definition run_names :: "(key_io \<Rightarrow> string \<Rightarrow> string set) \<Rightarrow> crypto \<Rightarrow> keygen_env \<Rightarrow> string \<Rightarrow> string \<Rightarrow> string set" where
  "run_names f cr env role trustRoot =
     f (kg_private env) (private_path role trustRoot)
     \<union> (case (kg_key env, keygenRoleDirectory role) of
          (Inr (public, _), Inr roleDirectory) \<Rightarrow>
            f (kg_public env) (public_path (path_Join trustRoot roleDirectory) (sha256_hex cr public))
        | _ \<Rightarrow> {})"

definition temp_names :: "crypto \<Rightarrow> keygen_env \<Rightarrow> string \<Rightarrow> string \<Rightarrow> string set" where
  "temp_names = run_names temps_of"

definition left_names :: "crypto \<Rightarrow> keygen_env \<Rightarrow> string \<Rightarrow> string \<Rightarrow> string set" where
  "left_names = run_names left_of"

definition kept :: "string set \<Rightarrow> disk \<Rightarrow> disk \<Rightarrow> bool" where
  "kept T b a \<longleftrightarrow> (\<forall>p n. p \<notin> T \<longrightarrow> alookup b p = Some n \<longrightarrow> alookup a p = Some n)"

text \<open>Some step of the log has put an entry under a name that was free.\<close>

definition made :: "string \<Rightarrow> (disk \<times> disk) list \<Rightarrow> bool" where
  "made p log \<longleftrightarrow> (\<exists>(b, a) \<in> set log. alookup b p = None \<and> alookup a p \<noteq> None)"

lemma alookup_unlink: "alookup (unlink q d) p = (if p = q then None else alookup d p)"
  by (induction d) (auto simp: unlink_def)

lemma alookup_append_disk: "alookup (d @ e) p = (case alookup d p of Some n \<Rightarrow> Some n | None \<Rightarrow> alookup e p)"
  by (induction d) auto

lemma make_dirs_lookup:
  "make_dirs ps d = Inr d' \<Longrightarrow> alookup d' p = alookup d p \<or> (alookup d p = None \<and> alookup d' p = Some WDir \<and> p \<in> set ps)"
proof (induction ps d rule: make_dirs.induct)
  case (2 q ps d)
  show ?case
  proof (cases "alookup d q")
    case None
    then have "make_dirs ps (d @ [(q, WDir)]) = Inr d'" using "2.prems" by simp
    then show ?thesis using "2.IH"(1) [OF None] None by (auto simp: alookup_append_disk split: option.splits if_splits)
  next
    case (Some n)
    then show ?thesis using 2 by (auto split: if_splits)
  qed
qed auto

lemma kept_refl [simp]: "kept T d d"
  by (simp add: kept_def)

lemma kept_dirs: "kept T d (snd (make_directory env role dir d))"
proof -
  have "alookup d' p = Some n" if "make_dirs ps d = Inr d'" "alookup d p = Some n" for ps d' p n
    using make_dirs_lookup [OF that(1), of p] that(2) by auto
  then show ?thesis by (auto simp: make_directory_def kept_def and_then_Inr_iff split: sum.split)
qed

lemma kept_key_file:
  assumes "temps_of io path \<subseteq> T"
  shows "guarantees (kept T) (writeKeyFileExclusive env io path content)"
proof (cases "ki_temp io")
  case (Inl e)
  then show ?thesis by (simp add: writeKeyFileExclusive_def next_step_def stop_def guarantees_def)
next
  case (Inr random)
  let ?t = "temp_path path random"
  have t: "?t \<in> T" using assms Inr by (simp add: temps_of_def)
  have steps: "kept T d (snd (create_temp ?t d))" "kept T d (snd (write_temp io ?t content d))"
    "kept T d (snd (link_temp io ?t path d))" "kept T d (snd (remove_temp io ?t d))" for d
    using t by (auto simp: kept_def create_temp_def write_temp_def link_temp_def remove_temp_def alookup_aput alookup_unlink
        has_key_def split: option.splits)
  show ?thesis
    unfolding writeKeyFileExclusive_def Inr stop_then by (auto simp: call_def steps intro!: step_rules)
qed

lemma made_append [simp]: "made p (log @ log') \<longleftrightarrow> made p log \<or> made p log'"
  by (auto simp: made_def)

text \<open>Where a key file is in place, a step of this run has put it there.\<close>

lemma made_key_file:
  assumes "writeKeyFileExclusive env io path content w = (Inr (), w')"
  shows "made path (kw_log w')"
  using assms
  by (auto simp: made_def writeKeyFileExclusive_def next_step_def stop_def deferred_def call_def act_def Let_def link_temp_def
      has_key_def alookup_aput split: sum.splits prod.splits if_splits option.splits)

text \<open>The last step of the log, and it alone, removes the entry under a name this run had put in place.\<close>

definition taken_back :: "string set \<Rightarrow> string \<Rightarrow> (disk \<times> disk) list \<Rightarrow> bool" where
  "taken_back T q log \<longleftrightarrow>
     (\<exists>b older. log = (b, unlink q b) # older \<and> (\<forall>(b, a) \<in> set older. kept T b a) \<and> made q older)"

definition outcome_kept :: "string set \<Rightarrow> string \<Rightarrow> 'a res \<times> keygen_world \<Rightarrow> bool" where
  "outcome_kept T q out \<longleftrightarrow>
     (\<forall>(b, a) \<in> set (kw_log (snd out)). kept T b a) \<or> (taken_back T q (kw_log (snd out)) \<and> (\<exists>e. fst out = Inl e))"

lemma outcome_kept_next:
  assumes "guarantees (kept T) m" "\<forall>(b, a) \<in> set (kw_log w). kept T b a"
    and "\<And>x w'. m w = (Inr x, w') \<Longrightarrow> (\<forall>(b, a) \<in> set (kw_log w'). kept T b a) \<Longrightarrow> outcome_kept T q (k x w')"
  shows "outcome_kept T q (next_step m k w)"
proof -
  obtain r w1 where m: "m w = (r, w1)" by fastforce
  then have "logged (kept T) (kw_log w1) (kw_log w)" using assms(1) by (metis guarantees_def snd_conv)
  then have l: "\<forall>(b, a) \<in> set (kw_log w1). kept T b a" using assms(2) by (auto simp: logged_def)
  then show ?thesis using m assms(3) by (cases r) (auto simp: next_step_def outcome_kept_def)
qed

lemma write_public_kept:
  assumes "temps_of (kg_public env) path \<subseteq> T" "\<forall>(b, a) \<in> set (kw_log w). kept T b a" "made q (kw_log w)"
    and "write_public env q path content w = (r, w')"
  shows "outcome_kept T q (r, w')"
proof -
  obtain r1 w1 where m: "writeKeyFileExclusive env (kg_public env) path content w = (r1, w1)" by fastforce
  then have "logged (kept T) (kw_log w1) (kw_log w)" using kept_key_file [OF assms(1)] by (metis guarantees_def snd_conv)
  then have l: "\<forall>(b, a) \<in> set (kw_log w1). kept T b a" "made q (kw_log w1)"
    using assms(2,3) by (auto simp: logged_def)
  then show ?thesis
    using assms(4) m by (auto simp: write_public_def next_step_def stop_def act_def remove_private_def Let_def
        outcome_kept_def taken_back_def split: sum.splits option.splits if_splits)
qed

text \<open>From the private key on: the public key follows, and nothing after it takes a step.\<close>

lemma outcome_kept_keys:
  assumes t: "temps_of (kg_private env) privp \<subseteq> T" "temps_of (kg_public env) pubp \<subseteq> T"
    and l: "\<forall>(b, a) \<in> set (kw_log w). kept T b a"
  shows "outcome_kept T privp
    (next_step (wrap_step f (writeKeyFileExclusive env (kg_private env) privp privtext)) (\<lambda>_.
     next_step (write_public env privp pubp pubtext) (\<lambda>_. stop res)) w)"
proof (rule outcome_kept_next [OF guarantees_wrap [OF kept_key_file [OF t(1)]] l])
  fix x w'
  assume m: "wrap_step f (writeKeyFileExclusive env (kg_private env) privp privtext) w = (Inr x, w')"
    and l': "\<forall>(b, a) \<in> set (kw_log w'). kept T b a"
  have "made privp (kw_log w')"
    using m by (auto simp: wrap_step_def split: sum.splits prod.splits intro: made_key_file)
  moreover obtain r w'' where p: "write_public env privp pubp pubtext w' = (r, w'')" by fastforce
  ultimately have "outcome_kept T privp (r, w'')" using write_public_kept [OF t(2) l'] by blast
  then show "outcome_kept T privp (next_step (write_public env privp pubp pubtext) (\<lambda>_. stop res) w')"
    using p by (cases r) (auto simp: next_step_def stop_def outcome_kept_def)
qed

lemma generate_outcome_kept:
  "outcome_kept (temp_names cr env role trustRoot) (private_path role trustRoot)
     (generateTrustKeypair cr env role trustRoot \<lparr>kw_disk = d, kw_time = 0, kw_log = []\<rparr>)"
proof (cases "\<exists>pub priv dir. kg_key env = Inr (pub, priv) \<and> keygenRoleDirectory role = Inr dir")
  case True
  then obtain pub priv dir where k: "kg_key env = Inr (pub, priv)" "keygenRoleDirectory role = Inr dir" by blast
  let ?T = "temp_names cr env role trustRoot"
  have t: "temps_of (kg_private env) (private_path role trustRoot) \<subseteq> ?T"
    "temps_of (kg_public env) (public_path (path_Join trustRoot dir) (sha256_hex cr pub)) \<subseteq> ?T"
    by (auto simp: temp_names_def run_names_def k)
  have look: "guarantees (kept ?T) (act env (\<lambda>d. (f d, d)))" for f :: "disk \<Rightarrow> 'x res" by (rule guarantees_act) simp
  have dirs: "guarantees (kept ?T) (act env (make_directory env role p))" for p by (rule guarantees_act) (rule kept_dirs)
  show ?thesis
    unfolding generateTrustKeypair_def k stop_then wrap_stop Let_def prod.case
    by (rule outcome_kept_next [OF look], simp, rule outcome_kept_next [OF dirs], assumption,
        rule outcome_kept_next [OF look], assumption, rule outcome_kept_keys [OF t], assumption)
next
  case False
  then show ?thesis
    unfolding generateTrustKeypair_def
    by (cases "kg_key env"; cases "keygenRoleDirectory role")
      (auto simp: next_step_def stop_def wrap_step_def outcome_kept_def act_def Let_def split: sum.split)
qed

text \<open>C9: keygen overwrites nothing. Whatever other processes do in between, no step of a run changes or removes
  what is under a name that exists before the step, be it the user's own private key; only the two random temporary
  names are exempt. One thing else may go: what is under the name of the private key, in the last step of a run that
  fails, and only after an earlier step of this run had put an entry under that name while it was free.\<close>
theorem keygen_overwrites_nothing:
  assumes "generateTrustKeypair cr env role trustRoot \<lparr>kw_disk = d, kw_time = 0, kw_log = []\<rparr> = (r, w)"
    and "kw_log w = newer @ (before, later) # older" "alookup before p = Some n" "p \<notin> temp_names cr env role trustRoot"
  shows "alookup later p = Some n
    \<or> (p = private_path role trustRoot \<and> alookup later p = None \<and> newer = [] \<and> (\<exists>e. r = Inl e)
       \<and> (\<exists>(b, a) \<in> set older. alookup b p = None \<and> alookup a p \<noteq> None))"
proof -
  let ?T = "temp_names cr env role trustRoot" and ?q = "private_path role trustRoot"
  have "outcome_kept ?T ?q (r, w)" using generate_outcome_kept assms(1) by metis
  then consider "kept ?T before later" | "taken_back ?T ?q (newer @ (before, later) # older)" "\<exists>e. r = Inl e"
    using assms(2) by (auto simp: outcome_kept_def)
  then show ?thesis
  proof cases
    case 2
    then show ?thesis using assms(3,4)
      by (cases newer) (auto simp: taken_back_def made_def kept_def alookup_unlink)
  qed (use assms(3,4) in \<open>simp add: kept_def\<close>)
qed

section \<open>Undisturbed\<close>

definition undisturbed :: "keygen_env \<Rightarrow> bool" where
  "undisturbed env \<longleftrightarrow> (\<forall>n d. kg_other env n d = d)"

lemma act_alone:
  "undisturbed env \<Longrightarrow> act env f w =
     (fst (f (kw_disk w)), \<lparr>kw_disk = snd (f (kw_disk w)), kw_time = Suc (kw_time w), kw_log = (kw_disk w, snd (f (kw_disk w))) # kw_log w\<rparr>)"
  by (simp add: undisturbed_def act_def Let_def split_def)

text \<open>The disk \<open>a\<close> is the disk \<open>b\<close> with at most the temporary file of \<open>io\<close> left on it.\<close>

definition same_but :: "string set \<Rightarrow> disk \<Rightarrow> disk \<Rightarrow> bool" where
  "same_but X b a \<longleftrightarrow> (\<forall>p. alookup a p = alookup b p \<or> (p \<in> X \<and> alookup b p = None))"

lemma same_butD: "same_but X b a \<Longrightarrow> p \<notin> X \<Longrightarrow> alookup a p = alookup b p"
  by (auto simp: same_but_def)

lemma same_but_Some: "same_but X b a \<Longrightarrow> alookup b p = Some n \<Longrightarrow> alookup a p = Some n"
  by (auto simp: same_but_def dest: spec [of _ p])

lemma same_but_None: "same_but X b a \<Longrightarrow> alookup a p = None \<Longrightarrow> alookup b p = None"
  by (auto simp: same_but_def dest: spec [of _ p])

lemma alookup_removed:
  "alookup (snd (remove_temp io t d)) p = (if ki_remove io = None \<and> p = t then None else alookup d p)"
  by (simp add: remove_temp_def alookup_unlink split: option.split)

text \<open>A key file in place: every step went well, and the disk before the removal of the temporary file is known.\<close>

lemma key_file_success:
  assumes "undisturbed env" "writeKeyFileExclusive env io path content w = (Inr (), w')"
  obtains random d where "ki_temp io = Inr random" "alookup (kw_disk w) (temp_path path random) = None"
    "alookup (kw_disk w) path = None" "path \<noteq> temp_path path random" "kw_disk w' = snd (remove_temp io (temp_path path random) d)"
    "\<And>p. alookup d p = (if p = path \<or> p = temp_path path random then Some (WFile (Inr content)) else alookup (kw_disk w) p)"
proof -
  obtain random where t: "ki_temp io = Inr random"
    using assms(2) by (cases "ki_temp io") (auto simp: writeKeyFileExclusive_def next_step_def stop_def)
  have "ki_chmod io = None \<and> ki_write io = None \<and> ki_sync io = None \<and> ki_close io = None \<and> ki_link io = None
      \<and> \<not> has_key (kw_disk w) (temp_path path random)"
    using assms(2) unfolding writeKeyFileExclusive_def t stop_then
    by (auto simp: next_step_def deferred_def call_def act_alone [OF assms(1)] create_temp_def write_temp_def link_temp_def
        done_if_def Let_def split: sum.splits if_splits option.splits)
  then show thesis
    using assms(2) that [OF t] unfolding writeKeyFileExclusive_def t stop_then
    by (auto simp: next_step_def deferred_def call_def act_alone [OF assms(1)] create_temp_def write_temp_def link_temp_def
        done_if_def alookup_aput has_key_def Let_def split: if_splits)
qed

text \<open>From a disk with \<open>P\<close>, \<open>m\<close> passes only disks with \<open>G\<close>, and ends with \<open>R\<close> if it succeeds.\<close>

definition passing :: "(disk \<Rightarrow> bool) \<Rightarrow> (disk \<Rightarrow> bool) \<Rightarrow> 'a keygen \<Rightarrow> (disk \<Rightarrow> bool) \<Rightarrow> bool" where
  "passing G P m R \<longleftrightarrow> (\<forall>w. P (kw_disk w) \<longrightarrow> logged (\<lambda>b. G) (kw_log (snd (m w))) (kw_log w) \<and> G (kw_disk (snd (m w)))
     \<and> ((\<exists>x. fst (m w) = Inr x) \<longrightarrow> R (kw_disk (snd (m w)))))"

lemma passing_act:
  assumes "undisturbed env" "\<And>d. P d \<Longrightarrow> G (snd (f d))" "\<And>d x. P d \<Longrightarrow> fst (f d) = Inr x \<Longrightarrow> R (snd (f d))"
  shows "passing G P (act env f) R"
  using assms(2,3) by (auto simp: passing_def act_alone [OF assms(1)] intro!: logged_Cons)

lemma passing_next:
  assumes "passing G P m R" "\<And>x. passing G R (k x) N"
  shows "passing G P (next_step m k) N"
  unfolding passing_def
proof (intro allI impI)
  fix w :: keygen_world
  assume "P (kw_disk w)"
  moreover obtain r w1 where m: "m w = (r, w1)" by fastforce
  ultimately have a: "logged (\<lambda>b. G) (kw_log w1) (kw_log w)" "G (kw_disk w1)" "(\<exists>x. r = Inr x) \<longrightarrow> R (kw_disk w1)"
    using assms(1) unfolding passing_def by (metis fst_conv snd_conv)+
  show "logged (\<lambda>b. G) (kw_log (snd (next_step m k w))) (kw_log w) \<and> G (kw_disk (snd (next_step m k w)))
      \<and> ((\<exists>x. fst (next_step m k w) = Inr x) \<longrightarrow> N (kw_disk (snd (next_step m k w))))"
    using a assms(2) m by (cases r) (auto simp: next_step_def passing_def intro: logged_trans)
qed

lemma passing_deferred:
  assumes "passing G P m R" "passing G G l G"
  shows "passing G P (deferred l m) G"
  unfolding passing_def
proof (intro allI impI)
  fix w :: keygen_world
  assume "P (kw_disk w)"
  moreover obtain r w1 where m: "m w = (r, w1)" by fastforce
  ultimately have a: "logged (\<lambda>b. G) (kw_log w1) (kw_log w)" "G (kw_disk w1)"
    using assms(1) unfolding passing_def by (metis snd_conv)+
  then show "logged (\<lambda>b. G) (kw_log (snd (deferred l m w))) (kw_log w) \<and> G (kw_disk (snd (deferred l m w)))
      \<and> ((\<exists>x. fst (deferred l m w) = Inr x) \<longrightarrow> G (kw_disk (snd (deferred l m w))))"
    using assms(2) m by (auto simp: deferred_def passing_def intro: logged_trans)
qed

lemma passing_key_file:
  assumes "undisturbed env"
  shows "passing (\<lambda>a. \<forall>p. p \<notin> temps_of io path \<longrightarrow> alookup a p = alookup d0 p
       \<or> (p = path \<and> alookup d0 p = None \<and> alookup a p = Some (WFile (Inr content))))
     (\<lambda>d. d = d0) (writeKeyFileExclusive env io path content) (\<lambda>_. True)"
proof (cases "ki_temp io")
  case (Inl e)
  then show ?thesis by (simp add: writeKeyFileExclusive_def next_step_def stop_def passing_def)
next
  case (Inr random)
  let ?t = "temp_path path random"
  let ?Q = "\<lambda>a. \<forall>p. p \<notin> temps_of io path \<longrightarrow> alookup a p = alookup d0 p
       \<or> (p = path \<and> alookup d0 p = None \<and> alookup a p = Some (WFile (Inr content)))"
  let ?R = "\<lambda>a. ?Q a \<and> alookup a ?t = Some (WFile (Inr content))"
  have T: "temps_of io path = {?t}" by (simp add: temps_of_def Inr)
  have create: "passing ?Q (\<lambda>d. d = d0) (act env (create_temp ?t)) ?Q"
    by (rule passing_act [OF assms]) (auto simp: create_temp_def alookup_aput T split: if_splits)
  have unchanged: "passing ?Q P (call env e) P" if "\<And>d. P d \<Longrightarrow> ?Q d" for P e
    unfolding call_def by (rule passing_act [OF assms]) (use that in auto)
  have written: "passing ?Q ?Q (act env (write_temp io ?t content)) ?R"
    by (rule passing_act [OF assms]) (auto simp: write_temp_def alookup_aput T split: option.splits)
  have link: "passing ?Q ?R (act env (link_temp io ?t path)) ?Q"
    by (rule passing_act [OF assms]) (auto simp: link_temp_def alookup_aput has_key_def T split: option.splits if_splits)
  have remove: "passing ?Q ?Q (act env (remove_temp io ?t)) ?Q"
    by (rule passing_act [OF assms]) (auto simp: alookup_removed T)
  have "passing ?Q (\<lambda>d. d = d0) (writeKeyFileExclusive env io path content) ?Q"
    unfolding writeKeyFileExclusive_def Inr stop_then
    by (rule passing_next [OF create], rule passing_deferred [OF _ remove], rule passing_next [OF unchanged], assumption,
        rule passing_next [OF written], rule passing_next [OF unchanged], blast, rule passing_next [OF unchanged], blast, rule link)
  then show ?thesis by (simp add: passing_def)
qed

lemma key_file_alone:
  assumes "undisturbed env" "writeKeyFileExclusive env io path content w = (r, w')"
  shows "r = Inl e \<Longrightarrow> same_but (left_of io path) (kw_disk w) (kw_disk w')"
    "r = Inr () \<Longrightarrow> same_but (left_of io path) (aput path (WFile (Inr content)) (kw_disk w)) (kw_disk w')"
    "r = Inr () \<Longrightarrow> alookup (kw_disk w) path = None"
    "logged (\<lambda>b a. \<forall>p. p \<notin> temps_of io path \<longrightarrow> alookup a p = alookup (kw_disk w) p
       \<or> (p = path \<and> alookup (kw_disk w) p = None \<and> alookup a p = Some (WFile (Inr content)))) (kw_log w') (kw_log w)"
proof -
  note defs = writeKeyFileExclusive_def next_step_def stop_def deferred_def call_def act_alone [OF assms(1)] create_temp_def
    write_temp_def link_temp_def alookup_removed done_if_def alookup_aput has_key_def temps_of_def left_of_def Let_def
  have "r = Inl e \<Longrightarrow> alookup (kw_disk w') p = alookup (kw_disk w) p \<or> (p \<in> left_of io path \<and> alookup (kw_disk w) p = None)" for p
    using assms(2) by (auto simp: defs split: sum.splits if_splits option.splits)
  then show "r = Inl e \<Longrightarrow> same_but (left_of io path) (kw_disk w) (kw_disk w')" by (simp add: same_but_def)
  have "same_but (left_of io path) (aput path (WFile (Inr content)) (kw_disk w)) (kw_disk w') \<and> alookup (kw_disk w) path = None"
    if ok: "r = Inr ()"
  proof -
    obtain random d where d: "ki_temp io = Inr random" "alookup (kw_disk w) (temp_path path random) = None"
      "alookup (kw_disk w) path = None" "path \<noteq> temp_path path random" "kw_disk w' = snd (remove_temp io (temp_path path random) d)"
      "\<And>p. alookup d p = (if p = path \<or> p = temp_path path random then Some (WFile (Inr content)) else alookup (kw_disk w) p)"
      by (rule key_file_success [OF assms(1) assms(2) [unfolded ok]], rule that)
    then show ?thesis by (auto simp: same_but_def alookup_aput alookup_removed left_of_def temps_of_def)
  qed
  then show "r = Inr () \<Longrightarrow> same_but (left_of io path) (aput path (WFile (Inr content)) (kw_disk w)) (kw_disk w')"
    "r = Inr () \<Longrightarrow> alookup (kw_disk w) path = None" by simp_all
  show "logged (\<lambda>b a. \<forall>p. p \<notin> temps_of io path \<longrightarrow> alookup a p = alookup (kw_disk w) p
       \<or> (p = path \<and> alookup (kw_disk w) p = None \<and> alookup a p = Some (WFile (Inr content)))) (kw_log w') (kw_log w)"
    using spec [OF passing_key_file [OF assms(1), of io path "kw_disk w" content, unfolded passing_def], of w] assms(2) by simp
qed

lemma public_alone:
  assumes "undisturbed env" "write_public env privatePath path content w = (r, w')"
  shows "r = Inr () \<Longrightarrow> alookup (kw_disk w) path = None
      \<and> same_but (left_of (kg_public env) path) (aput path (WFile (Inr content)) (kw_disk w)) (kw_disk w')"
    "r = Inl e \<Longrightarrow> kg_remove env = None \<Longrightarrow>
      same_but (left_of (kg_public env) path) (unlink privatePath (kw_disk w)) (unlink privatePath (kw_disk w'))
      \<and> alookup (kw_disk w') privatePath = None"
    "r = Inl e \<Longrightarrow> kg_remove env \<noteq> None \<Longrightarrow> same_but (left_of (kg_public env) path) (kw_disk w) (kw_disk w')"
    "logged (\<lambda>b a. \<forall>p. p \<notin> temps_of (kg_public env) path \<longrightarrow> alookup a p = alookup (kw_disk w) p
       \<or> (p = path \<and> alookup (kw_disk w) p = None \<and> alookup a p = Some (WFile (Inr content)))
       \<or> (p = privatePath \<and> alookup a p = None)) (kw_log w') (kw_log w)"
proof -
  obtain r1 w1 where m: "writeKeyFileExclusive env (kg_public env) path content w = (r1, w1)" by fastforce
  note key = key_file_alone [OF assms(1) m]
  note defs = write_public_def next_step_def stop_def act_alone [OF assms(1)] remove_private_def alookup_unlink has_key_def
    same_but_def
  show "r = Inr () \<Longrightarrow> alookup (kw_disk w) path = None
      \<and> same_but (left_of (kg_public env) path) (aput path (WFile (Inr content)) (kw_disk w)) (kw_disk w')"
    using assms(2) m key(2,3) by (auto simp: write_public_def next_step_def stop_def split: sum.splits prod.splits)
  show "r = Inl e \<Longrightarrow> kg_remove env = None \<Longrightarrow>
      same_but (left_of (kg_public env) path) (unlink privatePath (kw_disk w)) (unlink privatePath (kw_disk w'))
      \<and> alookup (kw_disk w') privatePath = None"
    using assms(2) m key(1) by (auto simp: defs split: sum.splits if_splits option.splits)
  show "r = Inl e \<Longrightarrow> kg_remove env \<noteq> None \<Longrightarrow> same_but (left_of (kg_public env) path) (kw_disk w) (kw_disk w')"
    using assms(2) m key(1) by (auto simp: defs split: sum.splits if_splits option.splits)
  let ?G = "\<lambda>b a. \<forall>p. p \<notin> temps_of (kg_public env) path \<longrightarrow> alookup a p = alookup (kw_disk w) p
       \<or> (p = path \<and> alookup (kw_disk w) p = None \<and> alookup a p = Some (WFile (Inr content)))
       \<or> (p = privatePath \<and> alookup a p = None)"
  have l: "logged ?G (kw_log w1) (kw_log w)" by (rule logged_mono [OF key(4)]) blast
  show "logged ?G (kw_log w') (kw_log w)"
  proof (cases r1)
    case (Inl err)
    have "left_of (kg_public env) path \<subseteq> temps_of (kg_public env) path" by (simp add: left_of_def)
    then have "?G b (kw_disk w1) \<and> ?G b (unlink privatePath (kw_disk w1))" for b
      using key(1) [OF Inl] by (auto simp: same_but_def alookup_unlink)
    then have "?G (kw_disk w1) (snd (remove_private env privatePath err (kw_disk w1)))"
      by (simp add: remove_private_def split: option.split if_split)
    then show ?thesis using assms(2) m l Inl
      by (auto simp: write_public_def next_step_def stop_def act_alone [OF assms(1)] split: sum.splits intro!: logged_Cons)
  qed (use assms(2) m l in \<open>auto simp: write_public_def\<close>)
qed

section \<open>Both keys or neither\<close>

text \<open>What is under a name has not changed, or is a new directory, or is a whole file of \<open>F\<close>.\<close>

definition new_at :: "(string \<times> string) set \<Rightarrow> disk \<Rightarrow> disk \<Rightarrow> string \<Rightarrow> bool" where
  "new_at F d d' p \<longleftrightarrow>
     alookup d' p = alookup d p
     \<or> (alookup d p = None \<and> (alookup d' p = Some WDir \<or> (\<exists>raw. (p, raw) \<in> F \<and> alookup d' p = Some (WFile (Inr raw)))))"

definition key_files :: "crypto \<Rightarrow> keygen_env \<Rightarrow> string \<Rightarrow> string \<Rightarrow> (string \<times> string) set" where
  "key_files cr env role trustRoot =
     (case (kg_key env, keygenRoleDirectory role) of
        (Inr (public, private), Inr roleDirectory) \<Rightarrow>
          {(private_path role trustRoot, std_encode private @ [CHR 0x0A]),
           (public_path (path_Join trustRoot roleDirectory) (sha256_hex cr public), std_encode public @ [CHR 0x0A])}
      | _ \<Rightarrow> {})"

lemma new_at_key:
  assumes "new_at F d d1 p" "(q, raw) \<in> F"
    and "alookup a p = alookup d1 p \<or> (p = q \<and> alookup d1 p = None \<and> alookup a p = Some (WFile (Inr raw)))"
  shows "new_at F d a p"
  using assms by (auto simp: new_at_def)

lemma make_directory_new: "new_at F d (snd (make_directory env role dir d)) p"
  using make_dirs_lookup [of "dirs_to dir" d _ p]
  by (auto simp: make_directory_def new_at_def and_then_Inr_iff split: sum.split)

text \<open>A run that has its key and its role, in terms of the two key files: \<open>d1\<close> is the disk with the directories made.\<close>

lemma keypair_run:
  assumes "undisturbed env" "kg_key env = Inr (pub, priv)" "keygenRoleDirectory role = Inr dir"
    and d1: "d1 = snd (make_directory env role (path_Join trustRoot dir) d)" and pp: "privp = private_path role trustRoot"
    and pb: "pubp = public_path (path_Join trustRoot dir) (sha256_hex cr pub)"
    and m2: "writeKeyFileExclusive env (kg_private env) privp (std_encode priv @ [CHR 0x0A])
      \<lparr>kw_disk = d1, kw_time = Suc (Suc (Suc 0)), kw_log = [(d1, d1), (d, d1), (d, d)]\<rparr> = (r2, w2)"
    and m3: "write_public env privp pubp (std_encode pub @ [CHR 0x0A]) w2 = (r3, w3)"
    and run: "generateTrustKeypair cr env role trustRoot \<lparr>kw_disk = d, kw_time = 0, kw_log = []\<rparr> = (r, w)"
  obtains (early) e where "r = Inl e" "kw_disk w \<in> {d, d1}" "set (kw_log w) \<subseteq> {(d, d), (d, d1), (d1, d1)}"
    | (nopriv) e e' where "r2 = Inl e" "r = Inl e'" "w = w2"
    | (nopub) e where "r2 = Inr ()" "r3 = Inl e" "r = Inl e" "w = w3"
    | (both) res where "r2 = Inr ()" "r3 = Inr ()" "r = Inr res" "w = w3"
proof -
  have "generateTrustKeypair cr env role trustRoot \<lparr>kw_disk = d, kw_time = 0, kw_log = []\<rparr> =
     (case real_root (path_Clean trustRoot) d of
        Inl e \<Rightarrow> (Inl e, \<lparr>kw_disk = d, kw_time = Suc 0, kw_log = [(d, d)]\<rparr>)
      | Inr _ \<Rightarrow>
          (case fst (make_directory env role (path_Join trustRoot dir) d) of
             Inl e \<Rightarrow> (Inl e, \<lparr>kw_disk = d1, kw_time = Suc (Suc 0), kw_log = [(d, d1), (d, d)]\<rparr>)
           | Inr _ \<Rightarrow>
               (case real_directory role (path_Join trustRoot dir) d1 of
                  Inl e \<Rightarrow> (Inl e, \<lparr>kw_disk = d1, kw_time = Suc (Suc (Suc 0)), kw_log = [(d1, d1), (d, d1), (d, d)]\<rparr>)
                | Inr _ \<Rightarrow>
                    (case r2 of
                       Inl e \<Rightarrow> (Inl (Errorf ''write private key: %w'' [E e]), w2)
                     | Inr _ \<Rightarrow>
                         (case r3 of
                            Inl e \<Rightarrow> (Inl e, w3)
                          | Inr _ \<Rightarrow> (Inr \<lparr>kr_Fingerprint = sha256_hex cr pub, kr_PrivatePath = privp, kr_PublicPath = pubp\<rparr>, w3))))))"
    unfolding generateTrustKeypair_def assms(2,3) stop_then wrap_stop Let_def prod.case
    by (simp add: next_step_def wrap_step_def stop_def act_alone [OF assms(1)] m2 m3 split: sum.split flip: pp d1 pb)
  then show thesis using run that by (auto split: sum.splits)
qed

lemma keypair_log:
  assumes new: "\<And>p. new_at F d d1 p" and F: "F = {(privp, privtext), (pubp, pubtext)}"
    and T: "T = temps_of (kg_private env) privp \<union> temps_of (kg_public env) pubp" and u: "undisturbed env"
    and m2: "writeKeyFileExclusive env (kg_private env) privp privtext
      \<lparr>kw_disk = d1, kw_time = n, kw_log = [(d1, d1), (d, d1), (d, d)]\<rparr> = (r2, w2)"
    and m3: "write_public env privp pubp pubtext w2 = (r3, w3)"
  shows "\<forall>(b, a) \<in> set (kw_log w2). \<forall>p. p \<notin> T \<longrightarrow> new_at F d a p"
    "r2 = Inr () \<Longrightarrow> \<forall>(b, a) \<in> set (kw_log w3). \<forall>p. p \<notin> T \<longrightarrow> new_at F d a p"
proof -
  let ?G = "\<lambda>b a. \<forall>p. p \<notin> T \<longrightarrow> new_at F d a p"
  note key = key_file_alone [OF u m2, unfolded keygen_world.select_convs] and pub = public_alone [OF u m3]
  have same: "new_at F d d p" for p by (simp add: new_at_def)
  have "logged ?G (kw_log w2) [(d1, d1), (d, d1), (d, d)]"
    by (rule logged_mono [OF key(4)], intro allI impI, rule new_at_key [OF new]) (auto simp: F T)
  moreover have "logged ?G [(d1, d1), (d, d1), (d, d)] []" using new same by (simp add: logged_def)
  ultimately have l2: "logged ?G (kw_log w2) []" by (rule logged_trans)
  then show "\<forall>(b, a) \<in> set (kw_log w2). ?G b a" by (simp add: logged_def)
  assume ok: "r2 = Inr ()"
  have "left_of (kg_private env) privp \<subseteq> T" by (auto simp: T left_of_def)
  then have "alookup (kw_disk w2) p = alookup (aput privp (WFile (Inr privtext)) d1) p" if "p \<notin> T" for p
    using same_butD [OF key(2) [OF ok]] that by blast
  then have two: "new_at F d (kw_disk w2) p" if "p \<notin> T" for p
    by (intro new_at_key [OF new, of privp privtext]) (use key(3) [OF ok] F that in \<open>auto simp: alookup_aput\<close>)
  have gone: "new_at F d a privp" if "alookup a privp = None" for a
    using key(3) [OF ok] new [of privp] that by (auto simp: new_at_def)
  have "logged ?G (kw_log w3) (kw_log w2)"
  proof (rule logged_mono [OF pub(4)], intro allI impI)
    fix b a p
    assume a: "\<forall>p. p \<notin> temps_of (kg_public env) pubp \<longrightarrow> alookup a p = alookup (kw_disk w2) p
       \<or> (p = pubp \<and> alookup (kw_disk w2) p = None \<and> alookup a p = Some (WFile (Inr pubtext))) \<or> (p = privp \<and> alookup a p = None)"
      and p: "p \<notin> T"
    then consider "alookup a p = alookup (kw_disk w2) p
        \<or> (p = pubp \<and> alookup (kw_disk w2) p = None \<and> alookup a p = Some (WFile (Inr pubtext)))"
      | "p = privp" "alookup a p = None" by (auto simp: T)
    then show "new_at F d a p" by cases (rule new_at_key [OF two [OF p], of pubp pubtext], use F gone in auto)
  qed
  then show "\<forall>(b, a) \<in> set (kw_log w3). ?G b a" using logged_trans [OF _ l2] by (simp add: logged_def)
qed

lemma new_at_same: "same_but X b a \<Longrightarrow> p \<notin> X \<Longrightarrow> new_at F d a p \<longleftrightarrow> new_at F d b p"
  by (simp add: new_at_def same_butD)

lemma new_at_mono: "new_at F d a p \<Longrightarrow> F \<subseteq> G \<Longrightarrow> new_at G d a p"
  by (auto simp: new_at_def)

text \<open>What is on the disk where a run fails at one of its keys.\<close>

lemma keypair_failed:
  assumes new: "\<And>F p. new_at F d d1 p" and u: "undisturbed env"
    and m2: "writeKeyFileExclusive env (kg_private env) privp privtext w1 = (r2, w2)" "kw_disk w1 = d1"
    and m3: "write_public env privp pubp pubtext w2 = (r3, w3)"
  shows "r2 = Inl e \<Longrightarrow> p \<notin> left_of (kg_private env) privp \<Longrightarrow> new_at {} d (kw_disk w2) p"
    "r2 = Inr () \<Longrightarrow> r3 = Inl e \<Longrightarrow> p \<notin> left_of (kg_private env) privp \<union> left_of (kg_public env) pubp
      \<Longrightarrow> new_at (if kg_remove env = None then {} else {(privp, privtext)}) d (kw_disk w3) p"
proof -
  note key = key_file_alone [OF u m2(1), unfolded m2(2)] and pub = public_alone [OF u m3]
  show "r2 = Inl e \<Longrightarrow> p \<notin> left_of (kg_private env) privp \<Longrightarrow> new_at {} d (kw_disk w2) p"
    using new_at_same [OF key(1)] new by blast
  assume ok: "r2 = Inr ()" "r3 = Inl e" and p: "p \<notin> left_of (kg_private env) privp \<union> left_of (kg_public env) pubp"
  have free: "alookup d1 privp = None" "alookup d privp = None"
    using key(3) [OF ok(1)] new [of "{}" privp] by (auto simp: new_at_def)
  have "new_at {(privp, privtext)} d (aput privp (WFile (Inr privtext)) d1) p"
    by (rule new_at_key [OF new, of privp privtext]) (use free in \<open>auto simp: alookup_aput\<close>)
  then have two: "new_at {(privp, privtext)} d (kw_disk w2) p" using new_at_same [OF key(2)] ok p by blast
  show "new_at (if kg_remove env = None then {} else {(privp, privtext)}) d (kw_disk w3) p"
  proof (cases "kg_remove env = None")
    case True
    have "alookup (kw_disk w3) q = (if q = privp then None else alookup d1 q)"
      if "q \<notin> left_of (kg_private env) privp \<union> left_of (kg_public env) pubp" for q
      using same_butD [OF key(2) [OF ok(1)], of q] same_butD [OF conjunct1 [OF pub(2) [OF ok(2) True]], of q]
        conjunct2 [OF pub(2) [OF ok(2) True]] that by (auto simp: alookup_unlink alookup_aput split: if_splits)
    then show ?thesis using new [of "{}" p] free p True by (auto simp: new_at_def)
  next
    case False
    then show ?thesis using new_at_same [OF pub(3)] ok p two by auto
  qed
qed

lemma keypair_both:
  assumes new: "\<And>p. new_at F d d1 p" and F: "F = {(privp, privtext), (pubp, pubtext)}" and u: "undisturbed env"
    and m2: "writeKeyFileExclusive env (kg_private env) privp privtext w1 = (Inr (), w2)" "kw_disk w1 = d1"
    and m3: "write_public env privp pubp pubtext w2 = (Inr (), w3)"
  shows "p \<notin> left_of (kg_private env) privp \<union> left_of (kg_public env) pubp \<Longrightarrow> new_at F d (kw_disk w3) p"
    "(p, raw) \<in> F \<Longrightarrow> alookup d p = None \<and> alookup (kw_disk w3) p = Some (WFile (Inr raw))"
proof -
  have priv: "alookup d1 privp = None" using key_file_alone(3) [OF u m2(1)] m2(2) by simp
  note two = key_file_alone(2) [OF u m2(1) refl, unfolded m2(2)] and three = public_alone(1) [OF u m3 refl]
  have at: "alookup (kw_disk w2) privp = Some (WFile (Inr privtext))" "pubp \<noteq> privp" "alookup d1 pubp = None"
    using same_but_Some [OF two, of privp] same_but_None [OF two, of pubp] three by (auto simp: alookup_aput split: if_splits)
  have ends: "alookup (kw_disk w3) privp = Some (WFile (Inr privtext))" "alookup (kw_disk w3) pubp = Some (WFile (Inr pubtext))"
    using same_but_Some [OF conjunct2 [OF three]] at by (simp_all add: alookup_aput)
  have before: "alookup d q = None" if "alookup d1 q = None" for q using new [of q] that by (auto simp: new_at_def)
  show "(p, raw) \<in> F \<Longrightarrow> alookup d p = None \<and> alookup (kw_disk w3) p = Some (WFile (Inr raw))"
    using before priv at ends F by auto
  assume p: "p \<notin> left_of (kg_private env) privp \<union> left_of (kg_public env) pubp"
  have "new_at F d (aput privp (WFile (Inr privtext)) d1) p"
    by (rule new_at_key [OF new, of privp privtext]) (use priv F in \<open>auto simp: alookup_aput\<close>)
  then have "new_at F d (kw_disk w2) p" using new_at_same [OF two] p by blast
  then have "new_at F d (aput pubp (WFile (Inr pubtext)) (kw_disk w2)) p"
    by (rule new_at_key [of _ _ _ _ pubp pubtext]) (use three F in \<open>auto simp: alookup_aput\<close>)
  then show "new_at F d (kw_disk w3) p" using new_at_same [OF conjunct2 [OF three]] p by blast
qed

text \<open>A run that has its key and its role, from its start to its end.\<close>

lemma keypair_atomic:
  assumes u: "undisturbed env" and k: "kg_key env = Inr (pub, priv)" "keygenRoleDirectory role = Inr dir"
    and privp: "privp = private_path role trustRoot" and pubp: "pubp = public_path (path_Join trustRoot dir) (sha256_hex cr pub)"
    and F: "F = {(privp, std_encode priv @ [CHR 0x0A]), (pubp, std_encode pub @ [CHR 0x0A])}"
    and run: "generateTrustKeypair cr env role trustRoot \<lparr>kw_disk = d, kw_time = 0, kw_log = []\<rparr> = (r, w)"
  shows "\<forall>(b, a) \<in> set (kw_log w). \<forall>p. p \<notin> temps_of (kg_private env) privp \<union> temps_of (kg_public env) pubp \<longrightarrow> new_at F d a p"
    "r = Inl e \<Longrightarrow> p \<notin> left_of (kg_private env) privp \<union> left_of (kg_public env) pubp \<Longrightarrow>
      new_at (if kg_remove env = None then {} else {(privp, std_encode priv @ [CHR 0x0A])}) d (kw_disk w) p"
    "r = Inr res \<Longrightarrow> p \<notin> left_of (kg_private env) privp \<union> left_of (kg_public env) pubp \<Longrightarrow> new_at F d (kw_disk w) p"
    "r = Inr res \<Longrightarrow> (p, raw) \<in> F \<Longrightarrow> alookup d p = None \<and> alookup (kw_disk w) p = Some (WFile (Inr raw))"
proof -
  define d1 where "d1 = snd (make_directory env role (path_Join trustRoot dir) d)"
  have new: "new_at F d d1 p" and same: "new_at F d d p" for F p
    unfolding d1_def by (rule make_directory_new) (simp add: new_at_def)
  obtain r2 w2 where m2: "writeKeyFileExclusive env (kg_private env) privp (std_encode priv @ [CHR 0x0A])
      \<lparr>kw_disk = d1, kw_time = Suc (Suc (Suc 0)), kw_log = [(d1, d1), (d, d1), (d, d)]\<rparr> = (r2, w2)" by fastforce
  obtain r3 w3 where m3: "write_public env privp pubp (std_encode pub @ [CHR 0x0A]) w2 = (r3, w3)" by fastforce
  note log = keypair_log [OF new F refl u m2 m3] and failed = keypair_failed [OF new u m2 keygen_world.select_convs(1) m3]
    and ends = keypair_run [OF u k d1_def privp pubp m2 m3 run]
  show "\<forall>(b, a) \<in> set (kw_log w). \<forall>p. p \<notin> temps_of (kg_private env) privp \<union> temps_of (kg_public env) pubp \<longrightarrow> new_at F d a p"
    by (rule ends) (use log new same in blast)+
  show "r = Inl e \<Longrightarrow> p \<notin> left_of (kg_private env) privp \<union> left_of (kg_public env) pubp \<Longrightarrow>
      new_at (if kg_remove env = None then {} else {(privp, std_encode priv @ [CHR 0x0A])}) d (kw_disk w) p"
    by (rule ends) (use failed new same in \<open>auto intro: new_at_mono\<close>)
  have both: "new_at F d (kw_disk w) p" if "r = Inr res" "p \<notin> left_of (kg_private env) privp \<union> left_of (kg_public env) pubp"
    by (rule ends) (use keypair_both(1) [OF new F u _ keygen_world.select_convs(1)] m2 m3 that in auto)
  then show "r = Inr res \<Longrightarrow> p \<notin> left_of (kg_private env) privp \<union> left_of (kg_public env) pubp \<Longrightarrow> new_at F d (kw_disk w) p" .
  show "r = Inr res \<Longrightarrow> (p, raw) \<in> F \<Longrightarrow> alookup d p = None \<and> alookup (kw_disk w) p = Some (WFile (Inr raw))"
    by (rule ends) (use keypair_both(2) [OF new F u _ keygen_world.select_convs(1)] m2 m3 in auto)
qed

definition private_file :: "crypto \<Rightarrow> keygen_env \<Rightarrow> string \<Rightarrow> string \<Rightarrow> (string \<times> string) set" where
  "private_file cr env role trustRoot = {x \<in> key_files cr env role trustRoot. fst x = private_path role trustRoot}"

text \<open>C10: keygen is atomic. Undisturbed, a run that succeeds ends with both key files, where none was, and a
  run that fails with neither; if it fails and the removal of its private key fails too, that key may stay, alone and
  whole. The rest of the disk is as it was but for new directories and for those temporary files whose own removal
  fails. And at every moment, so also where the run is killed, every name but the two temporary ones holds what it
  held before, a new directory where nothing was, or a whole new key file, never a part of one.\<close>
theorem keygen_atomic:
  assumes "undisturbed env"
    and "generateTrustKeypair cr env role trustRoot \<lparr>kw_disk = d, kw_time = 0, kw_log = []\<rparr> = (r, w)"
  shows "(\<forall>(before, later) \<in> set (kw_log w). \<forall>p. p \<notin> temp_names cr env role trustRoot \<longrightarrow>
      new_at (key_files cr env role trustRoot) d later p)
    \<and> (case r of
         Inl _ \<Rightarrow> (\<forall>p. p \<notin> left_names cr env role trustRoot \<longrightarrow>
           new_at (if kg_remove env = None then {} else private_file cr env role trustRoot) d (kw_disk w) p)
       | Inr res \<Rightarrow>
           (\<forall>p. p \<notin> left_names cr env role trustRoot \<longrightarrow> new_at (key_files cr env role trustRoot) d (kw_disk w) p)
           \<and> (\<forall>(p, raw) \<in> key_files cr env role trustRoot. alookup d p = None \<and> alookup (kw_disk w) p = Some (WFile (Inr raw))))"
proof (cases "\<exists>pub priv dir. kg_key env = Inr (pub, priv) \<and> keygenRoleDirectory role = Inr dir")
  case True
  then obtain pub priv dir where k: "kg_key env = Inr (pub, priv)" "keygenRoleDirectory role = Inr dir" by blast
  define privp where "privp = private_path role trustRoot"
  define pubp where "pubp = public_path (path_Join trustRoot dir) (sha256_hex cr pub)"
  have F: "key_files cr env role trustRoot = {(privp, std_encode priv @ [CHR 0x0A]), (pubp, std_encode pub @ [CHR 0x0A])}"
    "temp_names cr env role trustRoot = temps_of (kg_private env) privp \<union> temps_of (kg_public env) pubp"
    "left_names cr env role trustRoot = left_of (kg_private env) privp \<union> left_of (kg_public env) pubp"
    by (simp_all add: key_files_def temp_names_def left_names_def run_names_def k privp_def pubp_def)
  have P: "(if kg_remove env = None then {} else {(privp, std_encode priv @ [CHR 0x0A])})
      \<subseteq> (if kg_remove env = None then {} else private_file cr env role trustRoot)"
    by (simp add: private_file_def F(1) privp_def)
  note run = keypair_atomic [OF assms(1) k privp_def pubp_def F(1) assms(2)]
  show ?thesis
  proof (cases r)
    case (Inl e)
    then show ?thesis unfolding F(2,3) using run(1) new_at_mono [OF run(2) [OF Inl] P] by simp
  next
    case (Inr res)
    then show ?thesis unfolding F(2,3) using run(1) run(3,4) [OF Inr] by auto
  qed
next
  case False
  then show ?thesis
    using assms(2) unfolding generateTrustKeypair_def
    by (cases "kg_key env"; cases "keygenRoleDirectory role")
      (auto simp: next_step_def stop_def wrap_step_def act_alone [OF assms(1)] new_at_def key_files_def split: sum.splits)
qed

end
