(* ===== verification/Package_Examples.thy ===== *)
theory Package_Examples
  imports Package_Facts Document Examples
begin

text \<open>
  A whole evaluation package: an artifact with one declared run and an empty log, its key, one file that stands
  for the checker, its outputs and the conformance result, the signed manifest. It validates, and is the witness
  of the theorems about packages.
\<close>

section \<open>The package\<close>

text \<open>The stand-in for SHA-256 tells the lengths apart.\<close>

definition pk_crypto :: crypto where
  "pk_crypto = \<lparr>sha256 = (\<lambda>s. chr (length s mod 256) # replicate 31 (CHR ''x'')),
     ed25519_verify = (\<lambda>pub m sig. take 1 pub = take 1 sig)\<rparr>"

definition pk_key :: string where
  "pk_key = replicate 32 (CHR ''p'')"

definition pk_digest :: "string \<Rightarrow> string" where
  "pk_digest n = n @ concat (replicate 31 ''78'')"

definition pk_art_doc :: cvalue where
  "pk_art_doc = CObj [(''ael_format'', CInt 1),
     (''recorders'', CArr [CObj [(''file'', CStr ''A''), (''id'', CStr ''A''), (''run'', CStr ''r'')]]),
     (''runs'', CArr [CStr ''r''])]"

definition pk_blob :: "string \<Rightarrow> int \<Rightarrow> string \<Rightarrow> PackageBlob" where
  "pk_blob path sz n = \<lparr>bl_Path = path, bl_Size = sz, bl_DigestAlgorithm = ''sha-256'', bl_Digest = pk_digest n, bl_URL = []\<rparr>"

definition blob_doc :: "PackageBlob \<Rightarrow> cvalue" where
  "blob_doc b = CObj [(''digest'', CStr (bl_Digest b)), (''digest_algorithm'', CStr (bl_DigestAlgorithm b)),
     (''path'', CStr (bl_Path b)), (''size'', CInt (bl_Size b))]"

definition pk_name :: string where
  "pk_name = ''k/'' @ pk_digest ''20'' @ ''.pub''"

definition pk_art_blob :: PackageBlob where "pk_art_blob = pk_blob ''a/manifest.json'' 75 ''4b''"
definition pk_log_blob :: PackageBlob where "pk_log_blob = pk_blob ''a/A'' 0 ''00''"
definition pk_out_blob :: PackageBlob where "pk_out_blob = pk_blob ''c'' 1 ''01''"
definition pk_key_blob :: PackageBlob where "pk_key_blob = pk_blob pk_name 44 ''2c''"

definition pk_sum :: PackageVersionedSum where
  "pk_sum = \<lparr>vs_Version = ''1'', vs_DigestAlgorithm = ''sha-256'', vs_Digest = pk_digest ''00''\<rparr>"

definition sum_doc :: "PackageVersionedSum \<Rightarrow> (string \<times> cvalue) list" where
  "sum_doc v = [(''digest'', CStr (vs_Digest v)), (''digest_algorithm'', CStr (vs_DigestAlgorithm v)), (''version'', CStr (vs_Version v))]"

definition pk_manifest :: PackageManifest where
  "pk_manifest = zero_PackageManifest
     \<lparr>pm_Kind := ''evaluation-package'', pm_PackageFormat := 1, pm_ID := ''i'', pm_Run := ''r'', pm_Producer := ''p'',
      pm_Operator := \<lparr>sg_ID = ''o'', sg_Key = pk_digest ''20''\<rparr>,
      pm_VerificationCustody := \<lparr>pc_Acquisition = ''x'', pc_Replay = ''x'', pc_Review = ''x'', pc_Issuance = ''x''\<rparr>,
      pm_EvidenceCoverage := \<lparr>pcv_Scope = ''x'', pcv_Disclosure = ''x''\<rparr>,
      pm_ArtifactBinding := \<lparr>bd_Root = ''a'', bd_KeysDir = ''k'', bd_Manifest = pk_art_blob, bd_DiscoveredRuns = [''r'']\<rparr>,
      pm_Files := [pk_log_blob, pk_art_blob, pk_out_blob, pk_key_blob], pm_VerificationInputs := [pk_key_blob], pm_Spec := pk_sum,
      pm_Checker := \<lparr>ck_Name = ''c'', ck_SourceRevision = ''1'', ck_Executable = pk_out_blob\<rparr>,
      pm_ArtifactEvaluation := \<lparr>pe_Arguments = [], pe_ExitStatus = 0, pe_MachineOutput = pk_out_blob,
        pe_Stdout = pk_out_blob, pe_Stderr = pk_out_blob\<rparr>,
      pm_Conformance := \<lparr>cf_Corpus = pk_sum, cf_Command = [''c''], cf_ExitStatus = 0, cf_Result = pk_out_blob\<rparr>,
      pm_IssuedAt := ''2026-01-01T00:00:00Z'',
      pm_StatusAuthority := \<lparr>sa_ID = ''s'', sa_Key = pk_digest ''20'', sa_RecordID = ''i'', sa_URL = []\<rparr>\<rparr>"

text \<open>Its document, with sorted keys.\<close>

definition pk_doc :: cvalue where
  "pk_doc = CObj
     [(''artifact_binding'', CObj [(''discovered_runs'', CArr [CStr ''r'']), (''keys_dir'', CStr ''k''),
        (''manifest'', blob_doc pk_art_blob), (''root'', CStr ''a'')]),
      (''artifact_evaluation'', CObj [(''arguments'', CArr []), (''exit_status'', CInt 0), (''machine_output'', blob_doc pk_out_blob),
        (''stderr'', blob_doc pk_out_blob), (''stdout'', blob_doc pk_out_blob)]),
      (''checker'', CObj [(''executable'', blob_doc pk_out_blob), (''name'', CStr ''c''), (''source_revision'', CStr ''1'')]),
      (''conformance'', CObj [(''command'', CArr [CStr ''c'']), (''corpus'', CObj (sum_doc pk_sum)), (''exit_status'', CInt 0),
        (''result'', blob_doc pk_out_blob)]),
      (''evidence_coverage'', CObj [(''disclosure'', CStr ''x''), (''scope'', CStr ''x'')]),
      (''files'', CArr (map blob_doc [pk_log_blob, pk_art_blob, pk_out_blob, pk_key_blob])),
      (''id'', CStr ''i''), (''issued_at'', CStr ''2026-01-01T00:00:00Z''), (''kind'', CStr ''evaluation-package''),
      (''operator'', CObj [(''id'', CStr ''o''), (''key'', CStr (pk_digest ''20''))]), (''package_format'', CInt 1),
      (''producer'', CObj [(''id'', CStr ''p'')]), (''run'', CStr ''r''), (''spec'', CObj (sum_doc pk_sum)),
      (''status_authority'', CObj [(''id'', CStr ''s''), (''key'', CStr (pk_digest ''20'')), (''record_id'', CStr ''i'')]),
      (''verification_custody'', CObj [(''acquisition'', CStr ''x''), (''issuance'', CStr ''x''), (''replay'', CStr ''x''),
        (''review'', CStr ''x'')]),
      (''verification_inputs'', CArr [blob_doc pk_key_blob])]"

lemma pk_art_digest: "int (length (render pk_art_doc)) = 75" "sha256_hex pk_crypto (render pk_art_doc) = pk_digest ''4b''"
  by code_simp+

lemma pk_doc_good: "good pk_doc" "shallow max_depth pk_doc" by code_simp+

lemma pk_doc_sorted: "sortv pk_doc = pk_doc" by code_simp

lemma pk_schema: "validatePackageManifestSchema (Inr (json_of pk_doc)) = None"
  by code_simp

lemma pk_decodes: "dec_PackageManifest (json_of pk_doc) zero_PackageManifest = (pk_manifest, None)"
  by code_simp

lemma pk_semantics: "validatePackageSemantics pk_manifest = None"
  by code_simp

text \<open>The files, for any bytes of the manifest, and the trust: the operator's key, under both roles that are needed.\<close>

definition pk_tree :: "string \<Rightarrow> tree" where
  "pk_tree raw = [(''a'', Dir), (''a/A'', File []), (''a/manifest.json'', File (render pk_art_doc)), (''c'', File ''c''), (''k'', Dir),
     (pk_name, File (std_encode pk_key)), (''manifest.json'', File raw), (''manifest.sig'', File (std_encode (replicate 64 (CHR ''p''))))]"

definition pk_trust :: "string \<Rightarrow> trust_dir" where
  "pk_trust role =
     (if role = ''operators''
      then \<lparr>td_lstat = Inr False, td_entries = Inr [\<lparr>e_name = pk_digest ''20'' @ ''.pub'', e_isdir = False,
        e_file = Inr \<lparr>f_data = std_encode pk_key, f_err = None\<rparr>, te_symlink = False\<rparr>]\<rparr>
      else \<lparr>td_lstat = Inl os_ErrNotExist, td_entries = Inr []\<rparr>)"

definition pk_env :: package_env where
  "pk_env = \<lparr>en_trust = pk_trust, en_read = (\<lambda>_. Inl os_ErrNotExist)\<rparr>"

lemma pk_signed:
  "loadPackageTrustKeys pk_crypto pk_trust ''operators'' = Inr [(pk_digest ''20'', pk_key)]"
  "verifyPackageSignature pk_crypto (pk_tree raw) raw (pk_digest ''20'') [(pk_digest ''20'', pk_key)] = Inr ()"
  by code_simp+

lemma pk_blobs: "validatePackageBlobs pk_crypto (pk_tree raw) pk_manifest = None"
  by code_simp

lemma pk_keys: "validatePackageInputKeys pk_crypto (pk_tree raw) pk_manifest = None"
  by code_simp

lemma pk_loads:
  "case LoadArtifact pk_crypto (tree_fs (pk_tree raw) ''a'' ''k'') of Inl _ \<Rightarrow> False | Inr art \<Rightarrow> artifactRuns art = [''r'']"
  by code_simp

section \<open>It validates\<close>

definition pk_raw :: string where
  "pk_raw = render pk_doc"

lemma pk_loaded: "load_package_manifest pk_raw = Inr pk_manifest"
proof -
  have "IsCanonical pk_raw" "parse_json pk_raw = Inr (json_of pk_doc)"
    unfolding pk_raw_def by (rule IsCanonical_render [OF pk_doc_good(1) pk_doc_sorted], rule parse_json_render [OF pk_doc_good])
  then show ?thesis
    by (simp add: load_package_manifest_def unmarshal_def pk_schema pk_decodes pk_semantics and_try_simps)
qed

lemma pk_fields:
  "pm_Kind pk_manifest = ''evaluation-package''" "pm_ID pk_manifest = ''i''" "pm_Run pk_manifest = ''r''"
  "sg_Key (pm_Operator pk_manifest) = pk_digest ''20''" "pm_Verifier pk_manifest = None"
  "bd_Root (pm_ArtifactBinding pk_manifest) = ''a''" "bd_KeysDir (pm_ArtifactBinding pk_manifest) = ''k''"
  "bl_Path (bd_Manifest (pm_ArtifactBinding pk_manifest)) = ''a/manifest.json''"
  "bd_DiscoveredRuns (pm_ArtifactBinding pk_manifest) = [''r'']"
  "pe_ExitStatus (pm_ArtifactEvaluation pk_manifest) = 0" "cf_ExitStatus (pm_Conformance pk_manifest) = 0"
  by (simp_all add: pk_manifest_def pk_art_blob_def pk_blob_def zero_PackageManifest_def)

lemma pk_binding: "validateArtifactBinding pk_crypto (pk_tree raw) pk_manifest = None"
proof -
  obtain art where art: "LoadArtifact pk_crypto (tree_fs (pk_tree raw) ''a'' ''k'') = Inr art" "artifactRuns art = [''r'']"
    using pk_loads [of raw] by (auto split: sum.splits)
  have "discoveredPackageRuns (Evaluate pk_crypto art) = [''r'']"
    by (simp add: discoveredPackageRuns_def res_Run_Evaluate art(2))
  moreover have "safePackagePath ''a'' = Inr ''a''" "safePackagePath ''k'' = Inr ''k''" by code_simp+
  ultimately show ?thesis
    by (simp add: validateArtifactBinding_def pk_fields art(1) packageManifestName_def sameStringSet_iff)
qed

lemma pk_checked: "check_package pk_crypto pk_env (pk_tree raw) raw pk_manifest = Inr ()"
  by (simp add: check_package_def packageSignerTrustRole_def packageSignerKey_def pk_fields pk_env_def packageTrustOperators_def
      pk_signed pk_blobs pk_keys pk_binding and_try_simps)

lemma pk_at: "alookup (pk_tree raw) packageManifestName = Some (File raw)"
  unfolding packageManifestName_def by (simp add: pk_tree_def pk_name_def)

lemma pk_valid:
  "validatePackageDir pk_crypto pk_env opts (pk_tree pk_raw)
     = Inr \<lparr>val_Kind = ''evaluation-package'', val_ID = ''i'', val_DisplayState = ''EVALUATED''\<rparr>"
proof -
  have "safePackagePath packageManifestName = Inr packageManifestName" unfolding packageManifestName_def by code_simp
  moreover have "tree_read (pk_tree pk_raw) packageManifestName = Inr pk_raw"
    by (simp add: tree_read_def tree_open_def pk_at read_all_def and_then_def)
  ultimately show ?thesis
    by (simp add: validatePackageDir_def and_try_simps pk_loaded pk_checked package_display_def pk_fields invalid_def)
qed

lemma pk_distinct: "distinct (map fst (pk_tree raw))"
  by (simp add: pk_tree_def pk_name_def)

section \<open>Witnesses\<close>

theorem manifest_pins_package_witness: "alookup (pk_tree pk_raw) ''c'' = Some (File ''c'')"
proof -
  have "blobs (pk_tree pk_raw) \<subseteq> {[], render pk_art_doc, ''c'', std_encode pk_key}"
    by (auto simp: blobs_def pk_tree_def is_blob_def packageManifestName_def packageSignatureName_def)
  moreover have "inj_on (sha256_hex pk_crypto) {[], render pk_art_doc, ''c'', std_encode pk_key}"
    unfolding inj_on_def by code_simp
  ultimately have i: "inj_on (sha256_hex pk_crypto) (blobs (pk_tree pk_raw) \<union> blobs (pk_tree pk_raw))"
    using inj_on_subset by (metis Un_absorb)
  have "''c'' \<noteq> packageSignatureName" by (simp add: packageSignatureName_def)
  then show ?thesis
    using manifest_pins_package [OF pk_valid pk_valid refl pk_distinct pk_distinct i, of "''c''" "''c''"]
    by (simp add: pk_tree_def)
qed

theorem package_binds_artifact_witness:
  "\<exists>m art. pm_ID m = ''i'' \<and> binds_artifact pk_crypto (pk_tree pk_raw) m art"
proof -
  obtain m art where "''i'' = pm_ID m" "binds_artifact pk_crypto (pk_tree pk_raw) m art"
    using package_binds_artifact [OF pk_valid pk_distinct] by auto
  then show ?thesis by auto
qed

text \<open>The directory on disk, and the command line that validates it.\<close>

definition pk_source :: package_source where
  "pk_source = \<lparr>ps_lstat = Inr True,
     ps_walk = map (\<lambda>(p, n). (p, case n of Dir \<Rightarrow> WDir | File raw \<Rightarrow> WFile (Inr raw))) (pk_tree pk_raw)\<rparr>"

definition pk_args :: package_args where
  "pk_args = \<lparr>pa_json = False, pa_keys = ''trust'', pa_status = [], pa_signature = [], pa_at = [], pa_maxAge = None,
     pa_rest = [''validate'', ''dir'']\<rparr>"

lemma pk_snapshot: "snapshotPackageDir pk_source = Inr (pk_tree pk_raw)"
  by (simp add: snapshotPackageDir_def pk_source_def pk_tree_def and_then_def)

lemma pk_validates: "fst (aelpackage pk_crypto pk_env None pk_args pk_source) = 0"
proof -
  have "ValidatePackage pk_crypto pk_env opts pk_source
      = Inr \<lparr>val_Kind = ''evaluation-package'', val_ID = ''i'', val_DisplayState = ''EVALUATED''\<rparr>" for opts
    by (simp add: ValidatePackage_def invalid_def and_try_simps pk_valid pk_snapshot)
  then show ?thesis by (simp add: aelpackage_def pk_args_def package_options_def packageExitCode_def)
qed





end
