(* ===== verification/Keygen_Examples.thy ===== *)
theory Keygen_Examples
  imports Keygen_Facts Package_Examples
begin

text \<open>
  Two runs of keygen for the role operator under the trust root \<open>t\<close>: one undisturbed, and one in which another process puts the
  public key file in place first.
\<close>

definition kg_io :: key_io where
  "kg_io = \<lparr>ki_temp = Inr ''1'', ki_chmod = None, ki_written = 0, ki_write = None, ki_sync = None, ki_close = None, ki_link = None,
     ki_remove = None\<rparr>"

definition kg_env :: "(nat \<Rightarrow> disk \<Rightarrow> disk) \<Rightarrow> keygen_env" where
  "kg_env others = \<lparr>kg_other = others, kg_mkdir = None, kg_key = Inr (pk_key, replicate 64 (CHR ''p'')), kg_private = kg_io,
     kg_public = kg_io, kg_remove = None, kg_print = None\<rparr>"

definition kg_start :: keygen_world where
  "kg_start = \<lparr>kw_disk = [(''t'', WDir)], kw_time = 0, kw_log = []\<rparr>"

definition kg_public_path :: string where
  "kg_public_path = ''t/operators/'' @ pk_digest ''20'' @ ''.pub''"

definition kg_run :: "msg + keygenResult" where
  "kg_run = Inr \<lparr>kr_Fingerprint = pk_digest ''20'', kr_PrivatePath = ''operator.key'', kr_PublicPath = kg_public_path\<rparr>"

lemma keygen_runs:
  "m w = (Inr x, w') \<Longrightarrow> next_step m k w = k x w'"
  "m w = (Inl e, w') \<Longrightarrow> next_step m k w = (Inl e, w')"
  "m w = (r, w') \<Longrightarrow> deferred l m w = (r, snd (l w'))"
  "m w = (Inr x, w') \<Longrightarrow> wrap_step g m w = (Inr x, w')"
  by (simp_all add: next_step_def deferred_def wrap_step_def)

abbreviation kg_temp1 :: string where "kg_temp1 \<equiv> ''.operator.key.tmp-1''"
abbreviation kg_temp2 :: string where "kg_temp2 \<equiv> ''t/operators/.'' @ pk_digest ''20'' @ ''.pub.tmp-1''"

lemma kg_names:
  "private_path ''operator'' ''t'' = ''operator.key''" "sha256_hex pk_crypto pk_key = pk_digest ''20''"
  "path_Join ''t'' ''operators'' = ''t/operators''" "public_path ''t/operators'' (pk_digest ''20'') = kg_public_path"
  "temp_path ''operator.key'' ''1'' = kg_temp1" "temp_path kg_public_path ''1'' = kg_temp2"
  "path_Clean ''t'' = ''t''" "dirs_to ''t/operators'' = [''t'', ''t/operators'']"
  "kg_public_path \<noteq> kg_temp1" "kg_public_path \<noteq> kg_temp2" "kg_public_path \<noteq> ''operator.key''"
  "kg_public_path \<noteq> ''t''" "kg_public_path \<noteq> ''t/operators''"
  "kg_temp2 \<noteq> ''operator.key''" "kg_temp2 \<noteq> ''t''" "kg_temp2 \<noteq> ''t/operators''"
  by code_simp+

lemma kg_env_simps:
  "kg_other (kg_env f) = f" "kg_mkdir (kg_env f) = None" "kg_key (kg_env f) = Inr (pk_key, replicate 64 (CHR ''p''))"
  "kg_private (kg_env f) = kg_io" "kg_public (kg_env f) = kg_io" "kg_remove (kg_env f) = None"
  "ki_temp kg_io = Inr ''1''" "ki_chmod kg_io = None" "ki_write kg_io = None" "ki_sync kg_io = None" "ki_close kg_io = None"
  "ki_link kg_io = None" "ki_remove kg_io = None"
  by (simp_all add: kg_env_def kg_io_def)

lemmas keygen_steps = keygen_runs stop_then wrap_stop act_def call_def done_if_def real_root_def lstat_def make_directory_def
  and_then_def real_directory_def create_temp_def write_temp_def link_temp_def remove_temp_def unlink_def has_key_def stop_def kg_env_simps

lemma kg_private_written:
  assumes "kw_disk w = [(''t'', WDir), (''t/operators'', WDir)]"
  shows "fst (writeKeyFileExclusive (kg_env (\<lambda>n d. d)) kg_io ''operator.key'' raw w) = Inr ()
    \<and> kw_disk (snd (writeKeyFileExclusive (kg_env (\<lambda>n d. d)) kg_io ''operator.key'' raw w))
      = [(''t'', WDir), (''t/operators'', WDir), (''operator.key'', WFile (Inr raw))]"
  unfolding writeKeyFileExclusive_def by (simp add: assms keygen_steps kg_names Let_def)

lemma kg_public_written:
  assumes "kw_disk w = [(''t'', WDir), (''t/operators'', WDir), (''operator.key'', x)]"
  shows "fst (write_public (kg_env (\<lambda>n d. d)) ''operator.key'' kg_public_path raw w) = Inr ()"
  unfolding write_public_def writeKeyFileExclusive_def using kg_names by (simp add: assms keygen_steps Let_def)

lemma kg_done: "fst (generateTrustKeypair pk_crypto (kg_env (\<lambda>n d. d)) ''operator'' ''t'' kg_start) = kg_run"
proof -
  have next_fst: "fst (m w) = Inr x \<Longrightarrow> next_step m k w = k x (snd (m w))" for m :: "'a keygen" and k :: "'a \<Rightarrow> 'b keygen" and w x
    by (cases "m w") (simp add: next_step_def)
  have wrap_fst: "fst (m w) = Inr x \<Longrightarrow> fst (wrap_step g m w) = Inr x \<and> snd (wrap_step g m w) = snd (m w)"
    for m :: "'a keygen" and g w x
    by (cases "m w") (simp add: wrap_step_def)
  show ?thesis
    unfolding generateTrustKeypair_def Let_def
    by (simp add: keygen_steps kg_start_def Let_def keygenRoleDirectory_def kg_names next_fst wrap_fst kg_private_written
        kg_public_written kg_run_def)
qed

lemma kg_files: "key_files pk_crypto (kg_env (\<lambda>n d. d)) ''operator'' ''t'' =
    {(''operator.key'', std_encode (replicate 64 (CHR ''p'')) @ [CHR 0x0A]), (kg_public_path, std_encode pk_key @ [CHR 0x0A])}"
proof -
  have "private_path ''operator'' ''t'' = ''operator.key''"
    "public_path (path_Join ''t'' ''operators'') (sha256_hex pk_crypto pk_key) = kg_public_path" by code_simp+
  then show ?thesis by (simp add: key_files_def kg_env_def keygenRoleDirectory_def)
qed

theorem keygen_atomic_witness:
  "alookup (kw_disk (snd (generateTrustKeypair pk_crypto (kg_env (\<lambda>n d. d)) ''operator'' ''t'' kg_start))) ''operator.key''
    = Some (WFile (Inr (std_encode (replicate 64 (CHR ''p'')) @ [CHR 0x0A])))"
proof -
  let ?g = "generateTrustKeypair pk_crypto (kg_env (\<lambda>n d. d)) ''operator'' ''t'' kg_start"
  have u: "undisturbed (kg_env (\<lambda>n d. d))" by (simp add: undisturbed_def kg_env_def)
  have g: "generateTrustKeypair pk_crypto (kg_env (\<lambda>n d. d)) ''operator'' ''t''
      \<lparr>kw_disk = [(''t'', WDir)], kw_time = 0, kw_log = []\<rparr> = (kg_run, snd ?g)"
    using kg_done by (metis kg_start_def prod.collapse)
  from keygen_atomic [OF u g] show ?thesis by (simp add: kg_run_def kg_files)
qed

text \<open>Before the first step the other process puts a file under the name of the public key; keygen leaves it.\<close>

definition kg_intruder :: "nat \<Rightarrow> disk \<Rightarrow> disk" where
  "kg_intruder n d = (if n = 0 then d @ [(kg_public_path, WFile (Inr ''x''))] else d)"

lemma kg_disturbed:
  "\<exists>before later. (before, later) \<in> set (kw_log (snd (generateTrustKeypair pk_crypto (kg_env kg_intruder) ''operator'' ''t'' kg_start)))
     \<and> alookup before kg_public_path = Some (WFile (Inr ''x''))"
proof -
  let ?d = "[(''t'', WDir), (kg_public_path, WFile (Inr ''x''))]"
  let ?w = "\<lparr>kw_disk = ?d, kw_time = 1, kw_log = [(?d, ?d)]\<rparr>"
  have any: "guarantees (\<lambda>_ _. True) (writeKeyFileExclusive env io path content)" for env io path content
    using kept_key_file [of io path UNIV env content] unfolding guarantees_def temps_of_def by (auto intro: logged_mono)
  have public: "guarantees (\<lambda>_ _. True) (write_public env a b c)" for env a b c
    unfolding guarantees_def
  proof
    fix w :: keygen_world
    obtain r w1 where m: "writeKeyFileExclusive env (kg_public env) b c w = (r, w1)" by fastforce
    then have "logged (\<lambda>_ _. True) (kw_log w1) (kw_log w)" using any by (metis guarantees_def snd_conv)
    then show "logged (\<lambda>_ _. True) (kw_log (snd (write_public env a b c w))) (kw_log w)"
      using m by (auto simp: write_public_def next_step_def stop_def act_def Let_def split: sum.split prod.split intro!: logged_Cons)
  qed
  obtain k :: "unit \<Rightarrow> keygenResult keygen" where k: "generateTrustKeypair pk_crypto (kg_env kg_intruder) ''operator'' ''t''
      = next_step (act (kg_env kg_intruder) (\<lambda>d. (real_root ''t'' d, d))) k" and rest: "\<And>x. guarantees (\<lambda>_ _. True) (k x)"
  proof (rule that)
    show "generateTrustKeypair pk_crypto (kg_env kg_intruder) ''operator'' ''t''
      = next_step (act (kg_env kg_intruder) (\<lambda>d. (real_root ''t'' d, d))) (\<lambda>_.
        next_step (act (kg_env kg_intruder) (make_directory (kg_env kg_intruder) ''operator'' ''t/operators'')) (\<lambda>_.
        next_step (act (kg_env kg_intruder) (\<lambda>d. (real_directory ''operator'' ''t/operators'' d, d))) (\<lambda>_.
        next_step (wrap_step (\<lambda>e. Errorf ''write private key: %w'' [E e])
          (writeKeyFileExclusive (kg_env kg_intruder) kg_io ''operator.key'' (std_encode (replicate 64 (CHR ''p'')) @ [CHR 0x0A]))) (\<lambda>_.
        next_step (write_public (kg_env kg_intruder) ''operator.key'' kg_public_path (std_encode pk_key @ [CHR 0x0A])) (\<lambda>_.
        stop kg_run)))))"
      by (simp add: generateTrustKeypair_def Let_def keygenRoleDirectory_def stop_then kg_names kg_env_simps wrap_stop kg_run_def)
  qed (auto simp: any public intro!: step_rules)
  have first: "act (kg_env kg_intruder) (\<lambda>d. (real_root ''t'' d, d)) kg_start = (Inr (), ?w)"
    by (simp add: act_def Let_def kg_env_simps kg_start_def kg_intruder_def real_root_def lstat_def)
  have "logged (\<lambda>_ _. True) (kw_log (snd (k () ?w))) [(?d, ?d)]"
    using rest [of "()"] by (metis guarantees_def keygen_world.select_convs(3))
  then have "(?d, ?d) \<in> set (kw_log (snd (generateTrustKeypair pk_crypto (kg_env kg_intruder) ''operator'' ''t'' kg_start)))"
    by (auto simp: k next_step_def first logged_def)
  then show ?thesis by (force simp: kg_names)
qed

lemma kg_own: "kg_public_path \<notin> temp_names pk_crypto (kg_env kg_intruder) ''operator'' ''t''"
  "kg_public_path \<noteq> private_path ''operator'' ''t''"
proof -
  have "kg_public_path \<noteq> temp_path (private_path ''operator'' ''t'') ''1''"
    "kg_public_path \<noteq> temp_path (public_path (path_Join ''t'' ''operators'') (sha256_hex pk_crypto pk_key)) ''1''"
    by code_simp+
  then show "kg_public_path \<notin> temp_names pk_crypto (kg_env kg_intruder) ''operator'' ''t''"
    by (simp add: temp_names_def run_names_def temps_of_def kg_env_def kg_io_def keygenRoleDirectory_def)
  show "kg_public_path \<noteq> private_path ''operator'' ''t''" by code_simp
qed

theorem keygen_overwrites_nothing_witness:
  "\<exists>before later. (before, later) \<in> set (kw_log (snd (generateTrustKeypair pk_crypto (kg_env kg_intruder) ''operator'' ''t'' kg_start)))
    \<and> alookup before kg_public_path = Some (WFile (Inr ''x'')) \<and> alookup later kg_public_path = Some (WFile (Inr ''x''))"
proof -
  let ?g = "generateTrustKeypair pk_crypto (kg_env kg_intruder) ''operator'' ''t'' kg_start"
  obtain before later where b: "(before, later) \<in> set (kw_log (snd ?g))" "alookup before kg_public_path = Some (WFile (Inr ''x''))"
    using kg_disturbed by blast
  obtain newer older where l: "kw_log (snd ?g) = newer @ (before, later) # older" using split_list [OF b(1)] by blast
  have g: "generateTrustKeypair pk_crypto (kg_env kg_intruder) ''operator'' ''t''
      \<lparr>kw_disk = [(''t'', WDir)], kw_time = 0, kw_log = []\<rparr> = (fst ?g, snd ?g)"
    by (simp add: kg_start_def)
  show ?thesis using keygen_overwrites_nothing [OF g l b(2) kg_own(1)] b kg_own(2) by blast
qed

end
