(* ===== verification/Emit_Facts.thy ===== *)
theory Emit_Facts
  imports Package_Codec
begin

text \<open>
  What a successful emission guarantees whatever other processes do to the staging directory.
\<close>

section \<open>The index\<close>

text \<open>The index of a directory describes exactly its files, the manifest and its signature apart.\<close>

definition stage_files :: "stage \<Rightarrow> (string \<times> string) set" where
  "stage_files st = {(p, raw). (p, WFile (Inr raw)) \<in> set st \<and> p \<noteq> packageManifestName \<and> p \<noteq> packageSignatureName}"

lemma index_walk_set:
  "index_walk cr st = Inr bs \<Longrightarrow> set bs = {file_blob cr p raw | p raw. (p, raw) \<in> stage_files st}"
proof (induction st arbitrary: bs)
  case (Cons e st)
  obtain p n where e: "e = (p, n)" by fastforce
  show ?case
  proof (cases "p = packageManifestName \<or> p = packageSignatureName \<or> (\<forall>r. n \<noteq> WFile r)")
    case True
    then have "index_walk cr st = Inr bs" using Cons.prems e by (auto split: walk_node.splits if_splits)
    then have "set bs = {file_blob cr p raw | p raw. (p, raw) \<in> stage_files st}" by (rule Cons.IH)
    moreover have "stage_files (e # st) = stage_files st" using True e by (auto simp: stage_files_def)
    ultimately show ?thesis by simp
  next
    case False
    then obtain raw bs' where r: "n = WFile (Inr raw)" "index_walk cr st = Inr bs'" "bs = file_blob cr p raw # bs'"
      using Cons.prems e by (auto simp: and_then_Inr_iff)
    have "stage_files (e # st) = insert (p, raw) (stage_files st)" using False r(1) e by (auto simp: stage_files_def)
    then show ?thesis using Cons.IH [OF r(2)] r(3) by auto
  qed
qed (simp add: stage_files_def)

lemma packageFileBlobs_set:
  "packageFileBlobs cr st = Inr bs \<Longrightarrow> set bs = {file_blob cr p raw | p raw. (p, raw) \<in> stage_files st}"
  using index_walk_set by (fastforce simp: packageFileBlobs_def split: sum.splits)

section \<open>A run\<close>

definition in_roots :: "string list \<Rightarrow> string \<Rightarrow> bool" where
  "in_roots roots p \<longleftrightarrow> (\<exists>root \<in> set roots. p = root \<or> under root p)"

definition evaluated_roots :: "EmitOptions \<Rightarrow> string list" where
  "evaluated_roots opts = [emitArtifactDir, emitKeysDir, checker_relative opts]"

text \<open>The checker ran to its end on the files of \<open>replica\<close> and the conformance command ran to its end.\<close>

definition evaluation_of :: "emit_env \<Rightarrow> EmitOptions \<Rightarrow> stage \<Rightarrow> string \<Rightarrow> string \<Rightarrow> int \<Rightarrow> bool" where
  "evaluation_of env opts replica out err status \<longleftrightarrow>
     (let checker = ''./'' @ checker_relative opts; timeout = command_timeout (eo_CommandTimeout opts) in
      runChecker (ev_checker env replica checker emit_arguments timeout) checker emit_arguments timeout = Inr (out, err, status))"

lemma emit_stage_run:
  assumes "emit_stage cr env opts w = Inr ((m, ef), w')"
  shows "\<exists>inputs result w1 w2 w3 w4.
        emit_inputs cr env opts w = Inr ((ef_operator ef, ef_status ef, inputs), w1)
        \<and> runConformance env opts w1 = Inr ((ef_conformance ef, result), w2)
        \<and> fileDigest cr (ev_read env (ew_time w2) (eo_CorpusDigestPath opts)) = Inr (ef_corpus ef)
        \<and> runEmitEvaluationInReplica cr env (checker_relative opts) (eo_CommandTimeout opts) (after w2 (seen env w2))
          = Inr (ef_evaluation ef, w3)
        \<and> writeEvaluationResults env (ef_evaluation ef) w3 = Inr ((), w4)
        \<and> select_run opts (ef_evaluation ef) = Inr (ef_discovered ef, ef_run ef)
        \<and> fileDigest cr (stage_read (ev_link env (ew_time w4)) (seen env w4) emitSpecPath) = Inr (ef_spec ef)
        \<and> packageFileBlobs cr (seen env (after w4 (seen env w4))) = Inr (ef_files ef)
        \<and> bind_files cr (ef_files ef) inputs result (ef_evaluation ef) = None
        \<and> emit_manifest opts ef = Inr m
        \<and> writeSignedManifest cr env m (eo_OperatorKey opts)
            (after (after w4 (seen env w4)) (seen env (after w4 (seen env w4)))) = Inr ((), w')"
proof -
  let ?run = "\<lambda>ops st inputs result corpus ev discovered run spec ce bs w1 w2 w3 w4.
        emit_inputs cr env opts w = Inr ((ops, st, inputs), w1)
        \<and> runConformance env opts w1 = Inr ((ce, result), w2)
        \<and> fileDigest cr (ev_read env (ew_time w2) (eo_CorpusDigestPath opts)) = Inr corpus
        \<and> runEmitEvaluationInReplica cr env (checker_relative opts) (eo_CommandTimeout opts) (after w2 (seen env w2)) = Inr (ev, w3)
        \<and> writeEvaluationResults env ev w3 = Inr ((), w4)
        \<and> select_run opts ev = Inr (discovered, run)
        \<and> fileDigest cr (stage_read (ev_link env (ew_time w4)) (seen env w4) emitSpecPath) = Inr spec
        \<and> packageFileBlobs cr (seen env (after w4 (seen env w4))) = Inr bs
        \<and> bind_files cr bs inputs result ev = None"
  obtain ops st inputs result corpus ev discovered run spec ce bs w1 w2 w3 w4 where
    r: "?run ops st inputs result corpus ev discovered run spec ce bs w1 w2 w3 w4"
    and ef: "ef = \<lparr>ef_operator = ops, ef_status = st, ef_spec = spec, ef_corpus = corpus, ef_discovered = discovered,
       ef_run = run, ef_evaluation = ev, ef_conformance = ce, ef_files = bs\<rparr>"
    and m: "emit_manifest opts ef = Inr m" "writeSignedManifest cr env m (eo_OperatorKey opts)
       (after (after w4 (seen env w4)) (seen env (after w4 (seen env w4)))) = Inr ((), w')"
    using assms unfolding emit_stage_def emit_run_def emit_success Let_def split_paired_Ex prod.case
    by (elim exE conjE) (use that in simp)
  show ?thesis
    by (intro exI [of _ inputs] exI [of _ result] exI [of _ w1] exI [of _ w2] exI [of _ w3] exI [of _ w4]) (use r m ef in simp)
qed

lemma emit_manifest_Inr:
  assumes "emit_manifest opts ef = Inr m"
  shows "pm_Files m = ef_files ef" "pm_VerificationInputs m = verification_inputs (ef_files ef)" "plain_manifest m"
    "pm_Kind m = ''evaluation-package''" "pe_ExitStatus (pm_ArtifactEvaluation m) = ee_exitStatus (ef_evaluation ef)"
    "cf_ExitStatus (pm_Conformance m) = ef_conformance ef"
  using assms by (auto simp: emit_manifest_def Let_def and_then_Inr_iff plain_manifest_def)

lemma runConformance_run:
  "runConformance env opts w = Inr ((status, result), w') \<Longrightarrow> conformance_run env opts = Inr (status, result)"
  by (auto simp: runConformance_def emit_success split_paired_Ex)

lemma evaluation_run:
  assumes "runEmitEvaluationInReplica cr env (checker_relative opts) (eo_CommandTimeout opts) w = Inr (ev, w')"
  shows "\<exists>replica. evaluation_of env opts replica (ee_machineOutput ev) (ee_stderr ev) (ee_exitStatus ev)
    \<and> packageFileBlobs cr replica = Inr (ee_inputs ev) \<and> ee_inputRoots ev = evaluated_roots opts"
  using assms by (auto simp: runEmitEvaluationInReplica_def replicateForEvaluation_def emit_success split_paired_Ex evaluation_of_def
      evaluated_roots_def Let_def)

text \<open>What was observed: the checker's output on the files of \<open>replica\<close>, the conformance command's output, and that the
  index lists those bytes.\<close>

definition observed ::
  "crypto \<Rightarrow> emit_env \<Rightarrow> EmitOptions \<Rightarrow> PackageManifest \<Rightarrow> stage \<Rightarrow> string \<Rightarrow> string \<Rightarrow> string \<Rightarrow> bool"
where
  "observed cr env opts m replica out err result \<longleftrightarrow>
     evaluation_of env opts replica out err (pe_ExitStatus (pm_ArtifactEvaluation m))
     \<and> conformance_run env opts = Inr (cf_ExitStatus (pm_Conformance m), result)
     \<and> packageFileBlobs cr replica = Inr (filter (\<lambda>b. in_roots (evaluated_roots opts) (bl_Path b)) (pm_Files m))
     \<and> assertCapturedPackageBlob cr (pm_Files m) emitMachineOutput out = None
     \<and> assertCapturedPackageBlob cr (pm_Files m) emitStderrPath err = None
     \<and> assertCapturedPackageBlob cr (pm_Files m) emitConformancePath result = None"

lemma emit_stage_observed:
  assumes "emit_stage cr env opts w = Inr ((m, ef), w')"
  shows "\<exists>replica out err result. observed cr env opts m replica out err result"
proof -
  obtain inputs result w1 w2 w3 w4 where
    c: "runConformance env opts w1 = Inr ((ef_conformance ef, result), w2)"
    and e: "runEmitEvaluationInReplica cr env (checker_relative opts) (eo_CommandTimeout opts) (after w2 (seen env w2))
          = Inr (ef_evaluation ef, w3)"
    and b: "bind_files cr (ef_files ef) inputs result (ef_evaluation ef) = None"
    and m: "emit_manifest opts ef = Inr m"
    using emit_stage_run [OF assms] by blast
  obtain replica where r: "evaluation_of env opts replica (ee_machineOutput (ef_evaluation ef)) (ee_stderr (ef_evaluation ef))
      (ee_exitStatus (ef_evaluation ef))"
    "packageFileBlobs cr replica = Inr (ee_inputs (ef_evaluation ef))"
    "ee_inputRoots (ef_evaluation ef) = evaluated_roots opts"
    using evaluation_run [OF e] by blast
  have "observed cr env opts m replica (ee_machineOutput (ef_evaluation ef)) (ee_stderr (ef_evaluation ef)) result"
    using r b runConformance_run [OF c] emit_manifest_Inr [OF m]
    by (simp add: observed_def bind_files_def first_err_Cons_None assertEvaluatedInputsMatch_iff in_roots_def list_ex_iff)
  then show ?thesis by blast
qed

lemma emit_package_stage:
  assumes "emit_package cr env options = Inr (res, published, m, ef)"
  shows "\<exists>w. emit_stage cr env (options\<lparr>eo_OutDir := path_Clean (eo_OutDir options)\<rparr>) \<lparr>ew_stage = [], ew_time = 0\<rparr> = Inr ((m, ef), w)
    \<and> published = ev_other env (ew_time w) (ew_stage w)
    \<and> er_ExitStatus res = pe_ExitStatus (pm_ArtifactEvaluation m) \<and> er_ConformanceExitStatus res = cf_ExitStatus (pm_Conformance m)
    \<and> er_Run res = pm_Run m \<and> er_DiscoveredRuns res = bd_DiscoveredRuns (pm_ArtifactBinding m) \<and> er_PackageID res = pm_ID m"
proof -
  let ?opts = "options\<lparr>eo_OutDir := path_Clean (eo_OutDir options)\<rparr>"
  obtain w where w: "emit_stage cr env ?opts \<lparr>ew_stage = [], ew_time = 0\<rparr> = Inr ((m, ef), w)"
    "published = ev_other env (ew_time w) (ew_stage w)"
    "res = \<lparr>er_PackageDir = eo_OutDir ?opts, er_PackageID = eo_PackageID ?opts, er_Run = ef_run ef,
              er_DiscoveredRuns = ef_discovered ef, er_ExitStatus = ee_exitStatus (ef_evaluation ef),
              er_ConformanceExitStatus = ef_conformance ef\<rparr>"
    using assms by (auto simp: emit_package_def Let_def fail_if_Inr_iff and_then_Inr_iff)
  have "emit_manifest ?opts ef = Inr m" using emit_stage_run [OF w(1)] by blast
  then show ?thesis using w by (auto simp: emit_manifest_def Let_def and_then_Inr_iff)
qed

section \<open>The package holds what was evaluated\<close>

definition tree_files :: "tree \<Rightarrow> (string \<times> string) set" where
  "tree_files t = {(p, raw). (p, File raw) \<in> set t}"

definition observed_bytes :: "stage \<Rightarrow> string \<Rightarrow> string \<Rightarrow> string \<Rightarrow> string set" where
  "observed_bytes replica out err result = snd ` stage_files replica \<union> {out, err, result}"

lemma blob_is_blob [simp]: "is_blob (p, File raw) \<longleftrightarrow> p \<noteq> packageManifestName \<and> p \<noteq> packageSignatureName"
  by (simp add: is_blob_def is_file_def)

lemma described_file:
  assumes d: "described cr t m" and b: "file_blob cr p raw \<in> set (pm_Files m)"
    and i: "inj_on (sha256_hex cr) (blobs t \<union> X)" and x: "raw \<in> X"
  shows "(p, raw) \<in> tree_files t"
proof -
  obtain raw' where r: "(p, File raw') \<in> set t" "is_blob (p, File raw')"
    using d b by (force simp: described_def file_blob_def)
  then obtain b' where b': "b' \<in> set (pm_Files m)" "bl_Path b' = p" "matches cr b' raw'"
    using d unfolding described_def by blast
  have "distinct (map bl_Path (pm_Files m))" using d by (simp add: described_def)
  then have "b' = file_blob cr p raw" using b b'(1,2) by (simp add: distinct_map inj_on_def file_blob_def)
  then have "sha256_hex cr raw = sha256_hex cr raw'" using b'(3) by (simp add: matches_def file_blob_def)
  moreover have "raw' \<in> blobs t" using r by (auto simp: blobs_def)
  ultimately have "raw = raw'" using i x by (simp add: inj_on_def)
  then show ?thesis using r(1) by (simp add: tree_files_def)
qed

lemma file_described:
  assumes d: "described cr t m" and f: "(p, raw) \<in> tree_files t" and p: "p \<noteq> packageManifestName" "p \<noteq> packageSignatureName"
  shows "\<exists>b \<in> set (pm_Files m). bl_Path b = p \<and> matches cr b raw"
  using assms unfolding described_def tree_files_def by simp

lemma root_paths:
  assumes "in_roots (evaluated_roots opts) p"
  shows "p \<noteq> packageManifestName" "p \<noteq> packageSignatureName"
  using assms by (auto simp: in_roots_def evaluated_roots_def checker_relative_def emit_layout under_def has_prefix_def
      packageManifestName_def packageSignatureName_def)

lemma loaded_is_emitted:
  assumes "good (doc_manifest m)" "plain_manifest m" "Canonicalize (json_Marshal (doc_manifest m)) = Inr raw"
    "load_package_manifest raw = Inr m'"
  shows "m' = m"
proof -
  have raw: "raw = render (sortv (doc_manifest m))" using assms(3) Canonicalize_marshal [OF assms(1)] by simp
  have "parse_json raw = Inr (json_doc (doc_manifest m))"
    using parse_json_render [OF good_sortv [OF assms(1)] doc_manifest_shallow [OF assms(2)]] raw by (simp add: json_doc_def)
  then have "unmarshal dec_PackageManifest raw zero_PackageManifest = (m, None)"
    by (simp add: unmarshal_def manifest_decodes [OF assms(1,2)])
  then show ?thesis using assms(4) by (simp add: load_package_manifest_iff)
qed

lemma observed_files:
  assumes o: "observed cr env opts m replica out err result" and d: "described cr t m"
    and i: "inj_on (sha256_hex cr) (blobs t \<union> observed_bytes replica out err result)"
  shows "{(emitMachineOutput, out), (emitStderrPath, err), (emitConformancePath, result)} \<subseteq> tree_files t"
    "in_roots (evaluated_roots opts) p \<Longrightarrow> (p, raw) \<in> tree_files t \<longleftrightarrow> (p, raw) \<in> stage_files replica"
proof -
  have dist: "distinct (map bl_Path (pm_Files m))" using d by (simp add: described_def)
  have c: "file_blob cr emitMachineOutput out \<in> set (pm_Files m)" "file_blob cr emitStderrPath err \<in> set (pm_Files m)"
    "file_blob cr emitConformancePath result \<in> set (pm_Files m)"
    using o by (simp_all add: observed_def assertCapturedPackageBlob_iff [OF dist])
  note at = described_file [OF d _ i]
  show "{(emitMachineOutput, out), (emitStderrPath, err), (emitConformancePath, result)} \<subseteq> tree_files t"
    using at [OF c(1)] at [OF c(2)] at [OF c(3)] by (simp add: observed_bytes_def)
  assume p: "in_roots (evaluated_roots opts) p"
  have idx: "{b \<in> set (pm_Files m). in_roots (evaluated_roots opts) (bl_Path b)} = {file_blob cr p raw | p raw. (p, raw) \<in> stage_files replica}"
    using o packageFileBlobs_set [of cr replica] by (fastforce simp: observed_def)
  show "(p, raw) \<in> tree_files t \<longleftrightarrow> (p, raw) \<in> stage_files replica"
  proof
    assume f: "(p, raw) \<in> tree_files t"
    obtain b where b: "b \<in> set (pm_Files m)" "bl_Path b = p" "matches cr b raw"
      using file_described [OF d f root_paths [OF p]] by blast
    have "b \<in> {b \<in> set (pm_Files m). in_roots (evaluated_roots opts) (bl_Path b)}" using b(1,2) p by simp
    then obtain p' raw' where r': "b = file_blob cr p' raw'" "(p', raw') \<in> stage_files replica" unfolding idx by blast
    then have r: "b = file_blob cr p raw'" "(p, raw') \<in> stage_files replica" using b(2) by (simp_all add: file_blob_def)
    have "raw \<in> blobs t" using f root_paths [OF p] by (auto simp: tree_files_def blobs_def)
    moreover have "raw' \<in> observed_bytes replica out err result" using r(2) by (force simp: observed_bytes_def)
    moreover have "sha256_hex cr raw = sha256_hex cr raw'" using b(3) r(1) by (simp add: matches_def file_blob_def)
    ultimately have "raw = raw'" using i by (simp add: inj_on_def)
    then show "(p, raw) \<in> stage_files replica" using r(2) by simp
  next
    assume f: "(p, raw) \<in> stage_files replica"
    then have "file_blob cr p raw \<in> set (pm_Files m)" using idx by blast
    then show "(p, raw) \<in> tree_files t" using at f by (force simp: observed_bytes_def)
  qed
qed

text \<open>C8: whatever other processes do to the staging directory, a successful emission signs what was evaluated,
  provided that every string of its manifest, the names of the staged files included, is valid UTF-8 and every number
  a safe integer. The checker ran to its end on a replica, and the conformance command ran to its end; in every
  directory that validates under the manifest that was signed, the results are the bytes those processes printed, and
  the artifact, its keys and the checker are file by file the ones of the replica. Of SHA-256 it is assumed that it
  tells the files of that directory, of the replica and of the results apart. Without the condition on the encoding an
  invalid byte of a name is signed as U+FFFD, so that the manifest lists another name than the replica has.\<close>
theorem emission_signs_the_evaluation:
  assumes "emit_package cr env options = Inr (res, published, m, ef)"
    and "good (doc_manifest m)" "Canonicalize (json_Marshal (doc_manifest m)) = Inr raw"
  shows "\<exists>replica out err result.
    evaluation_of env options replica out err (er_ExitStatus res)
    \<and> conformance_run env options = Inr (er_ConformanceExitStatus res, result)
    \<and> (\<forall>penv vopts t v. validatePackageDir cr penv vopts t = Inr v \<and> alookup t packageManifestName = Some (File raw)
        \<and> inj_on (sha256_hex cr) (blobs t \<union> observed_bytes replica out err result) \<longrightarrow>
        {(emitMachineOutput, out), (emitStderrPath, err), (emitConformancePath, result)} \<subseteq> tree_files t
        \<and> (\<forall>p b. in_roots (evaluated_roots options) p \<longrightarrow> ((p, b) \<in> tree_files t \<longleftrightarrow> (p, b) \<in> stage_files replica)))"
proof -
  let ?opts = "options\<lparr>eo_OutDir := path_Clean (eo_OutDir options)\<rparr>"
  obtain w where w: "emit_stage cr env ?opts \<lparr>ew_stage = [], ew_time = 0\<rparr> = Inr ((m, ef), w)"
    "er_ExitStatus res = pe_ExitStatus (pm_ArtifactEvaluation m)" "er_ConformanceExitStatus res = cf_ExitStatus (pm_Conformance m)"
    using emit_package_stage [OF assms(1)] by blast
  obtain replica out err result where o: "observed cr env ?opts m replica out err result"
    using emit_stage_observed [OF w(1)] by blast
  have same: "evaluation_of env ?opts = evaluation_of env options" "conformance_run env ?opts = conformance_run env options"
    "evaluated_roots ?opts = evaluated_roots options"
    by (simp_all add: evaluation_of_def conformance_run_def evaluated_roots_def checker_relative_def fun_eq_iff)
  have p: "plain_manifest m" using emit_stage_run [OF w(1)] emit_manifest_Inr(3) by blast
  have d: "described cr t m" if v: "validatePackageDir cr penv vopts t = Inr v"
    and t: "alookup t packageManifestName = Some (File raw)" for penv vopts t v
  proof -
    obtain m' where m': "load_package_manifest raw = Inr m'" "check_package cr penv t raw m' = Inr ()"
      using v t by (auto simp: validatePackageDir_iff)
    have "m' = m" by (rule loaded_is_emitted [OF assms(2) p assms(3) m'(1)])
    then show ?thesis using m'(2) by (simp add: check_package_iff)
  qed
  have "evaluation_of env options replica out err (er_ExitStatus res)"
    "conformance_run env options = Inr (er_ConformanceExitStatus res, result)"
    using o w(2,3) same by (simp_all add: observed_def)
  moreover have "{(emitMachineOutput, out), (emitStderrPath, err), (emitConformancePath, result)} \<subseteq> tree_files t
        \<and> (\<forall>p b. in_roots (evaluated_roots options) p \<longrightarrow> ((p, b) \<in> tree_files t \<longleftrightarrow> (p, b) \<in> stage_files replica))"
    if "validatePackageDir cr penv vopts t = Inr v" "alookup t packageManifestName = Some (File raw)"
      "inj_on (sha256_hex cr) (blobs t \<union> observed_bytes replica out err result)" for penv vopts t v
    using observed_files [OF o d [OF that(1,2)] that(3)] unfolding same by (intro conjI allI impI)
  ultimately show ?thesis
    by - (rule exI [of _ replica], rule exI [of _ out], rule exI [of _ err], rule exI [of _ result],
      intro conjI allI impI, assumption, assumption, blast, blast)
qed

end
