(* ===== verification/Emit_Stage.thy ===== *)
theory Emit_Stage
  imports Emit_Facts
begin

text \<open>
  The staging directory when no other process acts on it: what each step of the emitter keeps and adds.
\<close>

section \<open>Plain directories\<close>

text \<open>Distinct paths, and nothing but directories and files that can be read.\<close>

definition plain_stage :: "stage \<Rightarrow> bool" where
  "plain_stage st \<longleftrightarrow> distinct (map fst st) \<and> (\<forall>(p, n) \<in> set st. n = WDir \<or> (\<exists>raw. n = WFile (Inr raw)))"

lemma plain_at: "plain_stage st \<Longrightarrow> alookup st p = Some n \<Longrightarrow> n = WDir \<or> (\<exists>raw. n = WFile (Inr raw))"
  using alookup_SomeD [of st p n] by (auto simp: plain_stage_def)

lemma plain_no_link [simp]: "plain_stage st \<Longrightarrow> \<not> through_link st p"
  using plain_at [of st] by (fastforce simp: through_link_def list_ex_iff)

lemma alookup_append: "alookup (xs @ ys) k = (case alookup xs k of Some v \<Rightarrow> Some v | None \<Rightarrow> alookup ys k)"
  by (simp add: alookup_def map_add_def split: option.splits)

lemma plain_add:
  assumes "plain_stage st" "alookup st p = None" "n = WDir \<or> (\<exists>raw. n = WFile (Inr raw))"
  shows "plain_stage (st @ [(p, n)])"
  using assms by (auto simp: plain_stage_def alookup_None_iff)

lemma plain_put: "plain_stage st \<Longrightarrow> plain_stage (aput p (WFile (Inr raw)) st)"
proof -
  assume s: "plain_stage st"
  then have "distinct (map fst (aput p (WFile (Inr raw)) st))" by (simp add: plain_stage_def distinct_aput)
  moreover have "n = WDir \<or> (\<exists>raw. n = WFile (Inr raw))" if "(q, n) \<in> set (aput p (WFile (Inr raw)) st)" for q n
  proof -
    have "alookup (aput p (WFile (Inr raw)) st) q = Some n" using calculation that by (rule alookup_in_set)
    then show ?thesis using plain_at [OF s] by (auto simp: alookup_aput split: if_splits)
  qed
  ultimately show ?thesis by (auto simp: plain_stage_def)
qed

section \<open>What an operation keeps\<close>

text \<open>From a plain directory to a plain directory, where every entry outside \<open>W\<close> stays as it is.\<close>

definition evolves :: "(string \<Rightarrow> bool) \<Rightarrow> stage \<Rightarrow> stage \<Rightarrow> bool" where
  "evolves W st st' \<longleftrightarrow>
     plain_stage st \<longrightarrow> plain_stage st' \<and> (\<forall>q n. alookup st q = Some n \<and> \<not> W q \<longrightarrow> alookup st' q = Some n)"

lemma evolves_refl [intro, simp]: "evolves W st st"
  by (simp add: evolves_def)

lemma evolves_trans: "evolves W a b \<Longrightarrow> evolves W b c \<Longrightarrow> evolves W a c"
  by (auto simp: evolves_def)

lemma evolves_mono: "evolves W a b \<Longrightarrow> (\<And>q. W q \<Longrightarrow> W' q) \<Longrightarrow> evolves W' a b"
  by (auto simp: evolves_def)

lemma mkdir_evolves: "mkdir_one p st = Inr st' \<Longrightarrow> evolves W st st'"
  by (auto simp: mkdir_one_def evolves_def plain_add alookup_append split: if_splits option.splits)

lemma mkdirs_evolves: "mkdirs ps st = Inr st' \<Longrightarrow> evolves W st st'"
  by (induction ps arbitrary: st) (auto simp: and_then_Inr_iff intro: evolves_trans mkdir_evolves)

lemma WriteFile_evolves: "WriteFile p raw st = Inr st' \<Longrightarrow> W p \<Longrightarrow> evolves W st st'"
  by (auto simp: WriteFile_def evolves_def plain_put alookup_aput split: if_splits option.splits walk_node.splits)

lemma WriteFile_at: "WriteFile p raw st = Inr st' \<Longrightarrow> plain_stage st \<Longrightarrow> st' = aput p (WFile (Inr raw)) st"
  using plain_at [of st p] by (auto simp: WriteFile_def split: option.splits walk_node.splits if_splits)

lemma copyFile_evolves: "copyFile src p st = Inr st' \<Longrightarrow> W p \<Longrightarrow> evolves W st st'"
  by (auto simp: copyFile_def and_then_Inr_iff intro: evolves_trans mkdirs_evolves WriteFile_evolves)

lemma put_result_evolves: "put_result f p raw st = Inr st' \<Longrightarrow> W p \<Longrightarrow> evolves W st st'"
  by (auto simp: put_result_def and_then_Inr_iff wrap_res_Inr intro: evolves_trans mkdirs_evolves WriteFile_evolves)

lemma copyTree_evolves:
  "copyTree dest es st = Inr st' \<Longrightarrow> (\<And>rel n. (rel, n) \<in> set es \<Longrightarrow> W (copy_target dest rel)) \<Longrightarrow> evolves W st st'"
proof (induction dest es st rule: copyTree.induct)
  case (2 dest rel n es st)
  have W: "W (copy_target dest rel)" "\<And>rel n. (rel, n) \<in> set es \<Longrightarrow> W (copy_target dest rel)" using "2.prems"(2) by auto
  show ?case
  proof (cases n)
    case WDir
    then obtain st1 where "MkdirAll (copy_target dest rel) st = Inr st1" "copyTree dest es st1 = Inr st'"
      using "2.prems"(1) by (auto simp: and_then_Inr_iff)
    moreover from this have "evolves W st1 st'" by (intro "2.IH"(1) [OF WDir _ W(2)])
    ultimately show ?thesis using evolves_trans [OF mkdirs_evolves [of _ st st1 W]] by (simp add: MkdirAll_def)
  next
    case (WFile r)
    then obtain st1 where "copyFile r (copy_target dest rel) st = Inr st1" "copyTree dest es st1 = Inr st'"
      using "2.prems"(1) by (auto simp: and_then_Inr_iff)
    moreover from this have "evolves W st1 st'" by (intro "2.IH"(2) [OF WFile _ W(2)])
    ultimately show ?thesis using evolves_trans copyFile_evolves [of r "copy_target dest rel" st st1 W] W(1) by blast
  qed (use "2.prems"(1) in auto)
qed simp

lemma writeEmitPublicKey_evolves:
  assumes "writeEmitPublicKey cr pub st = Inr (fp, st')"
  shows "fp = sha256_hex cr pub" "W (emitPackageKeysDir @ ''/'' @ fp @ ''.pub'') \<Longrightarrow> evolves W st st'"
    "plain_stage st \<Longrightarrow> alookup st' (emitPackageKeysDir @ ''/'' @ fp @ ''.pub'') = Some (WFile (Inr (std_encode pub @ [CHR 0x0A])))"
proof -
  let ?p = "emitPackageKeysDir @ ''/'' @ sha256_hex cr pub @ ''.pub''"
  obtain st1 where st1: "mkdirs (parents emitPackageKeysDir @ [emitPackageKeysDir]) st = Inr st1"
    "WriteFile ?p (std_encode pub @ [CHR 0x0A]) st1 = Inr st'" and fp: "fp = sha256_hex cr pub"
    using assms by (cases "mkdirs (parents emitPackageKeysDir @ [emitPackageKeysDir]) st")
      (auto simp: writeEmitPublicKey_def MkdirAll_def Let_def split: sum.splits)
  show "fp = sha256_hex cr pub" by (rule fp)
  show "evolves W st st'" if "W (emitPackageKeysDir @ ''/'' @ fp @ ''.pub'')"
    using evolves_trans [OF mkdirs_evolves [OF st1(1)] WriteFile_evolves [OF st1(2)]] that fp by simp
  assume "plain_stage st"
  then have "plain_stage st1" using mkdirs_evolves [OF st1(1), of "\<lambda>_. True"] by (simp add: evolves_def)
  then show "alookup st' (emitPackageKeysDir @ ''/'' @ fp @ ''.pub'') = Some (WFile (Inr (std_encode pub @ [CHR 0x0A])))"
    using WriteFile_at [OF st1(2)] fp by (simp add: alookup_aput)
qed

section \<open>Alone\<close>

definition alone :: "emit_env \<Rightarrow> bool" where
  "alone env \<longleftrightarrow> (\<forall>n st. ev_other env n st = st)"

lemma seen_alone: "alone env \<Longrightarrow> seen env w = ew_stage w"
  by (simp add: alone_def seen_def)

definition package_key :: "string \<Rightarrow> bool" where
  "package_key p \<longleftrightarrow> under emitPackageKeysDir p"

abbreviation key_path :: "crypto \<Rightarrow> string \<Rightarrow> string" where
  "key_path cr pub \<equiv> emitPackageKeysDir @ ''/'' @ sha256_hex cr pub @ ''.pub''"

abbreviation key_file :: "string \<Rightarrow> walk_node" where
  "key_file pub \<equiv> WFile (Inr (std_encode pub @ [CHR 0x0A]))"

definition has_keys :: "crypto \<Rightarrow> EmitOptions \<Rightarrow> stage \<Rightarrow> bool" where
  "has_keys cr opts st \<longleftrightarrow> plain_stage st
     \<and> alookup st (key_path cr (operator_public opts)) = Some (key_file (operator_public opts))
     \<and> alookup st (key_path cr (eo_StatusPublicKey opts)) = Some (key_file (eo_StatusPublicKey opts))"

lemma key_path_package_key: "package_key (emitPackageKeysDir @ CHR ''/'' # p)"
  by (simp add: package_key_def under_def has_prefix_def)

lemma has_keys_kept: "has_keys cr opts st \<Longrightarrow> evolves (\<lambda>q. \<not> package_key q) st st' \<Longrightarrow> has_keys cr opts st'"
  by (simp add: has_keys_def evolves_def key_path_package_key)

lemma plain_Nil: "plain_stage []"
  by (simp add: plain_stage_def)

text \<open>After the copies the published keys are there; a key is only ever overwritten by the other one, under the same
  fingerprint.\<close>

lemma checker_no_key:
  assumes "CHR ''/'' \<notin> set (eo_CheckerName opts)"
  shows "\<not> package_key (path_Clean (checker_relative opts))"
proof -
  have "split_on (CHR ''/'') (checker_relative opts) = [''checker'', eo_CheckerName opts]"
    using split_on_append [of "CHR ''/''" "''checker''"] split_on_no_sep [OF assms]
    by (simp add: checker_relative_def emitCheckerDir_def)
  then show ?thesis
    by (simp add: path_Clean_def Let_def checker_relative_def package_key_def under_def has_prefix_def emit_layout)
qed

lemma emit_inputs_keys:
  assumes a: "alone env" and bare: "CHR ''/'' \<notin> set (eo_CheckerName opts)" and w: "plain_stage (ew_stage w)"
    and run: "emit_inputs cr env opts w = Inr ((ofp, sfp, inputs), w')"
    and keys: "sha256_hex cr (operator_public opts) = sha256_hex cr (eo_StatusPublicKey opts) \<Longrightarrow>
      operator_public opts = eo_StatusPublicKey opts"
  shows "has_keys cr opts (ew_stage w')" "ofp = sha256_hex cr (operator_public opts)" "sfp = sha256_hex cr (eo_StatusPublicKey opts)"
    "packageFileBlobs cr (ew_stage w') = Inr inputs"
proof -
  obtain s1 s2 s3 s4 s5 s6 n5 n6 where
    c1: "copyTree emitArtifactDir (ev_walk env (eo_ArtifactDir opts)) (ew_stage w) = Inr s1"
    and c2: "copyTree emitKeysDir (ev_walk env (eo_ArtifactKeysDir opts)) s1 = Inr s2"
    and k1: "writeEmitPublicKey cr (operator_public opts) s2 = Inr (ofp, s3)"
    and k2: "writeEmitPublicKey cr (eo_StatusPublicKey opts) s3 = Inr (sfp, s4)"
    and c3: "copyFile (ev_read env n5 (eo_CheckerPath opts)) (path_Clean (checker_relative opts)) s4 = Inr s5"
    and c4: "copyFile (ev_read env n6 (eo_SpecPath opts)) emitSpecPath s5 = Inr s6"
    and idx: "packageFileBlobs cr s6 = Inr inputs" "ew_stage w' = s6"
    using run unfolding emit_inputs_def emit_success split_paired_Ex prod.case
    by (elim exE conjE) (use that in \<open>simp add: seen_alone [OF a]\<close>)
  have p2: "plain_stage s2"
    using copyTree_evolves [OF c1, of "\<lambda>_. True"] copyTree_evolves [OF c2, of "\<lambda>_. True"] w by (simp add: evolves_def)
  note o = writeEmitPublicKey_evolves [OF k1] and s = writeEmitPublicKey_evolves [OF k2]
  have p3: "plain_stage s3" using o(2) [of "\<lambda>_. True"] p2 by (simp add: evolves_def)
  have p4: "plain_stage s4" using s(2) [of "\<lambda>_. True"] p3 by (simp add: evolves_def)
  have st: "alookup s4 (key_path cr (eo_StatusPublicKey opts)) = Some (key_file (eo_StatusPublicKey opts))"
    using s(3) [OF p3] s(1) by simp
  have "alookup s4 (key_path cr (operator_public opts)) = Some (key_file (operator_public opts))"
  proof (cases "ofp = sfp")
    case True
    then show ?thesis using st keys o(1) s(1) by simp
  next
    case False
    then have ne: "key_path cr (operator_public opts) \<noteq> key_path cr (eo_StatusPublicKey opts)" using o(1) s(1) by simp
    have "evolves (\<lambda>q. q = key_path cr (eo_StatusPublicKey opts)) s3 s4" using s(2) s(1) by simp
    then show ?thesis using o(3) [OF p2] o(1) p3 ne by (simp add: evolves_def)
  qed
  then have k4: "has_keys cr opts s4" using st p4 by (simp add: has_keys_def)
  have "\<not> package_key (path_Clean (checker_relative opts))" by (rule checker_no_key [OF bare])
  moreover have "\<not> package_key emitSpecPath" by (simp add: package_key_def emit_layout under_def has_prefix_def)
  ultimately have "evolves (\<lambda>q. \<not> package_key q) s4 s6"
    using evolves_trans [OF copyFile_evolves [OF c3] copyFile_evolves [OF c4]] by simp
  then show "has_keys cr opts (ew_stage w')" using k4 has_keys_kept idx(2) by blast
  show "ofp = sha256_hex cr (operator_public opts)" "sfp = sha256_hex cr (eo_StatusPublicKey opts)"
    "packageFileBlobs cr (ew_stage w') = Inr inputs"
    using o(1) s(1) idx by simp_all
qed

section \<open>The signed stage\<close>

definition result_path :: "string \<Rightarrow> bool" where
  "result_path p \<longleftrightarrow> p \<in> {emitConformancePath, emitMachineOutput, emitStderrPath}"

lemma result_path_simps [simp]:
  "result_path emitConformancePath" "result_path emitMachineOutput" "result_path emitStderrPath" "\<not> result_path emitKeysDir"
  by (simp_all add: result_path_def emit_layout)

lemma result_path_no_key: "result_path q \<Longrightarrow> \<not> package_key q"
  by (auto simp: result_path_def emit_layout package_key_def under_def has_prefix_def)

lemma runConformance_evolves:
  "alone env \<Longrightarrow> runConformance env opts w = Inr (x, w') \<Longrightarrow> evolves result_path (ew_stage w) (ew_stage w')"
  by (auto simp: runConformance_def emit_success split_paired_Ex seen_alone intro!: put_result_evolves)

lemma writeEvaluationResults_evolves:
  assumes "alone env" "writeEvaluationResults env ev w = Inr (x, w')"
  shows "evolves result_path (ew_stage w) (ew_stage w')"
proof -
  obtain s1 s2 where "put_result (\<lambda>e. Errorf ''write %s: %w'' [S emitMachineOutput, E e]) emitMachineOutput
      (ee_machineOutput ev) (ew_stage w) = Inr s1"
    "put_result (\<lambda>e. Errorf ''write %s: %w'' [S emitStderrPath, E e]) emitStderrPath (ee_stderr ev) s1 = Inr s2" "ew_stage w' = s2"
    using assms(2) by (auto simp: writeEvaluationResults_def emit_success split_paired_Ex seen_alone [OF assms(1)])
  then show ?thesis
    using evolves_trans [OF put_result_evolves [of _ _ _ "ew_stage w" s1 result_path] put_result_evolves [of _ _ _ s1 s2 result_path]]
    by fastforce
qed

lemma evaluation_stage:
  assumes "alone env" "runEmitEvaluationInReplica cr env rel timeout w = Inr (ev, w')"
  shows "ew_stage w' = ew_stage w" "alookup (ew_stage w) emitKeysDir \<noteq> None"
proof -
  obtain r1 r2 r3 where t: "copyTree emitArtifactDir (stage_walk (ew_stage w) emitArtifactDir) [] = Inr r1"
    "copyTree emitKeysDir (stage_walk (ew_stage w) emitKeysDir) r1 = Inr r2" "ew_stage w' = ew_stage w"
    using assms(2)
    by (auto simp: runEmitEvaluationInReplica_def replicateForEvaluation_def replicate_tree_def emit_success split_paired_Ex
        seen_alone [OF assms(1)])
  show "ew_stage w' = ew_stage w" by (rule t(3))
  show "alookup (ew_stage w) emitKeysDir \<noteq> None"
    using t(2) by (cases "alookup (ew_stage w) emitKeysDir") (simp_all add: stage_walk_def)
qed

text \<open>What a whole run leaves, when it is alone: the directory that was indexed, and the two files written over it.\<close>

definition signed_stage :: "emit_env \<Rightarrow> EmitOptions \<Rightarrow> string \<Rightarrow> stage \<Rightarrow> stage" where
  "signed_stage env opts raw st =
     aput packageSignatureName (WFile (Inr (std_encode (ev_sign env (eo_OperatorKey opts) raw) @ [CHR 0x0A])))
       (aput packageManifestName (WFile (Inr raw)) st)"

lemma emit_stage_alone:
  assumes a: "alone env" and bare: "CHR ''/'' \<notin> set (eo_CheckerName opts)" and run: "emit_stage cr env opts \<lparr>ew_stage = [], ew_time = 0\<rparr> = Inr ((m, ef), w')"
    and keys: "sha256_hex cr (operator_public opts) = sha256_hex cr (eo_StatusPublicKey opts) \<Longrightarrow>
      operator_public opts = eo_StatusPublicKey opts"
  shows "\<exists>st raw. Canonicalize (json_Marshal (doc_manifest m)) = Inr raw \<and> has_keys cr opts st
    \<and> packageFileBlobs cr st = Inr (pm_Files m) \<and> alookup st emitKeysDir \<noteq> None
    \<and> ef_operator ef = sha256_hex cr (operator_public opts) \<and> ef_status ef = sha256_hex cr (eo_StatusPublicKey opts)
    \<and> ew_stage w' = signed_stage env opts raw st"
proof -
  obtain inputs result w1 w2 w3 w4 where
    i: "emit_inputs cr env opts \<lparr>ew_stage = [], ew_time = 0\<rparr> = Inr ((ef_operator ef, ef_status ef, inputs), w1)"
    and c: "runConformance env opts w1 = Inr ((ef_conformance ef, result), w2)"
    and e: "runEmitEvaluationInReplica cr env (checker_relative opts) (eo_CommandTimeout opts) (after w2 (seen env w2))
          = Inr (ef_evaluation ef, w3)"
    and r: "writeEvaluationResults env (ef_evaluation ef) w3 = Inr ((), w4)"
    and idx: "packageFileBlobs cr (seen env (after w4 (seen env w4))) = Inr (ef_files ef)"
    and m: "emit_manifest opts ef = Inr m"
    and sign: "writeSignedManifest cr env m (eo_OperatorKey opts)
       (after (after w4 (seen env w4)) (seen env (after w4 (seen env w4)))) = Inr ((), w')"
    using emit_stage_run [OF run] by blast
  note k = emit_inputs_keys [OF a bare _ i keys]
  have k1: "has_keys cr opts (ew_stage w1)" using k(1) by (simp add: plain_Nil)
  have k2: "has_keys cr opts (ew_stage w2)"
    by (rule has_keys_kept [OF k1]) (rule evolves_mono [OF runConformance_evolves [OF a c] result_path_no_key])
  have w3: "ew_stage w3 = ew_stage w2" "alookup (ew_stage w2) emitKeysDir \<noteq> None"
    using evaluation_stage [OF a e] by (simp_all add: seen_alone [OF a])
  have ev: "evolves result_path (ew_stage w2) (ew_stage w4)" using writeEvaluationResults_evolves [OF a r] w3(1) by simp
  have k4: "has_keys cr opts (ew_stage w4)" by (rule has_keys_kept [OF k2 evolves_mono [OF ev result_path_no_key]])
  have dir: "alookup (ew_stage w4) emitKeysDir \<noteq> None"
    using w3(2) ev k2 by (auto simp: evolves_def has_keys_def)
  have plain: "plain_stage (ew_stage w4)" using k4 by (simp add: has_keys_def)
  obtain raw s1 s2 where raw: "Canonicalize (json_Marshal (doc_manifest m)) = Inr raw"
    and s: "WriteFile packageManifestName raw (ew_stage w4) = Inr s1"
      "WriteFile packageSignatureName (std_encode (ev_sign env (eo_OperatorKey opts) raw) @ [CHR 0x0A]) s1 = Inr s2" "ew_stage w' = s2"
    using sign by (auto simp: writeSignedManifest_def emit_success split_paired_Ex seen_alone [OF a])
  have s1: "s1 = aput packageManifestName (WFile (Inr raw)) (ew_stage w4)" by (rule WriteFile_at [OF s(1) plain])
  have "plain_stage s1" using plain plain_put by (simp add: s1)
  then have "s2 = signed_stage env opts raw (ew_stage w4)" using WriteFile_at [OF s(2)] s1 by (simp add: signed_stage_def)
  then show ?thesis
    using raw k4 dir idx s(3) k(2,3) emit_manifest_Inr(1) [OF m] by (intro exI [of _ "ew_stage w4"] exI [of _ raw]) (simp add: seen_alone [OF a] plain_Nil)
qed

end
