(* ===== verification/Emit_Valid.thy ===== *)
theory Emit_Valid
  imports Emit_Stage
begin

text \<open>
  What the emitter publishes when it is alone, the validator accepts: the composition of \<open>EmitEvaluationPackage\<close> and
  \<open>ValidatePackage\<close>.
\<close>

section \<open>A field and its newline\<close>

lemma trim_space_line:
  assumes "\<forall>c \<in> set s. 32 < code c \<and> code c < 128"
  shows "trim_space (s @ [CHR 0x0A]) = s"
proof -
  have nl: "decode_rune [CHR 0x0A] = (10, 1)" "is_space_rune 10" by (simp_all add: is_space_rune_def)
  have "last_rune_space (s @ [CHR 0x0A]) = Some 1" by (simp add: last_rune_space_def nl del: decode_rune.simps)
  then have r: "trim_right (s @ [CHR 0x0A]) = trim_right s" by (subst trim_right.simps) simp
  show ?thesis
  proof (cases s)
    case Nil
    have "trim_left [CHR 0x0A] = []" by (simp add: trim_left.simps(2) nl del: decode_rune.simps)
    then show ?thesis using Nil by (simp add: trim_space_def trim_right.simps)
  next
    case (Cons c t)
    have "decode_rune (c # u) = (code c, 1)" "\<not> is_space_rune (code c)" for u
      using assms Cons decode_ascii [of c u] by (auto simp: is_space_rune_def)
    then have l: "trim_left (c # u) = c # u" for u by (simp add: trim_left.simps(2) del: decode_rune.simps)
    have "trim_right s = s" using trim_space_plain [OF assms] l [of t] Cons by (simp add: trim_space_def)
    then show ?thesis using r l [of "t @ [CHR 0x0A]"] Cons by (simp add: trim_space_def)
  qed
qed

lemma trim_space_encoded_line [simp]: "trim_space (std_encode x @ [CHR 0x0A]) = std_encode x"
proof (rule trim_space_line, intro ballI)
  fix c
  assume "c \<in> set (std_encode x)"
  then have "c \<in> b64_char False ` {..<64} \<or> c = CHR ''=''"
    using b64_encode_chars [of False True x] by (auto simp: b64_alphabet_def)
  then show "32 < code c \<and> code c < 128" by (auto simp: code_b64_char)
qed

section \<open>The published directory\<close>

definition tree_node :: "walk_node \<Rightarrow> node" where
  "tree_node n = (case n of WFile (Inr raw) \<Rightarrow> File raw | _ \<Rightarrow> Dir)"

definition tree_of :: "stage \<Rightarrow> tree" where
  "tree_of st = map (\<lambda>(p, n). (p, tree_node n)) st"

lemma alookup_tree_of: "alookup (tree_of st) p = map_option tree_node (alookup st p)"
  by (induction st) (auto simp: tree_of_def)

lemma distinct_tree_of: "plain_stage st \<Longrightarrow> distinct (map fst (tree_of st))"
  by (simp add: tree_of_def plain_stage_def comp_def split_def)

lemma tree_files_tree_of:
  assumes "plain_stage st"
  shows "(p, File raw) \<in> set (tree_of st) \<longleftrightarrow> alookup st p = Some (WFile (Inr raw))"
proof -
  have "(p, File raw) \<in> set (tree_of st) \<longleftrightarrow> alookup (tree_of st) p = Some (File raw)"
    using alookup_in_set [OF distinct_tree_of [OF assms]] alookup_SomeD by metis
  also have "\<dots> \<longleftrightarrow> alookup st p = Some (WFile (Inr raw))"
    using plain_at [OF assms, of p] by (auto simp: alookup_tree_of tree_node_def)
  finally show ?thesis .
qed

lemma snapshot_plain: "plain_stage st \<Longrightarrow> snapshot_walk st = Inr (tree_of st)"
proof (induction st)
  case (Cons e st)
  obtain p n where e: "e = (p, n)" by fastforce
  have "snapshot_walk st = Inr (tree_of st)" using Cons by (simp add: plain_stage_def)
  moreover have "n = WDir \<or> (\<exists>raw. n = WFile (Inr raw))" using Cons.prems e by (auto simp: plain_stage_def)
  ultimately show ?case using e by (auto simp: tree_of_def tree_node_def)
qed (simp add: tree_of_def)

lemma stage_files_plain:
  "plain_stage st \<Longrightarrow> (p, raw) \<in> stage_files st \<longleftrightarrow>
     alookup st p = Some (WFile (Inr raw)) \<and> p \<noteq> packageManifestName \<and> p \<noteq> packageSignatureName"
  using alookup_in_set [of st p "WFile (Inr raw)"] alookup_SomeD [of st p "WFile (Inr raw)"]
  by (auto simp: stage_files_def plain_stage_def)

lemma index_walk_paths:
  "index_walk cr st = Inr bs \<Longrightarrow> distinct (map fst st) \<Longrightarrow>
     distinct (map bl_Path bs) \<and> set (map bl_Path bs) \<subseteq> fst ` set st"
proof (induction st arbitrary: bs)
  case (Cons e st)
  obtain p n where e: "e = (p, n)" by fastforce
  show ?case
  proof (cases "\<exists>raw bs'. n = WFile (Inr raw) \<and> index_walk cr st = Inr bs' \<and> bs = file_blob cr p raw # bs'")
    case True
    then obtain raw bs' where "index_walk cr st = Inr bs'" "bs = file_blob cr p raw # bs'" by blast
    then show ?thesis using Cons.IH [of bs'] Cons.prems(2) e by (auto simp: file_blob_def)
  next
    case False
    then have "index_walk cr st = Inr bs" using Cons.prems(1) e by (auto simp: and_then_Inr_iff split: walk_node.splits if_splits)
    then show ?thesis using Cons.IH [of bs] Cons.prems(2) by auto
  qed
qed simp

lemma packageFileBlobs_distinct:
  assumes "packageFileBlobs cr st = Inr bs" "plain_stage st"
  shows "distinct (map bl_Path bs)"
proof -
  obtain bs' where b: "index_walk cr st = Inr bs'" "bs = sort_key bl_Path bs'"
    using assms(1) by (auto simp: packageFileBlobs_def split: sum.splits)
  have "distinct (map bl_Path bs')" using index_walk_paths [OF b(1)] assms(2) by (simp add: plain_stage_def)
  moreover have "mset (map bl_Path bs) = mset (map bl_Path bs')" by (simp add: b(2))
  ultimately show ?thesis by (metis mset_eq_imp_distinct_iff)
qed

section \<open>The files are described\<close>

text \<open>The digests of the model are as long as those of SHA-256.\<close>

definition digests :: "crypto \<Rightarrow> bool" where
  "digests cr \<longleftrightarrow> (\<forall>x. length (sha256 cr x) = 32)"

lemma isSHA256_digest: "digests cr \<Longrightarrow> isSHA256 (sha256_hex cr x)"
  by (simp add: digests_def isSHA256_def sha256_hex_def)

definition safe_files :: "PackageManifest \<Rightarrow> bool" where
  "safe_files m \<longleftrightarrow> (\<forall>b \<in> set (pm_Files m). validatePackagePath (bl_Path b) = None)"

lemma blob_named_Inr:
  assumes "blob_named bs n = Inr b"
  shows "b \<in> set bs \<and> bl_Path b = n"
proof -
  have "alookup (fold (\<lambda>b m. aput (bl_Path b) b m) bs m0) n = Some b \<Longrightarrow>
      (b \<in> set bs \<and> bl_Path b = n) \<or> alookup m0 n = Some b" for m0
  proof (induction bs arbitrary: m0)
    case (Cons b' bs)
    then have "(b \<in> set bs \<and> bl_Path b = n) \<or> alookup (aput (bl_Path b') b' m0) n = Some b" by simp
    then show ?case by (auto simp: alookup_aput split: if_splits)
  qed simp
  from this [of "[]"] show ?thesis using assms by (simp add: blob_named_def split: option.splits)
qed

lemma emit_manifest_refs:
  assumes "emit_manifest opts ef = Inr m"
  shows "set (packageReferencedBlobs m) \<subseteq> set (pm_Files m)"
    "bl_Path (bd_Manifest (pm_ArtifactBinding m)) = emitArtifactDir @ ''/'' @ packageManifestName"
proof -
  obtain am ex mo se re where r: "blob_named (ef_files ef) (emitArtifactDir @ ''/'' @ packageManifestName) = Inr am"
    "blob_named (ef_files ef) (checker_relative opts) = Inr ex" "blob_named (ef_files ef) emitMachineOutput = Inr mo"
    "blob_named (ef_files ef) emitStderrPath = Inr se" "blob_named (ef_files ef) emitConformancePath = Inr re"
    and m: "pm_Files m = ef_files ef" "pm_VerificationInputs m = verification_inputs (ef_files ef)"
      "bd_Manifest (pm_ArtifactBinding m) = am" "ck_Executable (pm_Checker m) = ex"
      "pe_MachineOutput (pm_ArtifactEvaluation m) = mo" "pe_Stdout (pm_ArtifactEvaluation m) = mo"
      "pe_Stderr (pm_ArtifactEvaluation m) = se" "cf_Result (pm_Conformance m) = re"
    using assms by (auto simp: emit_manifest_def Let_def and_then_Inr_iff)
  show "set (packageReferencedBlobs m) \<subseteq> set (pm_Files m)"
    using r [THEN blob_named_Inr] by (auto simp: packageReferencedBlobs_def m verification_inputs_def)
  show "bl_Path (bd_Manifest (pm_ArtifactBinding m)) = emitArtifactDir @ ''/'' @ packageManifestName"
    using blob_named_Inr [OF r(1)] by (simp add: m(3))
qed

lemma alookup_signed:
  "alookup (signed_stage env opts raw st) packageManifestName = Some (WFile (Inr raw))"
  "alookup (signed_stage env opts raw st) packageSignatureName
     = Some (WFile (Inr (std_encode (ev_sign env (eo_OperatorKey opts) raw) @ [CHR 0x0A])))"
  "p \<noteq> packageManifestName \<Longrightarrow> p \<noteq> packageSignatureName \<Longrightarrow> alookup (signed_stage env opts raw st) p = alookup st p"
  by (simp_all add: signed_stage_def alookup_aput packageManifestName_def packageSignatureName_def)

lemma plain_signed: "plain_stage st \<Longrightarrow> plain_stage (signed_stage env opts raw st)"
  by (simp add: signed_stage_def plain_put)

lemma signed_described:
  assumes s: "plain_stage st" and idx: "packageFileBlobs cr st = Inr (pm_Files m)" and d: "digests cr" and safe: "safe_files m"
    and refs: "set (packageReferencedBlobs m) \<subseteq> set (pm_Files m)" and i: "pm_VerificationInputs m = verification_inputs (pm_Files m)"
  shows "described cr (tree_of (signed_stage env opts raw st)) m"
proof -
  let ?F = "signed_stage env opts raw st"
  have blob: "b \<in> set (pm_Files m) \<longleftrightarrow> (\<exists>p x. b = file_blob cr p x \<and> alookup ?F p = Some (WFile (Inr x))
      \<and> p \<noteq> packageManifestName \<and> p \<noteq> packageSignatureName)" for b
  proof -
    have "alookup ?F p = Some (WFile (Inr x)) \<and> p \<noteq> packageManifestName \<and> p \<noteq> packageSignatureName
        \<longleftrightarrow> (p, x) \<in> stage_files st" for p x
      using alookup_signed(3) [of p env opts raw st] by (auto simp: stage_files_plain [OF s])
    then show ?thesis unfolding packageFileBlobs_set [OF idx] by simp
  qed
  have shaped: "\<forall>b \<in> set (pm_Files m). shaped b"
    using blob safe isSHA256_digest [OF d] by (fastforce simp: shaped_def safe_files_def file_blob_def)
  have dist: "distinct (map bl_Path (pm_Files m))" by (rule packageFileBlobs_distinct [OF idx s])
  have held: "(p, File x) \<in> set (tree_of ?F) \<longleftrightarrow> alookup ?F p = Some (WFile (Inr x))" for p x
    by (rule tree_files_tree_of [OF plain_signed [OF s]])
  have "\<forall>p x. (p, File x) \<in> set (tree_of ?F) \<and> is_blob (p, File x) \<longrightarrow> (\<exists>b \<in> set (pm_Files m). bl_Path b = p \<and> matches cr b x)"
  proof (intro allI impI)
    fix p x
    assume "(p, File x) \<in> set (tree_of ?F) \<and> is_blob (p, File x)"
    then have "file_blob cr p x \<in> set (pm_Files m)" using blob held by auto
    then show "\<exists>b \<in> set (pm_Files m). bl_Path b = p \<and> matches cr b x"
      by (rule bexI [rotated]) (simp add: file_blob_def matches_def)
  qed
  moreover have "\<forall>b \<in> set (pm_Files m). \<exists>x. (bl_Path b, File x) \<in> set (tree_of ?F) \<and> is_blob (bl_Path b, File x)"
    using blob held by (force simp: file_blob_def)
  moreover have "\<forall>ref \<in> set (packageReferencedBlobs m). listed m ref" using refs shaped by (auto simp: listed_def)
  ultimately show ?thesis
    using shaped dist unfolding described_def i verification_inputs_def by (auto simp: distinct_map_filter)
qed

section \<open>The keys are among the inputs\<close>

lemma input_keys_all:
  "\<forall>b \<in> set bs. validatePackagePath (bl_Path b) = None \<and> (\<exists>raw. alookup t (bl_Path b) = Some (File raw)) \<Longrightarrow>
     \<exists>ks. input_keys cr t bs = Inr ks
       \<and> (\<forall>b \<in> set bs. \<forall>raw k. alookup t (bl_Path b) = Some (File raw) \<and> input_key cr raw = Some k \<longrightarrow> k \<in> set ks)"
proof (induction bs)
  case (Cons b bs)
  obtain ks where ks: "input_keys cr t bs = Inr ks"
    "\<forall>b \<in> set bs. \<forall>raw k. alookup t (bl_Path b) = Some (File raw) \<and> input_key cr raw = Some k \<longrightarrow> k \<in> set ks"
    using Cons by auto
  obtain raw where raw: "validatePackagePath (bl_Path b) = None" "alookup t (bl_Path b) = Some (File raw)" using Cons.prems by auto
  have "safePackagePath (bl_Path b) = Inr (bl_Path b)" "tree_read t (bl_Path b) = Inr raw"
    using raw by (simp_all add: safePackagePath_iff tree_read_iff)
  then have "input_keys cr t (b # bs) = Inr (case input_key cr raw of Some k \<Rightarrow> k # ks | None \<Rightarrow> ks)"
    by (simp add: ks(1) del: alookup_Cons)
  then show ?case using ks(2) raw(2) by (auto split: option.splits)
qed simp

lemma input_key_line: "length pub = PublicKeySize \<Longrightarrow> input_key cr (std_encode pub @ [CHR 0x0A]) = Some (sha256_hex cr pub)"
  by (simp add: input_key_def)

lemma key_path_signed: "alookup (signed_stage env opts raw st) (key_path cr pub) = alookup st (key_path cr pub)"
  by (rule alookup_signed(3)) (simp_all add: emit_layout packageManifestName_def packageSignatureName_def)

lemma signed_input_keys:
  assumes s: "has_keys cr opts st" and idx: "packageFileBlobs cr st = Inr (pm_Files m)" and safe: "safe_files m"
    and dir: "alookup st emitKeysDir \<noteq> None" and keysdir: "bd_KeysDir (pm_ArtifactBinding m) = emitKeysDir"
    and i: "pm_VerificationInputs m = verification_inputs (pm_Files m)"
    and len: "length (operator_public opts) = PublicKeySize" "length (eo_StatusPublicKey opts) = PublicKeySize"
    and signer: "packageSignerKey m = sha256_hex cr (operator_public opts)"
    and status: "sa_Key (pm_StatusAuthority m) = sha256_hex cr (eo_StatusPublicKey opts)"
  shows "validatePackageInputKeys cr (tree_of (signed_stage env opts raw st)) m = None"
proof -
  let ?F = "signed_stage env opts raw st" and ?in = "pm_VerificationInputs m"
  have plain: "plain_stage st" using s by (simp add: has_keys_def)
  have indexed: "(p, x) \<in> stage_files st \<longleftrightarrow> file_blob cr p x \<in> set (pm_Files m)" if "alookup st p = Some (WFile (Inr x))" for p x
  proof
    assume "file_blob cr p x \<in> set (pm_Files m)"
    then obtain q y where "file_blob cr p x = file_blob cr q y" "(q, y) \<in> stage_files st" unfolding packageFileBlobs_set [OF idx] by blast
    then show "(p, x) \<in> stage_files st" using that by (auto simp: stage_files_plain [OF plain] file_blob_def)
  qed (use packageFileBlobs_set [OF idx] in blast)
  have kd: "validatePackagePath emitKeysDir = None" "emitKeysDir \<noteq> packageManifestName" "emitKeysDir \<noteq> packageSignatureName"
    unfolding emit_layout packageManifestName_def packageSignatureName_def by code_simp+
  have dirF: "alookup (tree_of ?F) emitKeysDir \<noteq> None" using dir alookup_signed(3) kd(2,3) by (simp add: alookup_tree_of)
  have undeclared: "undeclared_key (map bl_Path ?in) emitKeysDir e = None" if e: "e \<in> set (tree_of ?F)" for e
  proof (cases "is_file (snd e) \<and> under emitKeysDir (fst e)")
    case True
    then obtain p x where px: "e = (p, File x)" "under emitKeysDir p" by (cases e; cases "snd e") (auto simp: is_file_def)
    then have ne: "p \<noteq> packageManifestName" "p \<noteq> packageSignatureName"
      by (auto simp: under_def has_prefix_def emit_layout packageManifestName_def packageSignatureName_def)
    have "alookup st p = Some (WFile (Inr x))"
      using e px(1) ne alookup_signed(3) [of p env opts raw st] by (simp add: tree_files_tree_of [OF plain_signed [OF plain]])
    then have "file_blob cr p x \<in> set (pm_Files m)" using indexed [of p x] ne by (simp add: stage_files_plain [OF plain])
    then have "file_blob cr p x \<in> set ?in" using px(2) by (simp add: i verification_inputs_def file_blob_def)
    then have "p \<in> bl_Path ` set ?in" by (rule image_eqI [rotated]) (simp add: file_blob_def)
    then show ?thesis using px(1) by (simp add: undeclared_key_def)
  next
    case False
    have "\<not> has_suffix (base_name emitKeysDir) ''.pub''" unfolding emit_layout by code_simp
    then show ?thesis using False by (auto simp: undeclared_key_def)
  qed
  have "\<exists>raw. alookup (tree_of ?F) (bl_Path b) = Some (File raw)" if "b \<in> set (pm_Files m)" for b
  proof -
    obtain p x where "b = file_blob cr p x" "(p, x) \<in> stage_files st" using \<open>b \<in> _\<close> packageFileBlobs_set [OF idx] by blast
    then show ?thesis
      using alookup_signed(3) [of p env opts raw st]
      by (auto simp: stage_files_plain [OF plain] alookup_tree_of tree_node_def file_blob_def)
  qed
  then obtain ks where ks: "input_keys cr (tree_of ?F) ?in = Inr ks"
    "\<forall>b \<in> set ?in. \<forall>raw k. alookup (tree_of ?F) (bl_Path b) = Some (File raw) \<and> input_key cr raw = Some k \<longrightarrow> k \<in> set ks"
    using input_keys_all [of ?in "tree_of ?F" cr] safe by (auto simp: i verification_inputs_def safe_files_def)
  have declared: "sha256_hex cr pub \<in> set ks"
    if pub: "alookup st (key_path cr pub) = Some (key_file pub)" "length pub = PublicKeySize" for pub
  proof -
    have ne: "key_path cr pub \<noteq> packageManifestName" "key_path cr pub \<noteq> packageSignatureName"
      by (simp_all add: emit_layout packageManifestName_def packageSignatureName_def)
    then have "file_blob cr (key_path cr pub) (std_encode pub @ [CHR 0x0A]) \<in> set (pm_Files m)"
      using indexed [OF pub(1)] pub(1) by (simp add: stage_files_plain [OF plain])
    then have "file_blob cr (key_path cr pub) (std_encode pub @ [CHR 0x0A]) \<in> set ?in"
      using key_path_package_key by (simp add: i verification_inputs_def file_blob_def package_key_def)
    moreover have "alookup (tree_of ?F) (key_path cr pub) = Some (File (std_encode pub @ [CHR 0x0A]))"
      using pub(1) key_path_signed [of env opts raw st cr pub] by (simp add: alookup_tree_of tree_node_def)
    ultimately show ?thesis using ks(2) input_key_line [OF pub(2), of cr] by (auto simp: file_blob_def)
  qed
  have "sha256_hex cr (operator_public opts) \<in> set ks" "sha256_hex cr (eo_StatusPublicKey opts) \<in> set ks"
    using declared s len by (simp_all add: has_keys_def)
  moreover have "safePackagePath emitKeysDir = Inr emitKeysDir" using kd(1) by (simp add: safePackagePath_iff)
  moreover have "first_some (undeclared_key (map bl_Path ?in) emitKeysDir) (tree_of ?F) = None"
    using undeclared by (simp add: first_some_None_iff)
  moreover have "to_lower (sha256_hex cr x) = sha256_hex cr x" for x by (simp add: sha256_hex_def)
  ultimately show ?thesis
    using dirF by (auto simp: validatePackageInputKeys_def keysdir ks(1) signer status split: option.splits)
qed

section \<open>The manifest is valid\<close>

text \<open>What the emitter does not check of the run, and the validator does: the runs have a name that is not blank, the exit
  statuses are not negative (a command killed by a signal has \<open>-1\<close>), the paths are safe, the issue time is in
  the years that RFC 3339 can write.\<close>

definition publishable :: "EmitOptions \<Rightarrow> PackageManifest \<Rightarrow> bool" where
  "publishable opts m \<longleftrightarrow>
     packageTextPresent (bd_DiscoveredRuns (pm_ArtifactBinding m)) \<and> safe_files m
     \<and> 0 \<le> pe_ExitStatus (pm_ArtifactEvaluation m) \<and> 0 \<le> cf_ExitStatus (pm_Conformance m)
     \<and> civil_days 0 1 1 \<le> eo_IssuedAt opts div second div 86400
     \<and> eo_IssuedAt opts div second div 86400 < civil_days 10000 1 1"

lemma fileDigest_Inr: "fileDigest cr src = Inr d \<longleftrightarrow> (\<exists>raw. src = Inr raw \<and> d = sha256_hex cr raw)"
  by (auto simp: fileDigest_def and_then_Inr_iff)

lemma emit_stage_facts:
  assumes "emit_stage cr env opts w = Inr ((m, ef), w')"
  shows "(\<exists>x. ef_spec ef = sha256_hex cr x) \<and> (\<exists>y. ef_corpus ef = sha256_hex cr y)
    \<and> select_run opts (ef_evaluation ef) = Inr (ef_discovered ef, ef_run ef) \<and> emit_manifest opts ef = Inr m"
  using emit_stage_run [OF assms] unfolding fileDigest_Inr by blast

lemma select_run_Inr:
  assumes "select_run opts ev = Inr (discovered, run)"
  shows "discovered \<noteq> [] \<and> run \<in> set discovered"
  using assms by (auto simp: select_run_def Let_def split: prod.splits option.splits if_splits)

definition options_ok :: "EmitOptions \<Rightarrow> bool" where
  "options_ok opts \<longleftrightarrow>
     packageTextPresent [eo_PackageID opts, eo_ProducerID opts, eo_OperatorID opts, eo_StatusAuthorityID opts,
       eo_SpecVersion opts, eo_CorpusVersion opts, eo_CheckerName opts, eo_SourceRevision opts]
     \<and> eo_ConformanceCommand opts \<noteq> [] \<and> length (operator_public opts) = PublicKeySize \<and> length (eo_StatusPublicKey opts) = PublicKeySize
     \<and> packageTextPresent [pc_Acquisition (eo_Custody opts), pc_Replay (eo_Custody opts), pc_Review (eo_Custody opts), pc_Issuance (eo_Custody opts)]
     \<and> packageTextPresent [pcv_Scope (eo_Coverage opts), pcv_Disclosure (eo_Coverage opts)]"

lemma validateEmitOptions_ok:
  assumes "validateEmitOptions opts = None"
  shows "options_ok opts"
proof -
  have r: "first_some (\<lambda>(name, value). if trim_space value = [] then Some (Errorf ''%s is required'' [S name]) else None)
      (emit_required opts) = None"
    and o: "length (eo_OperatorKey opts) = PrivateKeySize"
    and c: "eo_ConformanceCommand opts \<noteq> []" "length (eo_StatusPublicKey opts) = PublicKeySize"
      "packageTextPresent [pc_Acquisition (eo_Custody opts), pc_Replay (eo_Custody opts), pc_Review (eo_Custody opts), pc_Issuance (eo_Custody opts)]"
      "packageTextPresent [pcv_Scope (eo_Coverage opts), pcv_Disclosure (eo_Coverage opts)]"
    using assms by (auto simp: validateEmitOptions_def first_err_Cons_None Let_def split: if_splits)
  have "packageTextPresent [eo_PackageID opts, eo_ProducerID opts, eo_OperatorID opts, eo_StatusAuthorityID opts,
      eo_SpecVersion opts, eo_CorpusVersion opts, eo_CheckerName opts, eo_SourceRevision opts]"
    using r by (simp add: emit_required_def packageTextPresent_def first_some_None_iff del: first_some.simps split: if_splits)
  moreover have "length (operator_public opts) = PublicKeySize"
    using o by (simp add: operator_public_def PrivateKeySize_def PublicKeySize_def)
  ultimately show ?thesis using c by (simp add: options_ok_def)
qed

lemma emitted_semantics:
  assumes m: "emit_manifest opts ef = Inr m" and o: "options_ok opts" and d: "digests cr"
    and fp: "ef_operator ef = sha256_hex cr a" "ef_status ef = sha256_hex cr b" "ef_spec ef = sha256_hex cr x" "ef_corpus ef = sha256_hex cr y"
    and runs: "ef_discovered ef \<noteq> []" "ef_run ef \<in> set (ef_discovered ef)"
    and p: "publishable opts m" and shaped: "\<forall>b \<in> set (pm_Files m). shaped b"
  shows "validatePackageSemantics m = None"
proof -
  note opt = o [unfolded options_ok_def]
  have refs: "\<forall>ref \<in> set (packageReferencedBlobs m). shaped ref" using emit_manifest_refs(1) [OF m] shaped by blast
  have f: "pm_PackageFormat m = 1" "pm_Kind m = ''evaluation-package''" "pm_ID m = eo_PackageID opts" "pm_Run m = ef_run ef"
    "pm_Producer m = eo_ProducerID opts" "sg_ID (pm_Operator m) = eo_OperatorID opts" "sg_Key (pm_Operator m) = ef_operator ef"
    "pm_VerificationCustody m = eo_Custody opts" "pm_EvidenceCoverage m = eo_Coverage opts" "pm_Grades m = []"
    "bd_Root (pm_ArtifactBinding m) = emitArtifactDir" "bd_KeysDir (pm_ArtifactBinding m) = emitKeysDir"
    "bd_DiscoveredRuns (pm_ArtifactBinding m) = ef_discovered ef"
    "pm_Spec m = \<lparr>vs_Version = eo_SpecVersion opts, vs_DigestAlgorithm = ''sha-256'', vs_Digest = ef_spec ef\<rparr>"
    "cf_Corpus (pm_Conformance m) = \<lparr>vs_Version = eo_CorpusVersion opts, vs_DigestAlgorithm = ''sha-256'', vs_Digest = ef_corpus ef\<rparr>"
    "ck_Name (pm_Checker m) = eo_CheckerName opts" "ck_SourceRevision (pm_Checker m) = eo_SourceRevision opts"
    "cf_Command (pm_Conformance m) = eo_ConformanceCommand opts" "pm_IssuedAt m = format_rfc3339 (eo_IssuedAt opts)" "pm_ExpiresAt m = []"
    "pm_StatusAuthority m = \<lparr>sa_ID = eo_StatusAuthorityID opts, sa_Key = ef_status ef, sa_RecordID = eo_PackageID opts, sa_URL = []\<rparr>"
    using m by (auto simp: emit_manifest_def Let_def and_then_Inr_iff)
  have run: "packageTextPresent [ef_run ef]" using p runs(2) f(13) by (auto simp: publishable_def packageTextPresent_def list_all_iff)
  have "validate_parties m = None"
    using opt run isSHA256_digest [OF d] by (simp add: validate_parties_def f fp packageTextPresent_def)
  moreover have "validateRFC3339 ''issued_at'' (pm_IssuedAt m) = None"
    using parse_format [of "eo_IssuedAt opts"] p by (simp add: f validateRFC3339_def publishable_def)
  then have "validate_declarations m = None"
    using opt p by (simp add: validate_declarations_def Let_def f publishable_def)
  moreover have "validatePackagePath emitArtifactDir = None" "validatePackagePath emitKeysDir = None"
    unfolding emit_layout by code_simp+
  then have "validate_binding m = None"
    using runs(1) p by (simp add: validate_binding_def Let_def f first_some_None_iff first_err_None_iff publishable_def packageTextPresent_def list_all_iff)
  ultimately show ?thesis
    using opt refs isSHA256_digest [OF d]
    by (simp add: validatePackageSemantics_def first_err_Cons_None validateBlobShape_iff packageReferencedBlobs_def
        validateVersionedSum_def f fp packageTextPresent_def first_some_None_iff del: first_some.simps)
qed

section \<open>The package validates\<close>

text \<open>The consumer trusts the operator's key, and the signatures made with the private key verify under it.\<close>

definition trusts_operator :: "crypto \<Rightarrow> emit_env \<Rightarrow> package_env \<Rightarrow> EmitOptions \<Rightarrow> bool" where
  "trusts_operator cr env penv opts \<longleftrightarrow>
     (\<exists>ks. loadPackageTrustKeys cr (en_trust penv) packageTrustOperators = Inr ks
       \<and> alookup ks (sha256_hex cr (operator_public opts)) = Some (operator_public opts))
     \<and> (\<forall>raw. length (ev_sign env (eo_OperatorKey opts) raw) = SignatureSize
          \<and> ed25519_verify cr (operator_public opts) raw (ev_sign env (eo_OperatorKey opts) raw))"

text \<open>The checker told the truth: the artifact in the package loads and has the runs that were reported.\<close>

definition truthful :: "crypto \<Rightarrow> tree \<Rightarrow> PackageManifest \<Rightarrow> bool" where
  "truthful cr t m \<longleftrightarrow>
     (case LoadArtifact cr (tree_fs t emitArtifactDir emitKeysDir) of
        Inl _ \<Rightarrow> False
      | Inr art \<Rightarrow> discoveredPackageRuns (Evaluate cr art) = bd_DiscoveredRuns (pm_ArtifactBinding m))"

definition outcome_display :: "EmitResult \<Rightarrow> string" where
  "outcome_display res =
     (if er_ExitStatus res \<noteq> 0 then evaluationDisplayState (er_ExitStatus res)
      else if er_ConformanceExitStatus res \<noteq> 0 then ''CONFORMANCE-FAILED'' else ''EVALUATED'')"

lemma signed_binding:
  assumes "truthful cr t m" and m: "emit_manifest opts ef = Inr m" and "ef_run ef \<in> set (ef_discovered ef)"
  shows "validateArtifactBinding cr t m = None"
proof -
  have f: "bd_Root (pm_ArtifactBinding m) = emitArtifactDir" "bd_KeysDir (pm_ArtifactBinding m) = emitKeysDir"
    "bd_DiscoveredRuns (pm_ArtifactBinding m) = ef_discovered ef" "pm_Run m = ef_run ef" "pm_Kind m = ''evaluation-package''"
    using m by (auto simp: emit_manifest_def Let_def and_then_Inr_iff)
  have p: "validatePackagePath emitArtifactDir = None" "validatePackagePath emitKeysDir = None"
    unfolding emit_layout by code_simp+
  have paths: "safePackagePath emitArtifactDir = Inr emitArtifactDir" "safePackagePath emitKeysDir = Inr emitKeysDir"
    using p by (simp_all add: safePackagePath_iff)
  show ?thesis
    using assms(1,3) emit_manifest_refs(2) [OF m]
    by (auto simp: validateArtifactBinding_def Let_def f paths truthful_def sameStringSet_iff split: sum.splits)
qed

lemma signed_valid:
  assumes s: "has_keys cr opts st" and idx: "packageFileBlobs cr st = Inr (pm_Files m)" and dir: "alookup st emitKeysDir \<noteq> None"
    and raw: "Canonicalize (json_Marshal (doc_manifest m)) = Inr raw" and g: "good (doc_manifest m)"
    and m: "emit_manifest opts ef = Inr m" and o: "options_ok opts" and d: "digests cr"
    and fp: "ef_operator ef = sha256_hex cr (operator_public opts)" "ef_status ef = sha256_hex cr (eo_StatusPublicKey opts)"
      "ef_spec ef = sha256_hex cr x" "ef_corpus ef = sha256_hex cr y"
    and runs: "ef_discovered ef \<noteq> []" "ef_run ef \<in> set (ef_discovered ef)" and p: "publishable opts m"
    and trust: "trusts_operator cr env penv opts" and true: "truthful cr (tree_of (signed_stage env opts raw st)) m"
  shows "load_package_manifest raw = Inr m"
    "check_package cr penv (tree_of (signed_stage env opts raw st)) raw m = Inr ()"
proof -
  let ?t = "tree_of (signed_stage env opts raw st)"
  note em = emit_manifest_Inr [OF m]
  have plain: "plain_stage st" using s by (simp add: has_keys_def)
  have key: "packageSignerKey m = sha256_hex cr (operator_public opts)" "packageSignerTrustRole m = packageTrustOperators"
    "sa_Key (pm_StatusAuthority m) = sha256_hex cr (eo_StatusPublicKey opts)" "bd_KeysDir (pm_ArtifactBinding m) = emitKeysDir"
    using m fp(1,2) by (auto simp: emit_manifest_def Let_def and_then_Inr_iff packageSignerKey_def packageSignerTrustRole_def)
  have i: "pm_VerificationInputs m = verification_inputs (pm_Files m)" using em(1,2) by simp
  have safe: "safe_files m" using p by (simp add: publishable_def)
  have desc: "described cr ?t m" by (rule signed_described [OF plain idx d safe emit_manifest_refs(1) [OF m] i])
  then have shaped: "\<forall>b \<in> set (pm_Files m). shaped b" by (simp add: described_def)
  have sem: "validatePackageSemantics m = None" by (rule emitted_semantics [OF m o d fp runs p shaped])
  have sizes: "\<forall>b \<in> set (pm_Files m) \<union> set (pm_VerificationInputs m). 0 \<le> bl_Size b"
    using shaped by (auto simp: i verification_inputs_def shaped_def)
  have "raw = render (sortv (doc_manifest m))" using raw Canonicalize_marshal [OF g] by simp
  then show "load_package_manifest raw = Inr m" using manifest_written(2) [OF g em(3,4) sizes sem] by simp
  obtain ks where ks: "loadPackageTrustKeys cr (en_trust penv) packageTrustOperators = Inr ks"
    "alookup ks (sha256_hex cr (operator_public opts)) = Some (operator_public opts)"
    using trust by (auto simp: trusts_operator_def)
  have low: "to_lower (sha256_hex cr x) = sha256_hex cr x" for x by (simp add: sha256_hex_def)
  have "alookup ?t packageSignatureName = Some (File (std_encode (ev_sign env (eo_OperatorKey opts) raw) @ [CHR 0x0A]))"
    by (simp add: alookup_tree_of alookup_signed(2) tree_node_def)
  moreover have "signed_under cr ks (packageSignerKey m) raw (std_encode (ev_sign env (eo_OperatorKey opts) raw) @ [CHR 0x0A])"
    using ks(2) trust by (simp add: signed_under_def key low trusts_operator_def)
  ultimately have "verifyPackageSignature cr ?t raw (packageSignerKey m) ks = Inr ()" by (simp add: verifyPackageSignature_iff)
  moreover have "validatePackageInputKeys cr ?t m = None"
    by (rule signed_input_keys [OF s idx safe dir key(4) i _ _ key(1,3)]) (use o in \<open>simp_all add: options_ok_def\<close>)
  moreover have "validateArtifactBinding cr ?t m = None" by (rule signed_binding [OF true m runs(2)])
  ultimately show "check_package cr penv ?t raw m = Inr ()"
    using ks(1) desc em(4) by (auto simp: check_package_iff key(2))
qed

lemma emitted_tree_validates:
  assumes "alone env" and run: "emit_package cr env options = Inr (res, published, m, ef)"
    and "digests cr" "sha256_hex cr (operator_public options) = sha256_hex cr (eo_StatusPublicKey options) \<longrightarrow>
      operator_public options = eo_StatusPublicKey options"
    and "trusts_operator cr env penv options" "truthful cr (tree_of published) m"
    and "good (doc_manifest m)" "publishable options m"
  shows "plain_stage published" "validatePackageDir cr penv vopts (tree_of published)
    = Inr \<lparr>val_Kind = ''evaluation-package'', val_ID = eo_PackageID options, val_DisplayState = outcome_display res\<rparr>"
proof -
  let ?opts = "options\<lparr>eo_OutDir := path_Clean (eo_OutDir options)\<rparr>"
  have same: "operator_public ?opts = operator_public options" "eo_StatusPublicKey ?opts = eo_StatusPublicKey options"
    "publishable ?opts m = publishable options m" "trusts_operator cr env penv ?opts = trusts_operator cr env penv options"
    by (simp_all add: operator_public_def publishable_def trusts_operator_def)
  obtain w where w: "emit_stage cr env ?opts \<lparr>ew_stage = [], ew_time = 0\<rparr> = Inr ((m, ef), w)"
    and pub: "published = ew_stage w"
    and res: "er_ExitStatus res = pe_ExitStatus (pm_ArtifactEvaluation m)"
      "er_ConformanceExitStatus res = cf_ExitStatus (pm_Conformance m)" "er_PackageID res = pm_ID m"
    using emit_package_stage [OF run] assms(1) by (auto simp: alone_def)
  have accepted: "validateEmitOptions options = None"
    using run by (auto simp: emit_package_def Let_def fail_if_Inr_iff first_err_Cons_None)
  then have bare: "CHR ''/'' \<notin> set (eo_CheckerName ?opts)"
    by (simp add: validateEmitOptions_def first_err_Cons_None split: if_splits)
  obtain st raw where raw: "Canonicalize (json_Marshal (doc_manifest m)) = Inr raw" and keys: "has_keys cr ?opts st"
    and idx: "packageFileBlobs cr st = Inr (pm_Files m)" and dir: "alookup st emitKeysDir \<noteq> None"
    and fp: "ef_operator ef = sha256_hex cr (operator_public ?opts)" "ef_status ef = sha256_hex cr (eo_StatusPublicKey ?opts)"
    and st: "ew_stage w = signed_stage env ?opts raw st"
    using emit_stage_alone [OF assms(1) _ w] bare assms(4) by (auto simp: same)
  obtain x y where xy: "ef_spec ef = sha256_hex cr x" "ef_corpus ef = sha256_hex cr y"
    and sel: "select_run ?opts (ef_evaluation ef) = Inr (ef_discovered ef, ef_run ef)" and m: "emit_manifest ?opts ef = Inr m"
    using emit_stage_facts [OF w] by blast
  have o: "options_ok ?opts" using validateEmitOptions_ok [OF accepted] by (simp add: options_ok_def operator_public_def)
  have t: "tree_of published = tree_of (signed_stage env ?opts raw st)" using pub st by simp
  note r = select_run_Inr [OF sel]
  note v = signed_valid [OF keys idx dir raw assms(7) m o assms(3) fp xy conjunct1 [OF r] conjunct2 [OF r], of env penv]
  have p: "publishable ?opts m" "trusts_operator cr env penv ?opts" "truthful cr (tree_of (signed_stage env ?opts raw st)) m"
    using assms(5,6,8) same t by simp_all
  show "plain_stage published" using keys plain_signed pub st by (simp add: has_keys_def)
  have at: "alookup (tree_of published) packageManifestName = Some (File raw)"
    by (simp add: t alookup_tree_of alookup_signed(1) tree_node_def)
  have id: "pm_ID m = eo_PackageID options" using m by (auto simp: emit_manifest_def Let_def and_then_Inr_iff)
  have "package_display cr penv vopts m = Inr (outcome_display res)"
    using emit_manifest_Inr(4) [OF m] by (simp add: package_display_def outcome_display_def res)
  then show "validatePackageDir cr penv vopts (tree_of published)
      = Inr \<lparr>val_Kind = ''evaluation-package'', val_ID = eo_PackageID options, val_DisplayState = outcome_display res\<rparr>"
    using v(1) [OF p] v(2) [OF p] at emit_manifest_Inr(4) [OF m] id t by (auto simp: validatePackageDir_iff)
qed

text \<open>C7: emission and validation agree. A package that is emitted with nobody else writing into the staging
  directory validates for every consumer who trusts the operator's key, and displays what was observed: the
  evaluation's failure, the conformance failure or EVALUATED. Five conditions are not the emitter's: SHA-256 has 32
  bytes and tells the two keys apart, and the operator's signatures verify; the artifact in the package loads and has
  the runs that the checker reported; every string of the manifest, the names of the staged files included, is valid
  UTF-8 and every number a safe integer; no reported run is blank, every file name is one the validator accepts, and
  no exit status is negative; and the issue time is in the years 0 to 9999. The emitter checks neither the encoding
  nor the names: a file name with a byte like 0xFF is signed as U+FFFD, and the package it is in does not
  validate.\<close>
theorem emission_validates:
  assumes "alone env" and run: "emit_package cr env options = Inr (res, published, m, ef)"
    and "digests cr" "sha256_hex cr (operator_public options) = sha256_hex cr (eo_StatusPublicKey options) \<longrightarrow>
      operator_public options = eo_StatusPublicKey options"
    and "trusts_operator cr env penv options" "truthful cr (tree_of published) m"
    and "good (doc_manifest m)" "publishable options m"
  shows "ValidatePackage cr penv vopts \<lparr>ps_lstat = Inr True, ps_walk = published\<rparr>
    = Inr \<lparr>val_Kind = ''evaluation-package'', val_ID = eo_PackageID options, val_DisplayState = outcome_display res\<rparr>"
  using emitted_tree_validates [OF assms] by (simp add: ValidatePackage_def snapshotPackageDir_def snapshot_plain)

end
