(* ===== verification/Emit_Examples.thy ===== *)
theory Emit_Examples
  imports Emit_Valid Package_Examples
begin

text \<open>
  A whole emission: the artifact of the example package, a checker that reports its run and a conformance
  command that prints one line, with no other process at work; the witness of the theorems about the emitter.
\<close>

section \<open>The run\<close>

definition em_report :: string where
  "em_report = render (CObj [(''runs'', CArr [CObj [(''run'', CStr ''r'')]])])"

definition em_walk :: "string \<Rightarrow> (string \<times> walk_node) list" where
  "em_walk p =
     (if p = ''/a'' then [(''.'', WDir), (''A'', WFile (Inr [])), (''manifest.json'', WFile (Inr (render pk_art_doc)))]
      else [(''.'', WDir)])"

definition em_key_path :: string where
  "em_key_path = ''inputs/package-keys/'' @ pk_digest ''20'' @ ''.pub''"

definition em_replica :: stage where
  "em_replica = [(''artifact'', WDir), (''artifact/A'', WFile (Inr [])), (''artifact/manifest.json'', WFile (Inr (render pk_art_doc))),
     (''inputs'', WDir), (''inputs/keys'', WDir), (''checker'', WDir), (''checker/c'', WFile (Inr ''c''))]"

definition em_process :: "string \<Rightarrow> process" where
  "em_process out = \<lparr>pr_polls = [[Some 0, Some 0]], pr_final = [Some 4, Some 0], pr_late = False, pr_out = out, pr_err = [], pr_end = Inr 0\<rparr>"

definition em_env :: emit_env where
  "em_env = \<lparr>ev_resolve = \<lparr>ro_abs = Inr, ro_lstat = (\<lambda>_. Inr ()), ro_eval = Inr\<rparr>,
     ev_out = \<lparr>od_mkdir = None, od_stat = Inl os_ErrNotExist, od_names = Inr [], od_temp = None\<rparr>,
     ev_end = \<lparr>od_chmod = None, od_lstat = Inl os_ErrNotExist, od_left = Inr [], od_remove = None, od_rename = None\<rparr>,
     ev_walk = em_walk, ev_read = (\<lambda>_ p. if p = ''/c'' then Inr ''c'' else Inr ''spec''), ev_link = (\<lambda>_ _. Inl os_ErrNotExist),
     ev_other = (\<lambda>_ st. st), ev_getwd = Inr ''/w'', ev_run = (\<lambda>_ _ _. em_process ''ok!''),
     ev_checker = (\<lambda>replica _ _ _. (em_process em_report)\<lparr>pr_final := [if replica = em_replica then Some 22 else None, None], pr_late := replica \<noteq> em_replica\<rparr>), ev_sign = (\<lambda>_ _. replicate 64 (CHR ''p''))\<rparr>"

definition em_options :: EmitOptions where
  "em_options = \<lparr>eo_ArtifactDir = ''/a'', eo_ArtifactKeysDir = ''/k'', eo_CheckerPath = ''/c'', eo_CheckerName = ''c'',
     eo_SourceRevision = ''1'', eo_PackageID = ''i'', eo_ProducerID = ''p'', eo_OperatorID = ''o'',
     eo_OperatorKey = replicate 64 (CHR ''p''), eo_StatusAuthorityID = ''s'', eo_StatusPublicKey = pk_key,
     eo_Custody = \<lparr>pc_Acquisition = ''x'', pc_Replay = ''x'', pc_Review = ''x'', pc_Issuance = ''x''\<rparr>,
     eo_Coverage = \<lparr>pcv_Scope = ''x'', pcv_Disclosure = ''x''\<rparr>, eo_SpecVersion = ''1'', eo_SpecPath = ''/s'',
     eo_CorpusVersion = ''1'', eo_CorpusDigestPath = ''/s'', eo_ConformanceCommand = [''/c''], eo_ConformanceDir = [],
     eo_CommandTimeout = 0, eo_Run = [], eo_IssuedAt = 1767225600000000000, eo_OutDir = ''/p''\<rparr>"

definition em_in :: stage where
  "em_in = [(''artifact'', WDir), (''artifact/A'', WFile (Inr [])), (''artifact/manifest.json'', WFile (Inr (render pk_art_doc))),
     (''inputs'', WDir), (''inputs/keys'', WDir), (''inputs/package-keys'', WDir),
     (em_key_path, WFile (Inr (std_encode pk_key @ [CHR 0x0A]))), (''checker'', WDir), (''checker/c'', WFile (Inr ''c'')),
     (''inputs/specification.txt'', WFile (Inr ''spec''))]"

definition em_tested :: stage where
  "em_tested = em_in @ [(''results'', WDir), (''results/conformance.json'', WFile (Inr ''ok!''))]"

definition em_full :: stage where
  "em_full = em_tested @ [(''results/artifact.json'', WFile (Inr em_report)), (''results/stderr.txt'', WFile (Inr []))]"

definition em_blobs :: "PackageBlob list" where
  "em_blobs = [pk_blob ''artifact/A'' 0 ''00'', pk_blob ''artifact/manifest.json'' 75 ''4b'', pk_blob ''checker/c'' 1 ''01'',
     pk_blob em_key_path 45 ''2d'', pk_blob ''inputs/specification.txt'' 4 ''04'', pk_blob ''results/artifact.json'' 22 ''16'',
     pk_blob ''results/conformance.json'' 3 ''03'', pk_blob ''results/stderr.txt'' 0 ''00'']"

definition em_evaluation :: emitEvaluation where
  "em_evaluation = \<lparr>ee_arguments = emit_arguments, ee_exitStatus = 0, ee_machineOutput = em_report, ee_stderr = [],
     ee_inputs = take 3 em_blobs, ee_inputRoots = [''artifact'', ''inputs/keys'', ''checker/c'']\<rparr>"

definition em_facts :: emit_facts where
  "em_facts = \<lparr>ef_operator = pk_digest ''20'', ef_status = pk_digest ''20'', ef_spec = pk_digest ''04'', ef_corpus = pk_digest ''04'',
     ef_discovered = [''r''], ef_run = ''r'', ef_evaluation = em_evaluation, ef_conformance = 0, ef_files = em_blobs\<rparr>"

lemma em_inputs: "emit_inputs pk_crypto em_env em_options \<lparr>ew_stage = [], ew_time = 0\<rparr>
    = Inr ((pk_digest ''20'', pk_digest ''20'', take 5 em_blobs), \<lparr>ew_stage = em_in, ew_time = 7\<rparr>)"
  by code_simp

lemma em_conformance: "runConformance em_env em_options \<lparr>ew_stage = em_in, ew_time = 7\<rparr>
    = Inr ((0, ''ok!''), \<lparr>ew_stage = em_tested, ew_time = 8\<rparr>)"
  by code_simp

lemma em_evaluated: "runEmitEvaluationInReplica pk_crypto em_env ''checker/c'' 0 \<lparr>ew_stage = em_tested, ew_time = 9\<rparr>
    = Inr (em_evaluation, \<lparr>ew_stage = em_tested, ew_time = 12\<rparr>)"
  by code_simp

lemma em_results: "writeEvaluationResults em_env em_evaluation \<lparr>ew_stage = em_tested, ew_time = 12\<rparr>
    = Inr ((), \<lparr>ew_stage = em_full, ew_time = 14\<rparr>)"
  by code_simp

lemma em_selected: "select_run em_options em_evaluation = Inr ([''r''], ''r'')"
  by code_simp

lemma em_indexed: "packageFileBlobs pk_crypto em_full = Inr em_blobs"
  by code_simp

lemma em_bound: "bind_files pk_crypto em_blobs (take 5 em_blobs) ''ok!'' em_evaluation = None"
  by code_simp

section \<open>The manifest\<close>

definition em_manifest :: PackageManifest where
  "em_manifest = pk_manifest
     \<lparr>pm_ArtifactBinding := \<lparr>bd_Root = emitArtifactDir, bd_KeysDir = emitKeysDir,
        bd_Manifest = pk_blob ''artifact/manifest.json'' 75 ''4b'', bd_DiscoveredRuns = [''r'']\<rparr>,
      pm_Files := em_blobs, pm_VerificationInputs := [pk_blob em_key_path 45 ''2d''],
      pm_Spec := \<lparr>vs_Version = ''1'', vs_DigestAlgorithm = ''sha-256'', vs_Digest = pk_digest ''04''\<rparr>,
      pm_Checker := \<lparr>ck_Name = ''c'', ck_SourceRevision = ''1'', ck_Executable = pk_blob ''checker/c'' 1 ''01''\<rparr>,
      pm_ArtifactEvaluation := \<lparr>pe_Arguments = emit_arguments, pe_ExitStatus = 0,
        pe_MachineOutput = pk_blob ''results/artifact.json'' 22 ''16'', pe_Stdout = pk_blob ''results/artifact.json'' 22 ''16'',
        pe_Stderr = pk_blob ''results/stderr.txt'' 0 ''00''\<rparr>,
      pm_Conformance := \<lparr>cf_Corpus = \<lparr>vs_Version = ''1'', vs_DigestAlgorithm = ''sha-256'', vs_Digest = pk_digest ''04''\<rparr>,
        cf_Command = [''/c''], cf_ExitStatus = 0, cf_Result = pk_blob ''results/conformance.json'' 3 ''03''\<rparr>\<rparr>"

lemma em_described: "emit_manifest em_options em_facts = Inr em_manifest"
  by code_simp

lemma em_good: "good (doc_manifest em_manifest)"
  by code_simp

lemma em_pure: "alone em_env" "seen em_env w = ew_stage w" "ev_read em_env n ''/s'' = Inr ''spec''"
    "stage_read (ev_link em_env n) em_full emitSpecPath = Inr ''spec''" "fileDigest pk_crypto (Inr ''spec'') = Inr (pk_digest ''04'')"
  by (simp_all add: alone_def em_env_def seen_def) code_simp+

lemma em_opts:
  "checker_relative em_options = ''checker/c''" "eo_CommandTimeout em_options = 0" "eo_CorpusDigestPath em_options = ''/s''"
  by code_simp+

text \<open>A sequence whose steps succeed is run one step at a time.\<close>

lemma emit_runs:
  "m w = Inr (x, w') \<Longrightarrow> emit_then m k w = k x w'"
  "f (ew_time w) (seen env w) = Inr x \<Longrightarrow> inspect env f w = Inr (x, after w (seen env w))"
  "require None w = Inr ((), w)" "lift_res (Inr x) w = Inr (x, w)" "ret x w = Inr (x, w)" "wrap_res g (Inr x) = Inr x"
  by (simp_all add: emit_then_def and_then_def inspect_def step_def seen_def after_def require_def fail_if_def lift_res_def
      ret_def wrap_res_def)

lemma em_ran: "emit_run pk_crypto em_env em_options \<lparr>ew_stage = [], ew_time = 0\<rparr>
    = Inr ((em_manifest, em_facts), \<lparr>ew_stage = em_full, ew_time = 16\<rparr>)"
  unfolding emit_run_def em_opts
  by (simp add: emit_runs em_inputs em_conformance em_pure after_def em_evaluated em_results em_selected em_indexed em_bound
      Let_def em_described flip: em_facts_def)

definition em_raw :: string where
  "em_raw = render (sortv (doc_manifest em_manifest))"

lemma em_canonical: "Canonicalize (json_Marshal (doc_manifest em_manifest)) = Inr em_raw"
  by (simp add: Canonicalize_marshal [OF em_good] em_raw_def)

definition em_published :: stage where
  "em_published = signed_stage em_env em_options em_raw em_full"

lemma em_staged: "emit_stage pk_crypto em_env em_options \<lparr>ew_stage = [], ew_time = 0\<rparr>
    = Inr ((em_manifest, em_facts), \<lparr>ew_stage = em_published, ew_time = 18\<rparr>)"
proof -
  have wrote: "WriteFile packageManifestName raw em_full = Inr (aput packageManifestName (WFile (Inr raw)) em_full)"
    "WriteFile packageSignatureName s (aput packageManifestName (WFile (Inr raw)) em_full)
      = Inr (aput packageSignatureName (WFile (Inr s)) (aput packageManifestName (WFile (Inr raw)) em_full))" for raw s
    by code_simp+
  have run: "change env f w = Inr ((), after w st)" if "f (ew_time w) (seen env w) = Inr st" for env f w st
    using that by (simp add: change_Inr)
  show ?thesis
    unfolding emit_stage_def writeSignedManifest_def
    by (simp add: emit_runs em_ran em_canonical run em_pure wrote after_def em_published_def signed_stage_def)
qed

definition em_result :: EmitResult where
  "em_result = \<lparr>er_PackageDir = ''/p'', er_PackageID = ''i'', er_Run = ''r'', er_DiscoveredRuns = [''r''], er_ExitStatus = 0,
     er_ConformanceExitStatus = 0\<rparr>"

lemma em_accepted:
  "validateEmitOptions em_options = None" "em_options\<lparr>eo_OutDir := path_Clean (eo_OutDir em_options)\<rparr> = em_options"
  "validateEmitPaths (ev_resolve em_env) (eo_OutDir em_options) (eo_ArtifactDir em_options) (eo_ArtifactKeysDir em_options) = None"
  "createEmitStagingDir (ev_out em_env) (eo_OutDir em_options) = None"
  "publishEmitPackage (ev_end em_env) (eo_OutDir em_options) = None" "ev_other em_env n st = st"
  by code_simp+

lemma em_emitted: "emit_package pk_crypto em_env em_options = Inr (em_result, em_published, em_manifest, em_facts)"
  unfolding emit_package_def Let_def em_accepted(2)
  apply (simp add: em_accepted first_err_Cons_None fail_if_def em_staged and_then_def)
  apply (simp add: em_result_def em_facts_def em_evaluation_def em_options_def)
  done

section \<open>Witnesses\<close>

lemma em_publishable: "publishable em_options em_manifest"
  by code_simp

lemma em_truthful: "truthful pk_crypto (tree_of em_published) em_manifest"
proof -
  have "truthful pk_crypto (tree_of (signed_stage em_env em_options raw em_full)) em_manifest" for raw
    by code_simp
  then show ?thesis by (simp add: em_published_def)
qed

lemma em_keys: "digests pk_crypto" "operator_public em_options = pk_key" "eo_StatusPublicKey em_options = pk_key"
  by (simp_all add: digests_def pk_crypto_def operator_public_def em_options_def pk_key_def)

lemma em_names: "eo_PackageID em_options = ''i''" "outcome_display em_result = ''EVALUATED''"
  by (simp_all add: em_options_def outcome_display_def em_result_def)

lemma em_agree: "sha256_hex cr (operator_public em_options) = sha256_hex cr (eo_StatusPublicKey em_options) \<longrightarrow>
    operator_public em_options = eo_StatusPublicKey em_options"
  by (simp add: em_keys)

lemma em_trusted: "trusts_operator pk_crypto em_env pk_env em_options"
proof -
  have "loadPackageTrustKeys pk_crypto (en_trust pk_env) packageTrustOperators = Inr [(pk_digest ''20'', pk_key)]"
    by (simp add: pk_env_def packageTrustOperators_def pk_signed)
  moreover have "sha256_hex pk_crypto pk_key = pk_digest ''20''" by code_simp
  ultimately show ?thesis
    by (simp add: trusts_operator_def em_keys em_env_def SignatureSize_def pk_crypto_def pk_key_def)
qed

theorem manifest_roundtrip_witness: "load_package_manifest em_raw = Inr em_manifest"
proof -
  have "plain_manifest em_manifest" "pm_Kind em_manifest = ''evaluation-package''"
    "\<forall>b \<in> set (pm_Files em_manifest) \<union> set (pm_VerificationInputs em_manifest). 0 \<le> bl_Size b"
    "validatePackageSemantics em_manifest = None"
    by code_simp+
  from manifest_roundtrip [OF em_good this] show ?thesis using em_canonical by auto
qed

theorem emission_validates_witness:
  "\<forall>vopts. ValidatePackage pk_crypto pk_env vopts \<lparr>ps_lstat = Inr True, ps_walk = em_published\<rparr>
    = Inr \<lparr>val_Kind = ''evaluation-package'', val_ID = ''i'', val_DisplayState = ''EVALUATED''\<rparr>"
  using emission_validates [OF em_pure(1) em_emitted em_keys(1) em_agree em_trusted em_truthful em_good em_publishable]
  by (simp add: em_names)

lemma em_evaluation_of:
  assumes "evaluation_of em_env em_options replica out err status"
  shows "replica = em_replica \<and> out = em_report \<and> err = []"
  using assms by (auto simp: evaluation_of_def Let_def runChecker_Inr em_env_def em_process_def)

lemma em_result_of: "conformance_run em_env em_options = Inr (status, result) \<Longrightarrow> result = ''ok!''"
proof -
  have "conformance_run em_env em_options = Inr (0, ''ok!'')" by code_simp
  then show "conformance_run em_env em_options = Inr (status, result) \<Longrightarrow> result = ''ok!''" by simp
qed

text \<open>The stand-in for SHA-256 tells the files of this package apart.\<close>

definition em_contents :: "string list" where
  "em_contents = [[], render pk_art_doc, ''c'', std_encode pk_key @ [CHR 0x0A], ''spec'', em_report, ''ok!'']"

lemma em_files_contents:
  "list_all (\<lambda>(p, n). n = Dir \<or> n \<in> set (map File em_contents)) (tree_of em_full)"
  "list_all (\<lambda>(p, n). n = WDir \<or> n \<in> set (map (\<lambda>raw. WFile (Inr raw)) em_contents)) em_replica"
  "list_all (\<lambda>raw. raw \<in> set em_contents) [em_report, [], ''ok!'']"
  "\<forall>a \<in> set em_contents. \<forall>b \<in> set em_contents. sha256_hex pk_crypto a = sha256_hex pk_crypto b \<longrightarrow> a = b"
  by code_simp+

lemma em_apart: "inj_on (sha256_hex pk_crypto) (blobs (tree_of em_published) \<union> observed_bytes em_replica em_report [] ''ok!'')"
proof -
  have "signed_stage em_env em_options raw em_full = em_full @ [(packageManifestName, WFile (Inr raw)),
      (packageSignatureName, WFile (Inr (std_encode (replicate 64 (CHR ''p'')) @ [CHR 0x0A])))]" for raw
    by code_simp
  then have "tree_of em_published = tree_of em_full @
      [(packageManifestName, File em_raw), (packageSignatureName, File (std_encode (replicate 64 (CHR ''p'')) @ [CHR 0x0A]))]"
    by (simp add: em_published_def tree_of_def tree_node_def)
  then have "blobs (tree_of em_published) \<subseteq> set em_contents"
    using em_files_contents(1) by (fastforce simp: blobs_def is_blob_def list_all_iff)
  moreover have "observed_bytes em_replica em_report [] ''ok!'' \<subseteq> set em_contents"
    using em_files_contents(2,3) by (fastforce simp: observed_bytes_def stage_files_def list_all_iff)
  moreover have "inj_on (sha256_hex pk_crypto) (set em_contents)" using em_files_contents(4) by (simp add: inj_on_def)
  ultimately show ?thesis by (meson Un_least inj_on_subset)
qed

lemma em_checker_file: "in_roots (evaluated_roots em_options) ''checker/c''" "(''checker/c'', ''c'') \<in> stage_files em_replica"
  by (simp_all add: in_roots_def evaluated_roots_def em_opts stage_files_def em_replica_def packageManifestName_def packageSignatureName_def)

theorem emission_signs_the_evaluation_witness:
  "(emitMachineOutput, em_report) \<in> tree_files (tree_of em_published)
    \<and> (''checker/c'', ''c'') \<in> tree_files (tree_of em_published)"
proof -
  obtain replica out err result where r: "evaluation_of em_env em_options replica out err (er_ExitStatus em_result)"
      "conformance_run em_env em_options = Inr (er_ConformanceExitStatus em_result, result)"
    and all: "\<forall>penv vopts t v. validatePackageDir pk_crypto penv vopts t = Inr v \<and> alookup t packageManifestName = Some (File em_raw)
        \<and> inj_on (sha256_hex pk_crypto) (blobs t \<union> observed_bytes replica out err result) \<longrightarrow>
        {(emitMachineOutput, out), (emitStderrPath, err), (emitConformancePath, result)} \<subseteq> tree_files t
        \<and> (\<forall>p b. in_roots (evaluated_roots em_options) p \<longrightarrow> ((p, b) \<in> tree_files t \<longleftrightarrow> (p, b) \<in> stage_files replica))"
    using emission_signs_the_evaluation [OF em_emitted em_good em_canonical] by (elim exE conjE) (rule that)
  have e: "replica = em_replica" "out = em_report" "err = []" "result = ''ok!''"
    using em_evaluation_of [OF r(1)] em_result_of [OF r(2)] by simp_all
  have v: "validatePackageDir pk_crypto pk_env vopts (tree_of em_published)
      = Inr \<lparr>val_Kind = ''evaluation-package'', val_ID = ''i'', val_DisplayState = ''EVALUATED''\<rparr>" for vopts
    using emitted_tree_validates(2) [OF em_pure(1) em_emitted em_keys(1) em_agree em_trusted em_truthful em_good em_publishable]
    by (simp add: em_names)
  have at: "alookup (tree_of em_published) packageManifestName = Some (File em_raw)"
    by (simp add: em_published_def alookup_tree_of alookup_signed(1) tree_node_def)
  note t = all [unfolded e, rule_format, OF conjI [OF v conjI [OF at em_apart]]]
  have "(emitMachineOutput, em_report) \<in> tree_files (tree_of em_published)" using t by blast
  moreover have "(''checker/c'', ''c'') \<in> tree_files (tree_of em_published)" using t em_checker_file by blast
  ultimately show ?thesis ..
qed

section \<open>Names that are not UTF-8\<close>

text \<open>The encoder writes a byte that is not UTF-8 as U+FFFD, and nothing in the emitter refuses such a name: the manifest
  that is signed then lists another path than the file has, and the published package does not validate.\<close>
lemma invalid_byte_replaced:
  "Canonicalize (json_Marshal (doc_blob (zero_Blob\<lparr>bl_Path := ''a'' @ [CHR 0xFF]\<rparr>)))
    = Canonicalize (json_Marshal (doc_blob (zero_Blob\<lparr>bl_Path := ''a'' @ encode_rune 65533\<rparr>)))
   \<and> validatePackagePath (''a'' @ [CHR 0xFF]) = None \<and> \<not> valid_utf8 (''a'' @ [CHR 0xFF])"
  by code_simp

end
