(* ===== verification/Cli_Examples.thy ===== *)
theory Cli_Examples
  imports Package_Cli Keygen_Examples Emit_Examples
begin

text \<open>The program \<open>aelpackage\<close> on the package of \<open>Package_Examples\<close>.\<close>

definition cli_host :: package_host where
  "cli_host = \<lparr>ph_version = ''v0'', ph_runtime = ''go'', ph_encode = None, ph_duration = (\<lambda>_. Inl (StdErr ''duration'')),
     ph_env = (\<lambda>_. pk_env), ph_source = (\<lambda>_. pk_source),
     ph_emit = \<lparr>eh_stat = (\<lambda>_. Inl os_ErrNotExist), eh_read = (\<lambda>_. Inl os_ErrNotExist), eh_seed = (\<lambda>s. s), eh_now = 0,
       eh_env = em_env, eh_stdout = None\<rparr>,
     ph_keygen = kg_env (\<lambda>_ d. d)\<rparr>"

theorem aelpackage_zero_witness:
  "\<exists>raw m. alookup (pk_tree pk_raw) packageManifestName = Some (File raw) \<and> load_package_manifest raw = Inr m \<and> succeeded m"
proof -
  let ?arguments = "[''--keys=trust'', ''validate'', ''dir'']"
  have "case parse_flags package_flags ?arguments of
      Inr (sets, rest) \<Rightarrow> rest = [''validate'', ''dir''] \<and> validate_args cli_host sets rest = pk_args
    | Inl _ \<Rightarrow> False"
    by code_simp
  then obtain sets where sets: "parse_flags package_flags ?arguments = Inr (sets, [''validate'', ''dir''])"
    "validate_args cli_host sets [''validate'', ''dir''] = pk_args"
    by (auto split: sum.splits)
  obtain out where "aelpackage pk_crypto pk_env None pk_args pk_source = (0, out)" using pk_validates by (metis prod.collapse)
  then have "aelpackage_main pk_crypto cli_host ?arguments kg_start = (0, out, Nothing)"
    using sets by (simp add: aelpackage_main_def Let_def cli_host_def)
  then show ?thesis
    using aelpackage_zero [OF sets(1), of pk_crypto cli_host kg_start out Nothing] pk_snapshot by (auto simp: cli_host_def)
qed

end
