(* ===== verification/Report_Roundtrip.thy ===== *)
theory Report_Roundtrip
  imports Report_Json Package_Files Decides
begin

text \<open>
  What \<open>aelcheck --json\<close> prints is what the package validation reads: the indented text of a report is read back by
  \<open>json.Unmarshal\<close> into the machine runs of \<open>package.go\<close>, and these hold the results of the report.
\<close>

section \<open>Indented text\<close>

lemma lex_ws: "list_all is_ws w \<Longrightarrow> lex (w @ s) = lex s"
  by (induction w) (auto simp: lex.simps(2))

lemma follows_ws: "list_all is_ws w \<Longrightarrow> follows s \<Longrightarrow> follows (w @ s)"
  by (cases w) (auto simp: follows_def)

lemma lex_joined:
  assumes "list_all is_ws w" "\<And>x t. x \<in> set xs \<Longrightarrow> follows t \<Longrightarrow> lex (f x @ t) = g x @ lex t" "follows s" "xs \<noteq> []"
  shows "lex (join_with ('','' @ w) (map f xs) @ s) = tsep (map g xs) @ lex s"
  using assms(2,4)
proof (induction xs)
  case (Cons x xs)
  show ?case
  proof (cases xs)
    case Nil
    then show ?thesis using Cons.prems(1) [of x s] assms(3) by simp
  next
    case (Cons y ys)
    have "lex (join_with ('','' @ w) (map f xs) @ s) = tsep (map g xs) @ lex s" using Cons.IH Cons.prems Cons by simp
    then show ?thesis
      using Cons Cons.prems(1) [of x "CHR '','' # w @ join_with ('','' @ w) (map f xs) @ s"] lex_ws [OF assms(1)] by simp
  qed
qed simp

lemma ws_more: "list_all is_ws nl \<Longrightarrow> list_all is_ws (nl @ ''  '')"
proof -
  have "is_ws (CHR '' '')" by (simp add: is_ws_def)
  then show "list_all is_ws nl \<Longrightarrow> list_all is_ws (nl @ ''  '')" by simp
qed

lemma lex_indented:
  assumes "list_all is_ws nl" "follows s" "xs \<noteq> []"
    and "\<And>x t. x \<in> set xs \<Longrightarrow> follows t \<Longrightarrow> lex (f x @ t) = g x @ lex t" "follows (c # s)"
  shows "lex (nl @ ''  '' @ join_with ('','' @ nl @ ''  '') (map f xs) @ nl @ c # s) = tsep (map g xs) @ lex (c # s)"
proof -
  note w = ws_more [OF assms(1)]
  have "lex (join_with ('','' @ nl @ ''  '') (map f xs) @ nl @ c # s) = tsep (map g xs) @ lex (nl @ c # s)"
    by (rule lex_joined [OF w assms(4) follows_ws [OF assms(1,5)] assms(3)])
  then show ?thesis using lex_ws [OF assms(1)] lex_ws [OF w] by simp
qed

lemma lex_indent: "good v \<Longrightarrow> list_all is_ws nl \<Longrightarrow> follows s \<Longrightarrow> lex (json_Indent nl v @ s) = vtoks v @ lex s"
proof (induction v arbitrary: nl s rule: good.induct)
  case (3 vs)
  show ?case
  proof (cases "vs = []")
    case False
    have "lex (nl @ ''  '' @ join_with ('','' @ nl @ ''  '') (map (json_Indent (nl @ ''  '')) vs) @ nl @ CHR '']'' # s)
        = tsep (map vtoks vs) @ lex (CHR '']'' # s)"
      using "3.prems" False by (intro lex_indented "3.IH") (auto simp: list_all_iff [of good] is_ws_def [of "CHR '' ''"])
    then show ?thesis using False by simp
  qed simp
next
  case (4 ms)
  let ?f = "\<lambda>(k, v). go_string k @ '': '' @ json_Indent (nl @ ''  '') v" and ?g = "\<lambda>(k, v). LStr k # Colon # vtoks v"
  have each: "lex (?f m @ t) = ?g m @ lex t" if "m \<in> set ms" "follows t" for m t
  proof (cases m)
    case (Pair k v)
    have "valid_utf8 k" "good v" using "4.prems"(1) that(1) Pair by (auto simp: list_all_iff)
    then have "lex (json_Indent (nl @ ''  '') v @ t) = vtoks v @ lex t"
      using "4.IH" [OF that(1)] Pair that(2) ws_more [OF "4.prems"(2)] by simp
    then show ?thesis using \<open>valid_utf8 k\<close> Pair by (simp add: lex_go_string lex.simps(2) is_ws_def)
  qed
  show ?case
  proof (cases "ms = []")
    case False
    have "lex (nl @ ''  '' @ join_with ('','' @ nl @ ''  '') (map ?f ms) @ nl @ CHR ''}'' # s) = tsep (map ?g ms) @ lex (CHR ''}'' # s)"
      using "4.prems" False each by (intro lex_indented) auto
    then show ?thesis using False by simp
  qed simp
qed (simp_all add: lex_show_int lex_go_string lex.simps(2) is_ws_def is_digit_def has_prefix_def)

lemma parse_json_Encode:
  assumes "good v" "shallow max_depth v"
  shows "parse_json (json_Encode v) = Inr (json_of v)"
proof -
  have "lex (json_Indent [CHR 0x0A] v @ [CHR 0x0A]) = vtoks v @ lex [CHR 0x0A]"
    using assms(1) by (intro lex_indent) (simp_all add: is_ws_def follows_def)
  also have "\<dots> = lex (render v)"
    using lex_render [OF assms(1), of "[]"] by (simp add: lex.simps(2) is_ws_def)
  finally have "parse_json (json_Encode v) = parse_json (render v)" by (simp add: parse_json_def json_Encode_def)
  then show ?thesis using parse_json_render [OF assms] by simp
qed

section \<open>The decoder\<close>

definition read_outcome :: "Outcome \<Rightarrow> MachineOutcome" where
  "read_outcome out = \<lparr>mo_Status = status_text (Status out), mo_Message = msg_text (Message out)\<rparr>"

definition read_checks :: "Result \<Rightarrow> (string \<times> MachineOutcome) list" where
  "read_checks r = map (\<lambda>(cid, out). (cid, read_outcome out)) (sort_slice (\<lambda>x y. fst x < fst y) (res_Checks r))"

definition read_run :: "Result \<Rightarrow> packageMachineRun" where
  "read_run r =
     \<lparr>mr_Grade = Inr (if res_Ungraded r then JStr ''ungraded'' else JNum (show_int (res_Grade r))), mrun_Run = res_Run r,
      mr_R = res_R r, mr_Checks = read_checks r, mr_Coverage = res_Coverage r, mr_Custody = res_Custody r,
      mr_Anchor = res_Anchor r, mr_Retention = res_Retention r, mr_Open = res_Open r, mr_OpenStatus = res_OpenStatus r,
      mr_Notes = map msg_text (res_Notes r)\<rparr>"

definition read_result :: "Result \<Rightarrow> Result" where
  "read_result r = r\<lparr>res_Grade := (if res_Ungraded r then 0 else res_Grade r), res_Checks := [],
     res_Notes := map (\<lambda>note. StdErr (msg_text note)) (res_Notes r)\<rparr>"

lemmas read_part = dec_struct_def field_for_def set_field_def dec_string_def dec_bool_def

lemma decode_entries:
  assumes "\<And>k v. (k, v) \<in> set xs \<Longrightarrow> f (enc v) zero = (x v, None)" "distinct (map fst m @ map fst xs)"
  shows "dec_entries f zero (map (\<lambda>(k, v). (k, enc v)) xs) m = (m @ map (\<lambda>(k, v). (k, x v)) xs, None)"
  using assms
proof (induction xs arbitrary: m)
  case (Cons e xs)
  obtain k v where e: "e = (k, v)" by fastforce
  have "k \<notin> fst ` set m" using Cons.prems(2) e by auto
  then have "aput k (x v) m = m @ [(k, x v)]" by (simp add: aput_fresh)
  moreover have "f (enc v) zero = (x v, None)" by (rule Cons.prems(1) [of k]) (simp add: e)
  moreover have "dec_entries f zero (map (\<lambda>(k, v). (k, enc v)) xs) (m @ [(k, x v)])
      = ((m @ [(k, x v)]) @ map (\<lambda>(k, v). (k, x v)) xs, None)"
    by (rule Cons.IH) (use Cons.prems e in auto)
  ultimately show ?case by (simp add: e keep_first_def)
qed simp

lemma decode_strings: "dec_items dec_string [] (map (\<lambda>x. JStr (f x)) xs) [] = (map f xs, None)"
  by (induction xs) (simp_all add: dec_string_def)

lemma decode_outcome: "dec_MachineOutcome (json_of (doc_Outcome out)) \<lparr>mo_Status = [], mo_Message = []\<rparr> = (read_outcome out, None)"
  by (simp add: dec_MachineOutcome_def doc_Outcome_def text_member_def read_part read_outcome_def)

lemma json_checks:
  "json_of (doc_map (map (\<lambda>(cid, out). (cid, doc_Outcome out)) cs))
     = JObj (map (\<lambda>(cid, out). (cid, json_of (doc_Outcome out))) (sort_slice (\<lambda>x y. fst x < fst y) cs))"
proof -
  have "sort_slice (\<lambda>x y. fst x < fst y) (map (\<lambda>(cid, out). (cid, doc_Outcome out)) cs)
      = map (\<lambda>(cid, out). (cid, doc_Outcome out)) (sort_slice (\<lambda>x y. fst x < fst y) cs)"
    by (rule sort_slice_map) (simp add: split_beta)
  then show ?thesis by (simp add: doc_map_def comp_def split_beta)
qed

lemma decode_checks:
  assumes "distinct (map fst (res_Checks r))"
  shows "dec_map dec_MachineOutcome \<lparr>mo_Status = [], mo_Message = []\<rparr>
    (json_of (doc_map (map (\<lambda>(cid, out). (cid, doc_Outcome out)) (res_Checks r)))) [] = (read_checks r, None)"
  using assms
  by (simp add: json_checks dec_map_def read_checks_def decode_outcome distinct_keys_sort
      decode_entries [where x = read_outcome and enc = "\<lambda>out. json_of (doc_Outcome out)" and m = "[]", simplified])

lemma decode_run:
  assumes "distinct (map fst (res_Checks r))"
  shows "dec_MachineRun (json_of (MarshalJSON r)) zero_MachineRun = (read_run r, None)"
  using decode_checks [OF assms]
  by (simp add: dec_MachineRun_def MarshalJSON_def text_member_def list_member_def doc_strings_def machine_field_def read_part
      zero_MachineRun_def read_run_def dec_slice_def decode_strings comp_def)

section \<open>The results\<close>

lemma machine_result:
  assumes "0 \<le> res_Grade r" "res_Grade r \<le> 4"
  shows "packageMachineResult (read_run r) = Inr (read_result r, read_checks r)"
proof -
  have "number_Int64 (show_int (res_Grade r)) = Inr (res_Grade r)"
    using assms by (simp add: number_Int64_def parse_int64_show in64_def)
  then show ?thesis
    using assms by (cases r) (simp add: packageMachineResult_def read_run_def read_result_def Let_def comp_def)
qed

lemma machine_results_read:
  assumes "\<forall>r \<in> set rs. 0 \<le> res_Grade r \<and> res_Grade r \<le> 4 \<and> packageTextPresent [res_Run r]"
    and "distinct (map fst m @ map res_Run rs)"
  shows "machine_results m (map read_run rs) = Inr (m @ map (\<lambda>r. (res_Run r, read_result r, read_checks r)) rs)"
  using assms
proof (induction rs arbitrary: m)
  case (Cons r rs)
  have "res_Run r \<notin> fst ` set m" "res_Run (read_result r) = res_Run r" using Cons.prems(2) by (auto simp: read_result_def)
  moreover from this(1) have "aput (res_Run r) (read_result r, read_checks r) m = m @ [(res_Run r, read_result r, read_checks r)]"
    by (simp add: aput_fresh)
  moreover have "machine_results (m @ [(res_Run r, read_result r, read_checks r)]) (map read_run rs)
      = Inr ((m @ [(res_Run r, read_result r, read_checks r)]) @ map (\<lambda>r. (res_Run r, read_result r, read_checks r)) rs)"
    by (rule Cons.IH) (use Cons.prems in auto)
  ultimately show ?case using Cons.prems(1) by (simp add: machine_result and_then_def has_key_iff)
qed simp

lemma report_results:
  assumes "r \<in> set (rep_Runs (Evaluate cr art))"
  shows "distinct (map fst (res_Checks r))" "0 \<le> res_Grade r" "res_Grade r \<le> 4"
proof -
  obtain run where r: "r = evaluateRun cr (ForRun art run)" using assms by (auto simp: Evaluate_def)
  then have "res_Checks r = run_checks cr (ForRun art run)" by (simp add: evaluateRun_def ungraded_result_def)
  then show "distinct (map fst (res_Checks r))" by (simp add: run_checks_def)
  have "0 \<le> res_Grade (computeGrade (mark_open (ungraded_result cr (ForRun art run))))
    \<and> res_Grade (computeGrade (mark_open (ungraded_result cr (ForRun art run)))) \<le> 4"
    using grade_ladder [of "mark_open (ungraded_result cr (ForRun art run))"] by (simp add: ungraded_result_def)
  then show "0 \<le> res_Grade r" "res_Grade r \<le> 4" by (simp_all add: r evaluateRun_def)
qed

lemma shallow_report: "shallow max_depth (doc_Report rep)"
proof -
  have "shallow 7 (doc_Report rep)"
    by (auto simp: doc_Report_def MarshalJSON_def doc_map_def doc_Outcome_def text_member_def list_member_def doc_strings_def list_all_iff)
  then show ?thesis by (rule shallow_mono) (simp add: max_depth_def)
qed

lemma report_read:
  assumes "good (doc_Report (Evaluate cr art))"
  shows "unmarshal dec_MachineReport (json_Encode (doc_Report (Evaluate cr art))) []
    = (map read_run (rep_Runs (Evaluate cr art)), None)"
proof -
  have "dec_items dec_MachineRun zero_MachineRun (map (\<lambda>r. json_of (MarshalJSON r)) rs) [] = (map read_run rs, None)"
    if "\<forall>r \<in> set rs. distinct (map fst (res_Checks r))" for rs
    using that by (induction rs) (simp_all add: decode_run keep_first_def)
  then have "dec_items dec_MachineRun zero_MachineRun (map (\<lambda>r. json_of (MarshalJSON r)) (rep_Runs (Evaluate cr art))) []
      = (map read_run (rep_Runs (Evaluate cr art)), None)"
    using report_results(1) by blast
  then show ?thesis
    using parse_json_Encode [OF assms shallow_report]
    by (simp add: unmarshal_def doc_Report_def dec_MachineReport_def dec_struct_def field_for_def dec_slice_def comp_def keep_first_def)
qed

section \<open>The grades of a verification record\<close>

text \<open>A grade that says what the report says of one run.\<close>

definition copies :: "PackageGrade \<Rightarrow> Result \<Rightarrow> bool" where
  "copies grade r \<longleftrightarrow>
     pg_Run grade = res_Run r \<and> pg_Line grade = GradeLine r \<and> ga_Coverage (pg_Annotations grade) = res_Coverage r
     \<and> ga_Custody (pg_Annotations grade) = res_Custody r \<and> ga_Anchor (pg_Annotations grade) = res_Anchor r
     \<and> ga_Retention (pg_Annotations grade) = res_Retention r \<and> length (pg_Outcomes grade) = length (res_Checks r)
     \<and> (\<forall>(cid, out) \<in> set (res_Checks r).
          (case alookup (pg_Outcomes grade) cid of Some s \<Rightarrow> s | None \<Rightarrow> []) = status_text (Status out))"

lemma read_result_fields:
  "res_Run (read_result r) = res_Run r" "GradeLine (read_result r) = GradeLine r" "res_Coverage (read_result r) = res_Coverage r"
  "res_Custody (read_result r) = res_Custody r" "res_Anchor (read_result r) = res_Anchor r"
  "res_Retention (read_result r) = res_Retention r"
  by (simp_all add: read_result_def GradeLine_def GradeString_def RLabel_def)

lemma same_outcomes_read:
  "samePackageOutcomes grades (read_checks r) \<longleftrightarrow> length grades = length (res_Checks r)
     \<and> (\<forall>(cid, out) \<in> set (res_Checks r). (case alookup grades cid of Some s \<Rightarrow> s | None \<Rightarrow> []) = status_text (Status out))"
  by (auto simp: samePackageOutcomes_def read_checks_def list_all_iff read_outcome_def split: prod.splits)

lemma grade_agrees_read:
  assumes "distinct (map res_Run rs)"
  shows "grade_agrees (map (\<lambda>r. (res_Run r, read_result r, read_checks r)) rs) grade \<longleftrightarrow> (\<exists>r \<in> set rs. copies grade r)"
proof (cases "pg_Run grade \<in> res_Run ` set rs")
  case True
  then obtain r where r: "r \<in> set rs" "pg_Run grade = res_Run r" by blast
  have "alookup (map (\<lambda>r. (res_Run r, read_result r, read_checks r)) rs) (res_Run r) = Some (read_result r, read_checks r)"
    using assms r(1) by (intro alookup_in_set) (auto simp: comp_def)
  moreover have "r' = r" if "r' \<in> set rs" "res_Run r' = res_Run r" for r'
    using inj_onD [OF _ that(2) that(1) r(1)] assms by (simp add: distinct_map)
  then have "(\<exists>r' \<in> set rs. copies grade r') \<longleftrightarrow> copies grade r" using r by (auto simp: copies_def)
  ultimately show ?thesis using r(2) by (simp add: grade_agrees_def Let_def read_result_fields same_outcomes_read copies_def)
next
  case False
  then have "alookup (map (\<lambda>r. (res_Run r, read_result r, read_checks r)) rs) (pg_Run grade) = None"
    by (force simp: alookup_None_iff)
  then show ?thesis using False by (auto simp: grade_agrees_def copies_def)
qed

text \<open>A run without a visible character in its name.\<close>

lemma machine_results_blank:
  assumes "\<forall>r \<in> set rs. 0 \<le> res_Grade r \<and> res_Grade r \<le> 4" "r \<in> set rs" "\<not> packageTextPresent [res_Run r]"
  shows "\<exists>e. machine_results m (map read_run rs) = Inl e"
  using assms
proof (induction rs arbitrary: m)
  case (Cons r' rs)
  have "res_Run (read_result r') = res_Run r'" by (simp add: read_result_def)
  then show ?case
    using Cons.prems Cons.IH [of "aput (res_Run r') (read_result r', read_checks r') m"]
    by (cases "r = r'") (auto simp: machine_result and_then_def)
qed simp

text \<open>C40: the two programs fit together. Let the machine output of a verification record be what \<open>aelcheck --json\<close> prints for an
  artifact, indentation and escapes included, and let every string of that report be valid UTF-8 and every number a safe integer. Then
  \<open>aelpackage\<close> accepts the grades of the record exactly if every run of the artifact has a visible character in its name, there are as
  many grades as runs, and each grade says what the report says of its run: the grade line, the annotations and the
  outcome of every check. So no grade is accepted that the checker did not give; but a faithful record of an artifact with a blank
  run name, which the checker loads and grades, is turned away.\<close>
theorem machine_output_pins_grades:
  assumes "good (doc_Report (Evaluate cr art))"
    and "safePackagePath (bl_Path (pe_MachineOutput (pm_ArtifactEvaluation m))) = Inr p"
    and "tree_read t p = Inr (json_Encode (doc_Report (Evaluate cr art)))"
  shows "validatePackageGradesAgainstMachineOutput t m = None \<longleftrightarrow>
    (\<forall>run \<in> set (artifactRuns art). packageTextPresent [run]) \<and> length (pm_Grades m) = length (artifactRuns art)
    \<and> (\<forall>grade \<in> set (pm_Grades m). \<exists>r \<in> set (rep_Runs (Evaluate cr art)). copies grade r)"
proof -
  let ?rs = "rep_Runs (Evaluate cr art)"
  have runs: "map res_Run ?rs = artifactRuns art" by (rule res_Run_Evaluate)
  then have d: "distinct (map res_Run ?rs)" "set (artifactRuns art) = res_Run ` set ?rs" and n: "length ?rs = length (artifactRuns art)"
    using artifactRuns_set(1) [of art] by (simp, metis set_map, metis length_map)
  show ?thesis
  proof (cases "\<forall>r \<in> set ?rs. packageTextPresent [res_Run r]")
    case True
    have "machine_results [] (map read_run ?rs) = Inr (map (\<lambda>r. (res_Run r, read_result r, read_checks r)) ?rs)"
      using machine_results_read [of ?rs "[]"] d(1) True report_results(2,3) by simp
    then show ?thesis
      using n d(2) True by (auto simp: validatePackageGradesAgainstMachineOutput_def assms(2,3) report_read [OF assms(1)]
          first_some_None_iff grade_agrees_read [OF d(1)] split: if_splits)
  next
    case False
    then obtain e where "machine_results [] (map read_run ?rs) = Inl e"
      using machine_results_blank [of ?rs _ "[]"] report_results(2,3) by blast
    then show ?thesis
      using n d(2) False by (auto simp: validatePackageGradesAgainstMachineOutput_def assms(2,3) report_read [OF assms(1)]
          split: if_splits)
  qed
qed

end
