(* ===== verification/Report_Examples.thy ===== *)
theory Report_Examples
  imports Report_Roundtrip
begin

text \<open>An artifact that declares one run and has no logs: its report is ungraded, and its text is plain.\<close>

definition bare_artifact :: Artifact where
  "bare_artifact = new_Artifact [] [] (zero_Manifest\<lparr>man_Runs := [''run-1'']\<rparr>)"

definition bare_report :: Report where
  "bare_report = Evaluate \<lparr>sha256 = (\<lambda>s. s), ed25519_verify = (\<lambda>p m s. True)\<rparr> bare_artifact"

definition faithful_grade :: "Result \<Rightarrow> PackageGrade" where
  "faithful_grade r =
     \<lparr>pg_Run = res_Run r, pg_Line = GradeLine r,
      pg_Annotations = \<lparr>ga_Coverage = res_Coverage r, ga_Custody = res_Custody r, ga_Anchor = res_Anchor r, ga_Retention = res_Retention r\<rparr>,
      pg_Outcomes = map (\<lambda>(cid, out). (cid, status_text (Status out))) (res_Checks r)\<rparr>"

definition bare_manifest :: PackageManifest where
  "bare_manifest = zero_PackageManifest\<lparr>pm_Grades := map faithful_grade (rep_Runs bare_report),
     pm_ArtifactEvaluation := (pm_ArtifactEvaluation zero_PackageManifest)\<lparr>pe_MachineOutput := zero_Blob\<lparr>bl_Path := ''m.json''\<rparr>\<rparr>\<rparr>"

theorem machine_output_pins_grades_witness:
  "validatePackageGradesAgainstMachineOutput [(''m.json'', File (json_Encode (doc_Report bare_report)))] bare_manifest = None"
proof -
  let ?cr = "\<lparr>sha256 = (\<lambda>s. s), ed25519_verify = (\<lambda>p m s. True)\<rparr>" and ?t = "[(''m.json'', File (json_Encode (doc_Report bare_report)))]"
  have good: "good (doc_Report (Evaluate ?cr bare_artifact))" by code_simp
  have runs: "artifactRuns bare_artifact = [''run-1'']" "packageTextPresent [''run-1'']" by code_simp+
  have path: "safePackagePath ''m.json'' = Inr ''m.json''" by code_simp
  have out: "tree_read ?t ''m.json'' = Inr (json_Encode (doc_Report (Evaluate ?cr bare_artifact)))"
    by (simp add: tree_read_def tree_open_def and_then_def read_all_def bare_report_def)
  have "copies (faithful_grade r) r" if r: "r \<in> set (rep_Runs (Evaluate ?cr bare_artifact))" for r
  proof -
    have "distinct (map fst (map (\<lambda>(cid, out). (cid, status_text (Status out))) (res_Checks r)))"
      using report_results(1) [OF r] by (simp add: comp_def split_beta)
    then have "alookup (map (\<lambda>(cid, out). (cid, status_text (Status out))) (res_Checks r)) cid = Some (status_text (Status out))"
      if "(cid, out) \<in> set (res_Checks r)" for cid out
      using that by (intro alookup_in_set) auto
    then show ?thesis by (auto simp: copies_def faithful_grade_def)
  qed
  moreover have "length (rep_Runs (Evaluate ?cr bare_artifact)) = length (artifactRuns bare_artifact)" by (simp add: Evaluate_def)
  ultimately show ?thesis
    using machine_output_pins_grades [OF good _ out, of bare_manifest] runs path
    by (auto simp: bare_manifest_def bare_report_def)
qed

text \<open>The loader accepts a run whose name is a space, and the checker grades the run; \<open>machine_results\<close> refuses
  the name, so no verification record of the artifact is accepted.\<close>

definition blank_manifest :: string where
  "blank_manifest = (let q = (\<lambda>s. CHR 0x22 # s @ [CHR 0x22]) in
     ''{'' @ q ''ael_format'' @ '':1,'' @ q ''recorders'' @ '':[{'' @ q ''file'' @ '':'' @ q ''A'' @ '','' @ q ''id'' @ '':'' @ q ''A'' @ '',''
     @ q ''run'' @ '':'' @ q '' '' @ ''}],'' @ q ''runs'' @ '':['' @ q '' '' @ '']}'')"

lemma blank_run_loads:
  "(case loadManifest blank_manifest of Inl _ \<Rightarrow> False | Inr m \<Rightarrow> man_Runs m = ['' ''])
   \<and> \<not> packageTextPresent ['' '']"
  by code_simp

end
