(* ===== verification/Gen_Conforms.thy ===== *)
theory Gen_Conforms
  imports Gen_Lines Decides
begin

text \<open>
  The generator against the checker: an artifact whose recorders are honest is graded AEL-1 at least. It is the completeness
  that goes with the soundness of the checks of one recorder.
\<close>

section \<open>Whole logs\<close>

lemma whole_log_closed: "whole_log log \<Longrightarrow> closed_if_live log"
  by (simp add: whole_log_def closed_log_def closed_if_live_def Let_def)

lemma whole_logs_earn:
  assumes "art_RecorderLogs art \<noteq> []" "\<forall>log \<in> set (art_RecorderLogs art). whole_log log"
    and "art_Anchors art = None" "art_Counterparty art = []"
  shows "Status (checkOpenEnd art) = Pass \<and> allPass (run_checks cr art) (grade_checks 1)"
proof -
  have logs: "log \<in> set (art_RecorderLogs art) \<Longrightarrow> whole_log log" for log using assms(2) by blast
  have recs: "\<forall>r \<in> set (AllRecords art). authentic r \<and> rec_CanonicalOK r \<and> rec_SchemaOK r"
    using logs by (auto simp: AllRecords_def whole_log_def)
  obtain log where log: "log \<in> set (art_RecorderLogs art)" using assms(1) by (metis ex_in_conv set_empty)
  have "log_Records log \<noteq> []" using logs [OF log] by (auto simp: whole_log_def closed_log_def Let_def)
  then have ne: "AllRecords art \<noteq> []" using log by (auto simp: AllRecords_def)
  have pass: "Status (checkSignatures art) = Pass" "Status (checkCanonicalPayloads art) = Pass"
    "Status (checkSequenceOrder art) = Pass" "Status (checkPredecessorLinks art) = Pass"
    "Status (checkClosedSchemas art) = Pass" "Status (checkOpen art) = Pass" "Status (checkContiguous art) = Pass"
    "Status (checkHeartbeat art) = Pass" "Status (checkCloseCount art) = Pass"
    using ne recs logs assms(1,3,4) by (simp_all add: pass_simps whole_log_def)
  have "Status (checkOpenEnd art) = Pass" using logs whole_log_closed by (simp add: checkOpenEnd_cases(1))
  then show ?thesis using pass unfolding grade_checks_simps by (simp add: allPass_Cons run_checks_at)
qed

section \<open>Loading\<close>

text \<open>The file that the manifest names for a recorder holds what an honest recorder wrote.\<close>

definition honest_log_file :: "crypto \<Rightarrow> artifact_fs \<Rightarrow> keys \<Rightarrow> ManifestRecorder \<Rightarrow> bool" where
  "honest_log_file cr fs ks rec \<longleftrightarrow>
     (\<exists>h sign recs. honest h \<and> fits h \<and> honest_key cr ks (hl_fp h) sign
        \<and> buildRecords cr sign (hl_run h) (hl_recorder h) (hl_fp h) (hl_plans h) = Inr recs
        \<and> mr_ID rec = hl_recorder h \<and> mr_Run rec = hl_run h \<and> mr_Key rec = hl_fp h
        \<and> openArtifactFile fs (mr_File rec) = Inr \<lparr>f_data = log_text recs, f_err = None\<rparr>)"

lemma honest_file_loads:
  assumes "honest_log_file cr fs ks rec"
  shows "\<exists>l. loadRecorderLog cr fs rec = Inr l \<and> whole_log (verify_log cr ks l) \<and> log_Run (verify_log cr ks l) = mr_Run rec"
proof -
  obtain h sign recs where h: "honest h" "honest_key cr ks (hl_fp h) sign"
    "buildRecords cr sign (hl_run h) (hl_recorder h) (hl_fp h) (hl_plans h) = Inr recs" "fits h"
    "rec = \<lparr>mr_ID = hl_recorder h, mr_Run = hl_run h, mr_Key = hl_fp h, mr_File = mr_File rec\<rparr>"
    "openArtifactFile fs (mr_File rec) = Inr \<lparr>f_data = log_text recs, f_err = None\<rparr>"
    using assms unfolding honest_log_file_def by (metis ManifestRecorder.surjective old.unit.exhaust)
  have width: "hash_width cr" using h(2) by (simp add: honest_key_def)
  have recs: "length recs = hl_size h" "\<And>i. i < hl_size h \<Longrightarrow> \<exists>p. record_ok cr sign h recs i p"
    using honest_records [OF h(1) width, of sign] h(3) by (metis sum.inject(2))+
  have ne: "recs \<noteq> []" using recs(1) by (auto simp: hl_size_def)
  have fp: "is_sha256_hex (hl_fp h)" using h(1) by (simp add: honest_def named_def)
  obtain l where l: "loadRecorderLog cr fs rec = Inr l" "verify_log cr ks l = checked_log cr ks h (mr_File rec) recs"
    using honest_log_loads [OF ne honest_lines_fit [OF h(1,2,4,3)] fp h(6), of cr ks] h(5) by metis
  have "log_Run (verify_log cr ks l) = mr_Run rec" unfolding l(2) by (subst h(5)) (simp add: checked_log_def)
  then show ?thesis using l honest_log_whole [OF h(1,2) recs] by auto
qed

lemma honest_files_load:
  assumes "\<forall>rec \<in> set recs. honest_log_file cr fs ks rec"
  shows "\<exists>logs. load_logs cr fs ks recs = Inr logs \<and> (\<forall>log \<in> set logs. whole_log log) \<and> map log_Run logs = map mr_Run recs"
  using assms
proof (induction recs)
  case (Cons rec recs)
  then obtain logs where logs: "load_logs cr fs ks recs = Inr logs" "\<forall>log \<in> set logs. whole_log log" "map log_Run logs = map mr_Run recs"
    by auto
  obtain l where "loadRecorderLog cr fs rec = Inr l" "whole_log (verify_log cr ks l)" "log_Run (verify_log cr ks l) = mr_Run rec"
    using honest_file_loads Cons.prems by (metis list.set_intros(1))
  then show ?case using logs by auto
qed simp

lemma load_policy_keeps:
  "art_RecorderLogs (load_policy cr e a) = art_RecorderLogs a" "art_Manifest (load_policy cr e a) = art_Manifest a"
  "art_Anchors (load_policy cr e a) = art_Anchors a" "art_Counterparty (load_policy cr e a) = art_Counterparty a"
  by (simp_all add: load_policy_def Let_def split: sum.split)

lemma load_policies_keep:
  "art_RecorderLogs (fold (load_policy cr) es a) = art_RecorderLogs a" "art_Manifest (fold (load_policy cr) es a) = art_Manifest a"
  "art_Anchors (fold (load_policy cr) es a) = art_Anchors a" "art_Counterparty (fold (load_policy cr) es a) = art_Counterparty a"
  by (induction es arbitrary: a) (simp_all add: load_policy_keeps)

text \<open>An artifact with honest recorders only, without anchors and counterparty.\<close>

definition honest_artifact :: "crypto \<Rightarrow> artifact_fs \<Rightarrow> bool" where
  "honest_artifact cr fs \<longleftrightarrow>
     (\<exists>ks raw m. loadKeys cr fs = Inr ks \<and> readBoundedArtifactFile fs ''manifest.json'' maxManifestBytes = Inr raw
        \<and> loadManifest raw = Inr m \<and> (fs_policy fs = Inl os_ErrNotExist \<or> (\<exists>es. fs_policy fs = Inr es))
        \<and> man_Anchor m = None \<and> man_Counterparty m = None
        \<and> man_Recorders m \<noteq> [] \<and> set (man_Runs m) \<subseteq> mr_Run ` set (man_Recorders m)
        \<and> (\<forall>rec \<in> set (man_Recorders m). honest_log_file cr fs ks rec))"

lemma honest_run: "honest_log_file cr fs ks rec \<Longrightarrow> mr_Run rec \<noteq> []"
  by (auto simp: honest_log_file_def honest_def named_def)

lemma honest_artifact_loads:
  assumes "honest_artifact cr fs"
  obtains art where "LoadArtifact cr fs = Inr art" "art_RecorderLogs art \<noteq> []" "\<forall>log \<in> set (art_RecorderLogs art). whole_log log"
    "art_Anchors art = None" "art_Counterparty art = []"
    "set (artifactRuns art) \<subseteq> log_Run ` set (art_RecorderLogs art)"
proof -
  obtain ks raw m where m: "loadKeys cr fs = Inr ks" "readBoundedArtifactFile fs ''manifest.json'' maxManifestBytes = Inr raw"
    "loadManifest raw = Inr m" "fs_policy fs = Inl os_ErrNotExist \<or> (\<exists>es. fs_policy fs = Inr es)"
    "man_Anchor m = None" "man_Counterparty m = None" "man_Recorders m \<noteq> []" "set (man_Runs m) \<subseteq> mr_Run ` set (man_Recorders m)"
    "\<forall>rec \<in> set (man_Recorders m). honest_log_file cr fs ks rec"
    using assms unfolding honest_artifact_def by blast
  obtain logs where logs: "load_logs cr fs ks (man_Recorders m) = Inr logs" "\<forall>log \<in> set logs. whole_log log"
    "map log_Run logs = map mr_Run (man_Recorders m)"
    using honest_files_load [OF m(9)] by blast
  have runs: "log_Run ` set logs = mr_Run ` set (man_Recorders m)" using logs(3) by (metis set_map)
  have lne: "logs \<noteq> []" using logs(3) m(7) by auto
  let ?a = "(new_Artifact ks raw m)\<lparr>art_RecorderLogs := logs\<rparr>"
  obtain a where a: "loadPolicies cr fs ?a = Inr a" "art_RecorderLogs a = logs" "art_Manifest a = m" "art_Anchors a = None"
    "art_Counterparty a = []"
    using m(4) by (auto simp: loadPolicies_def load_policies_keep new_Artifact_def)
  have "LoadArtifact cr fs = Inr a"
    using m a logs(1) by (simp add: LoadArtifact_def loadAnchors_def loadCounterparty_def)
  moreover have "declared_runs a = mr_Run ` set (man_Recorders m)" using m(8) runs a by (auto simp: declared_runs_def)
  then have "set (artifactRuns a) \<subseteq> log_Run ` set (art_RecorderLogs a)"
    using artifactRuns_set(2) [of a] honest_run m(7,9) runs a(2) by (auto simp: neq_Nil_conv)
  ultimately show thesis using that [of a] logs(2) lne a by simp
qed

text \<open>What honest recorders write, conforms: the artifact loads and \<open>aelcheck\<close> exits 0 at minimum grade 0 and 1.\<close>

lemma honest_artifact_conforms:
  assumes "honest_artifact cr fs" "usage_ok args" "arg_minGrade args \<le> 1"
  shows "\<exists>out. aelcheck cr None args fs = Some (0, out)"
proof -
  obtain art where art: "LoadArtifact cr fs = Inr art" "art_RecorderLogs art \<noteq> []" "\<forall>log \<in> set (art_RecorderLogs art). whole_log log"
    "art_Anchors art = None" "art_Counterparty art = []" "set (artifactRuns art) \<subseteq> log_Run ` set (art_RecorderLogs art)"
    using honest_artifact_loads [OF assms(1)] .
  have "\<not> res_Open res \<and> \<not> res_Ungraded res \<and> arg_minGrade args \<le> res_Grade res" if "res \<in> set (rep_Runs (Evaluate cr art))" for res
  proof -
    obtain run where run: "run \<in> set (artifactRuns art)" "res = evaluateRun cr (ForRun art run)"
      using \<open>res \<in> _\<close> by (auto simp: Evaluate_def)
    have "art_RecorderLogs (ForRun art run) \<noteq> []" using run(1) art(6) by (auto simp: ForRun_def filter_empty_conv)
    moreover have "\<forall>log \<in> set (art_RecorderLogs (ForRun art run)). whole_log log" using art(3) by (simp add: ForRun_def)
    moreover have "art_Anchors (ForRun art run) = None" "art_Counterparty (ForRun art run) = []" using art(4,5) by (simp_all add: ForRun_def)
    ultimately have "Status (checkOpenEnd (ForRun art run)) = Pass \<and> allPass (run_checks cr (ForRun art run)) (grade_checks 1)"
      by (rule whole_logs_earn)
    then have "\<not> res_Open res \<and> \<not> res_Ungraded res \<and> int 1 \<le> res_Grade res"
      using evaluateRun_earns [of 1 cr "ForRun art run"] run(2) by simp
    then show ?thesis using assms(3) by auto
  qed
  then have "conformanceExit (Evaluate cr art) (arg_minGrade args) = 0"
    by (simp add: conformanceExit_zero Evaluate_def artifactRuns_nonempty)
  moreover obtain grs where "Governability cr art = Some grs" using Governability_defined [OF art(1)] by blast
  ultimately show ?thesis using assms(2) art(1) by (auto simp: aelcheck_def Let_def)
qed

end
