(* ===== verification/Gen_Case.thy ===== *)
theory Gen_Case
  imports Gen_Conforms Emit_Valid
begin

text \<open>
  The files of a case of the generator, as the checker finds them: the manifest is read back, the keys are published, and
  every recorder's log is at its place.
\<close>

section \<open>The manifest\<close>

definition doc_recorder :: "ManifestRecorder \<Rightarrow> cvalue" where
  "doc_recorder r = CObj [(''id'', CStr (mr_ID r)), (''run'', CStr (mr_Run r)), (''key'', CStr (mr_Key r)), (''file'', CStr (mr_File r))]"

lemma json_doc_case:
  "json_doc (CObj [(''id'', a), (''run'', b), (''key'', c), (''file'', d)])
     = JObj [(''file'', json_doc d), (''id'', json_doc a), (''key'', json_doc c), (''run'', json_doc b)]"
  "json_doc (CObj [(''period_days'', a), (''custody'', b)]) = JObj [(''custody'', json_doc b), (''period_days'', json_doc a)]"
  "json_doc (CObj [(''ael_format'', a), (''claimed_rung'', b), (''coverage'', c), (''custody'', d), (''retention'', e), (''runs'', f),
      (''recorders'', g)])
     = JObj [(''ael_format'', json_doc a), (''claimed_rung'', json_doc b), (''coverage'', json_doc c), (''custody'', json_doc d),
         (''recorders'', json_doc g), (''retention'', json_doc e), (''runs'', json_doc f)]"
  unfolding json_doc_def by code_simp+

interpretation recorder_codec: codec doc_recorder dec_ManifestRecorder zero_ManifestRecorder
proof
  show "dec_ManifestRecorder (json_doc (doc_recorder r)) zero_ManifestRecorder = (r, None)" if "good (doc_recorder r)" for r
    by (cases r) (simp add: doc_recorder_def json_doc_case dec_ManifestRecorder_def dec_part zero_ManifestRecorder_def keep_first_def)
qed (simp add: doc_recorder_def)

definition manifest_doc :: "int \<Rightarrow> string \<Rightarrow> string \<Rightarrow> string list \<Rightarrow> ManifestRecorder list \<Rightarrow> cvalue" where
  "manifest_doc rng cov cust runs recorders = CObj
     [(''ael_format'', CInt 1), (''claimed_rung'', CInt rng), (''coverage'', CStr cov), (''custody'', CStr cust),
      (''retention'', CObj [(''period_days'', CInt 30), (''custody'', CStr ''fixture'')]),
      (''runs'', CArr (map CStr runs)), (''recorders'', CArr (map doc_recorder recorders))]"

definition manifest_of :: "int \<Rightarrow> string \<Rightarrow> string \<Rightarrow> string list \<Rightarrow> ManifestRecorder list \<Rightarrow> Manifest" where
  "manifest_of rng cov cust runs recorders = zero_Manifest
     \<lparr>man_AELFormat := 1, man_Runs := runs, man_Recorders := recorders, man_ClaimedRung := rng, man_Coverage := cov,
      man_Custody := cust, man_Retention := \<lparr>rt_PeriodDays = 30, rt_Custody = ''fixture''\<rparr>\<rparr>"

lemma manifest_doc_decodes:
  assumes "good (manifest_doc rng cov cust runs recorders)"
  shows "dec_Manifest (json_doc (manifest_doc rng cov cust runs recorders)) zero_Manifest = (manifest_of rng cov cust runs recorders, None)"
proof -
  have g: "good (CInt rng)" "good (CInt 30)" "good (CInt 1)" "list_all (\<lambda>x. good (doc_recorder x)) recorders"
    "list_all (\<lambda>x. good (CStr x)) runs"
    using assms by (auto simp: manifest_doc_def list_all_iff)
  show ?thesis
    using g recorder_codec.decode_slice [OF g(4)] text_codec.decode_slice [OF g(5)]
    by (simp add: manifest_doc_def manifest_of_def json_doc_case dec_Manifest_def dec_Retention_def dec_part zero_Manifest_def
        keep_first_def del: json_doc_simps(3) good.simps)
qed

lemma recorder_schema:
  "validateArtifactPath (mr_File r) = None \<Longrightarrow> validateManifestRecorder (json_doc (doc_recorder r)) = None"
  by (simp add: validateManifestRecorder_def doc_recorder_def json_doc_case objectFields_def raw_map_def obj_map_def
      requiredString_def dec_string_def isJSONNull_def has_key_def)

lemma manifest_doc_schema:
  assumes "good (manifest_doc rng cov cust runs recorders)" "parse_json raw = Inr (json_doc (manifest_doc rng cov cust runs recorders))"
    and "validateManifestResourceLimits raw = None" "0 \<le> rng" "rng \<le> 4" "runs \<noteq> []" "recorders \<noteq> []"
    and "cov \<in> {''declared-only'', ''partial'', ''mediated-only'', ''enforced-total''}"
    and "cust \<in> {''same-process'', ''same-host'', ''same-operator'', ''independent''}"
    and "\<forall>r \<in> set recorders. validateArtifactPath (mr_File r) = None"
  shows "validateManifestSchema raw = None"
proof -
  have num: "parse_int64 (show_int m) = Some m" if "good (CInt m)" for m
    using that by (simp add: parse_int64_show in64_def maxSafeInteger_def)
  have rng: "good (CInt rng)" using assms(1) by (simp add: manifest_doc_def)
  have runs: "validateStringArray (Inr (JArr (map json_doc (map CStr runs)))) ''runs'' 1 = None"
    using assms(6) by (simp add: validateStringArray_def arrayFields_def first_some_None_iff isJSONNull_def dec_string_def Suc_le_eq)
  have recs: "first_some (\<lambda>i. wrap_err (\<lambda>e. Errorf ''recorders[%d]: %w'' [D (int i), E e])
      (validateManifestRecorder (map json_doc (map doc_recorder recorders) ! i))) [0..<length recorders] = None"
    using assms(10) recorder_schema by (simp add: first_some_None_iff wrap_err_def)
  have ints: "parse_int64 (show_int rng) = Some rng" "parse_int64 (show_int 1) = Some 1" "parse_int64 (show_int 30) = Some 30"
    using num rng num [of 1] num [of 30] by (simp_all add: maxSafeInteger_def)
  show ?thesis
    using assms(2-9) runs recs ints
    by (auto simp: validateManifestSchema_def manifest_doc_def json_doc_case objectFields_def raw_map_def obj_map_def requireField_def
        has_key_def raw_field_def if_present_def validateExactIntegerField_def validateIntegerRangeField_def integerField_def
        dec_number_def number_Int64_def isJSONNull_def ArtifactFormatVersion_def arrayFields_def validateEnumRaw_def dec_string_def
        validateRetention_def validateMinimumIntegerField_def requiredString_def
        simp del: good.simps map_map)
qed

lemma manifest_doc_loads:
  assumes "good (manifest_doc rng cov cust runs recorders)" "canonicalValue (manifest_doc rng cov cust runs recorders) = Inr raw"
    and "validateManifestResourceLimits raw = None" "0 \<le> rng" "rng \<le> 4" "runs \<noteq> []" "recorders \<noteq> []"
    and "cov \<in> {''declared-only'', ''partial'', ''mediated-only'', ''enforced-total''}"
    and "cust \<in> {''same-process'', ''same-host'', ''same-operator'', ''independent''}"
    and "\<forall>r \<in> set recorders. validateArtifactPath (mr_File r) = None"
  shows "loadManifest raw = Inr (manifest_of rng cov cust runs recorders)"
proof -
  have "shallow 4 (manifest_doc rng cov cust runs recorders)" by (simp add: manifest_doc_def doc_recorder_def list_all_iff)
  then have raw: "Canonicalize raw = Inr raw" "parse_json raw = Inr (json_doc (manifest_doc rng cov cust runs recorders))"
    using canonicalValue_good [OF assms(1)] assms(2) by auto
  have "unmarshal dec_Manifest raw zero_Manifest = (manifest_of rng cov cust runs recorders, None)"
    using raw(2) manifest_doc_decodes [OF assms(1)] by (simp add: unmarshal_def)
  moreover note manifest_doc_schema [OF assms(1) raw(2) assms(3-)]
  ultimately show ?thesis
    using raw(1) assms(3) by (simp add: loadManifest_def wrap_err_def keep_first_def ArtifactFormatVersion_def manifest_of_def)
qed

section \<open>The files on disk\<close>

text \<open>The directory of a case after its files are written in their order: a later write of a path replaces an earlier one.\<close>

definition dir_entries :: "string \<Rightarrow> (string \<times> string) list \<Rightarrow> dirent list res" where
  "dir_entries dir files =
     (let inside = filter (\<lambda>(path, _). has_prefix path dir) files in
      if inside = [] then Inl os_ErrNotExist
      else Inr (map (\<lambda>(path, data). \<lparr>e_name = drop (length dir) path, e_isdir = False,
             e_file = Inr \<lparr>f_data = data, f_err = None\<rparr>\<rparr>) inside))"

definition case_fs :: "(string \<times> string) list \<Rightarrow> artifact_fs" where
  "case_fs files =
     (let disk = put_all files [] in
      \<lparr>fs_root = None,
       fs_open = (\<lambda>path. case alookup disk path of
          Some data \<Rightarrow> Inr \<lparr>f_data = data, f_err = None\<rparr> | None \<Rightarrow> Inl os_ErrNotExist),
       fs_policy = dir_entries ''policy/'' disk, fs_keys = dir_entries ''keys/'' disk\<rparr>)"

lemma put_all_lookup:
  "alookup (put_all files m) path = (case alookup (rev files) path of Some v \<Rightarrow> Some v | None \<Rightarrow> alookup m path)"
proof (induction files arbitrary: m)
  case (Cons f files)
  have app: "alookup (xs @ ys) k = (case alookup xs k of Some v \<Rightarrow> Some v | None \<Rightarrow> alookup ys k)" for xs ys :: "(_ \<times> 'b) list" and k
    by (simp add: alookup_def map_add_def split: option.split)
  show ?case
    using Cons [of "aput (fst f) (snd f) m"] by (cases f) (auto simp: put_all_def app alookup_aput split: option.split)
qed (simp add: put_all_def)

lemma disk_at:
  assumes "(path, data) \<in> set files" "\<And>other. (path, other) \<in> set files \<Longrightarrow> other = data"
  shows "alookup (put_all files []) path = Some data"
proof -
  have "path \<in> fst ` set (rev files)" using assms(1) by force
  then obtain v where v: "alookup (rev files) path = Some v" by (metis alookup_None_iff option.exhaust)
  then have "(path, v) \<in> set files" using alookup_SomeD by fastforce
  then show ?thesis using v assms(2) by (simp add: put_all_lookup)
qed

lemma set_aput: "set (aput k v m) \<subseteq> insert (k, v) (set m)"
  by (induction k v m rule: aput.induct) auto

lemma set_put_all: "set (put_all files m) \<subseteq> set files \<union> set m"
  unfolding put_all_def
proof (induction files arbitrary: m)
  case (Cons f files)
  then show ?case using set_aput [of "fst f" "snd f" m] by (cases f) fastforce
qed simp

lemma case_fs_open:
  assumes "(path, data) \<in> set files" "\<And>other. (path, other) \<in> set files \<Longrightarrow> other = data" "validateArtifactPath path = None"
  shows "openArtifactFile (case_fs files) path = Inr \<lparr>f_data = data, f_err = None\<rparr>"
  using assms(3) disk_at [OF assms(1,2)] by (simp add: openArtifactFile_def case_fs_def Let_def wrap_err_def)

section \<open>The published keys\<close>

definition public_file :: "string \<Rightarrow> string \<Rightarrow> string \<times> string" where
  "public_file fp pub = (''keys/'' @ fp @ ''.pub'', std_encode pub @ newline)"

lemma load_public_file:
  assumes "length pub = PublicKeySize" "sha256_hex cr pub = fp" "is_sha256_hex fp" "public_file fp pub = (path, data)"
  shows "load_key cr \<lparr>e_name = drop (length ''keys/'') path, e_isdir = False, e_file = Inr \<lparr>f_data = data, f_err = None\<rparr>\<rparr> = Some (fp, pub)"
  using assms
  by (auto simp: load_key_def public_file_def has_suffix_def trim_suffix_def read_all_def to_lower_hex newline_def Let_def)

lemma fold_keys_lookup:
  assumes "\<And>e x. e \<in> set es \<Longrightarrow> load_key cr e = Some (fp, x) \<Longrightarrow> x = pub"
    and "(\<exists>e \<in> set es. load_key cr e = Some (fp, pub)) \<or> alookup ks fp = Some pub"
  shows "alookup (fold (\<lambda>e ks. case load_key cr e of Some (fp, pub) \<Rightarrow> aput fp pub ks | None \<Rightarrow> ks) es ks) fp = Some pub"
  using assms
proof (induction es arbitrary: ks)
  case (Cons e es)
  let ?ks = "case load_key cr e of Some (fp, pub) \<Rightarrow> aput fp pub ks | None \<Rightarrow> ks"
  have "alookup ?ks fp = Some pub" if "load_key cr e = Some (fp, x) \<or> alookup ks fp = Some pub" for x
    using that Cons.prems(1) [of e] by (auto simp: amap_simps split: option.split)
  then have start: "(\<exists>e \<in> set es. load_key cr e = Some (fp, pub)) \<or> alookup ?ks fp = Some pub"
    using Cons.prems(2) by auto
  have "x = pub" if "e' \<in> set es" "load_key cr e' = Some (fp, x)" for e' x
    using Cons.prems(1) [OF _ that(2)] that(1) by simp
  from Cons.IH [OF this start] show ?case by (simp only: fold_simps)
qed simp

lemma published_key:
  assumes "\<And>path data. (path, data) \<in> set files \<Longrightarrow> has_prefix path ''keys/'' \<Longrightarrow>
      \<exists>k p. (path, data) = public_file k p \<and> length p = PublicKeySize \<and> sha256_hex cr p = k \<and> is_sha256_hex k \<and> (k = fp \<longrightarrow> p = pub)"
    and "public_file fp pub \<in> set files" "length pub = PublicKeySize" "sha256_hex cr pub = fp" "is_sha256_hex fp"
  shows "\<exists>ks. loadKeys cr (case_fs files) = Inr ks \<and> alookup ks fp = Some pub"
proof -
  let ?disk = "put_all files []"
  let ?inside = "filter (\<lambda>(path, _). has_prefix path ''keys/'') ?disk"
  let ?entry = "\<lambda>(path, data). \<lparr>e_name = drop (length ''keys/'') path, e_isdir = False, e_file = Inr \<lparr>f_data = data, f_err = None\<rparr>\<rparr>"
  obtain path data where f: "public_file fp pub = (path, data)" by fastforce
  have pre: "has_prefix path ''keys/''" using f by (auto simp: public_file_def has_prefix_def)
  have other: "other = data" if o: "(path, other) \<in> set files" for other
  proof -
    obtain k p where "(path, other) = public_file k p" "k = fp \<longrightarrow> p = pub" using assms(1) [OF o pre] by blast
    then show ?thesis using f by (auto simp: public_file_def)
  qed
  have "(path, data) \<in> set files" using assms(2) f by simp
  then have "alookup ?disk path = Some data" using other by (rule disk_at)
  then have inside: "(path, data) \<in> set ?inside" using pre alookup_SomeD by fastforce
  have own: "load_key cr (?entry (path, data)) = Some (fp, pub)" using load_public_file [OF assms(3-5) f] by simp
  have only: "x = pub" if e: "e \<in> set (map ?entry ?inside)" "load_key cr e = Some (fp, x)" for e x
  proof -
    obtain q d where q: "(q, d) \<in> set ?disk" "has_prefix q ''keys/''" "e = ?entry (q, d)" using e(1) by auto
    then have "(q, d) \<in> set files" using set_put_all [of files "[]"] by auto
    from assms(1) [OF this q(2)] obtain k p where k: "(q, d) = public_file k p" "length p = PublicKeySize" "sha256_hex cr p = k"
      "is_sha256_hex k" "k = fp \<longrightarrow> p = pub" by blast
    have "load_key cr e = Some (k, p)" using load_public_file [OF k(2,3,4) k(1) [symmetric]] unfolding q(3) by simp
    then show ?thesis using e(2) k(5) by simp
  qed
  have "?entry (path, data) \<in> set (map ?entry ?inside)" using inside unfolding set_map by (rule imageI)
  with own have "\<exists>e \<in> set (map ?entry ?inside). load_key cr e = Some (fp, pub)" by blast
  then have "alookup (fold (\<lambda>e ks. case load_key cr e of Some (fp, pub) \<Rightarrow> aput fp pub ks | None \<Rightarrow> ks) (map ?entry ?inside) []) fp
      = Some pub"
    by (intro fold_keys_lookup only disjI1)
  moreover have "?inside \<noteq> []" using inside by (metis list.set(1) empty_iff)
  ultimately show ?thesis by (simp add: loadKeys_def case_fs_def dir_entries_def Let_def)
qed

end
