(* ===== verification/Gen_Honest.thy ===== *)
theory Gen_Honest
  imports Gen_Case
begin

text \<open>
  From the generator to the checker: what \<open>writeCase\<close> writes for a case with honest recorders is an artifact that loads and
  conforms.
\<close>

section \<open>Honest cases\<close>

definition published :: "caseDef \<Rightarrow> string \<Rightarrow> string \<Rightarrow> (string \<times> string) list" where
  "published c pub fp = (if cas_keys c = [] then [(fp, pub)] else cas_keys c)"

definition log_path :: "string \<Rightarrow> string" where
  "log_path recorderID = ''recorders/'' @ recorderID @ ''.jsonl''"

definition recorder_entry :: "caseDef \<Rightarrow> string \<Rightarrow> string \<Rightarrow> ManifestRecorder" where
  "recorder_entry c fp recorderID =
     \<lparr>mr_ID = recorderID, mr_Run = recorder_run c recorderID,
      mr_Key = (case alookup (cas_recorderKeys c) recorderID of Some keyFP \<Rightarrow> keyFP | None \<Rightarrow> fp), mr_File = log_path recorderID\<rparr>"

definition case_coverage :: "caseDef \<Rightarrow> string" where
  "case_coverage c = (if cas_coverage c = [] then ''declared-only'' else cas_coverage c)"

definition case_custody :: "caseDef \<Rightarrow> string" where
  "case_custody c = (if cas_custody c = [] then ''same-process'' else cas_custody c)"

text \<open>A case without anchors, counterparty and deliberate damage, whose keys are all published under their fingerprints, and
  whose logs the generator built for honest recorders.\<close>

definition honest_case :: "crypto \<Rightarrow> caseDef \<Rightarrow> string \<Rightarrow> string \<Rightarrow> bool" where
  "honest_case cr c pub fp \<longleftrightarrow>
     cas_anchors c = [] \<and> cas_counterparty c = [] \<and> cas_manifestExtra c = [] \<and> cas_omitKeys c = [] \<and> cas_badKeyFiles c = []
     \<and> (cas_publishKeys c \<or> cas_name c \<noteq> ''ael0/unpublished_key'')
     \<and> 0 \<le> claimedExpectedRung (cas_expect c) \<and> claimedExpectedRung (cas_expect c) \<le> 4
     \<and> case_coverage c \<in> {''declared-only'', ''partial'', ''mediated-only'', ''enforced-total''}
     \<and> case_custody c \<in> {''same-process'', ''same-host'', ''same-operator'', ''independent''}
     \<and> (\<forall>(k, p) \<in> set (published c pub fp). length p = PublicKeySize \<and> sha256_hex cr p = k)
     \<and> distinct (map fst (case_logs c))
     \<and> (\<forall>(recorderID, recs) \<in> set (case_logs c). \<exists>h sign.
          honest h \<and> fits h \<and> hl_recorder h = recorderID \<and> hl_fp h = mr_Key (recorder_entry c fp recorderID)
          \<and> honest_key cr (published c pub fp) (hl_fp h) sign
          \<and> validateArtifactPath (log_path recorderID) = None \<and> valid_utf8 (log_path recorderID)
          \<and> buildRecords cr sign (hl_run h) (hl_recorder h) (hl_fp h) (hl_plans h) = Inr recs)"

lemma case_logs_nonempty: "case_logs c \<noteq> []" "case_recorders c \<noteq> []" "set (case_recorders c) = fst ` set (case_logs c)"
proof -
  show s: "set (case_recorders c) = fst ` set (case_logs c)" by (simp add: case_recorders_def)
  show "case_logs c \<noteq> []" by (simp add: case_logs_def)
  then show "case_recorders c \<noteq> []" using s by (metis image_is_empty set_empty)
qed

lemma recorder_has_log:
  assumes "r \<in> set (case_recorders c)"
  shows "\<exists>recs. (r, recs) \<in> set (case_logs c)"
proof -
  have "r \<in> fst ` set (case_logs c)" using assms unfolding case_logs_nonempty(3) .
  then show ?thesis by auto
qed

lemma case_log_at: "distinct (map fst (case_logs c)) \<Longrightarrow> (r, recs) \<in> set (case_logs c) \<Longrightarrow> case_log c r = recs"
  by (simp add: case_log_def alookup_in_set)

text \<open>The run of a recorder is the one its records name.\<close>

lemma honest_recordRun:
  assumes "honest h" "hash_width cr" "buildRecords cr sign (hl_run h) (hl_recorder h) (hl_fp h) (hl_plans h) = Inr recs"
  shows "\<exists>r rs. recs = r # rs \<and> recordRun r = hl_run h"
proof -
  obtain recs' where "buildRecords cr sign (hl_run h) (hl_recorder h) (hl_fp h) (hl_plans h) = Inr recs'" "length recs' = hl_size h"
    "\<And>i. i < hl_size h \<Longrightarrow> \<exists>p. record_ok cr sign h recs' i p"
    using honest_records [OF assms(1,2), of sign] by blast
  then have recs: "length recs = hl_size h" "\<And>i. i < hl_size h \<Longrightarrow> \<exists>p. record_ok cr sign h recs i p" using assms(3) by simp_all
  then obtain r rs where r: "recs = r # rs" by (cases recs) (auto simp: hl_size_def)
  obtain p where "record_ok cr sign h recs 0 p" using recs(2) [of 0] by (auto simp: hl_size_def)
  then have "recordRun r = hl_run h" using r by (auto simp: record_ok_def Let_def payload_ok_def recordRun_def)
  then show ?thesis using r by blast
qed

lemma honest_recorder:
  assumes "honest_case cr c pub fp" "(r, recs) \<in> set (case_logs c)"
  obtains h sign where "honest h" "fits h" "hl_recorder h = r" "hl_fp h = mr_Key (recorder_entry c fp r)" "hl_run h = recorder_run c r"
    "honest_key cr (published c pub fp) (hl_fp h) sign" "case_log c r = recs"
    "buildRecords cr sign (hl_run h) (hl_recorder h) (hl_fp h) (hl_plans h) = Inr recs"
    "validateArtifactPath (log_path r) = None" "valid_utf8 (log_path r)"
proof -
  obtain h sign where h: "honest h" "fits h" "hl_recorder h = r" "hl_fp h = mr_Key (recorder_entry c fp r)"
    "honest_key cr (published c pub fp) (hl_fp h) sign" "validateArtifactPath (log_path r) = None" "valid_utf8 (log_path r)"
    "buildRecords cr sign (hl_run h) (hl_recorder h) (hl_fp h) (hl_plans h) = Inr recs"
    using assms unfolding honest_case_def by fastforce
  have l: "case_log c r = recs" using assms case_log_at by (auto simp: honest_case_def)
  have "hash_width cr" using h(5) by (simp add: honest_key_def)
  with h(1) h(8) obtain rec rs where "recs = rec # rs" "recordRun rec = hl_run h" using honest_recordRun by blast
  moreover have "hl_run h \<noteq> []" using h(1) by (simp add: honest_def named_def)
  ultimately have "hl_run h = recorder_run c r" using l by (simp add: recorder_run_def)
  then show thesis using that h l by blast
qed

section \<open>The manifest of a case\<close>

lemma set_case_runs: "set (case_runs c) = recorder_run c ` set (case_recorders c)"
proof -
  have "set (fold (\<lambda>x runs. if f x \<in> set runs then runs else runs @ [f x]) xs runs) = set runs \<union> f ` set xs"
    for f :: "string \<Rightarrow> string" and xs runs
    by (induction xs arbitrary: runs) auto
  then show ?thesis by (simp add: case_runs_def)
qed

lemma case_manifest_doc:
  "cas_manifestExtra c = [] \<Longrightarrow> CObj (case_manifest c fp)
     = manifest_doc (claimedExpectedRung (cas_expect c)) (case_coverage c) (case_custody c) (case_runs c)
         (map (recorder_entry c fp) (case_recorders c))"
  by (simp add: case_manifest_def put_all_def manifest_doc_def ArtifactFormatVersion_def case_coverage_def case_custody_def comp_def
      doc_recorder_def recorder_entry_def log_path_def)

lemma honest_manifest_good:
  assumes "honest_case cr c pub fp"
  shows "good (CObj (case_manifest c fp))"
proof -
  have ascii: "valid_utf8 k" if "list_all (\<lambda>c. code c < 128) k" for k using utf8_ascii that .
  have texts: "list_all valid_utf8 [''ael_format'', ''claimed_rung'', ''coverage'', ''custody'', ''retention'', ''runs'', ''recorders'',
    ''period_days'', ''fixture'', ''id'', ''run'', ''key'', ''file'', ''declared-only'', ''partial'', ''mediated-only'',
    ''enforced-total'', ''same-process'', ''same-host'', ''same-operator'', ''independent'']"
    by (simp add: ascii)
  have c: "cas_manifestExtra c = []" "0 \<le> claimedExpectedRung (cas_expect c)" "claimedExpectedRung (cas_expect c) \<le> 4"
    "case_coverage c \<in> {''declared-only'', ''partial'', ''mediated-only'', ''enforced-total''}"
    "case_custody c \<in> {''same-process'', ''same-host'', ''same-operator'', ''independent''}"
    using assms by (simp_all add: honest_case_def)
  have each: "valid_utf8 (recorder_run c r) \<and> good (doc_recorder (recorder_entry c fp r))" if r: "r \<in> set (case_recorders c)" for r
  proof -
    obtain recs where "(r, recs) \<in> set (case_logs c)" using recorder_has_log [OF r] by blast
    from assms this obtain h sign where h: "honest h" "hl_recorder h = r" "hl_fp h = mr_Key (recorder_entry c fp r)"
      "hl_run h = recorder_run c r" "valid_utf8 (log_path r)"
      by (rule honest_recorder)
    have n: "named (hl_run h) (hl_recorder h) (hl_fp h)" using h(1) by (simp add: honest_def)
    then have "valid_utf8 (mr_Key (recorder_entry c fp r))" "valid_utf8 (recorder_run c r)" "valid_utf8 r"
      using h(2-4) by (auto simp: named_def sha256_hex_utf8)
    then show ?thesis using texts h(5) by (simp add: doc_recorder_def recorder_entry_def)
  qed
  have "valid_utf8 (case_coverage c)" "valid_utf8 (case_custody c)" using c(4,5) texts by auto
  moreover have "list_all valid_utf8 (case_runs c)" using each by (auto simp: list_all_iff set_case_runs)
  ultimately show ?thesis
    using c(2,3) texts each unfolding case_manifest_doc [OF c(1)] by (auto simp: manifest_doc_def list_all_iff maxSafeInteger_def)
qed

section \<open>The files of an honest case\<close>

lemma writeCase_files:
  assumes "writeCase c pub fp = Inr files" "honest_case cr c pub fp"
  shows "(''manifest.json'', raw) \<in> set files \<longleftrightarrow> canonicalValue (CObj (case_manifest c fp)) = Inr raw"
    and "(log_path r, data) \<in> set files \<longleftrightarrow> r \<in> set (case_recorders c) \<and> data = log_text (case_log c r)"
    and "has_prefix path ''keys/'' \<Longrightarrow> (path, data) \<in> set files \<longleftrightarrow>
      (\<exists>k p. alookup (published c pub fp) k = Some p \<and> (path, data) = public_file k p)"
proof -
  have c: "cas_anchors c = []" "cas_counterparty c = []" "cas_omitKeys c = []" "cas_badKeyFiles c = []"
    "cas_publishKeys c \<or> cas_name c \<noteq> ''ael0/unpublished_key''"
    using assms(2) by (simp_all add: honest_case_def)
  obtain manifest where m: "canonicalValue (CObj (case_manifest c fp)) = Inr manifest" using assms(1) by (auto simp: writeCase_def and_then_Inr_iff)
  have keys: "key_files c pub fp = map (\<lambda>k. public_file k (case alookup (published c pub fp) k of Some key \<Rightarrow> key | None \<Rightarrow> []))
      (sort_slice (<) (map fst (published c pub fp)))"
    using c(3-5) by (auto simp: key_files_def published_def public_file_def Let_def)
  have has: "k \<in> fst ` set (published c pub fp) \<longleftrightarrow> (\<exists>p. alookup (published c pub fp) k = Some p)" for k
    using alookup_None_iff [of "published c pub fp" k] by auto
  define rest where "rest = (''expect.json'', json_MarshalIndent (doc_expected (single_run c)) @ newline)
      # (case cas_govExpect c of None \<Rightarrow> [] | Some g \<Rightarrow> [(''expect_gov.json'', json_MarshalIndent (doc_govExpectation g) @ newline)])
      @ (case cas_limitScenario c of None \<Rightarrow> [] | Some v \<Rightarrow> [(''scenario.json'', json_MarshalIndent (go_value v) @ newline)])
      @ (if cas_readme c = [] then [] else [(''README.md'', cas_readme c)])"
  have files: "files = map (\<lambda>(hash, raw). (''policy/'' @ hash @ ''.json'', raw)) (cas_policies c) @ key_files c pub fp
      @ map (\<lambda>r. (log_path r, log_text (case_log c r))) (case_recorders c) @ (''manifest.json'', manifest) # rest"
    using assms(1) m c(1,2) by (simp add: writeCase_def log_path_def rest_def)
  have rest: "\<forall>(path, data) \<in> set rest. path \<in> {''expect.json'', ''expect_gov.json'', ''scenario.json'', ''README.md''}"
    by (auto simp: rest_def split: option.split)
  show "(''manifest.json'', raw) \<in> set files \<longleftrightarrow> canonicalValue (CObj (case_manifest c fp)) = Inr raw"
    using rest m unfolding files keys by (auto simp: public_file_def log_path_def)
  show "(log_path r, data) \<in> set files \<longleftrightarrow> r \<in> set (case_recorders c) \<and> data = log_text (case_log c r)"
    using rest unfolding files keys by (auto simp: public_file_def log_path_def)
  show "(path, data) \<in> set files \<longleftrightarrow> (\<exists>k p. alookup (published c pub fp) k = Some p \<and> (path, data) = public_file k p)"
    if pre: "has_prefix path ''keys/''"
  proof -
    have "(path, data) \<in> set files \<longleftrightarrow> (path, data) \<in> set (key_files c pub fp)"
      using rest pre unfolding files by (auto simp: log_path_def has_prefix_def)
    also have "\<dots> \<longleftrightarrow> (\<exists>k p. alookup (published c pub fp) k = Some p \<and> (path, data) = public_file k p)"
    proof -
      let ?file = "\<lambda>k. public_file k (case alookup (published c pub fp) k of Some key \<Rightarrow> key | None \<Rightarrow> [])"
      have "(path, data) \<in> set (key_files c pub fp) \<longleftrightarrow> (\<exists>k. k \<in> fst ` set (published c pub fp) \<and> (path, data) = ?file k)"
        unfolding keys by auto
      then show ?thesis unfolding has by fastforce
    qed
    finally show ?thesis .
  qed
qed

lemma honest_case_artifact:
  assumes "honest_case cr c pub fp" "writeCase c pub fp = Inr files" "canonicalValue (CObj (case_manifest c fp)) = Inr raw"
    and "validateManifestResourceLimits raw = None"
  shows "honest_artifact cr (case_fs files)"
proof -
  note f = writeCase_files [OF assms(2,1)]
  let ?m = "manifest_of (claimedExpectedRung (cas_expect c)) (case_coverage c) (case_custody c) (case_runs c)
      (map (recorder_entry c fp) (case_recorders c))"
  have c: "cas_manifestExtra c = []" "0 \<le> claimedExpectedRung (cas_expect c)" "claimedExpectedRung (cas_expect c) \<le> 4"
    "case_coverage c \<in> {''declared-only'', ''partial'', ''mediated-only'', ''enforced-total''}"
    "case_custody c \<in> {''same-process'', ''same-host'', ''same-operator'', ''independent''}"
    "\<forall>(k, p) \<in> set (published c pub fp). length p = PublicKeySize \<and> sha256_hex cr p = k"
    using assms(1) by (simp_all add: honest_case_def)
  note doc = case_manifest_doc [OF c(1), of fp]
  have width: "hash_width cr"
  proof -
    obtain r recs where "(r, recs) \<in> set (case_logs c)" using case_logs_nonempty(1) [of c] by (cases "case_logs c") auto
    with assms(1) obtain h :: recording and sign where "honest_key cr (published c pub fp) (hl_fp h) sign" by (rule honest_recorder) blast
    then show ?thesis by (simp add: honest_key_def)
  qed
  have paths: "validateArtifactPath (log_path r) = None" if r: "r \<in> set (case_recorders c)" for r
  proof -
    obtain recs where "(r, recs) \<in> set (case_logs c)" using recorder_has_log [OF r] by blast
    with assms(1) show ?thesis by (rule honest_recorder)
  qed
  have "loadManifest raw = Inr ?m"
  proof (rule manifest_doc_loads)
    show "good (manifest_doc (claimedExpectedRung (cas_expect c)) (case_coverage c) (case_custody c) (case_runs c)
      (map (recorder_entry c fp) (case_recorders c)))"
      using honest_manifest_good [OF assms(1)] unfolding doc .
    have "set (case_runs c) \<noteq> {}" using case_logs_nonempty(2) by (simp add: set_case_runs)
    then show "case_runs c \<noteq> []" by auto
  qed (use assms(3,4) c case_logs_nonempty(2) paths in \<open>auto simp: doc [symmetric] recorder_entry_def\<close>)
  moreover have "readBoundedArtifactFile (case_fs files) ''manifest.json'' maxManifestBytes = Inr raw"
  proof -
    have "validateArtifactPath ''manifest.json'' = None" by code_simp
    then have "openArtifactFile (case_fs files) ''manifest.json'' = Inr \<lparr>f_data = raw, f_err = None\<rparr>"
      using f(1) assms(3) by (intro case_fs_open) simp_all
    moreover have "length raw \<le> maxManifestBytes" using assms(4) by (simp add: validateManifestResourceLimits_def split: if_splits)
    ultimately show ?thesis by (simp add: readBoundedArtifactFile_def read_limited_def read_all_def)
  qed
  moreover have key: "\<exists>ks. loadKeys cr (case_fs files) = Inr ks \<and> alookup ks k = Some p" if k: "alookup (published c pub fp) k = Some p" for k p
  proof (rule published_key)
    have pub: "length p' = PublicKeySize \<and> sha256_hex cr p' = k' \<and> is_sha256_hex k'" if "alookup (published c pub fp) k' = Some p'" for k' p'
      using c(6) alookup_SomeD [OF that] is_sha256_hex_hash [OF width] by fastforce
    show "\<exists>k' p'. (path, data) = public_file k' p' \<and> length p' = PublicKeySize \<and> sha256_hex cr p' = k' \<and> is_sha256_hex k' \<and> (k' = k \<longrightarrow> p' = p)"
      if "(path, data) \<in> set files" "has_prefix path ''keys/''" for path data
      using f(3) [OF that(2)] that(1) pub k by (metis option.inject)
    have "has_prefix (fst (public_file k p)) ''keys/''" by (simp add: public_file_def has_prefix_def)
    then show "public_file k p \<in> set files" using f(3) [of "fst (public_file k p)" "snd (public_file k p)"] k by auto
  qed (use c(6) alookup_SomeD [OF k] is_sha256_hex_hash [OF width] in fastforce)+
  moreover have "published c pub fp \<noteq> []" by (simp add: published_def)
  then obtain k p where "alookup (published c pub fp) k = Some p" by (cases "published c pub fp") force+
  then obtain ks where ks: "loadKeys cr (case_fs files) = Inr ks" using key by blast
  moreover have "honest_log_file cr (case_fs files) ks (recorder_entry c fp r)" if r: "r \<in> set (case_recorders c)" for r
  proof -
    obtain recs where "(r, recs) \<in> set (case_logs c)" using recorder_has_log [OF r] by blast
    with assms(1) obtain h sign where h: "honest h" "fits h" "hl_recorder h = r" "hl_fp h = mr_Key (recorder_entry c fp r)"
      "hl_run h = recorder_run c r" "honest_key cr (published c pub fp) (hl_fp h) sign" "case_log c r = recs"
      "buildRecords cr sign (hl_run h) (hl_recorder h) (hl_fp h) (hl_plans h) = Inr recs" "validateArtifactPath (log_path r) = None"
      by (rule honest_recorder)
    have "honest_key cr ks (hl_fp h) sign" using h(6) key ks by (fastforce simp: honest_key_def)
    moreover have "openArtifactFile (case_fs files) (log_path r) = Inr \<lparr>f_data = log_text recs, f_err = None\<rparr>"
      using f(2) [of r] r h(7,9) by (intro case_fs_open) simp_all
    moreover have "mr_ID (recorder_entry c fp r) = r" "mr_Run (recorder_entry c fp r) = recorder_run c r"
      "mr_File (recorder_entry c fp r) = log_path r" by (simp_all add: recorder_entry_def)
    ultimately show ?thesis using h unfolding honest_log_file_def by metis
  qed
  moreover have "fs_policy (case_fs files) = Inl os_ErrNotExist \<or> (\<exists>es. fs_policy (case_fs files) = Inr es)"
    by (simp add: case_fs_def dir_entries_def Let_def)
  moreover have "man_Anchor ?m = None" "man_Counterparty ?m = None" by (simp_all add: manifest_of_def zero_Manifest_def)
  moreover have "man_Recorders ?m = map (recorder_entry c fp) (case_recorders c)" "man_Runs ?m = case_runs c" by (simp_all add: manifest_of_def)
  moreover have "set (case_runs c) \<subseteq> mr_Run ` recorder_entry c fp ` set (case_recorders c)"
    by (force simp: set_case_runs recorder_entry_def)
  ultimately show ?thesis using ks case_logs_nonempty(2) unfolding honest_artifact_def by (intro exI [of _ ks] exI [of _ raw] exI [of _ ?m]) auto
qed

lemma honest_case_written:
  assumes "honest_case cr c pub fp"
  shows "\<exists>files raw. writeCase c pub fp = Inr files \<and> canonicalValue (CObj (case_manifest c fp)) = Inr raw
    \<and> (''manifest.json'', raw) \<in> set files
    \<and> (validateManifestResourceLimits raw = None \<longrightarrow> honest_artifact cr (case_fs files))"
proof -
  have extra: "cas_manifestExtra c = []" using assms by (simp add: honest_case_def)
  have "shallow 4 (CObj (case_manifest c fp))"
    unfolding case_manifest_doc [OF extra] by (simp add: manifest_doc_def doc_recorder_def list_all_iff)
  then obtain raw where raw: "canonicalValue (CObj (case_manifest c fp)) = Inr raw"
    using canonicalValue_good [OF honest_manifest_good [OF assms]] by blast
  then obtain files where files: "writeCase c pub fp = Inr files" by (simp add: writeCase_def)
  have "(''manifest.json'', raw) \<in> set files" using writeCase_files(1) [OF files assms] raw by simp
  then have "writeCase c pub fp = Inr files \<and> canonicalValue (CObj (case_manifest c fp)) = Inr raw
    \<and> (''manifest.json'', raw) \<in> set files
    \<and> (validateManifestResourceLimits raw = None \<longrightarrow> honest_artifact cr (case_fs files))"
    using files raw honest_case_artifact [OF assms files raw] by simp
  then show ?thesis by (intro exI)
qed

text \<open>C11: what honest recorders write, conforms. Take a case of recorders that open with a positive heartbeat
  interval, record events and at least one heartbeat without a gap longer than the interval and its tolerance, and
  close; let the generator chain and sign their records and \<open>writeCase\<close> write the logs, the keys and the
  manifest. Then the writing succeeds, and if the manifest keeps within the limits of the checker, the artifact loads
  and \<open>aelcheck\<close> exits 0 at minimum grade 0 and 1, with or without the governability report: no check of
  these rungs turns such a log away, and the JSON, the base64, the hashes and the paths of the two programs fit
  together. The case has distinct recorder names, a claimed rung from 0 to 4, no anchors, counterparty or extra
  manifest members, and no key withheld or damaged; its keys have 32 bytes, their SHA-256 as names, and signatures of
  64 bytes that verify; its coverage and custody are words of the manifest's vocabulary. Its strings are valid UTF-8,
  its run and recorder names not empty, its directions out, in or internal, its times RFC 3339 and its integers safe;
  a decision has a policy hash, a verdict of the three words and a bounded number of scalar inputs, a log path is one
  the loader accepts, and the bound on the length of a payload, \<open>text_bound\<close>, is at most 32000, so that a
  record keeps under the 64 KB that the loader reads as one line.\<close>
theorem honest_case_conforms:
  assumes "honest_case cr c pub fp"
  shows "\<exists>files raw. writeCase c pub fp = Inr files \<and> (''manifest.json'', raw) \<in> set files
    \<and> (validateManifestResourceLimits raw = None \<longrightarrow>
        (\<forall>args. usage_ok args \<and> arg_minGrade args \<le> 1 \<longrightarrow> (\<exists>out. aelcheck cr None args (case_fs files) = Some (0, out))))"
proof -
  obtain files raw where w: "writeCase c pub fp = Inr files \<and> canonicalValue (CObj (case_manifest c fp)) = Inr raw
    \<and> (''manifest.json'', raw) \<in> set files
    \<and> (validateManifestResourceLimits raw = None \<longrightarrow> honest_artifact cr (case_fs files))"
    using honest_case_written [OF assms] by (elim exE)
  then have "\<exists>out. aelcheck cr None args (case_fs files) = Some (0, out)"
    if "validateManifestResourceLimits raw = None" "usage_ok args \<and> arg_minGrade args \<le> 1" for args
    using honest_artifact_conforms w that by meson
  then have "writeCase c pub fp = Inr files \<and> (''manifest.json'', raw) \<in> set files
    \<and> (validateManifestResourceLimits raw = None \<longrightarrow>
        (\<forall>args. usage_ok args \<and> arg_minGrade args \<le> 1 \<longrightarrow> (\<exists>out. aelcheck cr None args (case_fs files) = Some (0, out))))"
    using w by simp
  then show ?thesis by (intro exI)
qed

end
