(* ===== verification/Gen_Report.thy ===== *)
theory Gen_Report
  imports Gen_Corpus
begin

text \<open>
  The exit status of \<open>aelgen --report\<close>: what it says of the cases of the corpus.
\<close>

definition case_loads :: "crypto \<Rightarrow> artifact_fs \<Rightarrow> caseDef \<Rightarrow> bool" where
  "case_loads cr fs c \<longleftrightarrow> (\<exists>art. LoadArtifact cr fs = Inr art)"

definition case_matches :: "crypto \<Rightarrow> artifact_fs \<Rightarrow> caseDef \<Rightarrow> bool" where
  "case_matches cr fs c \<longleftrightarrow> (\<exists>art. LoadArtifact cr fs = Inr art \<and> compareExpected (Evaluate cr art) (cas_expect c))"

lemma report_loop_counts:
  assumes "report_loop cr host json cases r out = (Inr r', out')"
  shows "(\<forall>c \<in> set cases. case_loads cr (rh_fs host (cas_name c)) c)
    \<and> cr_Total r' = cr_Total r + int (length cases)
    \<and> cr_Mismatched r' = cr_Mismatched r + int (length (filter (\<lambda>c. \<not> case_matches cr (rh_fs host (cas_name c)) c) cases))
    \<and> cr_Matched r' = cr_Matched r + int (length (filter (\<lambda>c. case_matches cr (rh_fs host (cas_name c)) c) cases))
    \<and> map cc_Name (cr_Cases r') = map cc_Name (cr_Cases r) @ map cas_name cases"
  using assms
proof (induction cases arbitrary: r out)
  case (Cons c cases)
  obtain art where art: "LoadArtifact cr (rh_fs host (cas_name c)) = Inr art" using Cons.prems by (auto split: sum.splits)
  let ?r = "count_case (corpus_case c (Evaluate cr art)) r"
  obtain out'' where loop: "report_loop cr host json cases ?r out'' = (Inr r', out')"
    using Cons.prems art by (auto simp: Let_def split: if_splits option.splits)
  from Cons.IH [OF loop] art show ?case
    by (auto simp: case_loads_def case_matches_def count_case_def corpus_case_def)
qed simp

lemma reportCases_counts:
  assumes "reportCases cr host json cases = (Inr r, out)"
  shows "(\<forall>c \<in> set cases. case_loads cr (rh_fs host (cas_name c)) c)
    \<and> cr_Total r = int (length cases)
    \<and> cr_Mismatched r = int (length (filter (\<lambda>c. \<not> case_matches cr (rh_fs host (cas_name c)) c) cases))
    \<and> cr_Matched r = int (length (filter (\<lambda>c. case_matches cr (rh_fs host (cas_name c)) c) cases))
    \<and> map cc_Name (cr_Cases r) = map cas_name cases"
proof -
  obtain out' where "report_loop cr host json cases \<lparr>cr_CorpusFormat = 1, cr_Total = 0, cr_Matched = 0, cr_Mismatched = 0, cr_Cases = []\<rparr> []
      = (Inr r, out')"
    using assms by (auto simp: reportCases_def split: prod.splits sum.splits if_splits option.splits)
  from report_loop_counts [OF this] show ?thesis by simp
qed

text \<open>C39: the status of \<open>aelgen --report\<close> is about the whole corpus. With status 0 every case was written, loads in the
  checker and is graded as its expectation says; with status 3 every case loads and at least one is not graded so; every
  other failure is status 1. So a corpus with a mismatching or an unreadable case never passes.\<close>
theorem aelgen_report_contract:
  assumes "parse_flags gen_flags arguments = Inr (sets, [])" "flag_string sets ''out'' [] \<noteq> []" "flag_bool sets ''report''"
    and "aelgen cr host pub arguments = (status, out)"
  shows "status \<in> {0, 1, 3}
    \<and> (status = 0 \<longrightarrow> (\<exists>cases. gh_cases host = Inr cases
        \<and> (\<forall>c \<in> set cases. write_case_err host pub (fingerprint cr pub) c = None
            \<and> case_matches cr (rh_fs host (cas_name c)) c)))
    \<and> (status = 3 \<longrightarrow> (\<exists>cases. gh_cases host = Inr cases
        \<and> (\<forall>c \<in> set cases. case_loads cr (rh_fs host (cas_name c)) c)
        \<and> (\<exists>c \<in> set cases. \<not> case_matches cr (rh_fs host (cas_name c)) c)))"
proof -
  obtain err where gen: "generate cr host pub True (flag_bool sets ''json'') = (err, out)" "status = statusForGenerateError err"
    using assms by (auto simp: aelgen_def split: prod.splits)
  show ?thesis
  proof (cases err)
    case None
    then obtain cases result where r: "gh_cases host = Inr cases"
      "first_err (map (write_case_err host pub (fingerprint cr pub)) cases @ [gh_lists host (writeCaseManifest cases), gh_packages host]) = None"
      "reportCases cr (report_host.truncate host) (flag_bool sets ''json'') cases = (Inr result, out)" "ExitStatus result = 0"
      using gen(1) by (auto simp: generate_def split: option.splits sum.splits prod.splits if_splits)
    from reportCases_counts [OF r(3)] r(4)
    have "\<forall>c \<in> set cases. case_matches cr (rh_fs host (cas_name c)) c"
      by (auto simp: ExitStatus_def exitCorpusMismatch_def filter_empty_conv report_host.truncate_def split: if_splits)
    then show ?thesis using r(1,2) gen(2) None by (auto simp: statusForGenerateError_def first_err_None_iff)
  next
    case (Some e)
    show ?thesis
    proof (cases e)
      case (Mismatch result)
      then obtain cases where r: "gh_cases host = Inr cases"
        "reportCases cr (report_host.truncate host) (flag_bool sets ''json'') cases = (Inr result, out)" "ExitStatus result \<noteq> 0"
        using gen(1) Some by (auto simp: generate_def split: option.splits sum.splits prod.splits if_splits)
      note counts = reportCases_counts [OF r(2)]
      then have "filter (\<lambda>c. \<not> case_matches cr (rh_fs host (cas_name c)) c) cases \<noteq> []"
        using r(3) by (auto simp: ExitStatus_def report_host.truncate_def)
      then have "\<exists>c \<in> set cases. \<not> case_matches cr (rh_fs host (cas_name c)) c" by (simp add: filter_empty_conv)
      moreover have "\<forall>c \<in> set cases. case_loads cr (rh_fs host (cas_name c)) c"
        using counts by (simp add: report_host.truncate_def)
      ultimately show ?thesis using r(1) gen(2) Some Mismatch by (simp add: statusForGenerateError_def exitCorpusMismatch_def)
    qed (use gen(2) Some in \<open>simp add: statusForGenerateError_def\<close>)
  qed
qed

end
