(* ===== verification/Gen_Examples.thy ===== *)
theory Gen_Examples
  imports Gen_Honest Gen_Report Examples
begin

text \<open>
  A case of one honest recorder, for the witnesses of the theorems about the generator.
\<close>

section \<open>A recording\<close>

definition gen_pub :: string where
  "gen_pub = replicate 32 (CHR ''k'')"

definition gen_fp :: string where
  "gen_fp = concat (replicate 32 ''6b'')"

definition gen_sign :: "string \<Rightarrow> string" where
  "gen_sign m = replicate 64 (CHR ''k'')"

definition gen_recording :: recording where
  "gen_recording = \<lparr>hl_run = ''run-1'', hl_recorder = ''r1'', hl_fp = gen_fp, hl_open = ''2026-01-01T00:00:00Z'', hl_hmax = 30, hl_htol = 5,
     hl_nonce = None,
     hl_steps = [Event ''2026-01-01T00:00:10Z'' ''net'' ''e1'' ''out'' None, Beat ''2026-01-01T00:00:20Z''],
     hl_close = ''2026-01-01T00:00:30Z''\<rparr>"

lemma gen_recording_honest: "honest gen_recording"
proof -
  have "named (hl_run gen_recording) (hl_recorder gen_recording) (hl_fp gen_recording)" by code_simp
  moreover have "list_all timestamp (hl_times gen_recording)" by code_simp
  moreover have "list_all honest_step (hl_steps gen_recording)" by code_simp
  moreover have "within (heartbeat_limit 30 5) (hl_times gen_recording ! 0) (hl_times gen_recording ! 1)"
    "within (heartbeat_limit 30 5) (hl_times gen_recording ! 1) (hl_times gen_recording ! 2)"
    "within (heartbeat_limit 30 5) (hl_times gen_recording ! 2) (hl_times gen_recording ! 3)" by code_simp+
  ultimately show ?thesis
    by (simp add: honest_def gen_recording_def hl_size_def maxSafeInteger_def less_Suc_eq all_conj_distrib numeral_2_eq_2 numeral_3_eq_3)
qed

lemma gen_recording_fits: "fits gen_recording"
  by code_simp

lemma gen_width: "hash_width ex_crypto"
proof -
  have "length (sha256 ex_crypto s) = 32" for s by (simp add: ex_crypto_def)
  then show ?thesis by (simp add: hash_width_def)
qed

lemma gen_key: "honest_key ex_crypto [(gen_fp, gen_pub)] gen_fp gen_sign"
  using gen_width by (simp add: honest_key_def) (simp add: ex_crypto_def gen_sign_def gen_pub_def SignatureSize_def)

definition gen_log :: "signedRecord list" where
  "gen_log = (case buildRecords ex_crypto gen_sign ''run-1'' ''r1'' gen_fp (hl_plans gen_recording) of Inr recs \<Rightarrow> recs | Inl _ \<Rightarrow> [])"

lemma gen_log_built: "buildRecords ex_crypto gen_sign ''run-1'' ''r1'' gen_fp (hl_plans gen_recording) = Inr gen_log"
proof -
  obtain recs where "buildRecords ex_crypto gen_sign (hl_run gen_recording) (hl_recorder gen_recording) (hl_fp gen_recording)
      (hl_plans gen_recording) = Inr recs"
    using honest_records [OF gen_recording_honest gen_width, of gen_sign] by blast
  then show ?thesis by (simp add: gen_log_def gen_recording_def)
qed

section \<open>A case\<close>

definition gen_case :: caseDef where
  "gen_case = \<lparr>cas_name = ''ael1/clean'', cas_records = gen_log, cas_recorderRecords = [], cas_recorderKeys = [], cas_policies = [],
     cas_anchors = [], cas_counterparty = [], cas_expect = expect (GInt 1) ''UNVERIFIABLE'' [], cas_publishKeys = False,
     cas_omitKeys = [], cas_badKeyFiles = [], cas_keys = [], cas_manifestExtra = [], cas_coverage = [], cas_custody = [],
     cas_govExpect = None, cas_limitScenario = None, cas_readme = []\<rparr>"

lemma gen_case_honest: "honest_case ex_crypto gen_case gen_pub gen_fp"
proof -
  have "length gen_pub = PublicKeySize" "sha256_hex ex_crypto gen_pub = gen_fp" "validateArtifactPath (log_path ''r1'') = None"
    "valid_utf8 (log_path ''r1'')" by code_simp+
  moreover have "hl_recorder gen_recording = ''r1''" "hl_fp gen_recording = gen_fp" "hl_run gen_recording = ''run-1''"
    by (simp_all add: gen_recording_def)
  ultimately have "\<exists>h sign. honest h \<and> fits h \<and> hl_recorder h = ''r1'' \<and> hl_fp h = gen_fp
      \<and> honest_key ex_crypto [(gen_fp, gen_pub)] (hl_fp h) sign \<and> validateArtifactPath (log_path ''r1'') = None
      \<and> valid_utf8 (log_path ''r1'')
      \<and> buildRecords ex_crypto sign (hl_run h) (hl_recorder h) (hl_fp h) (hl_plans h) = Inr gen_log"
    using gen_recording_honest gen_recording_fits gen_key gen_log_built by metis
  then show ?thesis
    using \<open>length gen_pub = PublicKeySize\<close> \<open>sha256_hex ex_crypto gen_pub = gen_fp\<close>
    by (simp add: honest_case_def gen_case_def case_logs_def published_def recorder_entry_def case_coverage_def case_custody_def
        claimedExpectedRung_def claimedRung_def expect_def)
qed

definition gen_manifest :: cvalue where
  "gen_manifest = manifest_doc 1 ''declared-only'' ''same-process'' [''run-1'']
     [\<lparr>mr_ID = ''r1'', mr_Run = ''run-1'', mr_Key = gen_fp, mr_File = ''recorders/r1.jsonl''\<rparr>]"

lemma gen_case_manifest: "CObj (case_manifest gen_case gen_fp) = gen_manifest"
proof -
  obtain r rs where log: "gen_log = r # rs" "recordRun r = ''run-1''"
    using honest_recordRun [OF gen_recording_honest gen_width, of gen_sign gen_log] gen_log_built by (auto simp: gen_recording_def)
  have "case_log gen_case ''r1'' = gen_log" by (simp add: case_log_def case_logs_def gen_case_def)
  then have "case_log gen_case ''r1'' = r # rs" by (rule trans) (rule log(1))
  then have "recorder_run gen_case ''r1'' = ''run-1''" using log(2) by (simp add: recorder_run_def)
  moreover have "cas_manifestExtra gen_case = []" "case_recorders gen_case = [''r1'']"
    by (simp_all add: gen_case_def case_recorders_def case_logs_def)
  ultimately show ?thesis
    by (simp add: case_manifest_doc gen_manifest_def case_runs_def recorder_entry_def log_path_def)
      (simp add: gen_case_def claimedExpectedRung_def claimedRung_def expect_def case_coverage_def case_custody_def)
qed

lemma gen_manifest_limits:
  "case canonicalValue gen_manifest of Inr raw \<Rightarrow> validateManifestResourceLimits raw = None | Inl _ \<Rightarrow> False"
  by code_simp

theorem honest_case_conforms_witness:
  "\<exists>files out. writeCase gen_case gen_pub gen_fp = Inr files
    \<and> aelcheck ex_crypto None \<lparr>arg_json = False, arg_gov = True, arg_keys = ''keys'', arg_minGrade = 1, arg_rest = [''case'']\<rparr> (case_fs files)
        = Some (0, out)"
proof -
  let ?args = "\<lparr>arg_json = False, arg_gov = True, arg_keys = ''keys'', arg_minGrade = 1, arg_rest = [''case'']\<rparr>"
  obtain files raw where f: "writeCase gen_case gen_pub gen_fp = Inr files \<and> (''manifest.json'', raw) \<in> set files
    \<and> (validateManifestResourceLimits raw = None \<longrightarrow>
      (\<forall>args. usage_ok args \<and> arg_minGrade args \<le> 1 \<longrightarrow> (\<exists>out. aelcheck ex_crypto None args (case_fs files) = Some (0, out))))"
    using honest_case_conforms [OF gen_case_honest] by (elim exE)
  have "canonicalValue gen_manifest = Inr raw"
    using writeCase_files(1) [OF conjunct1 [OF f] gen_case_honest, of raw] f by (simp add: gen_case_manifest)
  then have "validateManifestResourceLimits raw = None" using gen_manifest_limits by simp
  moreover have "usage_ok ?args \<and> arg_minGrade ?args \<le> 1" by (simp add: usage_ok_def)
  ultimately show ?thesis using f by meson
qed

section \<open>The program on the case\<close>

definition check_host_of :: "(string \<times> string) list \<Rightarrow> check_host" where
  "check_host_of files = \<lparr>ch_version = [], ch_runtime = ''go'', ch_encode = None, ch_fs = (\<lambda>_ _. case_fs files)\<rparr>"

theorem aelcheck_zero_sound_witness:
  "\<exists>files art. LoadArtifact ex_crypto (case_fs files) = Inr art
    \<and> (\<forall>run \<in> set (artifactRuns art). Status (checkOpenEnd (ForRun art run)) = Pass
         \<and> allPass (run_checks ex_crypto (ForRun art run)) (grade_checks 1))"
proof -
  let ?arguments = "[''-gov'', ''--min-grade=0x1'', ''--keys'', ''keys'', ''case'']"
  have "case parse_flags check_flags ?arguments of
      Inr (sets, rest) \<Rightarrow> rest = [''case''] \<and> flag_string sets ''keys'' [] = ''keys'' \<and> flag_int sets ''min-grade'' 0 = 1
        \<and> usage_ok (check_args sets rest)
    | Inl _ \<Rightarrow> False" by code_simp
  then obtain sets where sets: "parse_flags check_flags ?arguments = Inr (sets, [''case''])" "flag_string sets ''keys'' [] = ''keys''"
    "flag_int sets ''min-grade'' 0 = 1" "usage_ok (check_args sets [''case''])"
    by (auto split: sum.splits)
  obtain files raw where f: "canonicalValue gen_manifest = Inr raw"
    "validateManifestResourceLimits raw = None \<longrightarrow> honest_artifact ex_crypto (case_fs files)"
    using honest_case_written [OF gen_case_honest] by (auto simp: gen_case_manifest)
  then have "honest_artifact ex_crypto (case_fs files)" using gen_manifest_limits by simp
  moreover have "arg_minGrade (check_args sets [''case'']) \<le> 1" using sets(3) by (simp add: check_args_def)
  ultimately have "\<exists>out. aelcheck ex_crypto None (check_args sets [''case'']) (case_fs files) = Some (0, out)"
    using honest_artifact_conforms sets(4) by blast
  then have "\<exists>out. aelcheck_main ex_crypto (check_host_of files) ?arguments = Some (0, out)"
    using sets(1) by (simp add: aelcheck_main_def check_host_of_def Let_def)
  then obtain art g where "LoadArtifact ex_crypto (case_fs files) = Inr art" "int g = 1"
    "\<forall>run \<in> set (artifactRuns art). Status (checkOpenEnd (ForRun art run)) = Pass
       \<and> allPass (run_checks ex_crypto (ForRun art run)) (grade_checks g)"
    using aelcheck_zero_sound [OF sets(1), of ex_crypto "check_host_of files"] sets(3) by (auto simp: check_host_of_def)
  moreover from this(2) have "g = 1" by simp
  ultimately show ?thesis by blast
qed

section \<open>The corpus report\<close>

text \<open>An operating system that accepts every write, and a corpus whose one case does not load.\<close>

definition gen_host :: "caseDef list \<Rightarrow> generate_host" where
  "gen_host cases = \<lparr>rh_fs = (\<lambda>_. case_fs []), rh_print = (\<lambda>_. None), rh_encode = None, gh_prepare = None, gh_cases = Inr cases,
     gh_write = (\<lambda>_ _. None), gh_lists = (\<lambda>_. None), gh_packages = None\<rparr>"

theorem aelgen_report_contract_witness:
  "fst (aelgen ex_crypto (gen_host [gen_case]) gen_pub [''-out'', ''corpus'', ''-report'']) = 1"
proof -
  let ?args = "[''-out'', ''corpus'', ''-report'']"
  have "case parse_flags gen_flags ?args of
      Inr (sets, rest) \<Rightarrow> rest = [] \<and> flag_string sets ''out'' [] \<noteq> [] \<and> flag_bool sets ''report'' | Inl _ \<Rightarrow> False"
    by code_simp
  then obtain sets where sets: "parse_flags gen_flags ?args = Inr (sets, [])" "flag_string sets ''out'' [] \<noteq> []" "flag_bool sets ''report''"
    by (auto split: sum.splits)
  obtain status out where s: "aelgen ex_crypto (gen_host [gen_case]) gen_pub ?args = (status, out)" by fastforce
  have "validateArtifactPath ''manifest.json'' = None" by code_simp
  then have loads: "\<not> case_loads ex_crypto (case_fs []) gen_case"
    by (simp add: case_loads_def LoadArtifact_def loadKeys_def case_fs_def put_all_def dir_entries_def readBoundedArtifactFile_def
        openArtifactFile_def wrap_err_def)
  then have "\<not> case_matches ex_crypto (case_fs []) gen_case" by (auto simp: case_matches_def case_loads_def)
  then show ?thesis
    using aelgen_report_contract [OF sets s] loads s by (auto simp: gen_host_def)
qed

end
