(* ===== verification/Spec2Isabelle.thy ===== *)
theory Spec2Isabelle
  imports Tamper_Examples Gov_Examples Multi_Examples Cli_Examples Report_Examples Gen_Examples
begin

text \<open>
  A verification development of the reference checker of Agent Evidence Levels (the Go programs under
  \<open>checker/\<close>). The checker loads an artifact directory (a manifest, one hash-chained log of signed
  records per recorder, optional anchors, counterparty statements and policies), judges every run of it
  by 24 checks, and turns the checks into a grade from AEL-0 to AEL-4; beside the grade it
  reports how the recorded actions were classified (governability). Three programs stand on it: \<open>aelcheck\<close> prints the
  report; \<open>aelpackage\<close> emits a signed package that binds an artifact, its evaluation and a conformance run, makes the keys
  of its roles (keygen), and validates a package and the status of a verification record for a relying party;
  \<open>aelgen\<close> writes a corpus of artifacts by recording, chaining and signing them, and reports how the checker judges them.

  Theories, in the order of the code's dependencies:

  \<^item> \<open>Prelude\<close>: results, messages, loops that return from their body, Go maps as association lists,
    \<open>sort.Slice\<close>, 64-bit wrap-around. The locale \<open>key_order\<close> says when a sort has one result.
  \<^item> \<open>Go_Text\<close>, \<open>Go_Encoding\<close>, \<open>Go_Json\<close>, \<open>Go_Unmarshal\<close>, \<open>Go_Time\<close>, \<open>Go_Format\<close>, \<open>Go_Flag\<close>, \<open>Go_Marshal\<close>: what the
    programs use of Go's standard library: strings, UTF-8 and UTF-16, hex and base64, the JSON tokens and decoder,
    \<open>json.Unmarshal\<close> into typed values, RFC 3339 instants read and written, flags, \<open>json.Marshal\<close> and \<open>json.Encoder\<close>.
    Strings are lists of bytes.
  \<^item> \<open>Canonical\<close>, \<open>Canonical_Facts\<close>: \<open>canonical.go\<close>, the restricted JCS form. The facts show that it is a fixed
    point, keeps the content, does not depend on the order of a map, and that the parser's fuel is enough.
  \<^item> \<open>Policy\<close>: \<open>policy.go\<close>, first-match evaluation of decisions; integers survive float64.
  \<^item> \<open>Result\<close>: \<open>result.go\<close>, outcomes, results, the order of the checks.
  \<^item> \<open>Schema\<close>: \<open>schema.go\<close>, closed schemas and the structural limits of the manifest.
  \<^item> \<open>Records\<close>: \<open>record.go\<close>, compact lines and the ladder signature, canonical form, schema.
  \<^item> \<open>Artifact\<close>: \<open>artifact.go\<close>, the loader over a file system that is an argument, and the view of one run.
  \<^item> \<open>Merkle\<close>: the inclusion proofs of \<open>checks.go\<close> and the tree of \<open>aelgen\<close>: every proof of the
    generator is accepted, and an accepted leaf is the logged one unless SHA-256 collides.
  \<^item> \<open>Checks\<close>, \<open>Checks_Facts\<close>, \<open>Tamper\<close>: the checks of one recorder's log, what each means when it passes, and
    what a presented log cannot hide: a kept record pins everything before it, and a closed log cannot lose, gain, repeat or reorder
    records.
  \<^item> \<open>Checks_Multi\<close>: the checks across recorders, anchors and counterparty.
  \<^item> \<open>Grade\<close>: the ladder, the runs of an artifact, its evaluation.
  \<^item> \<open>Gov\<close>, \<open>Gov_Facts\<close>, \<open>Gov_Examples\<close>: \<open>gov.go\<close>, the governability report. The locale \<open>worst_case\<close>
    states what merging promises; \<open>Gov_Examples\<close> has two inputs on which the coverage gate is not what its comments and
    docs/GOVERNABILITY-EXTENSION.md say.
  \<^item> \<open>Multi_Facts\<close>: what the grades AEL-2, AEL-3, AEL-4 and the suffix +R mean for the loaded data.
  \<^item> \<open>Loaded\<close>: what holds of everything \<open>LoadArtifact\<close> returns: the two JSON readers of the code agree on a
    canonical document, tree sizes are safe integers, the runs of the report are those declared or logged.
  \<^item> \<open>Document\<close>: what \<open>writeCanonical\<close> prints is read back as the same value.
  \<^item> \<open>Report_Json\<close>, \<open>Cli\<close>, \<open>Decides\<close>: the JSON form of the reports (\<open>result.go\<close>, \<open>gov.go\<close>) and \<open>cmd/aelcheck/main.go\<close> from its
    arguments to its exit status; no check hangs, the program always ends with a documented status, and status 0 means that
    every run earned the grade that was asked for.
  \<^item> \<open>Package\<close>, \<open>Package_Files\<close>: \<open>package.go\<close> and the validate command of \<open>cmd/aelpackage/main.go\<close>. \<open>Package\<close> has the
    documents (manifest and status statement: types, decoding, closed schemas, semantic rules), \<open>Package_Files\<close>
    what is read from the directory and the trust root, and the validation. \<open>validatePackageDir\<close> is split at its
    comments and blank lines into \<open>load_package_manifest\<close>, \<open>check_package\<close> and \<open>package_display\<close>.
  \<^item> \<open>Package_Facts\<close>: the specification of the state VERIFIED (\<open>verified_package\<close>, sound and complete), the status over
    time, the separation of the trust roles, and that the signed manifest pins every byte of the package. The status key is
    the one that the manifest names among the trusted ones, where SPEC.md 5.2 asks for a lookup by the authority's identifier.
  \<^item> \<open>Report_Roundtrip\<close>: what \<open>aelcheck --json\<close> prints is what the validation of a verification record reads, unless a run name
    is blank, which only the validation refuses.
  \<^item> \<open>Emit_Files\<close>, \<open>Emit_Paths\<close>, \<open>Emit_Run\<close>, \<open>Emit\<close>: \<open>emit.go\<close>. The staging directory with its copies and index; the
    paths that may not overlap; options, subprocesses, conformance and evaluation in a replica; the manifest, its signature
    and the publication.
  \<^item> \<open>Package_Codec\<close>, \<open>Emit_Facts\<close>, \<open>Emit_Stage\<close>, \<open>Emit_Valid\<close>: the locale \<open>codec\<close> states that a decoder reads what an
    encoder wrote, and is interpreted on every part of the manifest; what is signed is what was evaluated, whatever other
    processes do, and an emission that nobody disturbs validates. Both assume that all strings of the manifest, file names
    included, are valid UTF-8, which the emitter does not check (\<open>Emit_Examples\<close>).
  \<^item> \<open>Emit_Cli\<close>, \<open>Keygen\<close>, \<open>Keygen_Facts\<close>, \<open>Package_Cli\<close>: the rest of \<open>cmd/aelpackage\<close>: the verbs emit (\<open>emit.go\<close>) and keygen
    (\<open>keygen.go\<close>) with their flags, key files and exit statuses, and the program (\<open>main.go\<close>). Keygen is a sequence of steps on
    a disk that other processes may change between them: it overwrites nothing and removes at most a private key that it put in
    place itself; undisturbed it makes both keys or, where its clean-up succeeds, neither. Every removal may fail.
  \<^item> \<open>Gen\<close>, \<open>Gen_Corpus\<close>: \<open>cmd/aelgen/main.go\<close>. \<open>Gen\<close> has the plans, the recorder that chains and signs records, policies,
    anchors and counterparty statements; \<open>Gen_Corpus\<close> the files of a case, the report over the corpus and the command.
  \<^item> \<open>Gen_Payload\<close>, \<open>Gen_Facts\<close>, \<open>Gen_Lines\<close>, \<open>Gen_Conforms\<close>, \<open>Gen_Case\<close>, \<open>Gen_Honest\<close>, \<open>Gen_Report\<close>: from the generator to the
    checker. The payload of an honest recorder passes its schema; its chained and signed records pass the checks of one
    recorder; its lines keep within the limits of the loader; the case that \<open>writeCase\<close> writes loads and earns AEL-1; and the
    exit status of \<open>aelgen --report\<close> says whether the checker judged every case as expected.
  \<^item> \<open>Examples\<close>, \<open>Tamper_Examples\<close>, \<open>Gov_Examples\<close>, \<open>Multi_Examples\<close>, \<open>Package_Examples\<close>, \<open>Emit_Examples\<close>, \<open>Keygen_Examples\<close>, \<open>Gen_Examples\<close>,
    \<open>Cli_Examples\<close>, \<open>Report_Examples\<close>: concrete artifacts, a run of grade AEL-4, a whole package, an emission, key
    generations, logs that share their beginning and a generated case, for the witnesses.

  Correspondence. Names are those of the source, with a field prefix per record type. A Go pair (value,
  error) is the sum \<open>res\<close>; an error value is its format string and arguments (\<open>msg\<close>), rendered by
  \<open>msg_text\<close> only where the program looks at the text. Timestamps and durations in messages are kept as the
  stored text and as nanoseconds. SHA-256 and Ed25519 are the record \<open>crypto\<close>, an argument; no theorem
  assumes more of it than freedom from collisions on the strings it names, and, where a generated log is verified, digests of
  32 bytes and signatures that verify. \<open>int\<close>, \<open>int64\<close> and
  \<open>time.Duration\<close> are integers with \<open>wrap64\<close> where an operation can leave the 64-bit range. A Go map is an
  association list with distinct keys; where the program ranges over a map, only the text of
  a message can depend on the order.

  Bounds. The parsers are fuelled by the lexemes of the document, one more than any nesting of calls
  can use (\<open>Canonicalize_never_out_of_fuel\<close>). The power-of-two loop is a \<open>partial_function\<close>: for sizes up to
  \<open>2 ^ 62\<close> it is shown to end, above it to diverge, and \<open>checkInclusion\<close> has the value \<open>stuck\<close> there.

  Directories. The artifact is read through \<open>artifact_fs\<close>, which gives the result of every read. A package is the list of
  the entries that \<open>filepath.WalkDir\<close> visits (\<open>package_source\<close>); its snapshot (\<open>tree\<close>) keeps directories and bytes,
  and \<open>tree_fs\<close> is the view of the bound artifact inside it. The copy to a temporary directory is taken to succeed.

  Interference. During an emission and a key generation other processes may change the directory between two steps; a step is one
  copy, one index, one write, one link or one run of a subprocess, and \<open>os.MkdirAll\<close> is one step. The replica in which the
  checker runs is private, file modes are not kept (but for the permission of the operator key, which is looked at), and
  what a subprocess prints and how it ends is an argument. The generator's writes are accepted or refused by an argument.

  Not modelled. The process control (\<open>process_unix.go\<close>, \<open>process_other.go\<close>), which kills process groups; of the generator the
  concrete list of cases (\<open>buildCases\<close>) and of package fixtures, which are data handed to the functions modelled here, the byte
  patches of some negative cases (\<open>prettyPatch\<close>) and its answer to \<open>--version\<close>; \<open>time.ParseDuration\<close>, which rounds in floating
  point and is an argument; and the text that the programs write to the standard error.
\<close>

end
